(* ===== verification/Qmk_Prelude.thy ===== *)
theory Qmk_Prelude
  imports Main "HOL-Library.Word"
begin

unbundle bit_operations_syntax

text \<open>
  The prelude of the development: the C integer types of the firmware as words, memory images
  as byte lists, the little-endian layout of multi-byte integers, and the lemmas on lists, bytes
  and words that the component theories share.

  A memory area is a list of bytes. \<open>mem_get m a n\<close> is the block that a \<open>memcpy\<close> of \<open>n\<close> bytes
  from offset \<open>a\<close> reads and \<open>mem_put m a bs\<close> the area after a \<open>memcpy\<close> of \<open>bs\<close> to offset \<open>a\<close>.
  Both are only used where the block lies inside the area; a component whose code can leave the
  area says so in its own result type.
\<close>

type_synonym u8 = "8 word"
type_synonym u16 = "16 word"
type_synonym u32 = "32 word"
type_synonym u64 = "64 word"

named_theorems mem_simps \<open>blocks read from and written to byte areas\<close>
named_theorems bit_consts \<open>the bits of the masks the code uses\<close>
named_theorems layout_simps \<open>byte layout of multi-byte integers\<close>

section \<open>Byte areas\<close>

definition mem_get :: "'a list \<Rightarrow> nat \<Rightarrow> nat \<Rightarrow> 'a list" where
  "mem_get m a n = take n (drop a m)"

definition mem_put :: "'a list \<Rightarrow> nat \<Rightarrow> 'a list \<Rightarrow> 'a list" where
  "mem_put m a bs = take a m @ bs @ drop (a + length bs) m"

lemma length_mem_get [mem_simps]: "a + n \<le> length m \<Longrightarrow> length (mem_get m a n) = n"
  by (simp add: mem_get_def)

lemma length_mem_put [mem_simps]:
  "a + length bs \<le> length m \<Longrightarrow> length (mem_put m a bs) = length m"
  by (simp add: mem_put_def)

lemma mem_get_put_same [mem_simps]:
  "a + length bs \<le> length m \<Longrightarrow> mem_get (mem_put m a bs) a (length bs) = bs"
  by (simp add: mem_get_def mem_put_def)

lemma mem_put_nth:
  assumes "a + length bs \<le> length m" "i < length m"
  shows "mem_put m a bs ! i = (if a \<le> i \<and> i < a + length bs then bs ! (i - a) else m ! i)"
  using assms by (auto simp: mem_put_def nth_append min_def)

lemma mem_get_nth: "a + n \<le> length m \<Longrightarrow> i < n \<Longrightarrow> mem_get m a n ! i = m ! (a + i)"
  by (simp add: mem_get_def)

lemma mem_get_put_other:
  assumes "a + length bs \<le> length m" "b + n \<le> length m" "b + n \<le> a \<or> a + length bs \<le> b"
  shows "mem_get (mem_put m a bs) b n = mem_get m b n"
proof (rule nth_equalityI)
  show "length (mem_get (mem_put m a bs) b n) = length (mem_get m b n)"
    using assms by (simp add: mem_simps)
  fix i assume "i < length (mem_get (mem_put m a bs) b n)"
  then have i: "i < n" using assms by (simp add: mem_simps)
  then show "mem_get (mem_put m a bs) b n ! i = mem_get m b n ! i"
    using assms by (auto simp: mem_get_nth mem_put_nth mem_simps)
qed

lemma mem_put_self: "a + n \<le> length m \<Longrightarrow> mem_put m a (mem_get m a n) = m"
proof -
  assume "a + n \<le> length m"
  then have "mem_put m a (mem_get m a n) = take a m @ take n (drop a m) @ drop n (drop a m)"
    by (simp add: mem_put_def mem_get_def add.commute)
  then show ?thesis by (simp only: append_take_drop_id)
qed

lemma mem_put_Nil [mem_simps]: "a \<le> length m \<Longrightarrow> mem_put m a [] = m"
  by (simp add: mem_put_def)

lemma mem_put_append:
  "a + length (xs @ ys) \<le> length m \<Longrightarrow>
    mem_put m a (xs @ ys) = mem_put (mem_put m a xs) (a + length xs) ys"
  by (cases xs) (auto simp: mem_put_def min_def ac_simps)

lemma mem_put_one: "a < length m \<Longrightarrow> mem_put m a [v] = m[a := v]"
  by (simp add: mem_put_def upd_conv_take_nth_drop)

lemma mem_get_append_left: "a + n \<le> length xs \<Longrightarrow> mem_get (xs @ ys) a n = mem_get xs a n"
  by (simp add: mem_get_def)

lemma mem_get_append_right:
  "a = length xs \<Longrightarrow> n = length ys \<Longrightarrow> mem_get (xs @ ys @ zs) a n = ys"
  by (simp add: mem_get_def)

lemma mem_get_take: "a + k \<le> n \<Longrightarrow> mem_get (take n m) a k = mem_get m a k"
  by (simp add: mem_get_def take_drop min_absorb1)

lemma mem_get_0_all: "n = length m \<Longrightarrow> mem_get m 0 n = m"
  by (simp add: mem_get_def)

lemma mem_get_split: "mem_get m a (n + k) = mem_get m a n @ mem_get m (a + n) k"
  by (simp add: mem_get_def take_add) (simp add: add.commute)

section \<open>Little-endian integers\<close>

text \<open>
  \<open>le_bytes n x\<close> is the memory image of the \<open>n\<close>-byte integer \<open>x\<close> on the little-endian
  microcontrollers the firmware runs on, \<open>le_word\<close> the integer stored in a memory image.
\<close>

definition le_bytes :: "nat \<Rightarrow> 'a::len word \<Rightarrow> u8 list" where
  "le_bytes n x = map (\<lambda>i. ucast (drop_bit (8 * i) x)) [0..<n]"

fun le_word :: "u8 list \<Rightarrow> 'a::len word" where
  "le_word [] = 0"
| "le_word (b # bs) = ucast b OR push_bit 8 (le_word bs)"

lemma length_le_bytes [simp, layout_simps]: "length (le_bytes n x) = n"
  by (simp add: le_bytes_def)

lemma bit_le_word:
  "bit (le_word bs :: 'a::len word) k \<longleftrightarrow>
    k < LENGTH('a) \<and> k div 8 < length bs \<and> bit (bs ! (k div 8)) (k mod 8)"
proof (induction bs arbitrary: k)
  case Nil
  then show ?case by simp
next
  case (Cons b bs)
  show ?case
  proof (cases "k < 8")
    case True
    then show ?thesis by (auto simp: bit_simps)
  next
    case False
    define j where "j = k - 8"
    have j: "k = 8 + j" using False by (simp add: j_def)
    have "(8 + j) div 8 = Suc (j div 8)" "(8 + j) mod 8 = j mod 8" by presburger+
    moreover have "\<not> bit b (8 + j)"
      using bit_imp_le_length [of b "8 + j"] by auto
    ultimately show ?thesis
      using Cons.IH [of j] by (auto simp: bit_simps j)
  qed
qed

lemma le_word_le_bytes:
  assumes "8 * n = LENGTH('a::len)"
  shows "le_word (le_bytes n (x :: 'a word)) = x"
proof (rule bit_word_eqI)
  fix k assume k: "k < LENGTH('a)"
  have "k div 8 < n" using k assms by linarith
  moreover have "8 * (k div 8) + k mod 8 = k" by presburger
  moreover have "k mod 8 < 8" by simp
  ultimately show "bit (le_word (le_bytes n x) :: 'a word) k \<longleftrightarrow> bit x k"
    using k by (simp add: bit_le_word le_bytes_def bit_simps)
qed

lemma le_word_le_bytes_u64 [layout_simps]: "le_word (le_bytes 8 x) = (x :: u64)"
  by (rule le_word_le_bytes) simp

lemma le_word_le_bytes_u32 [layout_simps]: "le_word (le_bytes 4 x) = (x :: u32)"
  by (rule le_word_le_bytes) simp

lemma le_word_le_bytes_u16 [layout_simps]: "le_word (le_bytes 2 x) = (x :: u16)"
  by (rule le_word_le_bytes) simp

lemma le_bytes_le_word:
  assumes "8 * n = LENGTH('a::len)" "length bs = n"
  shows "le_bytes n (le_word bs :: 'a word) = bs"
proof (rule nth_equalityI)
  fix i assume "i < length (le_bytes n (le_word bs :: 'a word))"
  then have i: "i < n" by simp
  show "le_bytes n (le_word bs :: 'a word) ! i = bs ! i"
  proof (rule bit_word_eqI)
    fix j assume "j < LENGTH(8)"
    then have j: "j < 8" by simp
    then have "8 * i + j < LENGTH('a)" "(8 * i + j) div 8 = i" "(8 * i + j) mod 8 = j"
      using i assms(1) by auto
    then show "bit (le_bytes n (le_word bs :: 'a word) ! i) j \<longleftrightarrow> bit (bs ! i) j"
      using i j assms(2) by (simp add: le_bytes_def bit_simps bit_le_word)
  qed
qed (use assms in simp)

section \<open>Big-endian keycodes\<close>

text \<open>\<open>(hi << 8) | lo\<close>, \<open>(uint8_t)(x >> 8)\<close> and \<open>(uint8_t)(x & 0xFF)\<close>.\<close>

definition be_word :: "u8 \<Rightarrow> u8 \<Rightarrow> u16" where
  "be_word hi lo = push_bit 8 (ucast hi) OR ucast lo"

definition high_byte :: "u16 \<Rightarrow> u8" where
  "high_byte x = ucast (drop_bit 8 x)"

definition low_byte :: "u16 \<Rightarrow> u8" where
  "low_byte x = ucast x"

lemma be_word_bytes [layout_simps]: "be_word (high_byte x) (low_byte x) = x"
  by (rule bit_word_eqI) (auto simp: be_word_def high_byte_def low_byte_def bit_simps)

lemma high_byte_be_word [layout_simps]: "high_byte (be_word h l) = h"
  by (rule bit_word_eqI) (auto simp: be_word_def high_byte_def bit_simps dest: bit_imp_le_length)

lemma low_byte_be_word [layout_simps]: "low_byte (be_word h l) = l"
  by (rule bit_word_eqI) (auto simp: be_word_def low_byte_def bit_simps)

lemma unat_u8: "unat (x :: u8) < 256"
  using unsigned_less [of x, where ?'a = nat] by simp

lemma unat_be_word: "unat (be_word h l) = unat h * 256 + unat l"
proof -
  have "be_word h l = push_bit 8 (ucast h) + (ucast l :: u16)"
    unfolding be_word_def
    by (rule disjunctive_add [symmetric]) (auto simp: bit_simps dest: bit_imp_le_length)
  also have "\<dots> = of_nat (unat h * 256 + unat l)"
    by (simp add: push_bit_eq_mult mult.commute)
  finally show ?thesis using unat_u8 [of h] unat_u8 [of l]
    by (simp only: unat_of_nat) simp
qed

lemma le_word_two: "le_word [l, h] = be_word h l"
  by (rule bit_word_eqI) (auto simp: be_word_def bit_simps dest: bit_imp_le_length)

lemma be_word_eq_iff: "be_word h l = x \<longleftrightarrow> h = high_byte x \<and> l = low_byte x"
  using be_word_bytes high_byte_be_word low_byte_be_word by metis

section \<open>Words\<close>

lemma unat_of_nat_small: "n < 2 ^ LENGTH('a::len) \<Longrightarrow> unat (of_nat n :: 'a word) = n"
  by (simp add: unat_of_nat take_bit_nat_eq_self)

lemma set_bit_1_neq_0: "bit (w :: 'a::len word) n \<Longrightarrow> w \<noteq> 0"
  by auto

text \<open>
  The bits of a word numeral are those of the integer numeral; the masks and flags of the code
  are runs of ones.
\<close>

lemma bit_int_range: "bit (push_bit l (mask w) :: int) n \<longleftrightarrow> l \<le> n \<and> n < l + w"
  by (auto simp: bit_simps bit_push_bit_iff_int)

lemma bit_int_2 [bit_consts]: "bit (2::int) n \<longleftrightarrow> n = 1"
  using bit_int_range [of 1 1 n] by (auto simp add: mask_eq_exp_minus_1 push_bit_eq_mult)

lemma bit_int_3 [bit_consts]: "bit (3::int) n \<longleftrightarrow> n < 2"
  using bit_int_range [of 0 2 n] by (auto simp add: mask_eq_exp_minus_1 push_bit_eq_mult)

lemma bit_int_4 [bit_consts]: "bit (4::int) n \<longleftrightarrow> n = 2"
  using bit_int_range [of 2 1 n] by (auto simp add: mask_eq_exp_minus_1 push_bit_eq_mult)

lemma bit_int_7 [bit_consts]: "bit (7::int) n \<longleftrightarrow> n < 3"
  using bit_int_range [of 0 3 n] by (auto simp add: mask_eq_exp_minus_1 push_bit_eq_mult)

lemma bit_int_8 [bit_consts]: "bit (8::int) n \<longleftrightarrow> n = 3"
  using bit_int_range [of 3 1 n] by (auto simp add: mask_eq_exp_minus_1 push_bit_eq_mult)

lemma bit_int_15 [bit_consts]: "bit (15::int) n \<longleftrightarrow> n < 4"
  using bit_int_range [of 0 4 n] by (auto simp add: mask_eq_exp_minus_1 push_bit_eq_mult)

lemma bit_int_16 [bit_consts]: "bit (16::int) n \<longleftrightarrow> n = 4"
  using bit_int_range [of 4 1 n] by (auto simp add: mask_eq_exp_minus_1 push_bit_eq_mult)

lemma bit_int_31 [bit_consts]: "bit (31::int) n \<longleftrightarrow> n < 5"
  using bit_int_range [of 0 5 n] by (auto simp add: mask_eq_exp_minus_1 push_bit_eq_mult)

lemma bit_int_32 [bit_consts]: "bit (32::int) n \<longleftrightarrow> n = 5"
  using bit_int_range [of 5 1 n] by (auto simp add: mask_eq_exp_minus_1 push_bit_eq_mult)

lemma bit_int_63 [bit_consts]: "bit (63::int) n \<longleftrightarrow> n < 6"
  using bit_int_range [of 0 6 n] by (auto simp add: mask_eq_exp_minus_1 push_bit_eq_mult)

lemma bit_int_64 [bit_consts]: "bit (64::int) n \<longleftrightarrow> n = 6"
  using bit_int_range [of 6 1 n] by (auto simp add: mask_eq_exp_minus_1 push_bit_eq_mult)

lemma bit_int_127 [bit_consts]: "bit (127::int) n \<longleftrightarrow> n < 7"
  using bit_int_range [of 0 7 n] by (auto simp add: mask_eq_exp_minus_1 push_bit_eq_mult)

lemma bit_int_128 [bit_consts]: "bit (128::int) n \<longleftrightarrow> n = 7"
  using bit_int_range [of 7 1 n] by (auto simp add: mask_eq_exp_minus_1 push_bit_eq_mult)

lemma bit_int_255 [bit_consts]: "bit (255::int) n \<longleftrightarrow> n < 8"
  using bit_int_range [of 0 8 n] by (auto simp add: mask_eq_exp_minus_1 push_bit_eq_mult)

lemma bit_int_256 [bit_consts]: "bit (256::int) n \<longleftrightarrow> n = 8"
  using bit_int_range [of 8 1 n] by (auto simp add: mask_eq_exp_minus_1 push_bit_eq_mult)

lemma bit_int_65535 [bit_consts]: "bit (65535::int) n \<longleftrightarrow> n < 16"
  using bit_int_range [of 0 16 n] by (auto simp add: mask_eq_exp_minus_1 push_bit_eq_mult)

lemma bit_int_56 [bit_consts]: "bit (56::int) n \<longleftrightarrow> 3 \<le> n \<and> n < 6"
  using bit_int_range [of 3 3 n] by (auto simp add: mask_eq_exp_minus_1 push_bit_eq_mult)

lemma bit_int_15872 [bit_consts]: "bit (15872::int) n \<longleftrightarrow> 9 \<le> n \<and> n < 14"
  using bit_int_range [of 9 5 n] by (auto simp add: mask_eq_exp_minus_1 push_bit_eq_mult)

lemma bit_int_458752 [bit_consts]: "bit (458752::int) n \<longleftrightarrow> 16 \<le> n \<and> n < 19"
  using bit_int_range [of 16 3 n] by (auto simp add: mask_eq_exp_minus_1 push_bit_eq_mult)


lemma bit_word_times_2 [bit_consts]:
  "bit (x * 2 :: 'a::len word) n \<longleftrightarrow> 0 < n \<and> n < LENGTH('a) \<and> bit x (n - 1)"
  using bit_double_iff [of x n] by (auto simp: mult.commute possible_bit_def)

lemma less_8_cases:
  assumes "n < (8::nat)"
  obtains "n = 0" | "n = 1" | "n = 2" | "n = 3" | "n = 4" | "n = 5" | "n = 6" | "n = 7"
  using assms by linarith

lemma bit_less_of_unat: "unat (a :: 'a::len word) < 2 ^ n \<Longrightarrow> bit a k \<Longrightarrow> k < n"
proof (rule ccontr)
  assume a: "unat a < 2 ^ n" "bit a k" "\<not> k < n"
  have "take_bit n (unat a) = unat a" using a(1) by (simp add: take_bit_nat_eq_self)
  then have "\<not> bit (unat a) k" using a(3) by (metis bit_take_bit_iff)
  then show False using a(2) by (simp add: bit_unsigned_iff)
qed

section \<open>Lists\<close>

lemma list_update_self: "xs ! i = v \<Longrightarrow> xs[i := v] = xs"
  by auto

lemma and_FF: "(x :: u16) AND 0xFF = ucast (low_byte x)"
  by (rule bit_word_eqI) (auto simp: low_byte_def bit_simps bit_consts)

end
