(* ===== verification/Fnv.thy ===== *)
theory Fnv
  imports Qmk_Prelude
begin

text \<open>
  The 64-bit FNV-1a hash of \<open>lib/fnv/hash_64a.c\<close>, in the variant the firmware compiles (a
  compiler with 64-bit integers, multiplication by shifts and additions). The wear-levelling
  store uses it as the checksum of its consolidated area.
\<close>

definition FNV1A_64_INIT :: u64 where
  "FNV1A_64_INIT = 0xcbf29ce484222325"

definition FNV_64_PRIME :: u64 where
  "FNV_64_PRIME = 0x100000001b3"

text \<open>One turn of the loop of \<open>fnv_64a_buf\<close>.\<close>

definition fnv_64a_step :: "u64 \<Rightarrow> u8 \<Rightarrow> u64" where
  "fnv_64a_step hval octet =
    (let h = hval XOR ucast octet
     in h + (push_bit 1 h + push_bit 4 h + push_bit 5 h +
             push_bit 7 h + push_bit 8 h + push_bit 40 h))"

fun fnv_64a_buf :: "u8 list \<Rightarrow> u64 \<Rightarrow> u64" where
  "fnv_64a_buf [] hval = hval"
| "fnv_64a_buf (b # bs) hval = fnv_64a_buf bs (fnv_64a_step hval b)"

text \<open>The reference formulation: multiply by the FNV prime modulo \<open>2 ^ 64\<close>.\<close>

definition fnv_64a_spec_step :: "u64 \<Rightarrow> u8 \<Rightarrow> u64" where
  "fnv_64a_spec_step hval octet = (hval XOR ucast octet) * FNV_64_PRIME"

lemma fnv_64a_step_mult: "fnv_64a_step hval b = fnv_64a_spec_step hval b"
  by (simp add: fnv_64a_step_def fnv_64a_spec_step_def FNV_64_PRIME_def Let_def
      push_bit_eq_mult algebra_simps)

lemma fnv_64a_buf_append: "fnv_64a_buf (xs @ ys) h = fnv_64a_buf ys (fnv_64a_buf xs h)"
  by (induction xs arbitrary: h) auto

end
