(* ===== verification/Wear_Leveling.thy ===== *)
theory Wear_Leveling
  imports Fnv
begin

text \<open>
  \<open>quantum/wear_leveling/wear_leveling.c\<close> and the log-entry macros of
  \<open>wear_leveling_internal.h\<close>: an emulated EEPROM kept as a RAM cache, a consolidated copy with
  a checksum at the start of a backing store, and a write log behind it.

  The backing store API (\<open>backing_store_init\<close> and so on, "to be implemented elsewhere by flash
  driver") is the record \<open>backing_ops\<close> of functions over a store of any type. A
  \<open>backing_store_int_t\<close> is represented by its memory image, a list of \<open>BACKING_STORE_WRITE_SIZE\<close>
  bytes, and the union \<open>write_log_entry_t\<close> by its eight bytes \<open>raw8\<close>; \<open>raw16[i]\<close> and
  \<open>raw32[i]\<close> are then blocks of it. Debug output is left out. Addresses are natural numbers;
  the one place where the 32-bit sum of an address and a length can wrap is the bounds check of
  \<open>wear_leveling_read\<close> and \<open>wear_leveling_write\<close>, where the wrap-around is written out, and an
  access outside the cache is the result \<open>None\<close>.
\<close>

section \<open>Configuration, state and backing store API\<close>

text \<open>\<open>BACKING_STORE_WRITE_SIZE\<close>: anything but 2, 4 or 8 is refused at compile time.\<close>

datatype write_size = WS2 | WS4 | WS8

fun ws :: "write_size \<Rightarrow> nat" where
  "ws WS2 = 2"
| "ws WS4 = 4"
| "ws WS8 = 8"

record wl_config =
  BACKING_STORE_WRITE_SIZE :: write_size
  WEAR_LEVELING_BACKING_SIZE :: nat
  WEAR_LEVELING_LOGICAL_SIZE :: nat
  entry_junk :: "u8 list"  \<comment> \<open>the indeterminate contents of an uninitialised \<open>write_log_entry_t\<close>\<close>

record 'b backing_ops =
  backing_store_init :: "'b \<Rightarrow> bool \<times> 'b"
  backing_store_unlock :: "'b \<Rightarrow> bool \<times> 'b"
  backing_store_erase :: "'b \<Rightarrow> bool \<times> 'b"
  backing_store_write :: "'b \<Rightarrow> nat \<Rightarrow> u8 list \<Rightarrow> bool \<times> 'b"
  backing_store_lock :: "'b \<Rightarrow> bool \<times> 'b"
  backing_store_read :: "'b \<Rightarrow> nat \<Rightarrow> u8 list option"

datatype wear_leveling_status_t =
  WEAR_LEVELING_FAILED | WEAR_LEVELING_SUCCESS | WEAR_LEVELING_CONSOLIDATED

datatype backing_store_lock_status_t = STATUS_FAILURE | STATUS_SUCCESS | STATUS_UNCHANGED

record 'b wear_leveling =
  cache :: "u8 list"
  write_address :: nat
  unlocked :: bool
  store :: 'b

abbreviation wsz :: "wl_config \<Rightarrow> nat" where
  "wsz c \<equiv> ws (BACKING_STORE_WRITE_SIZE c)"

abbreviation LOGICAL :: "wl_config \<Rightarrow> nat" where
  "LOGICAL c \<equiv> WEAR_LEVELING_LOGICAL_SIZE c"

abbreviation BACKING :: "wl_config \<Rightarrow> nat" where
  "BACKING c \<equiv> WEAR_LEVELING_BACKING_SIZE c"

section \<open>Log entries\<close>

datatype log_entry_type =
  LOG_ENTRY_TYPE_MULTIBYTE | LOG_ENTRY_TYPE_OPTIMIZED_64 | LOG_ENTRY_TYPE_WORD_01 | LOG_ENTRY_TYPES

definition LOG_ENTRY_GET_TYPE :: "u8 list \<Rightarrow> log_entry_type" where
  "LOG_ENTRY_GET_TYPE raw8 =
    (let t = drop_bit 6 (raw8 ! 0) AND 3
     in if t = 0 then LOG_ENTRY_TYPE_MULTIBYTE
        else if t = 1 then LOG_ENTRY_TYPE_OPTIMIZED_64
        else if t = 2 then LOG_ENTRY_TYPE_WORD_01
        else LOG_ENTRY_TYPES)"

definition LOG_ENTRY_MULTIBYTE_MAX_BYTES :: nat where
  "LOG_ENTRY_MULTIBYTE_MAX_BYTES = 5"

definition LOG_ENTRY_MULTIBYTE_GET_ADDRESS :: "u8 list \<Rightarrow> u32" where
  "LOG_ENTRY_MULTIBYTE_GET_ADDRESS raw8 =
    push_bit 16 (ucast (raw8 ! 0) AND 7) OR push_bit 8 (ucast (raw8 ! 1)) OR ucast (raw8 ! 2)"

definition LOG_ENTRY_MULTIBYTE_GET_LENGTH :: "u8 list \<Rightarrow> u8" where
  "LOG_ENTRY_MULTIBYTE_GET_LENGTH raw8 = drop_bit 3 (raw8 ! 0) AND 7"

definition LOG_ENTRY_MAKE_MULTIBYTE :: "u32 \<Rightarrow> u32 \<Rightarrow> u8 list" where
  "LOG_ENTRY_MAKE_MULTIBYTE address len =
    [push_bit 6 (0 AND 3) OR push_bit 3 (ucast len AND 7) OR (ucast (drop_bit 16 address) AND 7),
     ucast (drop_bit 8 address) AND 255,
     ucast address AND 255,
     0, 0, 0, 0, 0]"

definition LOG_ENTRY_OPTIMIZED_64_GET_ADDRESS :: "u8 list \<Rightarrow> u32" where
  "LOG_ENTRY_OPTIMIZED_64_GET_ADDRESS raw8 = ucast (raw8 ! 0 AND 63)"

definition LOG_ENTRY_OPTIMIZED_64_GET_VALUE :: "u8 list \<Rightarrow> u8" where
  "LOG_ENTRY_OPTIMIZED_64_GET_VALUE raw8 = raw8 ! 1"

definition LOG_ENTRY_MAKE_OPTIMIZED_64 :: "u32 \<Rightarrow> u8 \<Rightarrow> u8 list" where
  "LOG_ENTRY_MAKE_OPTIMIZED_64 address v =
    [push_bit 6 (1 AND 3) OR (ucast address AND 63), v, 0, 0, 0, 0, 0, 0]"

definition LOG_ENTRY_WORD_01_GET_ADDRESS :: "u8 list \<Rightarrow> u32" where
  "LOG_ENTRY_WORD_01_GET_ADDRESS raw8 =
    push_bit 9 (ucast (raw8 ! 0) AND 31) OR push_bit 1 (ucast (raw8 ! 1))"

definition LOG_ENTRY_WORD_01_GET_VALUE :: "u8 list \<Rightarrow> u8" where
  "LOG_ENTRY_WORD_01_GET_VALUE raw8 = drop_bit 5 (raw8 ! 0) AND 1"

definition LOG_ENTRY_MAKE_WORD_01 :: "u32 \<Rightarrow> u16 \<Rightarrow> u8 list" where
  "LOG_ENTRY_MAKE_WORD_01 address v =
    [push_bit 6 (2 AND 3) OR push_bit 5 ((if v \<noteq> 0 then 1 else 0) AND 1)
       OR (ucast (drop_bit 9 address) AND 31),
     ucast (drop_bit 1 address), 0, 0, 0, 0, 0, 0]"

section \<open>Locking, cache and bulk transfers\<close>

definition wear_leveling_unlock ::
    "'b backing_ops \<Rightarrow> 'b wear_leveling \<Rightarrow> backing_store_lock_status_t \<times> 'b wear_leveling" where
  "wear_leveling_unlock ops s =
    (if unlocked s then (STATUS_UNCHANGED, s)
     else let (ok, b) = backing_store_unlock ops (store s) in
       if \<not> ok then (STATUS_FAILURE, s\<lparr>store := b\<rparr>)
       else (STATUS_SUCCESS, s\<lparr>store := b, unlocked := True\<rparr>))"

definition wear_leveling_lock ::
    "'b backing_ops \<Rightarrow> 'b wear_leveling \<Rightarrow> backing_store_lock_status_t \<times> 'b wear_leveling" where
  "wear_leveling_lock ops s =
    (if \<not> unlocked s then (STATUS_UNCHANGED, s)
     else let (ok, b) = backing_store_lock ops (store s) in
       if \<not> ok then (STATUS_FAILURE, s\<lparr>store := b\<rparr>)
       else (STATUS_SUCCESS, s\<lparr>store := b, unlocked := False\<rparr>))"

definition wear_leveling_clear_cache :: "wl_config \<Rightarrow> 'b wear_leveling \<Rightarrow> 'b wear_leveling" where
  "wear_leveling_clear_cache c s =
    s\<lparr>cache := replicate (LOGICAL c) 0, write_address := LOGICAL c + 8\<rparr>"

text \<open>The weak bulk transfers; a failed read leaves the values read so far in the buffer.\<close>

fun backing_store_read_bulk ::
    "wl_config \<Rightarrow> 'b backing_ops \<Rightarrow> 'b \<Rightarrow> nat \<Rightarrow> nat \<Rightarrow> bool \<times> u8 list" where
  "backing_store_read_bulk c ops b address 0 = (True, [])"
| "backing_store_read_bulk c ops b address (Suc item_count) =
    (case backing_store_read ops b address of
       None \<Rightarrow> (False, [])
     | Some v \<Rightarrow>
         let (ok, vs) = backing_store_read_bulk c ops b (address + wsz c) item_count
         in (ok, v @ vs))"

fun backing_store_write_bulk ::
    "wl_config \<Rightarrow> 'b backing_ops \<Rightarrow> 'b \<Rightarrow> nat \<Rightarrow> u8 list \<Rightarrow> nat \<Rightarrow> bool \<times> 'b" where
  "backing_store_write_bulk c ops b address values 0 = (True, b)"
| "backing_store_write_bulk c ops b address values (Suc item_count) =
    (let (ok, b') = backing_store_write ops b address (take (wsz c) values)
     in if \<not> ok then (False, b')
        else backing_store_write_bulk c ops b' (address + wsz c) (drop (wsz c) values) item_count)"

section \<open>Consolidation\<close>

definition wear_leveling_read_consolidated ::
    "wl_config \<Rightarrow> 'b backing_ops \<Rightarrow> 'b wear_leveling \<Rightarrow> wear_leveling_status_t \<times> 'b wear_leveling"
  where
  "wear_leveling_read_consolidated c ops s =
    (let (ok, bs) = backing_store_read_bulk c ops (store s) 0 (LOGICAL c div wsz c)
     in if \<not> ok then (WEAR_LEVELING_FAILED, wear_leveling_clear_cache c s)
        else
          let s1 = s\<lparr>cache := bs\<rparr>;
              expected = fnv_64a_buf bs FNV1A_64_INIT;
              (ok8, e) = backing_store_read_bulk c ops (store s1) (LOGICAL c) (8 div wsz c);
              raw8 = take 8 (e @ drop (length e) (entry_junk c))
          in (WEAR_LEVELING_SUCCESS,
              if le_word raw8 = expected then s1 else wear_leveling_clear_cache c s1))"

definition wear_leveling_write_consolidated ::
    "wl_config \<Rightarrow> 'b backing_ops \<Rightarrow> 'b wear_leveling \<Rightarrow> wear_leveling_status_t \<times> 'b wear_leveling"
  where
  "wear_leveling_write_consolidated c ops s =
    (let (lock_status, s1) = wear_leveling_unlock ops s;
         (ok, b) = backing_store_write_bulk c ops (store s1) 0 (cache s1) (LOGICAL c div wsz c);
         s2 = s1\<lparr>store := b\<rparr>;
         (status, s3) =
           (if \<not> ok then (WEAR_LEVELING_FAILED, s2)
            else
              let raw8 = le_bytes 8 (fnv_64a_buf (cache s2) FNV1A_64_INIT);
                  (ok8, b8) =
                    backing_store_write_bulk c ops (store s2) (LOGICAL c) raw8 (8 div wsz c)
              in (if ok8 then WEAR_LEVELING_CONSOLIDATED else WEAR_LEVELING_FAILED,
                  s2\<lparr>store := b8\<rparr>))
     in (status,
         if lock_status = STATUS_SUCCESS then snd (wear_leveling_lock ops s3) else s3))"

definition wear_leveling_consolidate_force ::
    "wl_config \<Rightarrow> 'b backing_ops \<Rightarrow> 'b wear_leveling \<Rightarrow> wear_leveling_status_t \<times> 'b wear_leveling"
  where
  "wear_leveling_consolidate_force c ops s =
    (let (ok, b) = backing_store_erase ops (store s);
         s1 = s\<lparr>store := b\<rparr>
     in if \<not> ok then (WEAR_LEVELING_FAILED, s1)
        else
          let (status, s2) = wear_leveling_write_consolidated c ops s1
          in (status, s2\<lparr>write_address := LOGICAL c + 8\<rparr>))"

definition wear_leveling_consolidate_if_needed ::
    "wl_config \<Rightarrow> 'b backing_ops \<Rightarrow> 'b wear_leveling \<Rightarrow> wear_leveling_status_t \<times> 'b wear_leveling"
  where
  "wear_leveling_consolidate_if_needed c ops s =
    (if write_address s \<ge> BACKING c then wear_leveling_consolidate_force c ops s
     else (WEAR_LEVELING_SUCCESS, s))"

section \<open>Writing to the log\<close>

definition wear_leveling_append_raw ::
    "wl_config \<Rightarrow> 'b backing_ops \<Rightarrow> 'b wear_leveling \<Rightarrow> u8 list
      \<Rightarrow> wear_leveling_status_t \<times> 'b wear_leveling" where
  "wear_leveling_append_raw c ops s v =
    (let (ok, b) = backing_store_write ops (store s) (write_address s) v;
         s1 = s\<lparr>store := b\<rparr>
     in if \<not> ok then (WEAR_LEVELING_FAILED, s1)
        else wear_leveling_consolidate_if_needed c ops
               (s1\<lparr>write_address := write_address s1 + wsz c\<rparr>))"

text \<open>
  A run of \<open>wear_leveling_append_raw\<close> calls with the early return after each:
  \<open>status = append(...); if (status != WEAR_LEVELING_SUCCESS) return status;\<close>.
\<close>

fun append_raws ::
    "wl_config \<Rightarrow> 'b backing_ops \<Rightarrow> 'b wear_leveling \<Rightarrow> u8 list list
      \<Rightarrow> wear_leveling_status_t \<times> 'b wear_leveling" where
  "append_raws c ops s [] = (WEAR_LEVELING_SUCCESS, s)"
| "append_raws c ops s (v # vs) =
    (let (status, s1) = wear_leveling_append_raw c ops s v
     in if status \<noteq> WEAR_LEVELING_SUCCESS then (status, s1) else append_raws c ops s1 vs)"

text \<open>The members \<open>raw16[i]\<close> and \<open>raw32[i]\<close> of the union.\<close>

definition raw_item :: "wl_config \<Rightarrow> u8 list \<Rightarrow> nat \<Rightarrow> u8 list" where
  "raw_item c raw8 i = mem_get raw8 (i * wsz c) (wsz c)"

definition wear_leveling_write_raw_multibyte ::
    "wl_config \<Rightarrow> 'b backing_ops \<Rightarrow> 'b wear_leveling \<Rightarrow> nat \<Rightarrow> u8 list
      \<Rightarrow> wear_leveling_status_t \<times> 'b wear_leveling" where
  "wear_leveling_write_raw_multibyte c ops s address value =
    (let len = length value;
         log = mem_put (LOG_ENTRY_MAKE_MULTIBYTE (of_nat address) (of_nat len)) 3 value
     in append_raws c ops s
          (map (raw_item c log)
            (case BACKING_STORE_WRITE_SIZE c of
               WS2 \<Rightarrow> [0, 1] @ (if len > 1 then [2] else []) @ (if len > 3 then [3] else [])
             | WS4 \<Rightarrow> [0] @ (if len > 1 then [1] else [])
             | WS8 \<Rightarrow> [0])))"

text \<open>
  The loop of \<open>wear_leveling_write_raw\<close>: \<open>p\<close> holds the remaining bytes, so \<open>remaining\<close> is its
  length.
\<close>

function wear_leveling_write_raw ::
    "wl_config \<Rightarrow> 'b backing_ops \<Rightarrow> 'b wear_leveling \<Rightarrow> nat \<Rightarrow> u8 list
      \<Rightarrow> wear_leveling_status_t \<times> 'b wear_leveling" where
  "wear_leveling_write_raw c ops s address p =
    (if p = [] then (WEAR_LEVELING_SUCCESS, s)
     else
       let v = push_bit 8 (ucast (p ! 1)) OR ucast (p ! 0) :: u16
       in if BACKING_STORE_WRITE_SIZE c = WS2 \<and> length p \<ge> 2 \<and> address mod 2 = 0
             \<and> address < 16384 \<and> (v = 0 \<or> v = 1)
          then
            (let log = LOG_ENTRY_MAKE_WORD_01 (of_nat address) v;
                 (status, s1) = wear_leveling_append_raw c ops s (raw_item c log 0)
             in if status \<noteq> WEAR_LEVELING_SUCCESS then (status, s1)
                else wear_leveling_write_raw c ops s1 (address + 2) (drop 2 p))
          else if BACKING_STORE_WRITE_SIZE c = WS2 \<and> address < 64
          then
            (let log = LOG_ENTRY_MAKE_OPTIMIZED_64 (of_nat address) (p ! 0);
                 (status, s1) = wear_leveling_append_raw c ops s (raw_item c log 0)
             in if status \<noteq> WEAR_LEVELING_SUCCESS then (status, s1)
                else wear_leveling_write_raw c ops s1 (address + 1) (drop 1 p))
          else
            (let this_length = (if length p \<ge> LOG_ENTRY_MULTIBYTE_MAX_BYTES
                                then LOG_ENTRY_MULTIBYTE_MAX_BYTES else length p);
                 (status, s1) =
                   wear_leveling_write_raw_multibyte c ops s address (take this_length p)
             in if status \<noteq> WEAR_LEVELING_SUCCESS then (status, s1)
                else wear_leveling_write_raw c ops s1 (address + this_length) (drop this_length p)))"
  by pat_completeness auto
termination
  by (relation "measure (\<lambda>(c, ops, s, a, p). length p)")
     (auto simp: LOG_ENTRY_MULTIBYTE_MAX_BYTES_def neq_Nil_conv)

declare wear_leveling_write_raw.simps [simp del]

section \<open>Playback of the log\<close>

text \<open>
  One conditional read of a further item of a multi-byte entry: whether playback goes on, the
  address and the bytes of the entry read so far.
\<close>

definition playback_more ::
    "wl_config \<Rightarrow> 'b backing_ops \<Rightarrow> 'b \<Rightarrow> bool \<Rightarrow> bool \<times> nat \<times> u8 list \<Rightarrow> bool \<times> nat \<times> u8 list" where
  "playback_more c ops b cond r =
    (let (ok, address, raw8) = r
     in if ok \<and> cond then
          (case backing_store_read ops b address of
             None \<Rightarrow> (False, address, raw8)
           | Some w \<Rightarrow> (True, address + wsz c, raw8 @ w))
        else r)"

text \<open>
  The \<open>switch\<close> of \<open>wear_leveling_playback_log\<close> for one log entry, whose first item \<open>v\<close> has been
  read and whose \<open>address\<close> is already past it: whether playback goes on, the address behind
  what was read, and the cache. Every cancellation inside the switch comes with the status
  \<open>WEAR_LEVELING_FAILED\<close>. A stored length of 6 or 7 makes the \<open>memcpy\<close> read behind the
  eight bytes of the entry: \<open>None\<close>.
\<close>

definition playback_entry ::
    "wl_config \<Rightarrow> 'b backing_ops \<Rightarrow> 'b \<Rightarrow> nat \<Rightarrow> u8 list \<Rightarrow> u8 list
      \<Rightarrow> (bool \<times> nat \<times> u8 list) option" where
  "playback_entry c ops b address v ch =
    (let wz = BACKING_STORE_WRITE_SIZE c
     in case LOG_ENTRY_GET_TYPE v of
       LOG_ENTRY_TYPE_MULTIBYTE \<Rightarrow>
         (let (ok1, ad1, raw1) = playback_more c ops b (wz = WS2) (True, address, v);
              a = unat (LOG_ENTRY_MULTIBYTE_GET_ADDRESS raw1);
              l = unat (LOG_ENTRY_MULTIBYTE_GET_LENGTH raw1)
          in if \<not> ok1 then Some (False, ad1, ch)
             else if a + l > LOGICAL c then Some (False, ad1, ch)
             else
               let (ok2, ad2, raw2) =
                     playback_more c ops b (wz = WS2 \<and> l > 3)
                       (playback_more c ops b (wz \<noteq> WS8 \<and> l > 1) (True, ad1, raw1))
               in if \<not> ok2 then Some (False, ad2, ch)
                  else if 3 + l > 8 then None
                  else Some (True, ad2, mem_put ch a (mem_get raw2 3 l)))
     | LOG_ENTRY_TYPE_OPTIMIZED_64 \<Rightarrow>
         (let a = unat (LOG_ENTRY_OPTIMIZED_64_GET_ADDRESS v);
              x = LOG_ENTRY_OPTIMIZED_64_GET_VALUE v
          in if wz \<noteq> WS2 \<or> a \<ge> LOGICAL c then Some (False, address, ch)
             else Some (True, address, ch[a := x]))
     | LOG_ENTRY_TYPE_WORD_01 \<Rightarrow>
         (let a = unat (LOG_ENTRY_WORD_01_GET_ADDRESS v);
              x = LOG_ENTRY_WORD_01_GET_VALUE v
          in if wz \<noteq> WS2 \<or> a + 1 \<ge> LOGICAL c then Some (False, address, ch)
             else Some (True, address, (ch[a := x])[a + 1 := 0]))
     | LOG_ENTRY_TYPES \<Rightarrow> Some (False, address, ch))"

lemma playback_more_address:
  "playback_more c ops b q (ok, a, r) = (ok', a', r') \<Longrightarrow> a \<le> a'"
  by (auto simp: playback_more_def split: if_splits option.splits)

lemma playback_entry_address:
  assumes "playback_entry c ops b address v ch = Some (ok, ad, ch')"
  shows "address \<le> ad"
proof -
  obtain ok1 a1 r1 where 1:
    "playback_more c ops b (BACKING_STORE_WRITE_SIZE c = WS2) (True, address, v) = (ok1, a1, r1)"
    using prod_cases3 by blast
  let ?l = "unat (LOG_ENTRY_MULTIBYTE_GET_LENGTH r1)"
  obtain ok2 a2 r2 where 2:
    "playback_more c ops b (BACKING_STORE_WRITE_SIZE c \<noteq> WS8 \<and> ?l > 1) (True, a1, r1) = (ok2, a2, r2)"
    using prod_cases3 by blast
  obtain ok3 a3 r3 where 3:
    "playback_more c ops b (BACKING_STORE_WRITE_SIZE c = WS2 \<and> ?l > 3) (ok2, a2, r2) = (ok3, a3, r3)"
    using prod_cases3 by blast
  have "address \<le> a1" "a1 \<le> a2" "a2 \<le> a3"
    using 1 2 3 by (auto dest: playback_more_address)
  then show ?thesis
    using assms 1 2 3
    by (auto simp: playback_entry_def Let_def split: log_entry_type.splits if_splits)
qed

lemma ws_pos [simp]: "0 < ws w"
  by (cases w) auto

text \<open>The loop of \<open>wear_leveling_playback_log\<close>, from an address and a cache on.\<close>

function playback_loop ::
    "wl_config \<Rightarrow> 'b backing_ops \<Rightarrow> 'b \<Rightarrow> nat \<Rightarrow> u8 list
      \<Rightarrow> (wear_leveling_status_t \<times> nat \<times> u8 list) option" where
  "playback_loop c ops b address ch =
    (if address < BACKING c then
       (case backing_store_read ops b address of
          None \<Rightarrow> Some (WEAR_LEVELING_FAILED, address, ch)
        | Some v \<Rightarrow>
            if list_all (\<lambda>x. x = 0) v then Some (WEAR_LEVELING_SUCCESS, address, ch)
            else (case playback_entry c ops b (address + wsz c) v ch of
                    None \<Rightarrow> None
                  | Some (ok, ad, ch') \<Rightarrow>
                      if ok then playback_loop c ops b ad ch'
                      else Some (WEAR_LEVELING_FAILED, ad, ch')))
     else Some (WEAR_LEVELING_SUCCESS, address, ch))"
  by pat_completeness auto
termination
proof (relation "measure (\<lambda>(c, ops, b, address, ch). BACKING c - address)", goal_cases)
  case 1
  then show ?case by simp
next
  case (2 c ops b address ch v r ok ad ad' ch')
  then have "address + wsz c \<le> ad'"
    using playback_entry_address by (metis (no_types, lifting))
  moreover have "0 < wsz c" by (rule ws_pos)
  ultimately have "BACKING c - ad' < BACKING c - address" using 2(1) by linarith
  then show ?case by (simp only: in_measure prod.case)
qed

declare playback_loop.simps [simp del]

definition wear_leveling_playback_log ::
    "wl_config \<Rightarrow> 'b backing_ops \<Rightarrow> 'b wear_leveling
      \<Rightarrow> (wear_leveling_status_t \<times> 'b wear_leveling) option" where
  "wear_leveling_playback_log c ops s =
    (case playback_loop c ops (store s) (LOGICAL c + 8) (cache s) of
       None \<Rightarrow> None
     | Some (status, address, ch) \<Rightarrow>
         let s1 = s\<lparr>cache := ch, write_address := address\<rparr>
         in Some (if status = WEAR_LEVELING_FAILED then wear_leveling_consolidate_force c ops s1
                  else wear_leveling_consolidate_if_needed c ops s1))"

section \<open>The public operations\<close>

definition wear_leveling_init ::
    "wl_config \<Rightarrow> 'b backing_ops \<Rightarrow> 'b wear_leveling
      \<Rightarrow> (wear_leveling_status_t \<times> 'b wear_leveling) option" where
  "wear_leveling_init c ops s =
    (let s1 = wear_leveling_clear_cache c s;
         (ok, b) = backing_store_init ops (store s1);
         s2 = s1\<lparr>store := b\<rparr>
     in if \<not> ok then Some (WEAR_LEVELING_FAILED, wear_leveling_clear_cache c s2)
        else
          let (status, s3) = wear_leveling_read_consolidated c ops s2
          in if status = WEAR_LEVELING_FAILED then Some (status, wear_leveling_clear_cache c s3)
             else
               (case wear_leveling_playback_log c ops s3 of
                  None \<Rightarrow> None
                | Some (status, s4) \<Rightarrow>
                    Some (status, if status = WEAR_LEVELING_FAILED
                                  then wear_leveling_clear_cache c s4 else s4)))"

definition wear_leveling_erase ::
    "wl_config \<Rightarrow> 'b backing_ops \<Rightarrow> 'b wear_leveling \<Rightarrow> wear_leveling_status_t \<times> 'b wear_leveling"
  where
  "wear_leveling_erase c ops s =
    (let (lock_status, s1) = wear_leveling_unlock ops s
     in if lock_status = STATUS_FAILURE then
          (WEAR_LEVELING_FAILED, snd (wear_leveling_lock ops s1))
        else
          let (ret, b) = backing_store_erase ops (store s1);
              s2 = wear_leveling_clear_cache c (s1\<lparr>store := b\<rparr>);
              (ret2, s3) =
                (if lock_status = STATUS_SUCCESS then
                   let (l, s') = wear_leveling_lock ops s2 in (ret \<and> l \<noteq> STATUS_FAILURE, s')
                 else (ret, s2))
          in (if ret2 then WEAR_LEVELING_SUCCESS else WEAR_LEVELING_FAILED, s3))"

text \<open>
  The bounds check adds a 32-bit address and a 32-bit length. Past it, an access outside the
  cache is \<open>None\<close>. The \<open>return true\<close> of the unchanged case is \<open>WEAR_LEVELING_SUCCESS\<close>.
\<close>

definition wl_out_of_bounds :: "wl_config \<Rightarrow> nat \<Rightarrow> nat \<Rightarrow> bool" where
  "wl_out_of_bounds c address len \<longleftrightarrow> (address + len) mod 2 ^ 32 > LOGICAL c"

definition wear_leveling_write ::
    "wl_config \<Rightarrow> 'b backing_ops \<Rightarrow> 'b wear_leveling \<Rightarrow> nat \<Rightarrow> u8 list
      \<Rightarrow> (wear_leveling_status_t \<times> 'b wear_leveling) option" where
  "wear_leveling_write c ops s address value =
    (if wl_out_of_bounds c address (length value) then Some (WEAR_LEVELING_FAILED, s)
     else if address + length value > length (cache s) then None
     else if mem_get (cache s) address (length value) = value then Some (WEAR_LEVELING_SUCCESS, s)
     else
       let s1 = s\<lparr>cache := mem_put (cache s) address value\<rparr>;
           (lock_status, s2) = wear_leveling_unlock ops s1
       in if lock_status = STATUS_FAILURE then
            Some (WEAR_LEVELING_FAILED, snd (wear_leveling_lock ops s2))
          else
            let (status, s3) = wear_leveling_write_raw c ops s2 address value;
                (status, s4) =
                  (case status of
                     WEAR_LEVELING_CONSOLIDATED \<Rightarrow> (status, s3)
                   | WEAR_LEVELING_FAILED \<Rightarrow> (status, s3)
                   | WEAR_LEVELING_SUCCESS \<Rightarrow> wear_leveling_consolidate_if_needed c ops s3)
            in if lock_status = STATUS_SUCCESS then
                 let (l, s5) = wear_leveling_lock ops s4
                 in Some (if l = STATUS_FAILURE then WEAR_LEVELING_FAILED else status, s5)
               else Some (status, s4))"

text \<open>\<open>buf\<close> is the destination buffer before the call, and its length the requested length.\<close>

definition wear_leveling_read ::
    "wl_config \<Rightarrow> 'b wear_leveling \<Rightarrow> nat \<Rightarrow> u8 list \<Rightarrow> (wear_leveling_status_t \<times> u8 list) option"
  where
  "wear_leveling_read c s address buf =
    (if wl_out_of_bounds c address (length buf) then Some (WEAR_LEVELING_FAILED, buf)
     else if address + length buf > length (cache s) then None
     else Some (WEAR_LEVELING_SUCCESS, mem_get (cache s) address (length buf)))"

end
