(* ===== verification/Wear_Leveling_Log.thy ===== *)
theory Wear_Leveling_Log
  imports Wear_Leveling
begin

text \<open>
  The write log as data: the entries a log consists of, their bytes, their effect on the cache,
  and the correctness of the entry codec of \<open>wear_leveling_internal.h\<close>.
\<close>

section \<open>The codec of log entries\<close>

lemma multibyte_type:
  "LOG_ENTRY_GET_TYPE (LOG_ENTRY_MAKE_MULTIBYTE a n) = LOG_ENTRY_TYPE_MULTIBYTE"
proof -
  have "drop_bit 6 (LOG_ENTRY_MAKE_MULTIBYTE a n ! 0) AND 3 = (0 :: u8)"
    by (rule bit_word_eqI) (auto simp: LOG_ENTRY_MAKE_MULTIBYTE_def bit_simps bit_consts)
  then show ?thesis by (simp add: LOG_ENTRY_GET_TYPE_def Let_def)
qed

lemma multibyte_length:
  assumes "unat n < 8"
  shows "LOG_ENTRY_MULTIBYTE_GET_LENGTH (LOG_ENTRY_MAKE_MULTIBYTE a n) = ucast n"
proof (rule bit_word_eqI)
  fix k assume k: "k < LENGTH(8)"
  have "bit n k \<Longrightarrow> k < 3" using bit_less_of_unat [of n 3] assms by simp
  then show "bit (LOG_ENTRY_MULTIBYTE_GET_LENGTH (LOG_ENTRY_MAKE_MULTIBYTE a n)) k
      = bit (ucast n :: u8) k"
    using k by (auto simp: LOG_ENTRY_MULTIBYTE_GET_LENGTH_def LOG_ENTRY_MAKE_MULTIBYTE_def
        bit_simps bit_consts)
qed

lemma multibyte_address:
  assumes "unat a < 2 ^ 19"
  shows "LOG_ENTRY_MULTIBYTE_GET_ADDRESS (LOG_ENTRY_MAKE_MULTIBYTE a n) = a"
proof (rule bit_word_eqI)
  fix k assume k: "k < LENGTH(32)"
  have 19: "bit a k \<Longrightarrow> k < 19" using bit_less_of_unat [OF assms] .
  consider "k < 8" | "8 \<le> k" "k < 16" | "16 \<le> k" by linarith
  then show "bit (LOG_ENTRY_MULTIBYTE_GET_ADDRESS (LOG_ENTRY_MAKE_MULTIBYTE a n)) k = bit a k"
    using k 19 by cases (auto simp: LOG_ENTRY_MULTIBYTE_GET_ADDRESS_def
        LOG_ENTRY_MAKE_MULTIBYTE_def bit_simps bit_consts)
qed

lemma optimized_64_type:
  "LOG_ENTRY_GET_TYPE (LOG_ENTRY_MAKE_OPTIMIZED_64 a v) = LOG_ENTRY_TYPE_OPTIMIZED_64"
proof -
  have "drop_bit 6 (LOG_ENTRY_MAKE_OPTIMIZED_64 a v ! 0) AND 3 = (1 :: u8)"
    by (rule bit_word_eqI)
       (auto simp: LOG_ENTRY_MAKE_OPTIMIZED_64_def bit_simps bit_consts elim: less_8_cases)
  then show ?thesis by (simp add: LOG_ENTRY_GET_TYPE_def Let_def)
qed

lemma optimized_64_address:
  assumes "unat a < 64"
  shows "LOG_ENTRY_OPTIMIZED_64_GET_ADDRESS (LOG_ENTRY_MAKE_OPTIMIZED_64 a v) = a"
proof (rule bit_word_eqI)
  fix k assume k: "k < LENGTH(32)"
  have "bit a k \<Longrightarrow> k < 6" using bit_less_of_unat [of a 6] assms by simp
  then show "bit (LOG_ENTRY_OPTIMIZED_64_GET_ADDRESS (LOG_ENTRY_MAKE_OPTIMIZED_64 a v)) k = bit a k"
    using k by (auto simp: LOG_ENTRY_OPTIMIZED_64_GET_ADDRESS_def LOG_ENTRY_MAKE_OPTIMIZED_64_def
        bit_simps bit_consts)
qed

lemma optimized_64_value:
  "LOG_ENTRY_OPTIMIZED_64_GET_VALUE (LOG_ENTRY_MAKE_OPTIMIZED_64 a v) = v"
  by (simp add: LOG_ENTRY_OPTIMIZED_64_GET_VALUE_def LOG_ENTRY_MAKE_OPTIMIZED_64_def)

lemma word_01_type:
  "LOG_ENTRY_GET_TYPE (LOG_ENTRY_MAKE_WORD_01 a v) = LOG_ENTRY_TYPE_WORD_01"
proof -
  have "drop_bit 6 (LOG_ENTRY_MAKE_WORD_01 a v ! 0) AND 3 = (2 :: u8)"
    by (rule bit_word_eqI)
       (auto simp: LOG_ENTRY_MAKE_WORD_01_def bit_simps bit_consts elim: less_8_cases)
  then show ?thesis by (simp add: LOG_ENTRY_GET_TYPE_def Let_def)
qed

lemma word_01_value:
  assumes "v = 0 \<or> v = 1"
  shows "LOG_ENTRY_WORD_01_GET_VALUE (LOG_ENTRY_MAKE_WORD_01 a v) = ucast v"
proof (rule bit_word_eqI)
  fix k assume k: "k < LENGTH(8)"
  show "bit (LOG_ENTRY_WORD_01_GET_VALUE (LOG_ENTRY_MAKE_WORD_01 a v)) k = bit (ucast v :: u8) k"
    using k assms by (auto simp: LOG_ENTRY_WORD_01_GET_VALUE_def LOG_ENTRY_MAKE_WORD_01_def
        bit_simps bit_consts)
qed

lemma word_01_address:
  assumes "unat a < 16384" "even (unat a)"
  shows "LOG_ENTRY_WORD_01_GET_ADDRESS (LOG_ENTRY_MAKE_WORD_01 a v) = a"
proof (rule bit_word_eqI)
  fix k assume k: "k < LENGTH(32)"
  have 14: "bit a k \<Longrightarrow> k < 14" using bit_less_of_unat [of a 14] assms by simp
  have 0: "\<not> bit a 0" 
  proof -
    have "bit (unat a) 0 = bit a 0" by (simp only: bit_unsigned_iff) (simp add: possible_bit_def)
    then show ?thesis using assms(2) bit_0 [of "unat a"] by simp
  qed
  have sub: "Suc (k - Suc 0) = k" if "0 < k" using that by simp
  consider "k = 0" | "1 \<le> k" "k < 9" | "9 \<le> k" by linarith
  then show "bit (LOG_ENTRY_WORD_01_GET_ADDRESS (LOG_ENTRY_MAKE_WORD_01 a v)) k = bit a k"
    using k 14 0 by cases (auto simp: LOG_ENTRY_WORD_01_GET_ADDRESS_def sub
        LOG_ENTRY_MAKE_WORD_01_def bit_simps bit_consts)
qed

section \<open>Entries, their bytes and their effect\<close>

datatype wl_entry = Multibyte nat "u8 list" | Optimized_64 nat u8 | Word_01 nat u16

text \<open>The number of bytes a multi-byte entry of \<open>l\<close> values takes in the store.\<close>

definition multibyte_size :: "write_size \<Rightarrow> nat \<Rightarrow> nat" where
  "multibyte_size w l =
    (case w of WS2 \<Rightarrow> (if l > 3 then 8 else if l > 1 then 6 else 4)
     | WS4 \<Rightarrow> (if l > 1 then 8 else 4)
     | WS8 \<Rightarrow> 8)"

definition multibyte_raw :: "nat \<Rightarrow> u8 list \<Rightarrow> u8 list" where
  "multibyte_raw a vs = mem_put (LOG_ENTRY_MAKE_MULTIBYTE (of_nat a) (of_nat (length vs))) 3 vs"

fun entry_bytes :: "write_size \<Rightarrow> wl_entry \<Rightarrow> u8 list" where
  "entry_bytes w (Multibyte a vs) = take (multibyte_size w (length vs)) (multibyte_raw a vs)"
| "entry_bytes w (Optimized_64 a v) = take 2 (LOG_ENTRY_MAKE_OPTIMIZED_64 (of_nat a) v)"
| "entry_bytes w (Word_01 a v) = take 2 (LOG_ENTRY_MAKE_WORD_01 (of_nat a) v)"

fun entry_ok :: "wl_config \<Rightarrow> wl_entry \<Rightarrow> bool" where
  "entry_ok c (Multibyte a vs) \<longleftrightarrow> 1 \<le> length vs \<and> length vs \<le> 5 \<and> a + length vs \<le> LOGICAL c"
| "entry_ok c (Optimized_64 a v) \<longleftrightarrow> BACKING_STORE_WRITE_SIZE c = WS2 \<and> a < 64 \<and> a < LOGICAL c"
| "entry_ok c (Word_01 a v) \<longleftrightarrow> BACKING_STORE_WRITE_SIZE c = WS2 \<and> even a \<and> a < 16384 \<and>
     a + 1 < LOGICAL c \<and> (v = 0 \<or> v = 1)"

fun entry_apply :: "wl_entry \<Rightarrow> u8 list \<Rightarrow> u8 list" where
  "entry_apply (Multibyte a vs) ch = mem_put ch a vs"
| "entry_apply (Optimized_64 a v) ch = ch[a := v]"
| "entry_apply (Word_01 a v) ch = (ch[a := ucast v])[a + 1 := 0]"

text \<open>The requirements on the configuration: the static assertions and the address width.\<close>

definition wl_config_ok :: "wl_config \<Rightarrow> bool" where
  "wl_config_ok c \<longleftrightarrow>
     BACKING c \<ge> LOGICAL c * 2 \<and> LOGICAL c mod wsz c = 0 \<and> BACKING c mod LOGICAL c = 0 \<and>
     8 < LOGICAL c \<and> LOGICAL c \<le> 2 ^ 19 \<and> BACKING c < 2 ^ 32"

lemma length_LOG_ENTRY_MAKE [simp]:
  "length (LOG_ENTRY_MAKE_MULTIBYTE a n) = 8"
  "length (LOG_ENTRY_MAKE_OPTIMIZED_64 a v) = 8"
  "length (LOG_ENTRY_MAKE_WORD_01 a x) = 8"
  by (simp_all add: LOG_ENTRY_MAKE_MULTIBYTE_def LOG_ENTRY_MAKE_OPTIMIZED_64_def
      LOG_ENTRY_MAKE_WORD_01_def)

lemma length_multibyte_raw [simp]: "length vs \<le> 5 \<Longrightarrow> length (multibyte_raw a vs) = 8"
  by (simp add: multibyte_raw_def mem_simps)

lemma multibyte_size_bounds:
  "multibyte_size w l \<le> 8" "ws w \<le> multibyte_size w l" "multibyte_size w l mod ws w = 0"
  by (cases w; simp add: multibyte_size_def)+

lemma multibyte_size_covers: "l \<le> 5 \<Longrightarrow> 3 + l \<le> multibyte_size w l"
  by (cases w) (auto simp: multibyte_size_def)

lemma multibyte_items:
  assumes "1 \<le> l" "l \<le> 5"
  shows "(case w of
       WS2 \<Rightarrow> [0, 1] @ (if l > 1 then [2] else []) @ (if l > 3 then [3] else [])
     | WS4 \<Rightarrow> [0] @ (if l > 1 then [1] else [])
     | WS8 \<Rightarrow> [0]) = [0..<multibyte_size w l div ws w]"
  using assms by (cases w) (simp_all add: multibyte_size_def upt_conv_Cons)

lemma length_entry_apply [simp]:
  "entry_ok c e \<Longrightarrow> length ch = LOGICAL c \<Longrightarrow> length (entry_apply e ch) = LOGICAL c"
  by (cases e) (auto simp: mem_simps)

lemma length_entry_bytes:
  assumes "entry_ok c e"
  shows "wsz c \<le> length (entry_bytes (BACKING_STORE_WRITE_SIZE c) e)"
    and "length (entry_bytes (BACKING_STORE_WRITE_SIZE c) e) mod wsz c = 0"
proof -
  have m: "multibyte_size w l \<le> 8" "ws w \<le> multibyte_size w l" "multibyte_size w l mod ws w = 0" for w l
    by (rule multibyte_size_bounds)+
  show "wsz c \<le> length (entry_bytes (BACKING_STORE_WRITE_SIZE c) e)"
    using assms by (cases e) (simp_all add: m min_absorb2)
  show "length (entry_bytes (BACKING_STORE_WRITE_SIZE c) e) mod wsz c = 0"
    using assms by (cases e) (simp_all add: m min_absorb2)
qed

lemma multibyte_raw_head:
  assumes "length vs \<le> 5" "i < 3"
  shows "multibyte_raw a vs ! i = LOG_ENTRY_MAKE_MULTIBYTE (of_nat a) (of_nat (length vs)) ! i"
  using assms by (simp add: multibyte_raw_def mem_put_nth)

lemma multibyte_raw_data: "length vs \<le> 5 \<Longrightarrow> mem_get (multibyte_raw a vs) 3 (length vs) = vs"
  by (simp add: multibyte_raw_def mem_simps)

text \<open>
  The accessors only look at the first three bytes, so they read the same from every prefix of
  the entry that the playback has loaded.
\<close>

lemma accessors_prefix:
  assumes "x ! 0 = y ! 0"
  shows "LOG_ENTRY_GET_TYPE x = LOG_ENTRY_GET_TYPE y"
    and "LOG_ENTRY_MULTIBYTE_GET_LENGTH x = LOG_ENTRY_MULTIBYTE_GET_LENGTH y"
    and "x ! 1 = y ! 1 \<Longrightarrow> x ! 2 = y ! 2 \<Longrightarrow>
      LOG_ENTRY_MULTIBYTE_GET_ADDRESS x = LOG_ENTRY_MULTIBYTE_GET_ADDRESS y"
    and "LOG_ENTRY_OPTIMIZED_64_GET_ADDRESS x = LOG_ENTRY_OPTIMIZED_64_GET_ADDRESS y"
    and "x ! 1 = y ! 1 \<Longrightarrow> LOG_ENTRY_WORD_01_GET_ADDRESS x = LOG_ENTRY_WORD_01_GET_ADDRESS y"
    and "LOG_ENTRY_WORD_01_GET_VALUE x = LOG_ENTRY_WORD_01_GET_VALUE y"
  using assms by (simp_all add: LOG_ENTRY_GET_TYPE_def LOG_ENTRY_MULTIBYTE_GET_LENGTH_def
      LOG_ENTRY_MULTIBYTE_GET_ADDRESS_def LOG_ENTRY_OPTIMIZED_64_GET_ADDRESS_def
      LOG_ENTRY_WORD_01_GET_ADDRESS_def LOG_ENTRY_WORD_01_GET_VALUE_def)

text \<open>No item that starts an entry looks like an empty slot.\<close>

lemma entry_first_byte:
  assumes "entry_ok c e"
  shows "entry_bytes (BACKING_STORE_WRITE_SIZE c) e ! 0 \<noteq> 0"
proof (cases e)
  case (Multibyte a vs)
  let ?n = "length vs"
  have n: "?n \<le> 5" "1 \<le> ?n" using assms Multibyte by auto
  have "LOG_ENTRY_MULTIBYTE_GET_LENGTH (LOG_ENTRY_MAKE_MULTIBYTE (of_nat a) (of_nat ?n))
      = ucast (of_nat ?n :: u32)"
    by (rule multibyte_length) (use n in \<open>simp add: unat_of_nat_small\<close>)
  moreover have "unat (ucast (of_nat ?n :: u32) :: u8) = ?n"
    using n by (simp add: unat_of_nat_small unsigned_ucast_eq take_bit_nat_eq_self)
  ultimately have "LOG_ENTRY_MAKE_MULTIBYTE (of_nat a) (of_nat ?n) ! 0 \<noteq> 0"
    using n by (auto simp: LOG_ENTRY_MULTIBYTE_GET_LENGTH_def)
  moreover have "0 < multibyte_size (BACKING_STORE_WRITE_SIZE c) ?n"
    using multibyte_size_bounds(2) ws_pos by (metis gr0I le_zero_eq less_numeral_extra(3))
  ultimately show ?thesis using n Multibyte by (simp add: multibyte_raw_head)
next
  case (Optimized_64 a v)
  have "bit (LOG_ENTRY_MAKE_OPTIMIZED_64 (of_nat a) v ! 0) 6"
    by (simp add: LOG_ENTRY_MAKE_OPTIMIZED_64_def bit_simps bit_consts)
  then show ?thesis using Optimized_64 by (auto dest: set_bit_1_neq_0)
next
  case (Word_01 a v)
  have "bit (LOG_ENTRY_MAKE_WORD_01 (of_nat a) v ! 0) 7"
    by (simp add: LOG_ENTRY_MAKE_WORD_01_def bit_simps bit_consts)
  then show ?thesis using Word_01 by (auto dest: set_bit_1_neq_0)
qed

end
