(* ===== verification/Wear_Leveling_Store.thy ===== *)
theory Wear_Leveling_Store
  imports Wear_Leveling_Log
begin

text \<open>
  The contract between the wear-levelling layer and the flash driver below it, as the locale
  \<open>backing_store\<close>, and the correctness of the layer proved once from that contract: the write
  log replays to the cache, every accepted write is durable, and no operation leaves its buffers.

  \<open>image b\<close> is the backing area as the layer sees it (zero where erased); \<open>inv\<close> is the driver's
  own invariant and \<open>up b\<close> says that it accepts erase and program commands. The driver promises
  that erased cells can be written once while it is up, and read back at any time. \<open>reset\<close> is
  what a power cycle does to the driver: its variables are lost, the flash contents are not.
\<close>

section \<open>The three branches of the write loop\<close>

definition is_word_01 :: "wl_config \<Rightarrow> nat \<Rightarrow> u8 list \<Rightarrow> bool" where
  "is_word_01 c a p \<longleftrightarrow> (let v = push_bit 8 (ucast (p ! 1)) OR ucast (p ! 0) :: u16 in
     BACKING_STORE_WRITE_SIZE c = WS2 \<and> length p \<ge> 2 \<and> a mod 2 = 0 \<and> a < 16384 \<and> (v = 0 \<or> v = 1))"

lemma write_raw_word:
  assumes "is_word_01 c a p"
    and "r = wear_leveling_append_raw c ops s (raw_item c (LOG_ENTRY_MAKE_WORD_01 (of_nat a)
              (push_bit 8 (ucast (p ! 1)) OR ucast (p ! 0))) 0)"
  shows "wear_leveling_write_raw c ops s a p = (if fst r \<noteq> WEAR_LEVELING_SUCCESS then r
           else wear_leveling_write_raw c ops (snd r) (a + 2) (drop 2 p))"
  using assms by (subst wear_leveling_write_raw.simps)
    (auto simp: is_word_01_def Let_def case_prod_beta)

lemma write_raw_opt:
  assumes "\<not> is_word_01 c a p" "p \<noteq> []" "BACKING_STORE_WRITE_SIZE c = WS2" "a < 64"
    and "r = wear_leveling_append_raw c ops s (raw_item c (LOG_ENTRY_MAKE_OPTIMIZED_64 (of_nat a) (p ! 0)) 0)"
  shows "wear_leveling_write_raw c ops s a p = (if fst r \<noteq> WEAR_LEVELING_SUCCESS then r
           else wear_leveling_write_raw c ops (snd r) (a + 1) (drop 1 p))"
  using assms by (subst wear_leveling_write_raw.simps)
    (auto simp: is_word_01_def Let_def case_prod_beta)

lemma write_raw_multi:
  assumes "\<not> is_word_01 c a p" "p \<noteq> []" "\<not> (BACKING_STORE_WRITE_SIZE c = WS2 \<and> a < 64)"
    and "k = (if length p \<ge> 5 then 5 else length p)"
    and "r = wear_leveling_write_raw_multibyte c ops s a (take k p)"
  shows "wear_leveling_write_raw c ops s a p = (if fst r \<noteq> WEAR_LEVELING_SUCCESS then r
           else wear_leveling_write_raw c ops (snd r) (a + k) (drop k p))"
  using assms by (subst wear_leveling_write_raw.simps)
    (auto simp: is_word_01_def Let_def case_prod_beta LOG_ENTRY_MULTIBYTE_MAX_BYTES_def)

section \<open>The contract of the flash driver\<close>

locale backing_store =
  fixes c :: wl_config
    and ops :: "'b backing_ops"
    and image :: "'b \<Rightarrow> u8 list"
    and inv :: "'b \<Rightarrow> bool"
    and up :: "'b \<Rightarrow> bool"
    and reset :: "'b \<Rightarrow> 'b"
  assumes cfg: "wl_config_ok c"
    and length_image: "inv b \<Longrightarrow> length (image b) = BACKING c"
    and bs_init: "inv b \<Longrightarrow>
      \<exists>b'. backing_store_init ops (reset b) = (True, b') \<and> inv b' \<and> image b' = image b \<and> \<not> up b'"
    and bs_unlock: "inv b \<Longrightarrow> \<not> up b \<Longrightarrow>
      \<exists>b'. backing_store_unlock ops b = (True, b') \<and> inv b' \<and> image b' = image b \<and> up b'"
    and bs_lock: "inv b \<Longrightarrow> up b \<Longrightarrow>
      \<exists>b'. backing_store_lock ops b = (True, b') \<and> inv b' \<and> image b' = image b \<and> \<not> up b'"
    and bs_erase: "inv b \<Longrightarrow> up b \<Longrightarrow>
      \<exists>b'. backing_store_erase ops b = (True, b') \<and> inv b' \<and> up b' \<and> image b' = replicate (BACKING c) 0"
    and bs_write: "inv b \<Longrightarrow> up b \<Longrightarrow> a mod wsz c = 0 \<Longrightarrow> a + wsz c \<le> BACKING c \<Longrightarrow> length v = wsz c \<Longrightarrow>
      mem_get (image b) a (wsz c) = replicate (wsz c) 0 \<Longrightarrow>
      \<exists>b'. backing_store_write ops b a v = (True, b') \<and> inv b' \<and> up b' \<and> image b' = mem_put (image b) a v"
    and bs_read: "inv b \<Longrightarrow> a mod wsz c = 0 \<Longrightarrow> a + wsz c \<le> BACKING c \<Longrightarrow>
      backing_store_read ops b a = Some (mem_get (image b) a (wsz c))"

context backing_store begin

section \<open>Sizes\<close>

lemma sizes:
  shows "8 mod wsz c = 0" "wsz c \<le> 8" "LOGICAL c mod wsz c = 0" "BACKING c mod wsz c = 0"
    and "LOGICAL c + 8 < BACKING c" "LOGICAL c \<le> 2 ^ 19" "8 < LOGICAL c"
proof -
  show "8 mod wsz c = 0" "wsz c \<le> 8" by (cases "BACKING_STORE_WRITE_SIZE c"; simp)+
  show "LOGICAL c mod wsz c = 0" "LOGICAL c \<le> 2 ^ 19" "LOGICAL c + 8 < BACKING c" "8 < LOGICAL c"
    using cfg by (auto simp: wl_config_ok_def)
  then show "BACKING c mod wsz c = 0"
    using cfg unfolding wl_config_ok_def by (metis dvd_trans mod_0_imp_dvd mod_eq_0_iff_dvd)
qed

lemma aligned_fits: "a < BACKING c \<Longrightarrow> a mod wsz c = 0 \<Longrightarrow> a + wsz c \<le> BACKING c"
  using sizes(4) by (metis less_imp_add_positive mod_0_imp_dvd dvd_imp_le nat_add_left_cancel_le
      dvd_add_right_iff)

section \<open>Appending to the written part\<close>

text \<open>\<open>tail s pre\<close>: the store holds \<open>pre\<close> followed by erased cells up to its end.\<close>

definition tail_at :: "'b \<Rightarrow> u8 list \<Rightarrow> bool" where
  "tail_at b pre \<longleftrightarrow> inv b \<and> length pre \<le> BACKING c \<and> length pre mod wsz c = 0 \<and>
     image b = pre @ replicate (BACKING c - length pre) 0"

lemma tail_at_write:
  assumes "tail_at b pre" "length pre < BACKING c" "length v = wsz c" "up b"
  obtains b' where "backing_store_write ops b (length pre) v = (True, b')" "tail_at b' (pre @ v)" "up b'"
proof -
  have f: "length pre + wsz c \<le> BACKING c"
    using assms(1,2) by (auto simp: tail_at_def intro: aligned_fits)
  have "mem_get (image b) (length pre) (wsz c) = replicate (wsz c) 0"
    using assms(1) f by (simp add: tail_at_def mem_get_def min_absorb1)
  then obtain b' where b': "backing_store_write ops b (length pre) v = (True, b')" "inv b'"
    "image b' = mem_put (image b) (length pre) v" "up b'"
    using bs_write [of b "length pre" v] assms f by (auto simp: tail_at_def)
  have "image b' = (pre @ v) @ replicate (BACKING c - length (pre @ v)) 0"
    using b'(3) assms(1,3) by (simp add: tail_at_def mem_put_def)
  then have "tail_at b' (pre @ v)"
    using b'(2) assms f by (simp add: tail_at_def mod_add_eq)
  with b'(1,4) that show ?thesis by blast
qed

lemma tail_at_write_bulk:
  assumes "tail_at b pre" "length vs = n * wsz c" "length pre + length vs \<le> BACKING c" "up b"
  shows "\<exists>b'. backing_store_write_bulk c ops b (length pre) vs n = (True, b') \<and>
    tail_at b' (pre @ vs) \<and> up b'"
  using assms
proof (induction n arbitrary: b pre vs)
  case 0
  then show ?case by simp
next
  case (Suc n)
  let ?v = "take (wsz c) vs" and ?r = "drop (wsz c) vs"
  have l: "length ?v = wsz c" "length ?r = n * wsz c" using Suc.prems(2) by auto
  have "0 < length vs" using Suc.prems(2) ws_pos [of "BACKING_STORE_WRITE_SIZE c"] by simp
  then have "length pre < BACKING c" using Suc.prems(3) by linarith
  then obtain b1 where 1: "backing_store_write ops b (length pre) ?v = (True, b1)"
    "tail_at b1 (pre @ ?v)" "up b1"
    using tail_at_write [OF Suc.prems(1)] l Suc.prems(4) by blast
  have "length (pre @ ?v) + length ?r \<le> BACKING c" using Suc.prems(3) l by simp
  from Suc.IH [OF 1(2) l(2) this 1(3)] obtain b2 where
    "backing_store_write_bulk c ops b1 (length pre + wsz c) ?r n = (True, b2)"
    "tail_at b2 ((pre @ ?v) @ ?r)" "up b2"
    using l by auto
  with 1 show ?case by auto
qed

lemma read_bulk:
  assumes "inv b" "a mod wsz c = 0" "a + n * wsz c \<le> BACKING c"
  shows "backing_store_read_bulk c ops b a n = (True, mem_get (image b) a (n * wsz c))"
  using assms(2,3)
proof (induction n arbitrary: a)
  case 0
  then show ?case by (simp add: mem_get_def)
next
  case (Suc n)
  have "(a + wsz c) mod wsz c = 0" using Suc.prems(1) by simp
  moreover have "a + wsz c + n * wsz c \<le> BACKING c" using Suc.prems(2) by simp
  ultimately show ?case
    using Suc.IH [of "a + wsz c"] bs_read [OF assms(1) Suc.prems(1)] Suc.prems(2)
    by (simp add: mem_get_split)
qed

section \<open>Consolidation\<close>

lemma div_mult_wsz: "n mod wsz c = 0 \<Longrightarrow> n div wsz c * wsz c = n"
  by (metis div_mult_mod_eq add_0_right)

definition consolidated :: "u8 list \<Rightarrow> u8 list" where
  "consolidated ch = ch @ le_bytes 8 (fnv_64a_buf ch FNV1A_64_INIT)"

text \<open>The lock flag of the layer agrees with the driver.\<close>

definition synced :: "'b wear_leveling \<Rightarrow> bool" where
  "synced s \<longleftrightarrow> unlocked s = up (store s)"

lemma unlock_state:
  assumes "inv (store s)" "synced s"
  obtains b' where "wear_leveling_unlock ops s
      = (if unlocked s then STATUS_UNCHANGED else STATUS_SUCCESS, s\<lparr>store := b', unlocked := True\<rparr>)"
    "inv b'" "image b' = image (store s)" "up b'"
proof (cases "unlocked s")
  case True
  then have "wear_leveling_unlock ops s = (STATUS_UNCHANGED, s\<lparr>store := store s, unlocked := True\<rparr>)"
    by (simp add: wear_leveling_unlock_def)
  with True assms that [of "store s"] show ?thesis by (simp add: synced_def)
next
  case False
  then show ?thesis using bs_unlock [OF assms(1)] assms(2) that
    by (auto simp: wear_leveling_unlock_def synced_def)
qed

lemma lock_state:
  assumes "inv (store s)" "synced s" "unlocked s"
  obtains b' where "wear_leveling_lock ops s = (STATUS_SUCCESS, s\<lparr>store := b', unlocked := False\<rparr>)"
    "inv b'" "image b' = image (store s)" "\<not> up b'"
  using bs_lock [OF assms(1)] assms(2,3) that by (auto simp: wear_leveling_lock_def synced_def)

lemma tail_at_cong: "inv b' \<Longrightarrow> image b' = image b \<Longrightarrow> tail_at b pre \<Longrightarrow> tail_at b' pre"
  by (simp add: tail_at_def)

lemma write_consolidated:
  assumes "tail_at (store s) []" "length (cache s) = LOGICAL c" "unlocked s" "up (store s)"
  obtains b' where "wear_leveling_write_consolidated c ops s
      = (WEAR_LEVELING_CONSOLIDATED, s\<lparr>store := b'\<rparr>)" "tail_at b' (consolidated (cache s))" "up b'"
proof -
  have L: "LOGICAL c div wsz c * wsz c = LOGICAL c" "8 div wsz c * wsz c = 8"
    using sizes div_mult_wsz by auto
  let ?h = "le_bytes 8 (fnv_64a_buf (cache s) FNV1A_64_INIT)"
  obtain b2 where 2: "backing_store_write_bulk c ops (store s) 0 (cache s) (LOGICAL c div wsz c) = (True, b2)"
    "tail_at b2 (cache s)" "up b2"
    using tail_at_write_bulk [OF assms(1), of "cache s" "LOGICAL c div wsz c"] L assms sizes(5) by auto
  obtain b3 where 3: "backing_store_write_bulk c ops b2 (LOGICAL c) ?h (8 div wsz c) = (True, b3)"
    "tail_at b3 (cache s @ ?h)" "up b3"
    using tail_at_write_bulk [OF 2(2), of ?h "8 div wsz c"] L assms(2) sizes(5) 2(3) by auto
  have "wear_leveling_write_consolidated c ops s = (WEAR_LEVELING_CONSOLIDATED, s\<lparr>store := b3\<rparr>)"
    using 2(1) 3(1) assms(3) by (simp add: wear_leveling_write_consolidated_def wear_leveling_unlock_def)
  then show ?thesis using that 3(2,3) by (simp add: consolidated_def)
qed

lemma consolidate_force:
  assumes "inv (store s)" "length (cache s) = LOGICAL c" "unlocked s" "up (store s)"
  obtains b' where "wear_leveling_consolidate_force c ops s
      = (WEAR_LEVELING_CONSOLIDATED, s\<lparr>store := b', write_address := LOGICAL c + 8\<rparr>)"
    "tail_at b' (consolidated (cache s))" "up b'"
proof -
  obtain b1 where 1: "backing_store_erase ops (store s) = (True, b1)" "inv b1"
    "image b1 = replicate (BACKING c) 0" "up b1"
    using bs_erase [OF assms(1,4)] by blast
  then have "tail_at (store (s\<lparr>store := b1\<rparr>)) []" by (simp add: tail_at_def)
  from write_consolidated [OF this] assms(2,3) 1(4) obtain b2 where
    "wear_leveling_write_consolidated c ops (s\<lparr>store := b1\<rparr>)
      = (WEAR_LEVELING_CONSOLIDATED, s\<lparr>store := b2\<rparr>)" "tail_at b2 (consolidated (cache s))" "up b2"
    by auto
  with 1(1) that [of b2] show ?thesis by (simp add: wear_leveling_consolidate_force_def)
qed

section \<open>What a store holds\<close>

text \<open>
  The data a store holds: the consolidated copy (all zero when its checksum does not match, as
  on a clean device), changed by the entries of the log.
\<close>

definition base_of :: "u8 list \<Rightarrow> u8 list" where
  "base_of h = (if le_word (drop (LOGICAL c) h) = fnv_64a_buf (take (LOGICAL c) h) FNV1A_64_INIT
                then take (LOGICAL c) h else replicate (LOGICAL c) 0)"

definition log_bytes :: "wl_entry list \<Rightarrow> u8 list" where
  "log_bytes es = concat (map (entry_bytes (BACKING_STORE_WRITE_SIZE c)) es)"

definition holds :: "'b \<Rightarrow> nat \<Rightarrow> u8 list \<Rightarrow> bool" where
  "holds b wa ch \<longleftrightarrow> (\<exists>h es. length h = LOGICAL c + 8 \<and> list_all (entry_ok c) es \<and>
     tail_at b (h @ log_bytes es) \<and> wa = length (h @ log_bytes es) \<and> wa < BACKING c \<and>
     ch = fold entry_apply es (base_of h))"

definition coherent :: "'b wear_leveling \<Rightarrow> bool" where
  "coherent s \<longleftrightarrow> holds (store s) (write_address s) (cache s) \<and> synced s"

lemma length_base_of [simp]: "length h = LOGICAL c + 8 \<Longrightarrow> length (base_of h) = LOGICAL c"
  by (simp add: base_of_def)

lemma length_fold_entry_apply:
  "list_all (entry_ok c) es \<Longrightarrow> length ch = LOGICAL c \<Longrightarrow> length (fold entry_apply es ch) = LOGICAL c"
  by (induction es arbitrary: ch) auto

lemma holds_length: "holds b wa ch \<Longrightarrow> length ch = LOGICAL c"
  by (auto simp: holds_def length_fold_entry_apply)

lemma holds_inv: "holds b wa ch \<Longrightarrow> inv b"
  by (auto simp: holds_def tail_at_def)

lemma holds_cong: "inv b' \<Longrightarrow> image b' = image b \<Longrightarrow> holds b wa ch \<Longrightarrow> holds b' wa ch"
  using tail_at_cong unfolding holds_def by blast

lemma holds_consolidated:
  assumes "tail_at b (consolidated ch)" "length ch = LOGICAL c"
  shows "holds b (LOGICAL c + 8) ch"
  unfolding holds_def
proof (intro exI conjI)
  show "list_all (entry_ok c) []" by simp
  show "tail_at b (consolidated ch @ log_bytes [])" using assms(1) by (simp add: log_bytes_def)
  show "ch = fold entry_apply [] (base_of (consolidated ch))"
    using assms(2) by (simp add: base_of_def consolidated_def layout_simps)
qed (use assms(2) sizes(5) in \<open>auto simp: consolidated_def log_bytes_def\<close>)

lemma holds_erased:
  assumes "inv b" "image b = replicate (BACKING c) 0"
  shows "holds b (LOGICAL c + 8) (replicate (LOGICAL c) 0)"
  unfolding holds_def
proof (intro exI conjI)
  show "list_all (entry_ok c) []" by simp
  show "tail_at b (replicate (LOGICAL c + 8) 0 @ log_bytes [])"
    using assms sizes by (auto simp: tail_at_def log_bytes_def mod_add_eq
        simp flip: replicate_add intro: mod_add_cong)
  show "replicate (LOGICAL c) 0 = fold entry_apply [] (base_of (replicate (LOGICAL c + 8) 0))"
    by (simp add: base_of_def)
qed (use sizes(5) in \<open>auto simp: log_bytes_def\<close>)

lemma coherent_force:
  assumes "inv (store s)" "length (cache s) = LOGICAL c" "unlocked s" "synced s"
  obtains s' where "wear_leveling_consolidate_force c ops s = (WEAR_LEVELING_CONSOLIDATED, s')"
    "coherent s'" "cache s' = cache s" "unlocked s'"
proof -
  have "up (store s)" using assms(3,4) by (simp add: synced_def)
  from consolidate_force [OF assms(1-3) this] obtain b' where
    "wear_leveling_consolidate_force c ops s
      = (WEAR_LEVELING_CONSOLIDATED, s\<lparr>store := b', write_address := LOGICAL c + 8\<rparr>)"
    "tail_at b' (consolidated (cache s))" "up b'" by blast
  with that holds_consolidated assms(2,3) show ?thesis
    by (simp add: coherent_def synced_def)
qed

section \<open>Appending entries\<close>

definition appended :: "'b wear_leveling \<Rightarrow> u8 list \<Rightarrow> wear_leveling_status_t \<times> 'b wear_leveling \<Rightarrow> bool" where
  "appended s pre r \<longleftrightarrow> cache (snd r) = cache s \<and> unlocked (snd r) \<and> synced (snd r) \<and>
     (fst r = WEAR_LEVELING_SUCCESS \<and> tail_at (store (snd r)) pre \<and>
        write_address (snd r) = length pre \<and> length pre < BACKING c
      \<or> fst r = WEAR_LEVELING_CONSOLIDATED \<and> coherent (snd r))"

lemma append_raw:
  assumes "tail_at (store s) pre" "write_address s = length pre" "length pre < BACKING c"
    and "length v = wsz c" "length (cache s) = LOGICAL c" "unlocked s" "synced s"
  shows "appended s (pre @ v) (wear_leveling_append_raw c ops s v)"
proof -
  have "up (store s)" using assms(6,7) by (simp add: synced_def)
  then obtain b1 where 1: "backing_store_write ops (store s) (length pre) v = (True, b1)"
    "tail_at b1 (pre @ v)" "up b1"
    using tail_at_write [OF assms(1,3,4)] by blast
  let ?s1 = "s\<lparr>store := b1, write_address := length pre + wsz c\<rparr>"
  have a: "wear_leveling_append_raw c ops s v = wear_leveling_consolidate_if_needed c ops ?s1"
    using 1(1) assms(2) by (simp add: wear_leveling_append_raw_def)
  have sy: "synced ?s1" using 1(3) assms(6) by (simp add: synced_def)
  show ?thesis
  proof (cases "length pre + wsz c \<ge> BACKING c")
    case False
    then show ?thesis using a 1(2) assms(4,6) sy
      by (simp add: wear_leveling_consolidate_if_needed_def appended_def)
  next
    case True
    have "inv (store ?s1)" using 1(2) by (simp add: tail_at_def)
    then obtain s2 where "wear_leveling_consolidate_force c ops ?s1 = (WEAR_LEVELING_CONSOLIDATED, s2)"
      "coherent s2" "cache s2 = cache ?s1" "unlocked s2"
      by (rule coherent_force) (use assms(5,6) sy in simp_all)
    then show ?thesis using a True
      by (simp add: wear_leveling_consolidate_if_needed_def appended_def coherent_def)
  qed
qed

lemma append_raws:
  assumes "tail_at (store s) pre" "write_address s = length pre" "length pre < BACKING c"
    and "list_all (\<lambda>v. length v = wsz c) vs" "length (cache s) = LOGICAL c" "unlocked s" "synced s"
  shows "appended s (pre @ concat vs) (append_raws c ops s vs)"
  using assms
proof (induction vs arbitrary: s pre)
  case Nil
  then show ?case by (simp add: appended_def)
next
  case (Cons v vs)
  have A: "appended s (pre @ v) (wear_leveling_append_raw c ops s v)"
    using append_raw Cons.prems by simp
  obtain st s1 where r: "wear_leveling_append_raw c ops s v = (st, s1)" by fastforce
  show ?case
  proof (cases "st = WEAR_LEVELING_SUCCESS")
    case True
    with A r have 1: "cache s1 = cache s" "unlocked s1" "tail_at (store s1) (pre @ v)"
      "write_address s1 = length (pre @ v)" "length (pre @ v) < BACKING c" "synced s1"
      by (auto simp: appended_def)
    have "appended s1 ((pre @ v) @ concat vs) (append_raws c ops s1 vs)"
      using Cons.IH [OF 1(3,4,5)] Cons.prems 1 by simp
    then show ?thesis using True r 1 by (simp add: appended_def)
  next
    case False
    with A r show ?thesis by (auto simp: appended_def)
  qed
qed

definition committed :: "'b wear_leveling \<Rightarrow> u8 list \<Rightarrow> wear_leveling_status_t \<times> 'b wear_leveling \<Rightarrow> bool" where
  "committed s ch r \<longleftrightarrow> cache (snd r) = cache s \<and> unlocked (snd r) \<and> synced (snd r) \<and>
     (fst r = WEAR_LEVELING_SUCCESS \<and> holds (store (snd r)) (write_address (snd r)) ch
      \<or> fst r = WEAR_LEVELING_CONSOLIDATED \<and> coherent (snd r))"

text \<open>A state in which entries may be appended.\<close>

definition loggable :: "'b wear_leveling \<Rightarrow> bool" where
  "loggable s \<longleftrightarrow> length (cache s) = LOGICAL c \<and> unlocked s \<and> synced s"

lemma append_entry:
  assumes "holds (store s) (write_address s) ch" "entry_ok c e" "loggable s"
    and "list_all (\<lambda>v. length v = wsz c) vs"
    and "concat vs = entry_bytes (BACKING_STORE_WRITE_SIZE c) e"
  shows "committed s (entry_apply e ch) (append_raws c ops s vs)"
proof -
  obtain h es where h: "length h = LOGICAL c + 8" "list_all (entry_ok c) es"
    "tail_at (store s) (h @ log_bytes es)" "write_address s = length (h @ log_bytes es)"
    "length (h @ log_bytes es) < BACKING c" "ch = fold entry_apply es (base_of h)"
    using assms(1) by (auto simp: holds_def)
  have "(h @ log_bytes es) @ concat vs = h @ log_bytes (es @ [e])"
    using assms(5) by (simp add: log_bytes_def)
  with append_raws [OF h(3,4,5) assms(4)] assms(3)[unfolded loggable_def]
  have "appended s (h @ log_bytes (es @ [e])) (append_raws c ops s vs)" by (simp only:)
  moreover have "holds b (length (h @ log_bytes (es @ [e]))) (entry_apply e ch)"
    if "tail_at b (h @ log_bytes (es @ [e]))" "length (h @ log_bytes (es @ [e])) < BACKING c" for b
    unfolding holds_def
    by (intro exI [of _ h] exI [of _ "es @ [e]"]) (use that h assms(2) in simp)
  ultimately show ?thesis
    unfolding appended_def committed_def by metis
qed

lemma raw_item_length [simp]: "(i + 1) * wsz c \<le> length r \<Longrightarrow> length (raw_item c r i) = wsz c"
  by (simp add: raw_item_def mem_simps add.commute)

lemma raw_items_concat:
  "k * wsz c \<le> length r \<Longrightarrow> concat (map (raw_item c r) [0..<k]) = take (k * wsz c) r"
proof (induction k)
  case (Suc k)
  have "take (Suc k * wsz c) r = take (k * wsz c) r @ take (wsz c) (drop (k * wsz c) r)"
    by (simp only: mult_Suc add.commute [of "wsz c"] take_add)
  with Suc show ?case by (simp add: raw_item_def mem_get_def)
qed simp

lemma write_raw_multibyte:
  assumes "holds (store s) (write_address s) ch" "loggable s"
    and "1 \<le> length vs" "length vs \<le> 5" "a + length vs \<le> LOGICAL c"
  shows "committed s (mem_put ch a vs) (wear_leveling_write_raw_multibyte c ops s a vs)"
proof -
  let ?k = "multibyte_size (BACKING_STORE_WRITE_SIZE c) (length vs) div wsz c"
  let ?r = "multibyte_raw a vs"
  have k: "?k * wsz c = multibyte_size (BACKING_STORE_WRITE_SIZE c) (length vs)"
    by (rule div_mult_wsz) (rule multibyte_size_bounds)
  then have k8: "?k * wsz c \<le> length ?r" using multibyte_size_bounds(1) assms(4) by simp
  have e: "entry_ok c (Multibyte a vs)" using assms by simp
  have "list_all (\<lambda>v. length v = wsz c) (map (raw_item c ?r) [0..<?k])"
  proof -
    have "(i + 1) * wsz c \<le> length ?r" if "i < ?k" for i
    proof -
      have "(i + 1) * wsz c \<le> ?k * wsz c" using that by (intro mult_le_mono1) simp
      with k8 show ?thesis by linarith
    qed
    then show ?thesis by (simp add: list_all_iff)
  qed
  moreover have "concat (map (raw_item c ?r) [0..<?k])
      = entry_bytes (BACKING_STORE_WRITE_SIZE c) (Multibyte a vs)"
    using raw_items_concat [OF k8] k by simp
  ultimately have "committed s (entry_apply (Multibyte a vs) ch)
      (append_raws c ops s (map (raw_item c ?r) [0..<?k]))"
    using append_entry [OF assms(1) e assms(2)] by blast
  then show ?thesis
    using multibyte_items [OF assms(3,4)]
    by (simp add: wear_leveling_write_raw_multibyte_def multibyte_raw_def Let_def)
qed

lemma append_single:
  assumes "holds (store s) (write_address s) ch" "entry_ok c e" "loggable s"
    and "length v = wsz c" "v = entry_bytes (BACKING_STORE_WRITE_SIZE c) e"
  shows "committed s (entry_apply e ch) (wear_leveling_append_raw c ops s v)"
proof -
  have "committed s (entry_apply e ch) (append_raws c ops s [v])"
    by (rule append_entry [OF assms(1,2,3)]) (use assms(4,5) in auto)
  then show ?thesis by (auto simp: committed_def split: prod.splits if_splits)
qed

section \<open>Writing through the log\<close>

lemma word_01_value_split:
  assumes "push_bit 8 (ucast (y :: u8)) OR ucast (x :: u8) = (v :: u16)" "v = 0 \<or> v = 1"
  shows "y = 0" "x = ucast v"
proof -
  have "ucast (drop_bit 8 v) = y"
    by (rule bit_word_eqI) (auto simp: assms(1)[symmetric] bit_simps dest: bit_imp_le_length)
  then show "y = 0" using assms(2) by auto
  show "x = ucast v"
    by (rule bit_word_eqI) (auto simp: assms(1)[symmetric] bit_simps)
qed

lemma mem_put_split:
  assumes "a + length p \<le> length m" "k \<le> length p"
  shows "mem_put m a p = mem_put (mem_put m a (take k p)) (a + k) (drop k p)"
  using mem_put_append [of a "take k p" "drop k p" m] assms by simp

text \<open>The state of the loop: the cache is ahead of the store by the bytes still to be logged.\<close>

definition pending :: "'b wear_leveling \<Rightarrow> nat \<Rightarrow> u8 list \<Rightarrow> bool" where
  "pending s a p \<longleftrightarrow> a + length p \<le> LOGICAL c \<and> unlocked s \<and> synced s \<and>
     (\<exists>ch. holds (store s) (write_address s) ch \<and> cache s = mem_put ch a p)"

definition written :: "'b wear_leveling \<Rightarrow> wear_leveling_status_t \<times> 'b wear_leveling \<Rightarrow> bool" where
  "written s r \<longleftrightarrow> cache (snd r) = cache s \<and> unlocked (snd r) \<and>
     fst r \<noteq> WEAR_LEVELING_FAILED \<and> coherent (snd r)"

lemma pending_loggable: "pending s a p \<Longrightarrow> loggable s"
  using holds_length by (auto simp: pending_def loggable_def mem_simps)

lemma committed_step:
  assumes "pending s a p" "k \<le> length p"
    and e: "\<And>ch. holds (store s) (write_address s) ch \<Longrightarrow> committed s (mem_put ch a (take k p)) r"
    and cont: "\<And>s1. pending s1 (a + k) (drop k p) \<Longrightarrow> written s1 (f s1)"
  shows "written s (if fst r \<noteq> WEAR_LEVELING_SUCCESS then r else f (snd r))"
proof -
  obtain ch where ch: "holds (store s) (write_address s) ch" "cache s = mem_put ch a p"
    and b: "a + length p \<le> LOGICAL c" using assms(1) by (auto simp: pending_def)
  have C: "committed s (mem_put ch a (take k p)) r" by (rule e [OF ch(1)])
  show ?thesis
  proof (cases "fst r = WEAR_LEVELING_SUCCESS")
    case True
    have "cache s = mem_put (mem_put ch a (take k p)) (a + k) (drop k p)"
      using ch b holds_length assms(2) by (simp add: mem_put_split)
    with C True have "pending (snd r) (a + k) (drop k p)"
      using b assms(2) by (auto simp: committed_def pending_def)
    from cont [OF this] C True show ?thesis by (simp add: committed_def written_def)
  next
    case False
    with C show ?thesis by (auto simp: committed_def written_def)
  qed
qed

lemma step_word:
  assumes "pending s a p" "is_word_01 c a p" "holds (store s) (write_address s) ch"
  shows "committed s (mem_put ch a (take 2 p)) (wear_leveling_append_raw c ops s
           (raw_item c (LOG_ENTRY_MAKE_WORD_01 (of_nat a) (push_bit 8 (ucast (p ! 1)) OR ucast (p ! 0))) 0))"
proof -
  define v where "v = (push_bit 8 (ucast (p ! 1)) OR ucast (p ! 0) :: u16)"
  have w: "BACKING_STORE_WRITE_SIZE c = WS2" "length p \<ge> 2" "even a" "a < 16384" "v = 0 \<or> v = 1"
    using assms(2) by (auto simp: is_word_01_def v_def Let_def)
  have b: "a + length p \<le> LOGICAL c" using assms(1) by (simp add: pending_def)
  have v: "p ! 1 = 0" "p ! 0 = ucast v"
    using word_01_value_split [OF v_def [symmetric] w(5)] by auto
  have p2: "take 2 p = [ucast v] @ [0]"
    using w(2) v by (intro nth_equalityI) (auto simp: nth_append less_2_cases_iff)
  have "entry_ok c (Word_01 a v)" using w b by auto
  from append_single [OF assms(3) this pending_loggable [OF assms(1)]]
  have "committed s (entry_apply (Word_01 a v) ch)
      (wear_leveling_append_raw c ops s (raw_item c (LOG_ENTRY_MAKE_WORD_01 (of_nat a) v) 0))"
    using w by (simp add: raw_item_def mem_get_def)
  moreover have "mem_put ch a (take 2 p) = entry_apply (Word_01 a v) ch"
    unfolding p2 using mem_put_append [of a "[ucast v]" "[0]" ch] w b holds_length [OF assms(3)]
    by (simp add: mem_put_one)
  ultimately show ?thesis by (simp add: v_def)
qed

lemma step_opt:
  assumes "pending s a p" "p \<noteq> []" "BACKING_STORE_WRITE_SIZE c = WS2" "a < 64"
    and "holds (store s) (write_address s) ch"
  shows "committed s (mem_put ch a (take 1 p)) (wear_leveling_append_raw c ops s
           (raw_item c (LOG_ENTRY_MAKE_OPTIMIZED_64 (of_nat a) (p ! 0)) 0))"
proof -
  have p1: "take 1 p = [p ! 0]" using assms(2) by (cases p) auto
  have al: "a < LOGICAL c" using assms(1,2) by (cases p) (auto simp: pending_def)
  then have "entry_ok c (Optimized_64 a (p ! 0))" using assms(3,4) by simp
  from append_single [OF assms(5) this pending_loggable [OF assms(1)]]
  have "committed s (entry_apply (Optimized_64 a (p ! 0)) ch) (wear_leveling_append_raw c ops s
      (raw_item c (LOG_ENTRY_MAKE_OPTIMIZED_64 (of_nat a) (p ! 0)) 0))"
    using assms(3) by (simp add: raw_item_def mem_get_def)
  then show ?thesis unfolding p1 using al holds_length [OF assms(5)] by (simp add: mem_put_one)
qed

lemma write_raw:
  "pending s a p \<Longrightarrow> written s (wear_leveling_write_raw c ops s a p)"
proof (induction "length p" arbitrary: s a p rule: less_induct)
  case less
  note P = less.prems
  have cont: "written s1 (wear_leveling_write_raw c ops s1 (a + k) (drop k p))"
    if "pending s1 (a + k) (drop k p)" "0 < k" "p \<noteq> []" for s1 k
    using less.hyps [OF _ that(1)] that(2,3) by simp
  consider (empty) "p = []" | (word) "is_word_01 c a p"
    | (opt) "\<not> is_word_01 c a p" "p \<noteq> []" "BACKING_STORE_WRITE_SIZE c = WS2" "a < 64"
    | (multi) "\<not> is_word_01 c a p" "p \<noteq> []" "\<not> (BACKING_STORE_WRITE_SIZE c = WS2 \<and> a < 64)"
    by blast
  then show ?case
  proof cases
    case empty
    then have "holds (store s) (write_address s) (cache s)"
      using P holds_length by (auto simp: pending_def mem_simps)
    with empty show ?thesis
      using P by (simp add: wear_leveling_write_raw.simps written_def coherent_def pending_def)
  next
    case word
    then have "2 \<le> length p" "p \<noteq> []" by (auto simp: is_word_01_def Let_def)
    then show ?thesis unfolding write_raw_word [OF word refl]
      by (intro committed_step [OF P _ step_word [OF P word]] cont) simp_all
  next
    case opt
    then have "1 \<le> length p" by (cases p) auto
    then show ?thesis unfolding write_raw_opt [OF opt refl]
      using opt(2) by (intro committed_step [OF P _ step_opt [OF P opt(2,3,4)]] cont) simp_all
  next
    case multi
    define k where "k = (if length p \<ge> 5 then 5 else length p)"
    have k: "k \<le> length p" "0 < k" "k \<le> 5" using multi(2) by (auto simp: k_def)
    have C: "committed s (mem_put ch a (take k p)) (wear_leveling_write_raw_multibyte c ops s a (take k p))"
      if "holds (store s) (write_address s) ch" for ch
      by (rule write_raw_multibyte [OF that pending_loggable [OF P]]) (use k P in \<open>auto simp: pending_def\<close>)
    show ?thesis unfolding write_raw_multi [OF multi k_def refl]
      using k multi(2) by (intro committed_step [OF P _ C] cont) simp_all
  qed
qed

section \<open>The public operations keep the store coherent\<close>

lemma in_bounds: "a + n \<le> LOGICAL c \<Longrightarrow> \<not> wl_out_of_bounds c a n"
  using sizes(6) by (simp add: wl_out_of_bounds_def)

lemma coherent_not_full: "coherent s \<Longrightarrow> write_address s < BACKING c"
  by (auto simp: coherent_def holds_def)

lemma coherent_length: "coherent s \<Longrightarrow> length (cache s) = LOGICAL c"
  by (auto simp: coherent_def dest: holds_length)

lemma coherent_if_needed:
  "coherent s \<Longrightarrow> wear_leveling_consolidate_if_needed c ops s = (WEAR_LEVELING_SUCCESS, s)"
  using coherent_not_full [of s] by (simp add: wear_leveling_consolidate_if_needed_def)

lemma coherent_relock:
  assumes "coherent s" "inv b" "image b = image (store s)" "u = up b"
  shows "coherent (s\<lparr>store := b, unlocked := u\<rparr>)"
  using assms holds_cong [OF assms(2,3)] by (simp add: coherent_def synced_def)

lemma write_ok:
  assumes "coherent s" "a + length v \<le> LOGICAL c"
  shows "\<exists>st s'. wear_leveling_write c ops s a v = Some (st, s') \<and> st \<noteq> WEAR_LEVELING_FAILED \<and>
     coherent s' \<and> cache s' = mem_put (cache s) a v \<and> unlocked s' = unlocked s"
proof (cases "mem_get (cache s) a (length v) = v")
  case True
  then have "mem_put (cache s) a v = cache s"
    using mem_put_self [of a "length v" "cache s"] assms coherent_length by simp
  with True show ?thesis using assms in_bounds coherent_length
    by (simp add: wear_leveling_write_def)
next
  case False
  let ?s1 = "s\<lparr>cache := mem_put (cache s) a v\<rparr>"
  have "inv (store ?s1)" using assms(1) by (auto simp: coherent_def dest: holds_inv)
  moreover have "synced ?s1" using assms(1) by (simp add: coherent_def synced_def)
  ultimately obtain b1 where u: "wear_leveling_unlock ops ?s1
      = (if unlocked ?s1 then STATUS_UNCHANGED else STATUS_SUCCESS, ?s1\<lparr>store := b1, unlocked := True\<rparr>)"
    "inv b1" "image b1 = image (store ?s1)" "up b1"
    by (rule unlock_state)
  let ?s2 = "?s1\<lparr>store := b1, unlocked := True\<rparr>"
  have "holds (store ?s2) (write_address ?s2) (cache s)"
    using holds_cong [of b1 "store s"] u assms(1) by (auto simp: coherent_def)
  then have "pending ?s2 a v" using assms(2) u(4) by (auto simp: pending_def synced_def)
  then have "written ?s2 (wear_leveling_write_raw c ops ?s2 a v)" by (rule write_raw)
  moreover obtain st s3 where r: "wear_leveling_write_raw c ops ?s2 a v = (st, s3)" by fastforce
  ultimately have w: "cache s3 = mem_put (cache s) a v" "unlocked s3" "st \<noteq> WEAR_LEVELING_FAILED"
    "coherent s3" by (auto simp: written_def)
  have W: "wear_leveling_write c ops s a v = (if unlocked s then Some (st, s3) else
      (let (l, s5) = wear_leveling_lock ops s3
       in Some (if l = STATUS_FAILURE then WEAR_LEVELING_FAILED else st, s5)))"
    using False u(1) r w(3) coherent_if_needed [OF w(4)] in_bounds [OF assms(2)] assms(2)
      coherent_length [OF assms(1)]
    by (cases "wear_leveling_lock ops s3"; cases st) (simp_all add: wear_leveling_write_def Let_def)
  show ?thesis
  proof (cases "unlocked s")
    case True
    with W w show ?thesis by simp
  next
    case nl: False
    have "inv (store s3)" using w(4) by (auto simp: coherent_def dest: holds_inv)
    then obtain b4 where "wear_leveling_lock ops s3 = (STATUS_SUCCESS, s3\<lparr>store := b4, unlocked := False\<rparr>)"
      "inv b4" "image b4 = image (store s3)" "\<not> up b4"
      using lock_state w(2,4) by (auto simp: coherent_def)
    with W nl w coherent_relock [OF w(4), of b4 False] show ?thesis by simp
  qed
qed

lemma read_ok:
  "coherent s \<Longrightarrow> a + length buf \<le> LOGICAL c \<Longrightarrow>
    wear_leveling_read c s a buf = Some (WEAR_LEVELING_SUCCESS, mem_get (cache s) a (length buf))"
  using in_bounds coherent_length by (simp add: wear_leveling_read_def)

section \<open>Playback\<close>

text \<open>The reads of one entry, in terms of its bytes.\<close>

definition entry_at :: "'b \<Rightarrow> nat \<Rightarrow> u8 list \<Rightarrow> bool" where
  "entry_at b p r \<longleftrightarrow> (\<forall>k. k mod wsz c = 0 \<and> k + wsz c \<le> length r \<longrightarrow>
     backing_store_read ops b (p + k) = Some (mem_get r k (wsz c)))"

lemma entry_atD:
  "entry_at b p r \<Longrightarrow> k mod wsz c = 0 \<Longrightarrow> k + wsz c \<le> length r \<Longrightarrow>
    backing_store_read ops b (p + k) = Some (mem_get r k (wsz c))"
  by (simp add: entry_at_def)

lemma entry_at_tail:
  assumes "tail_at b (pre @ r @ post)" "length pre mod wsz c = 0"
  shows "entry_at b (length pre) r"
  unfolding entry_at_def
proof (intro allI impI)
  fix k assume k: "k mod wsz c = 0 \<and> k + wsz c \<le> length r"
  have i: "image b = pre @ r @ post @ replicate (BACKING c - length (pre @ r @ post)) 0"
    using assms(1) by (simp add: tail_at_def)
  have "length pre + k + wsz c \<le> BACKING c" using assms(1) k by (simp add: tail_at_def)
  moreover have "(length pre + k) mod wsz c = 0" using assms(2) k by (simp add: mod_eq_0_iff_dvd)
  ultimately have "backing_store_read ops b (length pre + k) = Some (mem_get (image b) (length pre + k) (wsz c))"
    using bs_read assms(1) by (simp add: tail_at_def)
  moreover have "mem_get (image b) (length pre + k) (wsz c) = mem_get r k (wsz c)"
    unfolding i using k by (simp add: mem_get_def)
  ultimately show "backing_store_read ops b (length pre + k) = Some (mem_get r k (wsz c))" by simp
qed

lemma playback_multibyte:
  assumes "entry_ok c (Multibyte a vs)"
    and "entry_at b p (entry_bytes (BACKING_STORE_WRITE_SIZE c) (Multibyte a vs))"
  shows "playback_entry c ops b (p + wsz c) (mem_get (multibyte_raw a vs) 0 (wsz c)) ch
    = Some (True, p + multibyte_size (BACKING_STORE_WRITE_SIZE c) (length vs), mem_put ch a vs)"
proof -
  let ?R = "multibyte_raw a vs" and ?l = "length vs"
  have l: "1 \<le> ?l" "?l \<le> 5" "a + ?l \<le> LOGICAL c" using assms(1) by auto
  obtain r0 r1 r2 r3 r4 r5 r6 r7 where R: "?R = [r0, r1, r2, r3, r4, r5, r6, r7]"
    using length_multibyte_raw [OF l(2), of a]
    by (auto simp: eval_nat_numeral length_Suc_conv)
  let ?M = "LOG_ENTRY_MAKE_MULTIBYTE (of_nat a) (of_nat ?l)"
  have M: "r0 = ?M ! 0" "r1 = ?M ! 1" "r2 = ?M ! 2"
    using multibyte_raw_head [OF l(2), of 0 a] multibyte_raw_head [OF l(2), of 1 a]
      multibyte_raw_head [OF l(2), of 2 a] by (simp_all add: R)
  have n: "unat (of_nat a :: u32) = a" "unat (of_nat ?l :: u32) = ?l"
    using l sizes(6) by (simp_all add: unat_of_nat_small)
  have T: "LOG_ENTRY_GET_TYPE (r0 # xs) = LOG_ENTRY_TYPE_MULTIBYTE" for xs
    using accessors_prefix(1) [of "r0 # xs" ?M] M(1) multibyte_type by simp
  have A: "unat (LOG_ENTRY_MULTIBYTE_GET_ADDRESS (r0 # r1 # r2 # xs)) = a" for xs
    using accessors_prefix(3) [of "r0 # r1 # r2 # xs" ?M] M l sizes(6) n multibyte_address [of "of_nat a"]
    by simp
  have "unat (LOG_ENTRY_MULTIBYTE_GET_LENGTH ?M) = ?l"
    using multibyte_length [of "of_nat ?l"] l n
    by (simp add: unsigned_ucast_eq take_bit_nat_eq_self)
  then have Le: "unat (LOG_ENTRY_MULTIBYTE_GET_LENGTH (r0 # xs)) = ?l" for xs
    using accessors_prefix(2) [of "r0 # xs" ?M] M(1) by simp
  have D: "mem_get ?R 3 ?l = vs" using multibyte_raw_data [OF l(2)] .
  have rd: "backing_store_read ops b (p + k) = Some (mem_get ?R k (wsz c))"
    if "k mod wsz c = 0" "k + wsz c \<le> multibyte_size (BACKING_STORE_WRITE_SIZE c) ?l" for k
    using entry_atD [OF assms(2) that(1)] that(2) multibyte_size_bounds(1)
      length_multibyte_raw [OF l(2), of a] by (simp add: mem_get_take min_absorb1)
  have lst: "mem_get (take (multibyte_size w ?l) ?R) 3 ?l = vs" for w
    using D multibyte_size_covers [OF l(2), of w] by (simp add: mem_get_take)
  have l5: "?l \<in> {1, 2, 3, 4, 5}" using l by auto
  show ?thesis
  proof (cases "BACKING_STORE_WRITE_SIZE c")
    case WS8
    with l(2,3) D show ?thesis
      by (simp add: playback_entry_def playback_more_def T A Le R mem_get_def multibyte_size_def Let_def)
  next
    case WS4
    from l5 show ?thesis using l(3) WS4 rd [of 4] lst [of WS4]
      by (elim insertE emptyE)
        (auto simp: playback_entry_def playback_more_def T A Le R mem_get_def multibyte_size_def Let_def)
  next
    case WS2
    from l5 show ?thesis using l(3) WS2 rd [of 2] rd [of 4, unfolded add.commute [of p]]
        rd [of 6, unfolded add.commute [of p]] lst [of WS2]
      by (elim insertE emptyE)
        (auto simp: playback_entry_def playback_more_def T A Le R mem_get_def multibyte_size_def Let_def
          add.commute [of p]
          simp del: add_2_eq_Suc add_2_eq_Suc')
  qed
qed

lemma playback_one:
  assumes "entry_ok c e" "tail_at b (pre @ entry_bytes (BACKING_STORE_WRITE_SIZE c) e @ post)"
    and "length pre mod wsz c = 0" "length ch = LOGICAL c"
  shows "playback_loop c ops b (length pre) ch =
    playback_loop c ops b (length (pre @ entry_bytes (BACKING_STORE_WRITE_SIZE c) e)) (entry_apply e ch)"
proof -
  let ?eb = "entry_bytes (BACKING_STORE_WRITE_SIZE c) e" and ?p = "length pre"
  have E: "entry_at b ?p ?eb" by (rule entry_at_tail [OF assms(2,3)])
  have w: "wsz c \<le> length ?eb" by (rule length_entry_bytes(1) [OF assms(1)])
  have "?p + length ?eb \<le> BACKING c" using assms(2) by (simp add: tail_at_def)
  with w ws_pos [of "BACKING_STORE_WRITE_SIZE c"] have B: "?p < BACKING c" by linarith
  have r: "backing_store_read ops b ?p = Some (mem_get ?eb 0 (wsz c))"
    using entry_atD [OF E, of 0] w by simp
  have "mem_get ?eb 0 (wsz c) ! 0 \<noteq> 0" "0 < length (mem_get ?eb 0 (wsz c))"
    using entry_first_byte [OF assms(1)] w ws_pos [of "BACKING_STORE_WRITE_SIZE c"]
    by (simp_all add: mem_get_def)
  then have nz: "\<not> list_all (\<lambda>x. x = 0) (mem_get ?eb 0 (wsz c))"
    by (auto simp: list_all_iff)
  have pe: "playback_entry c ops b (?p + wsz c) (mem_get ?eb 0 (wsz c)) ch
      = Some (True, ?p + length ?eb, entry_apply e ch)"
  proof (cases e)
    case (Multibyte a vs)
    have "mem_get ?eb 0 (wsz c) = mem_get (multibyte_raw a vs) 0 (wsz c)"
      using Multibyte multibyte_size_bounds(2) by (simp add: mem_get_take)
    moreover have "length ?eb = multibyte_size (BACKING_STORE_WRITE_SIZE c) (length vs)"
      using Multibyte assms(1) multibyte_size_bounds(1) by (simp add: min_absorb2)
    ultimately show ?thesis
      using playback_multibyte assms(1) E Multibyte by simp
  next
    case (Optimized_64 a v)
    let ?M = "LOG_ENTRY_MAKE_OPTIMIZED_64 (of_nat a) v"
    define V where "V = mem_get ?eb 0 (wsz c)"
    have V: "V ! 0 = ?M ! 0" "V ! 1 = ?M ! 1" "length ?eb = wsz c"
      using Optimized_64 assms(1) by (auto simp: V_def mem_get_def)
    have a: "unat (of_nat a :: u32) = a" "BACKING_STORE_WRITE_SIZE c = WS2" "a < 64" "a < LOGICAL c"
      using Optimized_64 assms(1) by (simp_all add: unat_of_nat_small)
    have "LOG_ENTRY_GET_TYPE V = LOG_ENTRY_TYPE_OPTIMIZED_64"
      "unat (LOG_ENTRY_OPTIMIZED_64_GET_ADDRESS V) = a" "LOG_ENTRY_OPTIMIZED_64_GET_VALUE V = v"
      using accessors_prefix(1,4) [OF V(1)] V(2) optimized_64_type optimized_64_address
        optimized_64_value a by (simp_all add: LOG_ENTRY_OPTIMIZED_64_GET_VALUE_def)
    then show ?thesis
      unfolding V_def [symmetric] using a V(3) Optimized_64 by (simp add: playback_entry_def)
  next
    case (Word_01 a v)
    let ?M = "LOG_ENTRY_MAKE_WORD_01 (of_nat a) v"
    define V where "V = mem_get ?eb 0 (wsz c)"
    have V: "V ! 0 = ?M ! 0" "V ! 1 = ?M ! 1" "length ?eb = wsz c"
      using Word_01 assms(1) by (auto simp: V_def mem_get_def)
    have a: "unat (of_nat a :: u32) = a" "BACKING_STORE_WRITE_SIZE c = WS2" "a < 16384" "even a"
      "a + 1 < LOGICAL c" "v = 0 \<or> v = 1"
      using Word_01 assms(1) by (simp_all add: unat_of_nat_small)
    have "LOG_ENTRY_GET_TYPE V = LOG_ENTRY_TYPE_WORD_01"
      "unat (LOG_ENTRY_WORD_01_GET_ADDRESS V) = a" "LOG_ENTRY_WORD_01_GET_VALUE V = ucast v"
      using accessors_prefix(1,6) [OF V(1)] accessors_prefix(5) [OF V(1,2)] word_01_type
        word_01_address [of "of_nat a" v] word_01_value [OF a(6)] a by simp_all
    then show ?thesis
      unfolding V_def [symmetric] using a V(3) Word_01 by (simp add: playback_entry_def)
  qed
  show ?thesis
    by (subst playback_loop.simps) (simp add: B r nz pe)
qed

lemma playback_entries:
  assumes "list_all (entry_ok c) es" "tail_at b (pre @ log_bytes es)"
    and "length pre mod wsz c = 0" "length ch = LOGICAL c"
  shows "playback_loop c ops b (length pre) ch =
    playback_loop c ops b (length (pre @ log_bytes es)) (fold entry_apply es ch)"
  using assms
proof (induction es arbitrary: pre ch)
  case Nil
  then show ?case by (simp add: log_bytes_def)
next
  case (Cons e es)
  let ?eb = "entry_bytes (BACKING_STORE_WRITE_SIZE c) e"
  have t: "tail_at b (pre @ ?eb @ log_bytes es)" using Cons.prems(2) by (simp add: log_bytes_def)
  have e: "entry_ok c e" using Cons.prems(1) by simp
  have m: "length (pre @ ?eb) mod wsz c = 0"
    using Cons.prems(3) length_entry_bytes(2) [OF e] by (simp add: mod_eq_0_iff_dvd)
  have "playback_loop c ops b (length (pre @ ?eb)) (entry_apply e ch) =
      playback_loop c ops b (length ((pre @ ?eb) @ log_bytes es)) (fold entry_apply es (entry_apply e ch))"
    by (rule Cons.IH) (use Cons.prems t m e in auto)
  with playback_one [OF e t Cons.prems(3,4)] show ?case by (simp add: log_bytes_def)
qed

text \<open>A power cycle: whatever the RAM holds, initialisation restores what the store holds.\<close>

lemma playback_holds:
  assumes "holds b wa ch" "length h = LOGICAL c + 8" "list_all (entry_ok c) es"
    and "tail_at b (h @ log_bytes es)" "wa = length (h @ log_bytes es)" "wa < BACKING c"
  shows "playback_loop c ops b (LOGICAL c + 8) (base_of h)
    = Some (WEAR_LEVELING_SUCCESS, wa, fold entry_apply es (base_of h))"
proof -
  have m: "length h mod wsz c = 0" using assms(2) sizes(1,3) by (simp add: mod_eq_0_iff_dvd)
  have aw: "wa mod wsz c = 0" using assms(4,5) by (simp add: tail_at_def)
  have f: "wa + wsz c \<le> BACKING c" by (rule aligned_fits [OF assms(6) aw])
  have "mem_get (image b) wa (wsz c) = replicate (wsz c) 0"
    using assms(4,5) f by (simp add: tail_at_def mem_get_def min_absorb1)
  then have r: "backing_store_read ops b wa = Some (replicate (wsz c) 0)"
    using bs_read [OF _ aw f] assms(4) by (simp add: tail_at_def)
  have "playback_loop c ops b wa x = Some (WEAR_LEVELING_SUCCESS, wa, x)" for x
    by (subst playback_loop.simps) (simp add: assms(6) r list_all_iff)
  then show ?thesis
    using playback_entries [OF assms(3,4) m length_base_of [OF assms(2)]] assms(2,5) by simp
qed

lemma init_restores:
  assumes "holds b wa ch" "store s = reset b"
  shows "\<exists>b'. wear_leveling_init c ops s = Some (WEAR_LEVELING_SUCCESS,
     s\<lparr>cache := ch, write_address := wa, store := b'\<rparr>) \<and> holds b' wa ch \<and> \<not> up b'"
proof -
  obtain b1 where 1: "backing_store_init ops (reset b) = (True, b1)" "inv b1" "image b1 = image b" "\<not> up b1"
    using bs_init holds_inv [OF assms(1)] by blast
  have H: "holds b1 wa ch" by (rule holds_cong [OF 1(2,3) assms(1)])
  then obtain h es where h: "length h = LOGICAL c + 8" "list_all (entry_ok c) es"
    "tail_at b1 (h @ log_bytes es)" "wa = length (h @ log_bytes es)" "wa < BACKING c"
    "ch = fold entry_apply es (base_of h)" by (auto simp: holds_def)
  have i: "image b1 = h @ log_bytes es @ replicate (BACKING c - length (h @ log_bytes es)) 0"
    using h(3) by (simp add: tail_at_def)
  have g: "mem_get (image b1) 0 (LOGICAL c) = take (LOGICAL c) h"
    "mem_get (image b1) (LOGICAL c) 8 = drop (LOGICAL c) h"
    using h(1) unfolding i by (simp_all add: mem_get_def)
  have rb: "backing_store_read_bulk c ops b1 0 (LOGICAL c div wsz c) = (True, take (LOGICAL c) h)"
    "backing_store_read_bulk c ops b1 (LOGICAL c) (8 div wsz c) = (True, drop (LOGICAL c) h)"
    using read_bulk [OF 1(2), of 0 "LOGICAL c div wsz c"]
      read_bulk [OF 1(2), of "LOGICAL c" "8 div wsz c"] sizes g
    by (simp_all add: div_mult_wsz)
  have rc: "\<exists>w. wear_leveling_read_consolidated c ops s2
      = (WEAR_LEVELING_SUCCESS, s2\<lparr>cache := base_of h, write_address := w\<rparr>)" if "store s2 = b1" for s2
    using rb h(1) that
    by (cases s2) (auto simp: wear_leveling_read_consolidated_def base_of_def
        wear_leveling_clear_cache_def Let_def)
  have pl: "playback_loop c ops b1 (LOGICAL c + 8) (base_of h) = Some (WEAR_LEVELING_SUCCESS, wa, ch)"
    using playback_holds [OF H h(1-5)] h(6) by simp
  have "wear_leveling_init c ops s = Some (WEAR_LEVELING_SUCCESS,
      s\<lparr>cache := ch, write_address := wa, store := b1\<rparr>)"
    using rc [of "wear_leveling_clear_cache c s\<lparr>store := b1\<rparr>"] 1(1) pl h(5) assms(2)
    by (cases s) (auto simp: wear_leveling_init_def wear_leveling_playback_log_def Let_def
        wear_leveling_clear_cache_def wear_leveling_consolidate_if_needed_def)
  with H 1(4) show ?thesis by blast
qed

lemma erase_ok:
  assumes "coherent s"
  shows "\<exists>s'. wear_leveling_erase c ops s = (WEAR_LEVELING_SUCCESS, s') \<and> coherent s' \<and>
     cache s' = replicate (LOGICAL c) 0 \<and> unlocked s' = unlocked s"
proof -
  have "inv (store s)" "synced s" using assms by (auto simp: coherent_def dest: holds_inv)
  then obtain b1 where u: "wear_leveling_unlock ops s
      = (if unlocked s then STATUS_UNCHANGED else STATUS_SUCCESS, s\<lparr>store := b1, unlocked := True\<rparr>)"
    "inv b1" "image b1 = image (store s)" "up b1" by (rule unlock_state)
  obtain b2 where e: "backing_store_erase ops b1 = (True, b2)" "inv b2" "image b2 = replicate (BACKING c) 0" "up b2"
    using bs_erase [OF u(2,4)] by blast
  let ?s2 = "wear_leveling_clear_cache c (s\<lparr>store := b2, unlocked := True\<rparr>)"
  have H: "coherent ?s2"
    using holds_erased [OF e(2,3)] e(4)
    by (simp add: coherent_def synced_def wear_leveling_clear_cache_def)
  obtain b3 where l: "wear_leveling_lock ops ?s2 = (STATUS_SUCCESS, ?s2\<lparr>store := b3, unlocked := False\<rparr>)"
    "inv b3" "image b3 = image (store ?s2)" "\<not> up b3"
    using lock_state [of ?s2] e(2) H by (auto simp: wear_leveling_clear_cache_def coherent_def)
  have swap: "s\<lparr>unlocked := True, store := b2\<rparr> = s\<lparr>store := b2, unlocked := True\<rparr>" by (cases s) simp
  have E: "wear_leveling_erase c ops s = (WEAR_LEVELING_SUCCESS,
      if unlocked s then ?s2 else ?s2\<lparr>store := b3, unlocked := False\<rparr>)"
    using u(1) e(1) l(1) by (simp add: wear_leveling_erase_def swap)
  show ?thesis
  proof (cases "unlocked s")
    case True
    with E H show ?thesis by (simp add: wear_leveling_clear_cache_def)
  next
    case False
    with E coherent_relock [OF H l(2,3), of False] l(4) show ?thesis by (simp add: wear_leveling_clear_cache_def)
  qed
qed

end

end
