(* ===== verification/Wear_Leveling_Efl.thy ===== *)
theory Wear_Leveling_Efl
  imports Wear_Leveling_Store
begin

text \<open>
  \<open>platforms/chibios/drivers/wear_leveling/wear_leveling_efl.c\<close>: the backing store on the
  embedded flash of an ARM microcontroller, driven through the ChibiOS HAL. The HAL is a git
  submodule, so its operations are a parameter (\<open>efl_hal\<close>) with its documented behaviour as the
  locale \<open>embedded_flash\<close>. The variant without \<open>WEAR_LEVELING_EFL_FIRST_SECTOR\<close> is modelled: the
  driver searches the flash backwards for enough sectors. \<open>chSysHalt\<close> is the result \<open>None\<close>.
\<close>

datatype flash_error_t = FLASH_NO_ERROR | FLASH_BUSY_ERASING | FLASH_ERROR

text \<open>
  \<open>flash_load h a n\<close> is the dereference of a mapped flash address: the bytes, and whether the
  ECC error interrupt fired meanwhile (which calls \<open>backing_store_signal_ecc_error\<close>).
\<close>

record 'h efl_hal =
  eflStart :: "'h \<Rightarrow> bool \<times> 'h"
  eflStop :: "'h \<Rightarrow> 'h"
  attr_erased_is_one :: bool
  sectors_count :: nat
  flashGetSectorSize :: "nat \<Rightarrow> nat"
  flashGetSectorOffset :: "nat \<Rightarrow> nat"
  flashStartEraseSector :: "'h \<Rightarrow> nat \<Rightarrow> flash_error_t \<times> 'h"
  flashWaitErase :: "'h \<Rightarrow> flash_error_t \<times> 'h"
  flashProgram :: "'h \<Rightarrow> nat \<Rightarrow> u8 list \<Rightarrow> flash_error_t \<times> 'h"
  flash_load :: "'h \<Rightarrow> nat \<Rightarrow> nat \<Rightarrow> u8 list \<times> bool"

record efl_config =
  efl_wl :: wl_config
  detect_flash_size :: nat
  OMIT_LAST_SECTOR_COUNT :: nat

text \<open>The static variables of the driver, with the flash device itself as \<open>hal\<close>.\<close>

record 'h efl =
  hal :: 'h
  base_offset :: nat
  first_sector :: nat
  sector_count :: nat
  flash_erased_is_one :: bool
  is_issuing_read :: bool
  ecc_error_occurred :: bool

definition efl_reset :: "'h efl \<Rightarrow> 'h efl" where
  "efl_reset s = \<lparr>hal = hal s, base_offset = 2 ^ 32 - 1, first_sector = 2 ^ 16 - 1,
     sector_count = 2 ^ 16 - 1, flash_erased_is_one = False, is_issuing_read = False,
     ecc_error_occurred = False\<rparr>"

definition efl_backing_store_lock :: "'h efl_hal \<Rightarrow> 'h efl \<Rightarrow> bool \<times> 'h efl" where
  "efl_backing_store_lock H s = (True, s\<lparr>hal := eflStop H (hal s)\<rparr>)"

definition efl_backing_store_unlock :: "'h efl_hal \<Rightarrow> 'h efl \<Rightarrow> bool \<times> 'h efl" where
  "efl_backing_store_unlock H s =
    (let (ok, h) = eflStart H (hal s) in (ok, s\<lparr>hal := h\<rparr>))"

text \<open>
  The backwards search of \<open>backing_store_init\<close>: \<open>last_sector\<close>, the loop counter \<open>i\<close>, the bytes
  counted so far and \<open>first_sector\<close>; the result is \<open>first_sector\<close> and, when the loop ended with
  \<open>break\<close>, the sector count and base offset.
\<close>

function efl_search ::
    "'h efl_hal \<Rightarrow> nat \<Rightarrow> nat \<Rightarrow> nat \<Rightarrow> nat \<Rightarrow> nat \<Rightarrow> nat \<Rightarrow> nat \<times> (nat \<times> nat) option" where
  "efl_search H flash_size needed lst i counter first =
    (if i < lst then
       let first' = lst - i - 1
       in if flashGetSectorOffset H first' \<ge> flash_size then
            efl_search H flash_size needed first' (i + 1) counter first'
          else
            let counter' = counter + flashGetSectorSize H first'
            in if counter' \<ge> needed then
                 (first', Some (lst - first', flashGetSectorOffset H first'))
               else efl_search H flash_size needed lst (i + 1) counter' first'
     else (first, None))"
  by pat_completeness auto
termination
  by (relation "measure (\<lambda>(H, fs, b, lst, i, counter, first). lst - i)") auto

declare efl_search.simps [simp del]

definition efl_backing_store_init :: "efl_config \<Rightarrow> 'h efl_hal \<Rightarrow> 'h efl \<Rightarrow> (bool \<times> 'h efl) option"
  where
  "efl_backing_store_init C H s =
    (let s1 = snd (efl_backing_store_lock H s);
         s2 = s1\<lparr>flash_erased_is_one := attr_erased_is_one H\<rparr>
     in if OMIT_LAST_SECTOR_COUNT C \<ge> sectors_count H then None
        else
          (case efl_search H (detect_flash_size C) (BACKING (efl_wl C))
                  (sectors_count H - OMIT_LAST_SECTOR_COUNT C) 0 0 (first_sector s2) of
             (first, None) \<Rightarrow> Some (True, s2\<lparr>first_sector := first\<rparr>)
           | (first, Some (n, base)) \<Rightarrow>
               Some (True, s2\<lparr>first_sector := first, sector_count := n, base_offset := base\<rparr>)))"

fun efl_erase_loop :: "'h efl_hal \<Rightarrow> 'h \<Rightarrow> nat \<Rightarrow> nat \<Rightarrow> bool \<Rightarrow> bool \<times> 'h" where
  "efl_erase_loop H h sector 0 ret = (ret, h)"
| "efl_erase_loop H h sector (Suc n) ret =
    (let (st1, h1) = flashStartEraseSector H h sector;
         ret1 = (if st1 \<noteq> FLASH_NO_ERROR \<and> st1 \<noteq> FLASH_BUSY_ERASING then False else ret);
         (st2, h2) = flashWaitErase H h1;
         ret2 = (if st2 \<noteq> FLASH_NO_ERROR \<and> st2 \<noteq> FLASH_BUSY_ERASING then False else ret1)
     in efl_erase_loop H h2 (sector + 1) n ret2)"

definition efl_backing_store_erase :: "'h efl_hal \<Rightarrow> 'h efl \<Rightarrow> bool \<times> 'h efl" where
  "efl_backing_store_erase H s =
    (let (ret, h) = efl_erase_loop H (hal s) (first_sector s) (sector_count s) True
     in (ret, s\<lparr>hal := h\<rparr>))"

definition complement :: "bool \<Rightarrow> u8 list \<Rightarrow> u8 list" where
  "complement one bs = (if one then map (\<lambda>x. NOT x) bs else bs)"

definition efl_backing_store_write :: "'h efl_hal \<Rightarrow> 'h efl \<Rightarrow> nat \<Rightarrow> u8 list \<Rightarrow> bool \<times> 'h efl"
  where
  "efl_backing_store_write H s address v =
    (let offset = base_offset s + address;
         (st, h) = flashProgram H (hal s) offset (complement (flash_erased_is_one s) v)
     in (st = FLASH_NO_ERROR, s\<lparr>hal := h\<rparr>))"

text \<open>
  \<open>backing_store_safe_read_from_location\<close> and \<open>backing_store_read\<close>; \<open>n\<close> is the size of a
  \<open>backing_store_int_t\<close>. An ECC error during the load makes the value zero and the read fail.
\<close>

definition backing_store_safe_read_from_location ::
    "'h efl_hal \<Rightarrow> 'h efl \<Rightarrow> nat \<Rightarrow> nat \<Rightarrow> u8 list \<times> 'h efl" where
  "backing_store_safe_read_from_location H s loc n =
    (let s1 = s\<lparr>is_issuing_read := True, ecc_error_occurred := False\<rparr>;
         (bs, ecc) = flash_load H (hal s1) loc n;
         s2 = s1\<lparr>ecc_error_occurred := ecc\<rparr>
     in (complement (flash_erased_is_one s) bs, s2\<lparr>is_issuing_read := False\<rparr>))"

definition efl_backing_store_read ::
    "'h efl_hal \<Rightarrow> 'h efl \<Rightarrow> nat \<Rightarrow> nat \<Rightarrow> (bool \<times> u8 list) \<times> 'h efl" where
  "efl_backing_store_read H s address n =
    (let offset = base_offset s + address;
         (tmp, s1) = backing_store_safe_read_from_location H s offset n
     in if ecc_error_occurred s1
        then ((False, replicate n 0), s1\<lparr>ecc_error_occurred := False\<rparr>)
        else ((True, tmp), s1))"

text \<open>
  The driver as the backing store of the wear-levelling layer. A read leaves the state as it was
  (\<open>efl_read_state\<close>), so the interface needs no state for it; a halted system never returns to
  the caller.
\<close>

definition efl_ops :: "efl_config \<Rightarrow> 'h efl_hal \<Rightarrow> 'h efl backing_ops" where
  "efl_ops C H = \<lparr>
     backing_store_init = (\<lambda>s. case efl_backing_store_init C H s of None \<Rightarrow> (False, s) | Some r \<Rightarrow> r),
     backing_store_unlock = efl_backing_store_unlock H,
     backing_store_erase = efl_backing_store_erase H,
     backing_store_write = efl_backing_store_write H,
     backing_store_lock = efl_backing_store_lock H,
     backing_store_read = (\<lambda>s a. let (ok, bs) = fst (efl_backing_store_read H s a (wsz (efl_wl C)))
                                 in if ok then Some bs else None)\<rparr>"

lemma efl_read_state:
  "\<not> is_issuing_read s \<Longrightarrow> \<not> ecc_error_occurred s \<Longrightarrow> snd (efl_backing_store_read H s a n) = s"
  by (cases s) (simp add: efl_backing_store_read_def backing_store_safe_read_from_location_def
      Let_def split: prod.split)

lemma complement_involution [simp]: "complement one (complement one bs) = bs"
  by (simp add: complement_def comp_def)

lemma length_complement [simp]: "length (complement one bs) = length bs"
  by (simp add: complement_def comp_def)

lemma complement_put: "complement one (mem_put m a bs) = mem_put (complement one m) a (complement one bs)"
  by (simp add: complement_def mem_put_def take_map drop_map)

lemma complement_get: "complement one (mem_get m a n) = mem_get (complement one m) a n"
  by (simp add: complement_def mem_get_def take_map drop_map)

definition erased_byte :: "bool \<Rightarrow> u8" where
  "erased_byte one = (if one then 255 else 0)"

lemma complement_erased [simp]:
  "complement one (replicate n (erased_byte one)) = replicate n 0"
  by (simp add: complement_def erased_byte_def)

lemma complement_eq_iff: "complement one x = y \<longleftrightarrow> x = complement one y"
  by (metis complement_involution)

section \<open>The documented behaviour of the HAL\<close>

locale embedded_flash =
  fixes H :: "'h efl_hal"
    and cells :: "'h \<Rightarrow> u8 list"
    and started :: "'h \<Rightarrow> bool"
    and ok :: "'h \<Rightarrow> bool"
  assumes geometry: "flashGetSectorOffset H (Suc n) = flashGetSectorOffset H n + flashGetSectorSize H n"
    and nonempty: "0 < sectors_count H"
    and length_cells: "ok h \<Longrightarrow> length (cells h) = flashGetSectorOffset H (sectors_count H)"
    and start: "ok h \<Longrightarrow> \<exists>h'. eflStart H h = (True, h') \<and> ok h' \<and> cells h' = cells h \<and> started h'"
    and stop: "ok h \<Longrightarrow> ok (eflStop H h) \<and> cells (eflStop H h) = cells h \<and> \<not> started (eflStop H h)"
    and erase_sector: "ok h \<Longrightarrow> started h \<Longrightarrow> n < sectors_count H \<Longrightarrow>
      \<exists>h1 h2. flashStartEraseSector H h n = (FLASH_NO_ERROR, h1) \<and> flashWaitErase H h1 = (FLASH_NO_ERROR, h2) \<and>
        ok h2 \<and> started h2 \<and>
        cells h2 = mem_put (cells h) (flashGetSectorOffset H n)
          (replicate (flashGetSectorSize H n) (erased_byte (attr_erased_is_one H)))"
    and program: "ok h \<Longrightarrow> started h \<Longrightarrow> a + length v \<le> length (cells h) \<Longrightarrow>
      mem_get (cells h) a (length v) = replicate (length v) (erased_byte (attr_erased_is_one H)) \<Longrightarrow>
      \<exists>h'. flashProgram H h a v = (FLASH_NO_ERROR, h') \<and> ok h' \<and> started h' \<and>
        cells h' = mem_put (cells h) a v"
    and load: "ok h \<Longrightarrow> a + n \<le> length (cells h) \<Longrightarrow> flash_load H h a n = (mem_get (cells h) a n, False)"
begin

lemma offset_mono: "m \<le> n \<Longrightarrow> flashGetSectorOffset H m \<le> flashGetSectorOffset H n"
proof (induction n)
  case (Suc n)
  then show ?case by (cases "m = Suc n") (auto simp: geometry)
qed simp

lemma offset_less: "n < m \<Longrightarrow> flashGetSectorOffset H n + flashGetSectorSize H n \<le> flashGetSectorOffset H m"
  using offset_mono [of "Suc n" m] by (simp add: geometry)

text \<open>When no sector lies behind the detected size, the search takes the sectors at the end.\<close>

lemma search_finds:
  assumes "\<And>n. n < lst \<Longrightarrow> flashGetSectorOffset H n < fs" "i \<le> lst"
    and "counter = flashGetSectorOffset H lst - flashGetSectorOffset H (lst - i)"
    and "needed \<le> flashGetSectorOffset H lst - flashGetSectorOffset H 0" "counter < needed"
  shows "\<exists>f. f < lst \<and> efl_search H fs needed lst i counter first
      = (f, Some (lst - f, flashGetSectorOffset H f)) \<and>
    needed \<le> flashGetSectorOffset H lst - flashGetSectorOffset H f"
  using assms
proof (induction "lst - i" arbitrary: i counter first)
  case 0
  then show ?case by simp
next
  case (Suc k)
  let ?f = "lst - i - 1"
  have i: "i < lst" "Suc ?f = lst - i" using Suc.hyps(2) by auto
  have c: "counter + flashGetSectorSize H ?f = flashGetSectorOffset H lst - flashGetSectorOffset H ?f"
    using Suc.prems(3) geometry [of ?f] offset_mono [of "lst - i" lst] i by simp
  have fs: "flashGetSectorOffset H ?f < fs" using Suc.prems(1) i by simp
  show ?case
  proof (cases "counter + flashGetSectorSize H ?f \<ge> needed")
    case True
    then have "efl_search H fs needed lst i counter first = (?f, Some (lst - ?f, flashGetSectorOffset H ?f))"
      using i fs by (subst efl_search.simps) (simp add: Let_def)
    then show ?thesis using True c i by (intro exI [of _ ?f]) simp
  next
    case False
    then have "efl_search H fs needed lst i counter first =
        efl_search H fs needed lst (i + 1) (counter + flashGetSectorSize H ?f) ?f"
      using i fs by (subst efl_search.simps) (simp add: Let_def)
    then show ?thesis
      using Suc.hyps(1) [of "i + 1" "counter + flashGetSectorSize H ?f" ?f] Suc.hyps(2) Suc.prems False c i
      by auto
  qed
qed

lemma erase_loop:
  assumes "ok h" "started h" "sector + n \<le> sectors_count H"
  shows "\<exists>h'. efl_erase_loop H h sector n True = (True, h') \<and> ok h' \<and> started h' \<and>
    cells h' = mem_put (cells h) (flashGetSectorOffset H sector)
      (replicate (flashGetSectorOffset H (sector + n) - flashGetSectorOffset H sector)
        (erased_byte (attr_erased_is_one H)))"
  using assms
proof (induction n arbitrary: h sector)
  case 0
  then show ?case
    using offset_mono [of sector "sectors_count H"] by (simp add: mem_simps length_cells)
next
  case (Suc n)
  let ?E = "erased_byte (attr_erased_is_one H)" and ?o = "flashGetSectorOffset H"
  have "sector < sectors_count H" using Suc.prems(3) by simp
  then obtain h1 h2 where 1: "flashStartEraseSector H h sector = (FLASH_NO_ERROR, h1)"
    "flashWaitErase H h1 = (FLASH_NO_ERROR, h2)" "ok h2" "started h2"
    "cells h2 = mem_put (cells h) (?o sector) (replicate (flashGetSectorSize H sector) ?E)"
    using erase_sector [OF Suc.prems(1,2)] by blast
  have "Suc sector + n \<le> sectors_count H" using Suc.prems(3) by simp
  from Suc.IH [OF 1(3,4) this] obtain h3 where 2: "efl_erase_loop H h2 (Suc sector) n True = (True, h3)"
    "ok h3" "started h3"
    "cells h3 = mem_put (cells h2) (?o (Suc sector)) (replicate (?o (Suc sector + n) - ?o (Suc sector)) ?E)"
    by blast
  have s: "?o (sector + Suc n) - ?o sector
      = flashGetSectorSize H sector + (?o (Suc sector + n) - ?o (Suc sector))"
    using geometry [of sector] offset_mono [of "Suc sector" "Suc sector + n"] by simp
  have b: "?o sector + (?o (sector + Suc n) - ?o sector) \<le> length (cells h)"
    using offset_mono [of "sector + Suc n" "sectors_count H"] offset_mono [of sector "sector + Suc n"]
      Suc.prems length_cells by simp
  have "cells h3 = mem_put (cells h) (?o sector) (replicate (?o (sector + Suc n) - ?o sector) ?E)"
    unfolding 2(4) 1(5) s replicate_add
    by (subst mem_put_append) (use b s geometry [of sector] in auto)
  then show ?case using 1 2 by simp
qed

end

section \<open>The driver implements the backing store\<close>

locale efl_store = embedded_flash H cells started ok
  for H :: "'h efl_hal" and cells started ok +
  fixes C :: efl_config
  assumes config: "wl_config_ok (efl_wl C)"
    and sectors: "OMIT_LAST_SECTOR_COUNT C < sectors_count H"
    and detected: "n < sectors_count H - OMIT_LAST_SECTOR_COUNT C \<Longrightarrow>
      flashGetSectorOffset H n < detect_flash_size C"
    and room: "BACKING (efl_wl C) \<le>
      flashGetSectorOffset H (sectors_count H - OMIT_LAST_SECTOR_COUNT C) - flashGetSectorOffset H 0"
begin

definition usable :: nat where
  "usable = sectors_count H - OMIT_LAST_SECTOR_COUNT C"

definition chosen :: nat where
  "chosen = fst (efl_search H (detect_flash_size C) (BACKING (efl_wl C)) usable 0 0 0)"

lemma search_result:
  "efl_search H (detect_flash_size C) (BACKING (efl_wl C)) usable 0 0 first
    = (chosen, Some (usable - chosen, flashGetSectorOffset H chosen))"
  and chosen: "chosen < usable"
    "flashGetSectorOffset H chosen + BACKING (efl_wl C) \<le> flashGetSectorOffset H usable"
proof -
  have u: "0 < usable" using sectors by (simp add: usable_def)
  have B: "0 < BACKING (efl_wl C)" using config by (auto simp: wl_config_ok_def)
  have eq: "efl_search H (detect_flash_size C) (BACKING (efl_wl C)) usable 0 0 first
      = efl_search H (detect_flash_size C) (BACKING (efl_wl C)) usable 0 0 0" for first
    using u by (subst (1 2) efl_search.simps) simp
  obtain f where f: "f < usable" "efl_search H (detect_flash_size C) (BACKING (efl_wl C)) usable 0 0 0
      = (f, Some (usable - f, flashGetSectorOffset H f))"
    "BACKING (efl_wl C) \<le> flashGetSectorOffset H usable - flashGetSectorOffset H f"
    using search_finds [of usable "detect_flash_size C" 0 0 "BACKING (efl_wl C)" 0] detected room B
    by (auto simp: usable_def)
  then have c: "chosen = f" by (simp add: chosen_def)
  show "efl_search H (detect_flash_size C) (BACKING (efl_wl C)) usable 0 0 first
    = (chosen, Some (usable - chosen, flashGetSectorOffset H chosen))"
    using eq f(2) c by simp
  show "chosen < usable" using f c by simp
  show "flashGetSectorOffset H chosen + BACKING (efl_wl C) \<le> flashGetSectorOffset H usable"
    using f(3) c B by simp
qed

definition efl_image :: "'h efl \<Rightarrow> u8 list" where
  "efl_image s = complement (attr_erased_is_one H)
     (mem_get (cells (hal s)) (flashGetSectorOffset H chosen) (BACKING (efl_wl C)))"

definition efl_inv :: "'h efl \<Rightarrow> bool" where
  "efl_inv s \<longleftrightarrow> ok (hal s) \<and> base_offset s = flashGetSectorOffset H chosen \<and> first_sector s = chosen \<and>
     sector_count s = usable - chosen \<and> flash_erased_is_one s = attr_erased_is_one H"

definition efl_up :: "'h efl \<Rightarrow> bool" where
  "efl_up s \<longleftrightarrow> started (hal s)"

lemma region: "ok h \<Longrightarrow> flashGetSectorOffset H chosen + BACKING (efl_wl C) \<le> length (cells h)"
  using chosen(2) offset_mono [of usable "sectors_count H"] by (simp add: length_cells usable_def)

lemma image_length: "efl_inv s \<Longrightarrow> length (efl_image s) = BACKING (efl_wl C)"
  using region by (simp add: efl_inv_def efl_image_def mem_simps)

lemma efl_init:
  assumes "efl_inv s"
  shows "\<exists>s'. backing_store_init (efl_ops C H) (efl_reset s) = (True, s') \<and> efl_inv s' \<and>
    efl_image s' = efl_image s \<and> \<not> efl_up s'"
  using assms stop [of "hal s"] sectors search_result
  by (simp add: efl_ops_def efl_backing_store_init_def efl_backing_store_lock_def efl_reset_def Let_def
      efl_inv_def efl_image_def efl_up_def flip: usable_def)

lemma efl_unlock:
  "efl_inv s \<Longrightarrow> \<exists>s'. backing_store_unlock (efl_ops C H) s = (True, s') \<and> efl_inv s' \<and>
    efl_image s' = efl_image s \<and> efl_up s'"
  using start [of "hal s"]
  by (auto simp: efl_ops_def efl_backing_store_unlock_def efl_inv_def efl_image_def efl_up_def)

lemma efl_lock:
  "efl_inv s \<Longrightarrow> \<exists>s'. backing_store_lock (efl_ops C H) s = (True, s') \<and> efl_inv s' \<and>
    efl_image s' = efl_image s \<and> \<not> efl_up s'"
  using stop [of "hal s"]
  by (auto simp: efl_ops_def efl_backing_store_lock_def efl_inv_def efl_image_def efl_up_def)

lemma efl_erase:
  assumes "efl_inv s" "efl_up s"
  shows "\<exists>s'. backing_store_erase (efl_ops C H) s = (True, s') \<and> efl_inv s' \<and> efl_up s' \<and>
    efl_image s' = replicate (BACKING (efl_wl C)) 0"
proof -
  let ?o = "flashGetSectorOffset H" and ?E = "erased_byte (attr_erased_is_one H)"
  have u: "chosen + (usable - chosen) = usable" "usable \<le> sectors_count H"
    using chosen(1) by (simp_all add: usable_def)
  have o: "ok (hal s)" using assms(1) by (simp add: efl_inv_def)
  obtain h' where h: "efl_erase_loop H (hal s) chosen (usable - chosen) True = (True, h')"
    "ok h'" "started h'"
    "cells h' = mem_put (cells (hal s)) (?o chosen) (replicate (?o usable - ?o chosen) ?E)"
    using erase_loop [of "hal s" chosen "usable - chosen"] assms u
    by (auto simp: efl_inv_def efl_up_def)
  have "mem_get (cells h') (?o chosen) (BACKING (efl_wl C)) = replicate (BACKING (efl_wl C)) ?E"
    using chosen(2) h(4) region [OF o] offset_mono [OF u(2)] length_cells [OF o]
    by (simp add: mem_get_def mem_put_def min_absorb1)
  with h assms show ?thesis
    by (auto simp: efl_ops_def efl_backing_store_erase_def efl_inv_def efl_image_def efl_up_def)
qed

lemma efl_write:
  assumes "efl_inv s" "efl_up s" "a + wsz (efl_wl C) \<le> BACKING (efl_wl C)" "length v = wsz (efl_wl C)"
    and "mem_get (efl_image s) a (wsz (efl_wl C)) = replicate (wsz (efl_wl C)) 0"
  shows "\<exists>s'. backing_store_write (efl_ops C H) s a v = (True, s') \<and> efl_inv s' \<and> efl_up s' \<and>
    efl_image s' = mem_put (efl_image s) a v"
proof -
  let ?o = "flashGetSectorOffset H chosen" and ?one = "attr_erased_is_one H"
  let ?E = "erased_byte ?one" and ?w = "wsz (efl_wl C)" and ?v = "complement ?one v"
  have o: "ok (hal s)" using assms(1) by (simp add: efl_inv_def)
  have b: "?o + a + length ?v \<le> length (cells (hal s))" using region [OF o] assms(3,4) by simp
  have sub: "mem_get (mem_get m ?o (BACKING (efl_wl C))) a ?w = mem_get m (?o + a) ?w" for m :: "u8 list"
    using assms(3) by (simp add: mem_get_def drop_take min_absorb1 add.commute)
  have "complement ?one (mem_get (cells (hal s)) (?o + a) ?w) = replicate ?w 0"
    using assms(5) sub by (simp add: efl_image_def flip: complement_get)
  then have "mem_get (cells (hal s)) (?o + a) (length ?v) = replicate (length ?v) ?E"
    using assms(4) by (metis complement_erased complement_involution length_complement)
  then obtain h' where h: "flashProgram H (hal s) (?o + a) ?v = (FLASH_NO_ERROR, h')" "ok h'" "started h'"
    "cells h' = mem_put (cells (hal s)) (?o + a) ?v"
    using program [OF o _ b] assms(2) by (auto simp: efl_up_def)
  have "mem_get (cells h') ?o (BACKING (efl_wl C))
      = mem_put (mem_get (cells (hal s)) ?o (BACKING (efl_wl C))) a ?v"
  proof (rule nth_equalityI)
    show l: "length (mem_get (cells h') ?o (BACKING (efl_wl C)))
      = length (mem_put (mem_get (cells (hal s)) ?o (BACKING (efl_wl C))) a ?v)"
      using region [OF o] region [OF h(2)] assms(3,4) by (simp add: mem_simps)
    fix i assume "i < length (mem_get (cells h') ?o (BACKING (efl_wl C)))"
    then have i: "i < BACKING (efl_wl C)" using region h(2) by (simp add: mem_simps)
    then show "mem_get (cells h') ?o (BACKING (efl_wl C)) ! i
      = mem_put (mem_get (cells (hal s)) ?o (BACKING (efl_wl C))) a ?v ! i"
      using region [OF o] region [OF h(2)] h(4) b assms(3,4)
      by (auto simp: mem_get_nth mem_put_nth mem_simps)
  qed
  with h assms show ?thesis
    by (simp add: efl_ops_def efl_backing_store_write_def efl_inv_def efl_image_def efl_up_def
        complement_put)
qed

lemma efl_read:
  assumes "efl_inv s" "a + wsz (efl_wl C) \<le> BACKING (efl_wl C)"
  shows "backing_store_read (efl_ops C H) s a = Some (mem_get (efl_image s) a (wsz (efl_wl C)))"
proof -
  let ?o = "flashGetSectorOffset H chosen" and ?w = "wsz (efl_wl C)"
  have o: "ok (hal s)" using assms(1) by (simp add: efl_inv_def)
  have "flash_load H (hal s) (?o + a) ?w = (mem_get (cells (hal s)) (?o + a) ?w, False)"
    using load [OF o, of "?o + a" ?w] region [OF o] assms(2) by simp
  moreover have "mem_get (efl_image s) a ?w = complement (attr_erased_is_one H) (mem_get (cells (hal s)) (?o + a) ?w)"
    using assms(2) by (simp add: efl_image_def mem_get_def drop_take min_absorb1 add.commute
        complement_def take_map drop_map)
  ultimately show ?thesis using assms(1)
    by (simp add: efl_ops_def efl_backing_store_read_def backing_store_safe_read_from_location_def
        efl_inv_def Let_def)
qed

end

sublocale efl_store \<subseteq> driver: backing_store "efl_wl C" "efl_ops C H" efl_image efl_inv efl_up efl_reset
  by unfold_locales
    (simp_all add: config image_length efl_init efl_unlock efl_lock efl_erase efl_write efl_read)

end
