(* ===== verification/Wear_Leveling_Run.thy ===== *)
theory Wear_Leveling_Run
  imports Wear_Leveling_Efl
begin

text \<open>
  The wear-levelling store end to end: sequences of writes, erasures and power cycles, run on the
  layer above the embedded-flash driver, against the plain byte array they stand for. The HAL
  parameter is instantiated by a NOR flash of equal sectors that obeys the documented contract.
\<close>

section \<open>Command sequences and the array they implement\<close>

datatype wl_command = Wl_Write nat "u8 list" | Wl_Erase | Wl_Power_Cycle

text \<open>The layer's variables after a reset of the controller; the flash keeps its contents.\<close>

definition wl_power_up :: "wl_config \<Rightarrow> 'b \<Rightarrow> 'b wear_leveling" where
  "wl_power_up c b =
    \<lparr>cache = replicate (LOGICAL c) 0, write_address = 0, unlocked = False, store = b\<rparr>"

fun wl_exec ::
    "wl_config \<Rightarrow> 'b backing_ops \<Rightarrow> ('b \<Rightarrow> 'b) \<Rightarrow> 'b wear_leveling \<Rightarrow> wl_command
      \<Rightarrow> (wear_leveling_status_t \<times> 'b wear_leveling) option" where
  "wl_exec c ops reset s (Wl_Write a v) = wear_leveling_write c ops s a v"
| "wl_exec c ops reset s Wl_Erase = Some (wear_leveling_erase c ops s)"
| "wl_exec c ops reset s Wl_Power_Cycle = wear_leveling_init c ops (wl_power_up c (reset (store s)))"

fun wl_run ::
    "wl_config \<Rightarrow> 'b backing_ops \<Rightarrow> ('b \<Rightarrow> 'b) \<Rightarrow> 'b wear_leveling \<Rightarrow> wl_command list
      \<Rightarrow> 'b wear_leveling option" where
  "wl_run c ops reset s [] = Some s"
| "wl_run c ops reset s (x # xs) =
    (case wl_exec c ops reset s x of
       None \<Rightarrow> None
     | Some (st, s') \<Rightarrow> if st = WEAR_LEVELING_FAILED then None else wl_run c ops reset s' xs)"

fun wl_array :: "nat \<Rightarrow> wl_command \<Rightarrow> u8 list \<Rightarrow> u8 list" where
  "wl_array n (Wl_Write a v) m = mem_put m a v"
| "wl_array n Wl_Erase m = replicate n 0"
| "wl_array n Wl_Power_Cycle m = m"

fun wl_command_ok :: "nat \<Rightarrow> wl_command \<Rightarrow> bool" where
  "wl_command_ok n (Wl_Write a v) \<longleftrightarrow> a + length v \<le> n"
| "wl_command_ok n Wl_Erase \<longleftrightarrow> True"
| "wl_command_ok n Wl_Power_Cycle \<longleftrightarrow> True"

context backing_store begin

lemma exec_ok:
  assumes "coherent s" "wl_command_ok (LOGICAL c) x"
  shows "\<exists>st s'. wl_exec c ops reset s x = Some (st, s') \<and> st \<noteq> WEAR_LEVELING_FAILED \<and> coherent s' \<and>
    cache s' = wl_array (LOGICAL c) x (cache s)"
proof (cases x)
  case (Wl_Write a v)
  then show ?thesis using write_ok [OF assms(1), of a v] assms(2) by auto
next
  case Wl_Erase
  then show ?thesis using erase_ok [OF assms(1)] by auto
next
  case Wl_Power_Cycle
  have H: "holds (store s) (write_address s) (cache s)" using assms(1) by (simp add: coherent_def)
  from init_restores [OF H, of "wl_power_up c (reset (store s))"] Wl_Power_Cycle show ?thesis
    by (auto simp: wl_power_up_def coherent_def synced_def)
qed

lemma run_ok:
  assumes "coherent s" "list_all (wl_command_ok (LOGICAL c)) xs"
  shows "\<exists>s'. wl_run c ops reset s xs = Some s' \<and> coherent s' \<and>
    cache s' = fold (wl_array (LOGICAL c)) xs (cache s)"
  using assms
proof (induction xs arbitrary: s)
  case Nil
  then show ?case by simp
next
  case (Cons x xs)
  obtain st s1 where 1: "wl_exec c ops reset s x = Some (st, s1)" "st \<noteq> WEAR_LEVELING_FAILED"
    "coherent s1" "cache s1 = wl_array (LOGICAL c) x (cache s)"
    using exec_ok [OF Cons.prems(1), of x] Cons.prems(2) by auto
  then show ?case using Cons.IH [OF 1(3)] Cons.prems(2) by auto
qed

lemma boot_blank:
  assumes "inv b" "image b = replicate (BACKING c) 0"
  shows "\<exists>s. wear_leveling_init c ops (wl_power_up c (reset b)) = Some (WEAR_LEVELING_SUCCESS, s) \<and>
    coherent s \<and> cache s = replicate (LOGICAL c) 0"
proof -
  have H: "holds b (LOGICAL c + 8) (replicate (LOGICAL c) 0)" by (rule holds_erased [OF assms])
  from init_restores [OF H, of "wl_power_up c (reset b)"] show ?thesis
    by (auto simp: wl_power_up_def coherent_def synced_def)
qed

lemma blank_run:
  assumes "inv b" "image b = replicate (BACKING c) 0" "list_all (wl_command_ok (LOGICAL c)) xs"
    and "a + length buf \<le> LOGICAL c"
  shows "\<exists>s. wl_run c ops reset (wl_power_up c b) (Wl_Power_Cycle # xs) = Some s \<and>
    wear_leveling_read c s a buf = Some (WEAR_LEVELING_SUCCESS,
      mem_get (fold (wl_array (LOGICAL c)) xs (replicate (LOGICAL c) 0)) a (length buf))"
proof -
  obtain s where s: "wear_leveling_init c ops (wl_power_up c (reset b)) = Some (WEAR_LEVELING_SUCCESS, s)"
    "coherent s" "cache s = replicate (LOGICAL c) 0"
    using boot_blank [OF assms(1,2)] by blast
  obtain s' where s': "wl_run c ops reset s xs = Some s'" "coherent s'"
    "cache s' = fold (wl_array (LOGICAL c)) xs (cache s)"
    using run_ok [OF s(2) assms(3)] by blast
  have "wl_run c ops reset (wl_power_up c b) (Wl_Power_Cycle # xs) = Some s'"
    using s(1) s'(1) by (simp add: wl_power_up_def)
  then show ?thesis using read_ok [OF s'(2) assms(4)] s'(3) s(3) by simp
qed

end

context efl_store begin

lemma reset_hal: "hal b = hal b' \<Longrightarrow> efl_reset b = efl_reset b'"
  by (simp add: efl_reset_def)

lemma blank_flash_run:
  assumes "ok (hal b)"
    and "cells (hal b) = replicate (length (cells (hal b))) (erased_byte (attr_erased_is_one H))"
    and "list_all (wl_command_ok (LOGICAL (efl_wl C))) xs" "a + length buf \<le> LOGICAL (efl_wl C)"
  shows "\<exists>s. wl_run (efl_wl C) (efl_ops C H) efl_reset (wl_power_up (efl_wl C) b) (Wl_Power_Cycle # xs) = Some s \<and>
    wear_leveling_read (efl_wl C) s a buf = Some (WEAR_LEVELING_SUCCESS,
      mem_get (fold (wl_array (LOGICAL (efl_wl C))) xs (replicate (LOGICAL (efl_wl C)) 0)) a (length buf))"
proof -
  define b' where "b' = b\<lparr>base_offset := flashGetSectorOffset H chosen, first_sector := chosen,
    sector_count := usable - chosen, flash_erased_is_one := attr_erased_is_one H\<rparr>"
  have i: "efl_inv b'" using assms(1) by (simp add: efl_inv_def b'_def)
  have "mem_get (cells (hal b)) (flashGetSectorOffset H chosen) (BACKING (efl_wl C))
      = replicate (BACKING (efl_wl C)) (erased_byte (attr_erased_is_one H))"
    using region [OF assms(1)] by (subst assms(2)) (simp add: mem_get_def min_absorb1)
  then have z: "efl_image b' = replicate (BACKING (efl_wl C)) 0"
    by (simp add: efl_image_def b'_def)
  have "wl_run c' ops' efl_reset (wl_power_up c' b) (Wl_Power_Cycle # xs)
      = wl_run c' ops' efl_reset (wl_power_up c' b') (Wl_Power_Cycle # xs)" for c' ops'
    using reset_hal [of b b'] by (simp add: wl_power_up_def b'_def)
  then show ?thesis using driver.blank_run [OF i z assms(3,4)] by simp
qed

end

section \<open>A NOR flash behind the HAL\<close>

text \<open>
  \<open>n\<close> sectors of \<open>z\<close> bytes; programming clears bits, erasing a sector sets them, both only while
  the device is started.
\<close>

record nor_flash =
  nor_cells :: "u8 list"
  nor_started :: bool

definition nor_hal :: "nat \<Rightarrow> nat \<Rightarrow> nor_flash efl_hal" where
  "nor_hal n z = \<lparr>
     eflStart = (\<lambda>h. (True, h\<lparr>nor_started := True\<rparr>)),
     eflStop = (\<lambda>h. h\<lparr>nor_started := False\<rparr>),
     attr_erased_is_one = True,
     sectors_count = n,
     flashGetSectorSize = (\<lambda>i. z),
     flashGetSectorOffset = (\<lambda>i. i * z),
     flashStartEraseSector = (\<lambda>h i. if nor_started h \<and> i < n
        then (FLASH_NO_ERROR, h\<lparr>nor_cells := mem_put (nor_cells h) (i * z) (replicate z 255)\<rparr>)
        else (FLASH_ERROR, h)),
     flashWaitErase = (\<lambda>h. (FLASH_NO_ERROR, h)),
     flashProgram = (\<lambda>h a v. if nor_started h \<and> a + length v \<le> n * z
        then (FLASH_NO_ERROR, h\<lparr>nor_cells := mem_put (nor_cells h) a
               (map2 (AND) (mem_get (nor_cells h) a (length v)) v)\<rparr>)
        else (FLASH_ERROR, h)),
     flash_load = (\<lambda>h a k. (mem_get (nor_cells h) a k, False))\<rparr>"

definition nor_ok :: "nat \<Rightarrow> nat \<Rightarrow> nor_flash \<Rightarrow> bool" where
  "nor_ok n z h \<longleftrightarrow> length (nor_cells h) = n * z"

definition nor_blank :: "nat \<Rightarrow> nat \<Rightarrow> nor_flash" where
  "nor_blank n z = \<lparr>nor_cells = replicate (n * z) 255, nor_started = False\<rparr>"

lemma map2_and_ones: "map2 (AND) (replicate (length v) (255 :: u8)) v = v"
proof -
  have "(255 :: u8) AND x = x" for x
    by (rule bit_word_eqI) (simp add: bit_simps bit_consts)
  then show ?thesis by (induction v) auto
qed

lemma sector_inside: "i < n \<Longrightarrow> i * z + z \<le> n * (z::nat)"
  by (metis Suc_leI add.commute mult_Suc mult_le_mono1)

lemma nor_embedded_flash:
  assumes "0 < n"
  shows "embedded_flash (nor_hal n z) nor_cells nor_started (nor_ok n z)"
  by unfold_locales
    (use assms in \<open>auto simp: nor_hal_def nor_ok_def erased_byte_def mem_simps sector_inside
       map2_and_ones simp del: add_2_eq_Suc add_2_eq_Suc'\<close>)

text \<open>The configurations the flash has room for.\<close>

definition nor_config_ok :: "nat \<Rightarrow> nat \<Rightarrow> efl_config \<Rightarrow> bool" where
  "nor_config_ok n z C \<longleftrightarrow> wl_config_ok (efl_wl C) \<and> OMIT_LAST_SECTOR_COUNT C < n \<and> 0 < z \<and>
     n * z \<le> detect_flash_size C \<and> BACKING (efl_wl C) \<le> (n - OMIT_LAST_SECTOR_COUNT C) * z"

lemma nor_efl_store:
  assumes "nor_config_ok n z C"
  shows "efl_store (nor_hal n z) nor_cells nor_started (nor_ok n z) C"
proof (rule efl_store.intro)
  show "embedded_flash (nor_hal n z) nor_cells nor_started (nor_ok n z)"
    by (rule nor_embedded_flash) (use assms in \<open>auto simp: nor_config_ok_def\<close>)
  have "k * z < n * z" if "k < n - OMIT_LAST_SECTOR_COUNT C" for k
    using that assms by (simp add: nor_config_ok_def)
  then have "k * z < detect_flash_size C" if "k < n - OMIT_LAST_SECTOR_COUNT C" for k
    using that assms by (meson le_trans nor_config_ok_def order_less_le_trans)
  then show "efl_store_axioms (nor_hal n z) C"
    using assms by unfold_locales (auto simp: nor_config_ok_def nor_hal_def)
qed

text \<open>The driver of a 128 KiB part, whose last two 1 KiB sectors hold the store.\<close>

definition stm32_config :: efl_config where
  "stm32_config = \<lparr>efl_wl = \<lparr>BACKING_STORE_WRITE_SIZE = WS2, WEAR_LEVELING_BACKING_SIZE = 2048,
      WEAR_LEVELING_LOGICAL_SIZE = 1024, entry_junk = []\<rparr>,
    detect_flash_size = 131072, OMIT_LAST_SECTOR_COUNT = 0\<rparr>"

interpretation stm32_flash: embedded_flash "nor_hal 128 1024" nor_cells nor_started "nor_ok 128 1024"
  by (rule nor_embedded_flash) simp

interpretation stm32: efl_store "nor_hal 128 1024" nor_cells nor_started "nor_ok 128 1024" stm32_config
  by (rule nor_efl_store) (simp add: nor_config_ok_def stm32_config_def wl_config_ok_def)

section \<open>Properties\<close>

text \<open>C1: every run of in-range writes, erasures and power cycles on a blank device succeeds, and
  what \<open>wear_leveling_read\<close> then returns at any in-range address is what the plain byte array
  holds after the same commands: no write is lost, whatever the log and the consolidation did and
  wherever the power was cycled between two operations.\<close>

theorem wear_leveling_durable:
  assumes "nor_config_ok n z C" "hal b = nor_blank n z"
    and "list_all (wl_command_ok (LOGICAL (efl_wl C))) xs" "a + length buf \<le> LOGICAL (efl_wl C)"
  shows "\<exists>s. wl_run (efl_wl C) (efl_ops C (nor_hal n z)) efl_reset (wl_power_up (efl_wl C) b)
        (Wl_Power_Cycle # xs) = Some s \<and>
    wear_leveling_read (efl_wl C) s a buf = Some (WEAR_LEVELING_SUCCESS,
      mem_get (fold (wl_array (LOGICAL (efl_wl C))) xs (replicate (LOGICAL (efl_wl C)) 0)) a (length buf))"
proof (rule efl_store.blank_flash_run [OF nor_efl_store [OF assms(1)] _ _ assms(3,4)])
  show "nor_ok n z (hal b)" using assms(2) by (simp add: nor_ok_def nor_blank_def)
  show "nor_cells (hal b) = replicate (length (nor_cells (hal b))) (erased_byte (attr_erased_is_one (nor_hal n z)))"
    using assms(2) by (simp add: nor_blank_def nor_hal_def erased_byte_def)
qed

definition tiny_config :: efl_config where
  "tiny_config = \<lparr>efl_wl = \<lparr>BACKING_STORE_WRITE_SIZE = WS2, WEAR_LEVELING_BACKING_SIZE = 32,
      WEAR_LEVELING_LOGICAL_SIZE = 16, entry_junk = []\<rparr>,
    detect_flash_size = 64, OMIT_LAST_SECTOR_COUNT = 1\<rparr>"

definition tiny_device :: "nor_flash efl" where
  "tiny_device = \<lparr>hal = nor_blank 4 16, base_offset = 0, first_sector = 0, sector_count = 0,
    flash_erased_is_one = False, is_issuing_read = False, ecc_error_occurred = False\<rparr>"

text \<open>Three writes that fill the log and consolidate, a power cycle, and the bytes read back.\<close>

theorem wear_leveling_durable_witness:
  "\<exists>s. wl_run (efl_wl tiny_config) (efl_ops tiny_config (nor_hal 4 16)) efl_reset
        (wl_power_up (efl_wl tiny_config) tiny_device)
        [Wl_Power_Cycle, Wl_Write 2 [7, 8, 9], Wl_Write 8 [1, 0], Wl_Write 3 [5, 5], Wl_Power_Cycle] = Some s \<and>
    wear_leveling_read (efl_wl tiny_config) s 1 [0, 0, 0, 0] = Some (WEAR_LEVELING_SUCCESS, [0, 7, 5, 5])"
proof -
  have c: "nor_config_ok 4 16 tiny_config"
    by (simp add: nor_config_ok_def tiny_config_def wl_config_ok_def)
  have d: "hal tiny_device = nor_blank 4 16" by (simp add: tiny_device_def)
  show ?thesis
    using wear_leveling_durable [OF c d, of "[Wl_Write 2 [7, 8, 9], Wl_Write 8 [1, 0],
        Wl_Write 3 [5, 5], Wl_Power_Cycle]" 1 "[0, 0, 0, 0]"]
    by (simp add: tiny_config_def mem_get_def mem_put_def numeral_eq_Suc)
qed

text \<open>C2: a log entry decodes to what was encoded: the type, and for each of the three formats the
  address and the length or value, for all addresses the format is used for.\<close>

theorem log_entry_roundtrip:
  assumes "unat (a :: u32) < 2 ^ 19" "unat (l :: u32) \<le> LOG_ENTRY_MULTIBYTE_MAX_BYTES"
    and "unat (b :: u32) < 64" "unat (d :: u32) < 16384" "even (unat d)" "v = 0 \<or> v = (1 :: u16)"
  shows "LOG_ENTRY_GET_TYPE (LOG_ENTRY_MAKE_MULTIBYTE a l) = LOG_ENTRY_TYPE_MULTIBYTE \<and>
    LOG_ENTRY_MULTIBYTE_GET_ADDRESS (LOG_ENTRY_MAKE_MULTIBYTE a l) = a \<and>
    LOG_ENTRY_MULTIBYTE_GET_LENGTH (LOG_ENTRY_MAKE_MULTIBYTE a l) = ucast l \<and>
    LOG_ENTRY_GET_TYPE (LOG_ENTRY_MAKE_OPTIMIZED_64 b x) = LOG_ENTRY_TYPE_OPTIMIZED_64 \<and>
    LOG_ENTRY_OPTIMIZED_64_GET_ADDRESS (LOG_ENTRY_MAKE_OPTIMIZED_64 b x) = b \<and>
    LOG_ENTRY_OPTIMIZED_64_GET_VALUE (LOG_ENTRY_MAKE_OPTIMIZED_64 b x) = x \<and>
    LOG_ENTRY_GET_TYPE (LOG_ENTRY_MAKE_WORD_01 d v) = LOG_ENTRY_TYPE_WORD_01 \<and>
    LOG_ENTRY_WORD_01_GET_ADDRESS (LOG_ENTRY_MAKE_WORD_01 d v) = d \<and>
    LOG_ENTRY_WORD_01_GET_VALUE (LOG_ENTRY_MAKE_WORD_01 d v) = ucast v"
  using assms multibyte_type multibyte_address multibyte_length [of l a] optimized_64_type
    optimized_64_address optimized_64_value word_01_type word_01_address word_01_value
  by (simp add: LOG_ENTRY_MULTIBYTE_MAX_BYTES_def)

theorem log_entry_roundtrip_witness:
  "LOG_ENTRY_MULTIBYTE_GET_ADDRESS (LOG_ENTRY_MAKE_MULTIBYTE 0x5A1B2 5) = 0x5A1B2 \<and>
   LOG_ENTRY_WORD_01_GET_ADDRESS (LOG_ENTRY_MAKE_WORD_01 0x3FFE 1) = 0x3FFE \<and>
   LOG_ENTRY_OPTIMIZED_64_GET_ADDRESS (LOG_ENTRY_MAKE_OPTIMIZED_64 63 200) = 63"
  using log_entry_roundtrip [where a="0x5A1B2" and l=5 and b=63 and d="0x3FFE" and v=1 and x=200]
  by (simp add: LOG_ENTRY_MULTIBYTE_MAX_BYTES_def)

text \<open>C3: the shift-and-add loop of \<open>fnv_64a_buf\<close> computes the FNV-1a hash: exclusive-or with each
  octet followed by multiplication by the FNV prime modulo \<open>2 ^ 64\<close>.\<close>

theorem fnv_64a_buf_correct: "fnv_64a_buf bs h = fold (\<lambda>b h. fnv_64a_spec_step h b) bs h"
  by (induction bs arbitrary: h) (simp_all add: fnv_64a_step_mult)

text \<open>The bounds check of \<open>wear_leveling_write\<close> wraps: the 32-bit sum of the address
  \<open>2 ^ 32 - 1\<close> and a length of at least one is small, so the check passes and the access
  leaves the cache, in every state whose cache has the logical size.\<close>

lemma wear_leveling_write_wraps:
  assumes "length (cache s) = LOGICAL c" "1 \<le> length v" "length v \<le> LOGICAL c" "LOGICAL c < 2 ^ 32 - 1"
  shows "wear_leveling_write c ops s (2 ^ 32 - 1) v = None"
proof -
  have "(2 ^ 32 - 1 + length v) mod 2 ^ 32 = length v - 1"
  proof -
    have "2 ^ 32 - 1 + length v = (length v - 1) + 2 ^ 32" using assms(2) by simp
    then show ?thesis using assms(3,4) by (simp only: mod_add_self2) simp
  qed
  then show ?thesis using assms by (simp add: wear_leveling_write_def wl_out_of_bounds_def)
qed

lemma wear_leveling_write_wraps_witness:
  "wear_leveling_write (efl_wl tiny_config) (efl_ops tiny_config (nor_hal 4 16))
     (wl_power_up (efl_wl tiny_config) tiny_device) (2 ^ 32 - 1) [1, 2] = None"
  by (rule wear_leveling_write_wraps) (simp_all add: wl_power_up_def tiny_config_def)

end
