(* ===== verification/Eeprom.thy ===== *)
theory Eeprom
  imports Qmk_Prelude "HOL-Library.Monad_Syntax"
begin

unbundle bit_operations_syntax

text \<open>
  The EEPROM interface (\<open>drivers/eeprom/eeprom_driver.c\<close>) and its RAM implementation
  (\<open>drivers/eeprom/eeprom_transient.c\<close>).

  A driver is a record of its block operations on a device state; \<open>None\<close> is an access outside
  the memory of the device. On top of the block operations the generic layer reads, writes and
  updates bytes, words, double words and blocks. The locale \<open>eeprom_store\<close> is the contract the
  clients of a driver rely on: inside its size the device is a byte array. It is interpreted on
  the transient driver here and on the wear-leveling driver in \<open>Eeprom_Wear_Leveling\<close>.
\<close>

text \<open>
  \<open>eeprom_read_block E e buf addr\<close> is the buffer after the call, with the contents \<open>buf\<close> and its
  length as the requested length before; \<open>eeprom_write_block E e buf addr\<close> the device after it.
\<close>

record 'e eeprom_ops =
  eeprom_read_block :: "'e \<Rightarrow> u8 list \<Rightarrow> nat \<Rightarrow> u8 list option"
  eeprom_write_block :: "'e \<Rightarrow> u8 list \<Rightarrow> nat \<Rightarrow> 'e option"
  eeprom_driver_erase :: "'e \<Rightarrow> 'e"
  eeprom_driver_format :: "bool \<Rightarrow> 'e \<Rightarrow> 'e"

section \<open>The generic layer\<close>

definition eeprom_read_byte :: "'e eeprom_ops \<Rightarrow> 'e \<Rightarrow> nat \<Rightarrow> u8 option" where
  "eeprom_read_byte E e addr = do { ret \<leftarrow> eeprom_read_block E e [0] addr; Some (le_word ret) }"

definition eeprom_read_word :: "'e eeprom_ops \<Rightarrow> 'e \<Rightarrow> nat \<Rightarrow> u16 option" where
  "eeprom_read_word E e addr = do { ret \<leftarrow> eeprom_read_block E e [0, 0] addr; Some (le_word ret) }"

definition eeprom_read_dword :: "'e eeprom_ops \<Rightarrow> 'e \<Rightarrow> nat \<Rightarrow> u32 option" where
  "eeprom_read_dword E e addr = do { ret \<leftarrow> eeprom_read_block E e [0, 0, 0, 0] addr; Some (le_word ret) }"

definition eeprom_write_byte :: "'e eeprom_ops \<Rightarrow> 'e \<Rightarrow> nat \<Rightarrow> u8 \<Rightarrow> 'e option" where
  "eeprom_write_byte E e addr value = eeprom_write_block E e [value] addr"

definition eeprom_write_word :: "'e eeprom_ops \<Rightarrow> 'e \<Rightarrow> nat \<Rightarrow> u16 \<Rightarrow> 'e option" where
  "eeprom_write_word E e addr value = eeprom_write_block E e (le_bytes 2 value) addr"

definition eeprom_write_dword :: "'e eeprom_ops \<Rightarrow> 'e \<Rightarrow> nat \<Rightarrow> u32 \<Rightarrow> 'e option" where
  "eeprom_write_dword E e addr value = eeprom_write_block E e (le_bytes 4 value) addr"

text \<open>\<open>read_buf\<close> is the uninitialised stack buffer, as long as \<open>buf\<close>.\<close>

definition eeprom_update_block ::
    "'e eeprom_ops \<Rightarrow> 'e \<Rightarrow> u8 list \<Rightarrow> u8 list \<Rightarrow> nat \<Rightarrow> 'e option" where
  "eeprom_update_block E e read_buf buf addr = do {
     r \<leftarrow> eeprom_read_block E e read_buf addr;
     if buf \<noteq> r then eeprom_write_block E e buf addr else Some e }"

definition eeprom_update_byte :: "'e eeprom_ops \<Rightarrow> 'e \<Rightarrow> nat \<Rightarrow> u8 \<Rightarrow> 'e option" where
  "eeprom_update_byte E e addr value = do {
     orig \<leftarrow> eeprom_read_byte E e addr;
     if orig \<noteq> value then eeprom_write_byte E e addr value else Some e }"

definition eeprom_update_word :: "'e eeprom_ops \<Rightarrow> 'e \<Rightarrow> nat \<Rightarrow> u16 \<Rightarrow> 'e option" where
  "eeprom_update_word E e addr value = do {
     orig \<leftarrow> eeprom_read_word E e addr;
     if orig \<noteq> value then eeprom_write_word E e addr value else Some e }"

definition eeprom_update_dword :: "'e eeprom_ops \<Rightarrow> 'e \<Rightarrow> nat \<Rightarrow> u32 \<Rightarrow> 'e option" where
  "eeprom_update_dword E e addr value = do {
     orig \<leftarrow> eeprom_read_dword E e addr;
     if orig \<noteq> value then eeprom_write_dword E e addr value else Some e }"

text \<open>The weak default of the generic layer: a device is erased to be formatted.\<close>

definition eeprom_default_format :: "('e \<Rightarrow> 'e) \<Rightarrow> bool \<Rightarrow> 'e \<Rightarrow> 'e" where
  "eeprom_default_format erase_op erase e = erase_op e"

section \<open>The contract of a driver\<close>

locale eeprom_store =
  fixes E :: "'e eeprom_ops"
    and array :: "'e \<Rightarrow> u8 list"
    and good :: "'e \<Rightarrow> bool"
    and size :: nat
  assumes length_array: "good e \<Longrightarrow> length (array e) = size"
    and ee_read: "good e \<Longrightarrow> a + length buf \<le> size \<Longrightarrow>
      eeprom_read_block E e buf a = Some (mem_get (array e) a (length buf))"
    and ee_write: "good e \<Longrightarrow> a + length buf \<le> size \<Longrightarrow>
      \<exists>e'. eeprom_write_block E e buf a = Some e' \<and> good e' \<and> array e' = mem_put (array e) a buf"
begin

text \<open>The device after a write inside its size.\<close>

definition put_block :: "'e \<Rightarrow> nat \<Rightarrow> u8 list \<Rightarrow> 'e" where
  "put_block e a buf = the (eeprom_write_block E e buf a)"

definition put_byte :: "'e \<Rightarrow> nat \<Rightarrow> u8 \<Rightarrow> 'e" where
  "put_byte e a v = (if array e ! a = v then e else put_block e a [v])"

lemma write_block:
  assumes "good e" "a + length buf \<le> size"
  shows "eeprom_write_block E e buf a = Some (put_block e a buf)"
    and "good (put_block e a buf)" and "array (put_block e a buf) = mem_put (array e) a buf"
  using ee_write [OF assms] by (auto simp: put_block_def)

lemma read_byte: "good e \<Longrightarrow> a < size \<Longrightarrow> eeprom_read_byte E e a = Some (array e ! a)"
  using ee_read [of e a "[0]"] length_array [of e]
  by (simp add: eeprom_read_byte_def mem_get_def take_Suc_conv_app_nth Cons_nth_drop_Suc [symmetric])

lemma update_byte:
  assumes "good e" "a < size"
  shows "eeprom_update_byte E e a v = Some (put_byte e a v)"
    and "good (put_byte e a v)" and "array (put_byte e a v) = (array e)[a := v]"
  using assms write_block [of e a "[v]"] length_array [of e]
  by (auto simp: eeprom_update_byte_def eeprom_write_byte_def read_byte put_byte_def mem_put_one)

lemma read_n:
  "good e \<Longrightarrow> a + n \<le> size \<Longrightarrow> length buf = n \<Longrightarrow>
    eeprom_read_block E e buf a = Some (mem_get (array e) a n)"
  using ee_read by blast

lemma word_write_read:
  assumes "good e" "a + 2 \<le> size"
  shows "\<exists>e'. eeprom_write_word E e a v = Some e' \<and> good e' \<and> eeprom_read_word E e' a = Some v"
  using assms write_block [of e a "le_bytes 2 v"] length_array [of e]
    read_n [of "put_block e a (le_bytes 2 v)" a 2 "[0, 0]"]
    mem_get_put_same [of a "le_bytes 2 v" "array e"]
  by (simp add: eeprom_write_word_def eeprom_read_word_def layout_simps)

lemma dword_write_read:
  assumes "good e" "a + 4 \<le> size"
  shows "\<exists>e'. eeprom_write_dword E e a v = Some e' \<and> good e' \<and> eeprom_read_dword E e' a = Some v"
  using assms write_block [of e a "le_bytes 4 v"] length_array [of e]
    read_n [of "put_block e a (le_bytes 4 v)" a 4 "[0, 0, 0, 0]"]
    mem_get_put_same [of a "le_bytes 4 v" "array e"]
  by (simp add: eeprom_write_dword_def eeprom_read_dword_def layout_simps)

text \<open>An update leaves the array that a write would leave.\<close>

lemma update_block:
  assumes "good e" "a + length buf \<le> size" "length junk = length buf"
  shows "\<exists>e'. eeprom_update_block E e junk buf a = Some e' \<and> good e' \<and> array e' = mem_put (array e) a buf"
  using assms write_block [of e a buf] ee_read [of e a junk] length_array [of e]
    mem_put_self [of a "length buf" "array e"]
  by (auto simp: eeprom_update_block_def)

lemmas ee_simps = read_byte update_byte write_block ee_read length_array

end

section \<open>The transient driver\<close>

text \<open>
  The buffer is the device state and \<open>n\<close> is \<open>TRANSIENT_EEPROM_SIZE\<close>. \<open>clamp_length\<close> computes in
  the 32-bit unsigned arithmetic of \<open>size_t\<close>. A \<open>memcpy\<close> outside either buffer is \<open>None\<close>.
\<close>

definition clamp_length :: "u32 \<Rightarrow> u32 \<Rightarrow> u32 \<Rightarrow> u32" where
  "clamp_length n offset len = (if offset + len > n then n - offset else len)"

definition transient_driver_erase :: "nat \<Rightarrow> u8 list \<Rightarrow> u8 list" where
  "transient_driver_erase n m = replicate n 0"

definition transient_driver_format :: "nat \<Rightarrow> bool \<Rightarrow> u8 list \<Rightarrow> u8 list" where
  "transient_driver_format n erase m = (if erase then transient_driver_erase n m else m)"

definition transient_read_block :: "nat \<Rightarrow> u8 list \<Rightarrow> u8 list \<Rightarrow> nat \<Rightarrow> u8 list option" where
  "transient_read_block n m buf addr =
    (let buf = replicate (length buf) 0;
         len = unat (clamp_length (of_nat n) (of_nat addr) (of_nat (length buf)))
     in if len > 0 then
          if addr + len > n \<or> len > length buf then None else Some (mem_put buf 0 (mem_get m addr len))
        else Some buf)"

definition transient_write_block :: "nat \<Rightarrow> u8 list \<Rightarrow> u8 list \<Rightarrow> nat \<Rightarrow> u8 list option" where
  "transient_write_block n m buf addr =
    (let len = unat (clamp_length (of_nat n) (of_nat addr) (of_nat (length buf)))
     in if len > 0 then
          if addr + len > n \<or> len > length buf then None else Some (mem_put m addr (take len buf))
        else Some m)"

definition transient_ops :: "nat \<Rightarrow> u8 list eeprom_ops" where
  "transient_ops n = \<lparr>eeprom_read_block = transient_read_block n,
     eeprom_write_block = transient_write_block n,
     eeprom_driver_erase = transient_driver_erase n,
     eeprom_driver_format = transient_driver_format n\<rparr>"

lemma clamp_inside:
  assumes "a + k \<le> n" "n < 2 ^ 32"
  shows "clamp_length (of_nat n) (of_nat a) (of_nat k) = of_nat k"
proof -
  have "of_nat a + of_nat k = (of_nat (a + k) :: u32)" by simp
  moreover have "\<not> (of_nat (a + k) :: u32) > of_nat n"
    using assms by (simp add: word_less_nat_alt unat_of_nat_small del: of_nat_add)
  ultimately show ?thesis by (simp add: clamp_length_def)
qed

lemma transient_read_inside:
  assumes "length m = n" "n < 2 ^ 32" "a + length buf \<le> n"
  shows "transient_read_block n m buf a = Some (mem_get m a (length buf))"
proof -
  have "mem_put (replicate (length buf) 0) 0 (mem_get m a (length buf)) = mem_get m a (length buf)"
    using assms by (simp add: mem_put_def mem_simps)
  then show ?thesis using assms clamp_inside [OF assms(3,2)]
    by (auto simp: transient_read_block_def unat_of_nat_small mem_get_def Let_def)
qed

lemma transient_write_inside:
  assumes "length m = n" "n < 2 ^ 32" "a + length buf \<le> n"
  shows "transient_write_block n m buf a = Some (mem_put m a buf)"
  using assms clamp_inside [OF assms(3,2)]
  by (cases "buf = []") (simp_all add: transient_write_block_def unat_of_nat_small mem_simps Let_def)

lemma transient_store:
  "n < 2 ^ 32 \<Longrightarrow> eeprom_store (transient_ops n) (\<lambda>m. m) (\<lambda>m. length m = n) n"
  by unfold_locales
    (simp_all add: transient_ops_def transient_read_inside transient_write_inside mem_simps)

text \<open>The driver at a size of one kilobyte, the size of the EEPROM of an ATmega32U4.\<close>

interpretation transient_1k: eeprom_store "transient_ops 1024" "\<lambda>m. m" "\<lambda>m. length m = 1024" 1024
  by (rule transient_store) simp

section \<open>Properties\<close>

text \<open>An offset behind the end of the transient buffer is not clamped: for every offset above the
  size, \<open>clamp_length\<close> turns a one-byte request into the unsigned wrap-around of a negative
  length, and both block operations access memory outside the buffer.\<close>

lemma transient_offset_unclamped:
  assumes "n < a" "a < 2 ^ 32 - 1"
  shows "transient_read_block n m [x] a = None \<and> transient_write_block n m [x] a = None"
proof -
  have "of_nat a + 1 = (of_nat (a + 1) :: u32)" by simp
  then have "of_nat n < (of_nat a + 1 :: u32)"
    using assms by (simp add: word_less_nat_alt unat_of_nat_small del: of_nat_add of_nat_Suc)
  then have c: "clamp_length (of_nat n) (of_nat a) 1 = of_nat n - of_nat a"
    by (simp add: clamp_length_def)
  have "unat (of_nat n :: u32) \<noteq> unat (of_nat a :: u32)"
    using assms by (simp add: unat_of_nat_small)
  then have "(of_nat n :: u32) \<noteq> of_nat a" by metis
  then have "0 < unat (of_nat n - of_nat a :: u32)"
    by (simp add: unat_gt_0)
  then show ?thesis using assms c
    by (simp add: transient_read_block_def transient_write_block_def)
qed

lemma transient_offset_unclamped_witness:
  "transient_read_block 64 (replicate 64 0) [0] 65 = None"
  using transient_offset_unclamped [of 64 65 "replicate 64 0" 0] by simp

end
