(* ===== verification/Keycodes.thy ===== *)
theory Keycodes
  imports Qmk_Prelude
begin

text \<open>
  The keycodes, keycode ranges and modifier masks the modelled code names
  (\<open>quantum/keycodes.h\<close>, \<open>quantum/modifiers.h\<close>).
\<close>

definition KC_ESCAPE :: u16 where "KC_ESCAPE = 0x29"
definition KC_BACKSPACE :: u16 where "KC_BACKSPACE = 0x2A"
definition KC_BACKSLASH :: u16 where "KC_BACKSLASH = 0x31"
definition KC_GRAVE :: u16 where "KC_GRAVE = 0x35"
definition KC_CAPS_LOCK :: u16 where "KC_CAPS_LOCK = 0x39"
definition KC_LOCKING_CAPS_LOCK :: u16 where "KC_LOCKING_CAPS_LOCK = 0x82"
definition KC_LEFT_CTRL :: u16 where "KC_LEFT_CTRL = 0xE0"
definition KC_LEFT_SHIFT :: u16 where "KC_LEFT_SHIFT = 0xE1"
definition KC_LEFT_ALT :: u16 where "KC_LEFT_ALT = 0xE2"
definition KC_LEFT_GUI :: u16 where "KC_LEFT_GUI = 0xE3"
definition KC_RIGHT_CTRL :: u16 where "KC_RIGHT_CTRL = 0xE4"
definition KC_RIGHT_SHIFT :: u16 where "KC_RIGHT_SHIFT = 0xE5"
definition KC_RIGHT_ALT :: u16 where "KC_RIGHT_ALT = 0xE6"
definition KC_RIGHT_GUI :: u16 where "KC_RIGHT_GUI = 0xE7"
definition KC_NO :: u16 where "KC_NO = 0"

definition MOD_LCTL :: u8 where "MOD_LCTL = 0x01"
definition MOD_LSFT :: u8 where "MOD_LSFT = 0x02"
definition MOD_LALT :: u8 where "MOD_LALT = 0x04"
definition MOD_LGUI :: u8 where "MOD_LGUI = 0x08"
definition MOD_RCTL :: u8 where "MOD_RCTL = 0x11"
definition MOD_RSFT :: u8 where "MOD_RSFT = 0x12"
definition MOD_RALT :: u8 where "MOD_RALT = 0x14"
definition MOD_RGUI :: u8 where "MOD_RGUI = 0x18"

lemmas kc_defs = KC_ESCAPE_def KC_BACKSPACE_def KC_BACKSLASH_def KC_GRAVE_def KC_CAPS_LOCK_def
  KC_LOCKING_CAPS_LOCK_def KC_LEFT_CTRL_def KC_LEFT_SHIFT_def KC_LEFT_ALT_def KC_LEFT_GUI_def
  KC_RIGHT_CTRL_def KC_RIGHT_SHIFT_def KC_RIGHT_ALT_def KC_RIGHT_GUI_def KC_NO_def

lemmas mod_defs = MOD_LCTL_def MOD_LSFT_def MOD_LALT_def MOD_LGUI_def MOD_RCTL_def MOD_RSFT_def
  MOD_RALT_def MOD_RGUI_def

definition QK_BOOT :: u16 where "QK_BOOT = 0x7C00"
definition QK_MODS_MAX :: u16 where "QK_MODS_MAX = 0x1FFF"
definition QK_TAP_DANCE :: u16 where "QK_TAP_DANCE = 0x5700"
definition QK_TAP_DANCE_MAX :: u16 where "QK_TAP_DANCE_MAX = 0x57FF"
definition QK_MACRO :: u16 where "QK_MACRO = 0x7700"
definition QK_MACRO_MAX :: u16 where "QK_MACRO_MAX = 0x777F"

end
