(* ===== verification/Dynamic_Keymap.thy ===== *)
theory Dynamic_Keymap
  imports Eeprom Keycodes
begin

unbundle bit_operations_syntax

text \<open>
  The dynamic keymap (\<open>quantum/dynamic_keymap.c\<close>): keycodes, encoder keycodes, settings bytes,
  tap-dance, combo and key-override entries and macros in EEPROM, in the configuration of a Vial
  keyboard with every optional part (\<open>VIAL_ENABLE\<close>, \<open>ENCODER_MAP_ENABLE\<close>, \<open>QMK_SETTINGS\<close> and the
  three kinds of dynamic entries) and without \<open>VIAL_INSECURE\<close>.

  The operations run on an EEPROM driver; \<open>None\<close> is an access outside the EEPROM or outside the
  caller's buffer. EEPROM addresses, layers, rows and columns are natural numbers.
\<close>

section \<open>Configuration and layout\<close>

record dk_config =
  DYNAMIC_KEYMAP_EEPROM_ADDR :: nat
  DYNAMIC_KEYMAP_EEPROM_MAX_ADDR :: nat
  DYNAMIC_KEYMAP_LAYER_COUNT :: nat
  MATRIX_ROWS :: nat
  MATRIX_COLS :: nat
  NUM_ENCODERS :: nat
  VIAL_TAP_DANCE_ENTRIES :: nat
  VIAL_COMBO_ENTRIES :: nat
  VIAL_KEY_OVERRIDE_ENTRIES :: nat
  DYNAMIC_KEYMAP_MACRO_COUNT :: nat

definition VIAL_QMK_SETTINGS_SIZE :: nat where
  "VIAL_QMK_SETTINGS_SIZE = 36"

definition keymap_bytes :: "dk_config \<Rightarrow> nat" where
  "keymap_bytes C = DYNAMIC_KEYMAP_LAYER_COUNT C * MATRIX_ROWS C * MATRIX_COLS C * 2"

definition VIAL_ENCODERS_EEPROM_ADDR :: "dk_config \<Rightarrow> nat" where
  "VIAL_ENCODERS_EEPROM_ADDR C = DYNAMIC_KEYMAP_EEPROM_ADDR C + keymap_bytes C"

definition VIAL_ENCODERS_SIZE :: "dk_config \<Rightarrow> nat" where
  "VIAL_ENCODERS_SIZE C = NUM_ENCODERS C * DYNAMIC_KEYMAP_LAYER_COUNT C * 2 * 2"

definition VIAL_QMK_SETTINGS_EEPROM_ADDR :: "dk_config \<Rightarrow> nat" where
  "VIAL_QMK_SETTINGS_EEPROM_ADDR C = VIAL_ENCODERS_EEPROM_ADDR C + VIAL_ENCODERS_SIZE C"

definition VIAL_TAP_DANCE_EEPROM_ADDR :: "dk_config \<Rightarrow> nat" where
  "VIAL_TAP_DANCE_EEPROM_ADDR C = VIAL_QMK_SETTINGS_EEPROM_ADDR C + VIAL_QMK_SETTINGS_SIZE"

definition VIAL_COMBO_EEPROM_ADDR :: "dk_config \<Rightarrow> nat" where
  "VIAL_COMBO_EEPROM_ADDR C = VIAL_TAP_DANCE_EEPROM_ADDR C + 10 * VIAL_TAP_DANCE_ENTRIES C"

definition VIAL_KEY_OVERRIDE_EEPROM_ADDR :: "dk_config \<Rightarrow> nat" where
  "VIAL_KEY_OVERRIDE_EEPROM_ADDR C = VIAL_COMBO_EEPROM_ADDR C + 10 * VIAL_COMBO_ENTRIES C"

definition DYNAMIC_KEYMAP_MACRO_EEPROM_ADDR :: "dk_config \<Rightarrow> nat" where
  "DYNAMIC_KEYMAP_MACRO_EEPROM_ADDR C =
    VIAL_KEY_OVERRIDE_EEPROM_ADDR C + 10 * VIAL_KEY_OVERRIDE_ENTRIES C"

definition DYNAMIC_KEYMAP_MACRO_EEPROM_SIZE :: "dk_config \<Rightarrow> nat" where
  "DYNAMIC_KEYMAP_MACRO_EEPROM_SIZE C =
    DYNAMIC_KEYMAP_EEPROM_MAX_ADDR C - DYNAMIC_KEYMAP_MACRO_EEPROM_ADDR C + 1"

text \<open>The compile-time checks of the file.\<close>

definition dk_config_ok :: "dk_config \<Rightarrow> bool" where
  "dk_config_ok C \<longleftrightarrow> DYNAMIC_KEYMAP_EEPROM_MAX_ADDR C \<le> 65535 \<and>
     DYNAMIC_KEYMAP_MACRO_EEPROM_ADDR C + 100 \<le> DYNAMIC_KEYMAP_EEPROM_MAX_ADDR C"

lemmas address_defs = VIAL_ENCODERS_EEPROM_ADDR_def
  VIAL_QMK_SETTINGS_EEPROM_ADDR_def VIAL_TAP_DANCE_EEPROM_ADDR_def VIAL_COMBO_EEPROM_ADDR_def
  VIAL_KEY_OVERRIDE_EEPROM_ADDR_def DYNAMIC_KEYMAP_MACRO_EEPROM_ADDR_def VIAL_QMK_SETTINGS_SIZE_def

section \<open>Keycodes\<close>

definition dynamic_keymap_get_layer_count :: "dk_config \<Rightarrow> u8" where
  "dynamic_keymap_get_layer_count C = of_nat (DYNAMIC_KEYMAP_LAYER_COUNT C)"

definition dynamic_keymap_key_to_eeprom_address :: "dk_config \<Rightarrow> nat \<Rightarrow> nat \<Rightarrow> nat \<Rightarrow> nat" where
  "dynamic_keymap_key_to_eeprom_address C layer row column =
    DYNAMIC_KEYMAP_EEPROM_ADDR C + layer * MATRIX_ROWS C * MATRIX_COLS C * 2 + row * MATRIX_COLS C * 2
      + column * 2"

definition dynamic_keymap_get_keycode ::
    "dk_config \<Rightarrow> 'e eeprom_ops \<Rightarrow> 'e \<Rightarrow> nat \<Rightarrow> nat \<Rightarrow> nat \<Rightarrow> u16 option" where
  "dynamic_keymap_get_keycode C E e layer row column =
    (if layer \<ge> DYNAMIC_KEYMAP_LAYER_COUNT C \<or> row \<ge> MATRIX_ROWS C \<or> column \<ge> MATRIX_COLS C
     then Some KC_NO
     else do {
       let address = dynamic_keymap_key_to_eeprom_address C layer row column;
       hi \<leftarrow> eeprom_read_byte E e address;
       lo \<leftarrow> eeprom_read_byte E e (address + 1);
       Some (be_word hi lo) })"

definition dynamic_keymap_set_keycode ::
    "dk_config \<Rightarrow> 'e eeprom_ops \<Rightarrow> 'e \<Rightarrow> nat \<Rightarrow> nat \<Rightarrow> nat \<Rightarrow> u16 \<Rightarrow> 'e option" where
  "dynamic_keymap_set_keycode C E e layer row column keycode =
    (if layer \<ge> DYNAMIC_KEYMAP_LAYER_COUNT C \<or> row \<ge> MATRIX_ROWS C \<or> column \<ge> MATRIX_COLS C
     then Some e
     else do {
       let address = dynamic_keymap_key_to_eeprom_address C layer row column;
       e1 \<leftarrow> eeprom_update_byte E e address (high_byte keycode);
       eeprom_update_byte E e1 (address + 1) (low_byte keycode) })"

definition dynamic_keymap_encoder_to_eeprom_address :: "dk_config \<Rightarrow> nat \<Rightarrow> nat \<Rightarrow> nat" where
  "dynamic_keymap_encoder_to_eeprom_address C layer encoder_id =
    VIAL_ENCODERS_EEPROM_ADDR C + layer * NUM_ENCODERS C * 2 * 2 + encoder_id * 2 * 2"

definition dynamic_keymap_get_encoder ::
    "dk_config \<Rightarrow> 'e eeprom_ops \<Rightarrow> 'e \<Rightarrow> nat \<Rightarrow> nat \<Rightarrow> bool \<Rightarrow> u16 option" where
  "dynamic_keymap_get_encoder C E e layer encoder_id clockwise =
    (if layer \<ge> DYNAMIC_KEYMAP_LAYER_COUNT C \<or> encoder_id \<ge> NUM_ENCODERS C then Some KC_NO
     else do {
       let address = dynamic_keymap_encoder_to_eeprom_address C layer encoder_id;
       hi \<leftarrow> eeprom_read_byte E e (address + (if clockwise then 0 else 2));
       lo \<leftarrow> eeprom_read_byte E e (address + (if clockwise then 0 else 2) + 1);
       Some (be_word hi lo) })"

definition dynamic_keymap_set_encoder ::
    "dk_config \<Rightarrow> 'e eeprom_ops \<Rightarrow> 'e \<Rightarrow> nat \<Rightarrow> nat \<Rightarrow> bool \<Rightarrow> u16 \<Rightarrow> 'e option" where
  "dynamic_keymap_set_encoder C E e layer encoder_id clockwise keycode =
    (if layer \<ge> DYNAMIC_KEYMAP_LAYER_COUNT C \<or> encoder_id \<ge> NUM_ENCODERS C then Some e
     else do {
       let address = dynamic_keymap_encoder_to_eeprom_address C layer encoder_id;
       e1 \<leftarrow> eeprom_update_byte E e (address + (if clockwise then 0 else 2)) (high_byte keycode);
       eeprom_update_byte E e1 (address + (if clockwise then 0 else 2) + 1) (low_byte keycode) })"

definition keycode_at_keymap_location ::
    "dk_config \<Rightarrow> 'e eeprom_ops \<Rightarrow> 'e \<Rightarrow> nat \<Rightarrow> nat \<Rightarrow> nat \<Rightarrow> u16 option" where
  "keycode_at_keymap_location C E e layer_num row column =
    (if layer_num < DYNAMIC_KEYMAP_LAYER_COUNT C \<and> row < MATRIX_ROWS C \<and> column < MATRIX_COLS C
     then dynamic_keymap_get_keycode C E e layer_num row column else Some KC_NO)"

definition keycode_at_encodermap_location ::
    "dk_config \<Rightarrow> 'e eeprom_ops \<Rightarrow> 'e \<Rightarrow> nat \<Rightarrow> nat \<Rightarrow> bool \<Rightarrow> u16 option" where
  "keycode_at_encodermap_location C E e layer_num encoder_idx clockwise =
    (if layer_num < DYNAMIC_KEYMAP_LAYER_COUNT C \<and> encoder_idx < NUM_ENCODERS C
     then dynamic_keymap_get_encoder C E e layer_num encoder_idx clockwise else Some KC_NO)"

section \<open>Settings bytes and dynamic entries\<close>

definition dynamic_keymap_get_qmk_settings :: "dk_config \<Rightarrow> 'e eeprom_ops \<Rightarrow> 'e \<Rightarrow> nat \<Rightarrow> u8 option" where
  "dynamic_keymap_get_qmk_settings C E e offset =
    (if offset \<ge> VIAL_QMK_SETTINGS_SIZE then Some 0
     else eeprom_read_byte E e (VIAL_QMK_SETTINGS_EEPROM_ADDR C + offset))"

definition dynamic_keymap_set_qmk_settings ::
    "dk_config \<Rightarrow> 'e eeprom_ops \<Rightarrow> 'e \<Rightarrow> nat \<Rightarrow> u8 \<Rightarrow> 'e option" where
  "dynamic_keymap_set_qmk_settings C E e offset value =
    (if offset \<ge> VIAL_QMK_SETTINGS_SIZE then Some e
     else eeprom_update_byte E e (VIAL_QMK_SETTINGS_EEPROM_ADDR C + offset) value)"

record vial_tap_dance_entry_t =
  on_tap :: u16
  on_hold :: u16
  on_double_tap :: u16
  on_tap_hold :: u16
  custom_tapping_term :: u16

record vial_combo_entry_t =
  combo_input :: "u16 list"
  combo_output :: u16

record vial_key_override_entry_t =
  entry_trigger :: u16
  entry_replacement :: u16
  entry_layers :: u16
  entry_trigger_mods :: u8
  entry_negative_mod_mask :: u8
  entry_suppressed_mods :: u8
  entry_options :: u8

text \<open>The memory images of the three structures and their inverses.\<close>

definition tap_dance_bytes :: "vial_tap_dance_entry_t \<Rightarrow> u8 list" where
  "tap_dance_bytes t = le_bytes 2 (on_tap t) @ le_bytes 2 (on_hold t) @ le_bytes 2 (on_double_tap t) @
     le_bytes 2 (on_tap_hold t) @ le_bytes 2 (custom_tapping_term t)"

definition tap_dance_of :: "u8 list \<Rightarrow> vial_tap_dance_entry_t" where
  "tap_dance_of b = \<lparr>on_tap = le_word (mem_get b 0 2), on_hold = le_word (mem_get b 2 2),
     on_double_tap = le_word (mem_get b 4 2), on_tap_hold = le_word (mem_get b 6 2),
     custom_tapping_term = le_word (mem_get b 8 2)\<rparr>"

definition combo_bytes :: "vial_combo_entry_t \<Rightarrow> u8 list" where
  "combo_bytes t = concat (map (le_bytes 2) (combo_input t)) @ le_bytes 2 (combo_output t)"

definition combo_of :: "u8 list \<Rightarrow> vial_combo_entry_t" where
  "combo_of b = \<lparr>combo_input = map (\<lambda>i. le_word (mem_get b (2 * i) 2)) [0..<4],
     combo_output = le_word (mem_get b 8 2)\<rparr>"

definition key_override_bytes :: "vial_key_override_entry_t \<Rightarrow> u8 list" where
  "key_override_bytes t = le_bytes 2 (entry_trigger t) @ le_bytes 2 (entry_replacement t) @ le_bytes 2 (entry_layers t) @
     [entry_trigger_mods t, entry_negative_mod_mask t, entry_suppressed_mods t, entry_options t]"

definition key_override_of :: "u8 list \<Rightarrow> vial_key_override_entry_t" where
  "key_override_of b = \<lparr>entry_trigger = le_word (mem_get b 0 2), entry_replacement = le_word (mem_get b 2 2),
     entry_layers = le_word (mem_get b 4 2), entry_trigger_mods = b ! 6, entry_negative_mod_mask = b ! 7,
     entry_suppressed_mods = b ! 8, entry_options = b ! 9\<rparr>"

text \<open>The result is the C return value with the entry after the call; \<open>-1\<close> leaves it as it was.\<close>

definition dynamic_keymap_get_tap_dance ::
    "dk_config \<Rightarrow> 'e eeprom_ops \<Rightarrow> 'e \<Rightarrow> nat \<Rightarrow> vial_tap_dance_entry_t \<Rightarrow> (int \<times> vial_tap_dance_entry_t) option"
  where
  "dynamic_keymap_get_tap_dance C E e index entry =
    (if index \<ge> VIAL_TAP_DANCE_ENTRIES C then Some (-1, entry)
     else do {
       b \<leftarrow> eeprom_read_block E e (tap_dance_bytes entry) (VIAL_TAP_DANCE_EEPROM_ADDR C + index * 10);
       Some (0, tap_dance_of b) })"

definition dynamic_keymap_set_tap_dance ::
    "dk_config \<Rightarrow> 'e eeprom_ops \<Rightarrow> 'e \<Rightarrow> nat \<Rightarrow> vial_tap_dance_entry_t \<Rightarrow> (int \<times> 'e) option" where
  "dynamic_keymap_set_tap_dance C E e index entry =
    (if index \<ge> VIAL_TAP_DANCE_ENTRIES C then Some (-1, e)
     else do {
       e1 \<leftarrow> eeprom_write_block E e (tap_dance_bytes entry) (VIAL_TAP_DANCE_EEPROM_ADDR C + index * 10);
       Some (0, e1) })"

definition dynamic_keymap_get_combo ::
    "dk_config \<Rightarrow> 'e eeprom_ops \<Rightarrow> 'e \<Rightarrow> nat \<Rightarrow> vial_combo_entry_t \<Rightarrow> (int \<times> vial_combo_entry_t) option" where
  "dynamic_keymap_get_combo C E e index entry =
    (if index \<ge> VIAL_COMBO_ENTRIES C then Some (-1, entry)
     else do {
       b \<leftarrow> eeprom_read_block E e (combo_bytes entry) (VIAL_COMBO_EEPROM_ADDR C + index * 10);
       Some (0, combo_of b) })"

definition dynamic_keymap_set_combo ::
    "dk_config \<Rightarrow> 'e eeprom_ops \<Rightarrow> 'e \<Rightarrow> nat \<Rightarrow> vial_combo_entry_t \<Rightarrow> (int \<times> 'e) option" where
  "dynamic_keymap_set_combo C E e index entry =
    (if index \<ge> VIAL_COMBO_ENTRIES C then Some (-1, e)
     else do {
       e1 \<leftarrow> eeprom_write_block E e (combo_bytes entry) (VIAL_COMBO_EEPROM_ADDR C + index * 10);
       Some (0, e1) })"

definition dynamic_keymap_get_key_override ::
    "dk_config \<Rightarrow> 'e eeprom_ops \<Rightarrow> 'e \<Rightarrow> nat \<Rightarrow> vial_key_override_entry_t
      \<Rightarrow> (int \<times> vial_key_override_entry_t) option" where
  "dynamic_keymap_get_key_override C E e index entry =
    (if index \<ge> VIAL_KEY_OVERRIDE_ENTRIES C then Some (-1, entry)
     else do {
       b \<leftarrow> eeprom_read_block E e (key_override_bytes entry)
         (VIAL_KEY_OVERRIDE_EEPROM_ADDR C + index * 10);
       Some (0, key_override_of b) })"

definition dynamic_keymap_set_key_override ::
    "dk_config \<Rightarrow> 'e eeprom_ops \<Rightarrow> 'e \<Rightarrow> nat \<Rightarrow> vial_key_override_entry_t \<Rightarrow> (int \<times> 'e) option" where
  "dynamic_keymap_set_key_override C E e index entry =
    (if index \<ge> VIAL_KEY_OVERRIDE_ENTRIES C then Some (-1, e)
     else do {
       e1 \<leftarrow> eeprom_write_block E e (key_override_bytes entry)
         (VIAL_KEY_OVERRIDE_EEPROM_ADDR C + index * 10);
       Some (0, e1) })"

section \<open>Buffers\<close>

text \<open>
  The caller's buffer is the list \<open>data\<close>; reading or writing an index outside it is \<open>None\<close>.
\<close>

definition buf_nth :: "u8 list \<Rightarrow> nat \<Rightarrow> u8 option" where
  "buf_nth data i = (if i < length data then Some (data ! i) else None)"

definition buf_set :: "u8 list \<Rightarrow> nat \<Rightarrow> u8 \<Rightarrow> u8 list option" where
  "buf_set data i v = (if i < length data then Some (data[i := v]) else None)"

text \<open>
  The copying loops of the four buffer operations: an area of \<open>limit\<close> bytes at the address
  \<open>start\<close>, the loop counter \<open>i\<close> and the number of iterations left.
\<close>

fun buffer_get_loop ::
    "'e eeprom_ops \<Rightarrow> 'e \<Rightarrow> nat \<Rightarrow> nat \<Rightarrow> nat \<Rightarrow> nat \<Rightarrow> nat \<Rightarrow> u8 list \<Rightarrow> u8 list option" where
  "buffer_get_loop E e start limit offset i 0 data = Some data"
| "buffer_get_loop E e start limit offset i (Suc n) data = do {
     v \<leftarrow> (if offset + i < limit then eeprom_read_byte E e (start + offset + i) else Some 0);
     data1 \<leftarrow> buf_set data i v;
     buffer_get_loop E e start limit offset (Suc i) n data1 }"

fun buffer_set_loop ::
    "'e eeprom_ops \<Rightarrow> 'e \<Rightarrow> nat \<Rightarrow> nat \<Rightarrow> nat \<Rightarrow> nat \<Rightarrow> nat \<Rightarrow> u8 list \<Rightarrow> 'e option" where
  "buffer_set_loop E e start limit offset i 0 data = Some e"
| "buffer_set_loop E e start limit offset i (Suc n) data = do {
     e1 \<leftarrow> (if offset + i < limit
            then do { v \<leftarrow> buf_nth data i; eeprom_update_byte E e (start + offset + i) v }
            else Some e);
     buffer_set_loop E e1 start limit offset (Suc i) n data }"

definition dynamic_keymap_get_buffer ::
    "dk_config \<Rightarrow> 'e eeprom_ops \<Rightarrow> 'e \<Rightarrow> nat \<Rightarrow> nat \<Rightarrow> u8 list \<Rightarrow> u8 list option" where
  "dynamic_keymap_get_buffer C E e offset sz data =
    buffer_get_loop E e (DYNAMIC_KEYMAP_EEPROM_ADDR C) (keymap_bytes C mod 2 ^ 16) offset 0 sz data"

text \<open>
  The check of a locked keyboard in \<open>dynamic_keymap_set_buffer\<close>: \<open>QK_BOOT\<close> in the data, or formed
  by the first or last byte together with the byte that is already stored next to it, is replaced.
  \<open>chk_sz\<close> is a \<open>uint16_t\<close>; \<open>data[size - 1]\<close> with a \<open>size\<close> of 0 is in front of the buffer.
\<close>

definition check_first :: "'e eeprom_ops \<Rightarrow> 'e \<Rightarrow> nat \<Rightarrow> nat \<Rightarrow> u8 list \<Rightarrow> (nat \<times> u8 list) option" where
  "check_first E e target offset data =
    (if offset mod 2 \<noteq> 0 then do {
       hi \<leftarrow> eeprom_read_byte E e (target - 1);
       d \<leftarrow> buf_nth data 0;
       data1 \<leftarrow> (if be_word hi d = QK_BOOT then buf_set data 0 0xFF else Some data);
       Some (1, data1) }
     else Some (0, data))"

definition check_last ::
    "'e eeprom_ops \<Rightarrow> 'e \<Rightarrow> nat \<Rightarrow> nat \<Rightarrow> nat \<Rightarrow> u8 list \<Rightarrow> (nat \<times> u8 list) option" where
  "check_last E e target offset sz data =
    (if (offset + sz) mod 2 \<noteq> 0 then do {
       d \<leftarrow> (if sz = 0 then None else buf_nth data (sz - 1));
       lo \<leftarrow> eeprom_read_byte E e (target + sz);
       data1 \<leftarrow> (if be_word d lo = QK_BOOT then buf_set data (sz - 1) 0xFF else Some data);
       Some ((sz + 65535) mod 65536, data1) }
     else Some (sz, data))"

function check_all :: "nat \<Rightarrow> nat \<Rightarrow> u8 list \<Rightarrow> u8 list option" where
  "check_all i chk_sz data =
    (if i < chk_sz then do {
       hi \<leftarrow> buf_nth data i;
       lo \<leftarrow> buf_nth data (i + 1);
       data1 \<leftarrow> (if be_word hi lo = QK_BOOT
                 then do { d \<leftarrow> buf_set data i 0xFF; buf_set d (i + 1) 0xFF } else Some data);
       check_all (i + 2) chk_sz data1 }
     else Some data)"
  by pat_completeness auto
termination by (relation "measure (\<lambda>(i, chk_sz, data). chk_sz - i)") auto

declare check_all.simps [simp del]

text \<open>The keymap and the data after the call, which the caller sends back to the host.\<close>

definition dynamic_keymap_set_buffer ::
    "dk_config \<Rightarrow> 'e eeprom_ops \<Rightarrow> bool \<Rightarrow> 'e \<Rightarrow> nat \<Rightarrow> nat \<Rightarrow> u8 list \<Rightarrow> ('e \<times> u8 list) option" where
  "dynamic_keymap_set_buffer C E unlocked e offset sz data =
    (let dynamic_keymap_eeprom_size = keymap_bytes C mod 2 ^ 16;
         target = DYNAMIC_KEYMAP_EEPROM_ADDR C + offset
     in if offset \<ge> dynamic_keymap_eeprom_size \<or> dynamic_keymap_eeprom_size - offset < sz
        then Some (e, data)
        else do {
          data1 \<leftarrow> (if unlocked then Some data
                    else do {
                      (chk_offset, d1) \<leftarrow> check_first E e target offset data;
                      (chk_sz, d2) \<leftarrow> check_last E e target offset sz d1;
                      check_all chk_offset chk_sz d2 });
          e1 \<leftarrow> buffer_set_loop E e (DYNAMIC_KEYMAP_EEPROM_ADDR C) dynamic_keymap_eeprom_size
                 offset 0 sz data1;
          Some (e1, data1) })"

section \<open>Macros\<close>

definition dynamic_keymap_macro_get_count :: "dk_config \<Rightarrow> u8" where
  "dynamic_keymap_macro_get_count C = of_nat (DYNAMIC_KEYMAP_MACRO_COUNT C)"

definition dynamic_keymap_macro_get_buffer_size :: "dk_config \<Rightarrow> u16" where
  "dynamic_keymap_macro_get_buffer_size C = of_nat (DYNAMIC_KEYMAP_MACRO_EEPROM_SIZE C)"

definition dynamic_keymap_macro_get_buffer ::
    "dk_config \<Rightarrow> 'e eeprom_ops \<Rightarrow> 'e \<Rightarrow> nat \<Rightarrow> nat \<Rightarrow> u8 list \<Rightarrow> u8 list option" where
  "dynamic_keymap_macro_get_buffer C E e offset sz data =
    buffer_get_loop E e (DYNAMIC_KEYMAP_MACRO_EEPROM_ADDR C) (DYNAMIC_KEYMAP_MACRO_EEPROM_SIZE C)
      offset 0 sz data"

definition dynamic_keymap_macro_set_buffer ::
    "dk_config \<Rightarrow> 'e eeprom_ops \<Rightarrow> 'e \<Rightarrow> nat \<Rightarrow> nat \<Rightarrow> u8 list \<Rightarrow> 'e option" where
  "dynamic_keymap_macro_set_buffer C E e offset sz data =
    buffer_set_loop E e (DYNAMIC_KEYMAP_MACRO_EEPROM_ADDR C) (DYNAMIC_KEYMAP_MACRO_EEPROM_SIZE C)
      offset 0 sz data"

fun macro_reset_loop :: "'e eeprom_ops \<Rightarrow> 'e \<Rightarrow> nat \<Rightarrow> nat \<Rightarrow> 'e option" where
  "macro_reset_loop E e p 0 = Some e"
| "macro_reset_loop E e p (Suc n) = do {
     e1 \<leftarrow> eeprom_update_byte E e p 0; macro_reset_loop E e1 (p + 1) n }"

definition dynamic_keymap_macro_reset :: "dk_config \<Rightarrow> 'e eeprom_ops \<Rightarrow> 'e \<Rightarrow> 'e option" where
  "dynamic_keymap_macro_reset C E e =
    macro_reset_loop E e (DYNAMIC_KEYMAP_MACRO_EEPROM_ADDR C) (DYNAMIC_KEYMAP_MACRO_EEPROM_SIZE C)"

definition decode_keycode :: "u16 \<Rightarrow> u16" where
  "decode_keycode kc = (if kc > 0xFF00 then push_bit 8 (kc AND 0xFF) else kc)"

text \<open>What sending a macro does, in order.\<close>

datatype macro_event = Send_String "u8 list" | Send_String_With_Delay "u8 list"
  | Keycode_Tap u16 | Keycode_Down u16 | Keycode_Up u16 | Wait_Ms nat

definition SS_QMK_PREFIX :: u8 where "SS_QMK_PREFIX = 1"
definition SS_TAP_CODE :: u8 where "SS_TAP_CODE = 1"
definition SS_DOWN_CODE :: u8 where "SS_DOWN_CODE = 2"
definition SS_UP_CODE :: u8 where "SS_UP_CODE = 3"
definition SS_DELAY_CODE :: u8 where "SS_DELAY_CODE = 4"
definition VIAL_MACRO_EXT_TAP :: u8 where "VIAL_MACRO_EXT_TAP = 5"
definition VIAL_MACRO_EXT_DOWN :: u8 where "VIAL_MACRO_EXT_DOWN = 6"
definition VIAL_MACRO_EXT_UP :: u8 where "VIAL_MACRO_EXT_UP = 7"

text \<open>
  One iteration of the sending loop at the address \<open>p\<close>: the events it causes and, unless it leaves
  the loop, the address after it.
\<close>

definition macro_step :: "'e eeprom_ops \<Rightarrow> 'e \<Rightarrow> nat \<Rightarrow> (macro_event list \<times> nat option) option" where
  "macro_step E e p = do {
     d0 \<leftarrow> eeprom_read_byte E e p;
     if d0 = 0 then Some ([], None)
     else if d0 = SS_QMK_PREFIX then do {
       d1 \<leftarrow> eeprom_read_byte E e (p + 1);
       if d1 = 0 then Some ([], None)
       else if d1 = SS_TAP_CODE \<or> d1 = SS_DOWN_CODE \<or> d1 = SS_UP_CODE then do {
         d2 \<leftarrow> eeprom_read_byte E e (p + 2);
         Some (if d2 \<noteq> 0 then [Send_String [d0, d1, d2]] else [], Some (p + 3)) }
       else if d1 = VIAL_MACRO_EXT_TAP \<or> d1 = VIAL_MACRO_EXT_DOWN \<or> d1 = VIAL_MACRO_EXT_UP then do {
         d2 \<leftarrow> eeprom_read_byte E e (p + 2);
         if d2 \<noteq> 0 then do {
           d3 \<leftarrow> eeprom_read_byte E e (p + 3);
           let kc = decode_keycode (le_word [d2, d3]);
           Some (if d3 = 0 then []
                 else if d1 = VIAL_MACRO_EXT_TAP then [Keycode_Tap kc]
                 else if d1 = VIAL_MACRO_EXT_DOWN then [Keycode_Down kc] else [Keycode_Up kc],
                 Some (p + 4)) }
         else Some ([], Some (p + 3)) }
       else if d1 = SS_DELAY_CODE then do {
         d2 \<leftarrow> eeprom_read_byte E e (p + 2);
         d3 \<leftarrow> eeprom_read_byte E e (p + 3);
         Some (if d2 = 0 \<or> d3 = 0 then ([], None)
               else ([Wait_Ms ((unat d2 - 1) + (unat d3 - 1) * 255)], Some (p + 4))) }
       else Some ([], Some (p + 2)) }
     else Some ([Send_String_With_Delay [d0]], Some (p + 1)) }"

text \<open>The sending loop has no bound of its own: \<open>None\<close> also stands for a loop that does not end.\<close>

partial_function (option) macro_send_loop ::
    "'e eeprom_ops \<Rightarrow> 'e \<Rightarrow> nat \<Rightarrow> macro_event list option" where
  "macro_send_loop E e p =
    Option.bind (macro_step E e p) (\<lambda>(ev, next).
      case next of None \<Rightarrow> Some ev
      | Some q \<Rightarrow> Option.bind (macro_send_loop E e q) (\<lambda>rest. Some (ev @ rest)))"

text \<open>Skipping \<open>id\<close> terminators: the address behind them, or nothing when the area ends first.\<close>

fun macro_skip :: "'e eeprom_ops \<Rightarrow> 'e \<Rightarrow> nat \<Rightarrow> nat \<Rightarrow> nat \<Rightarrow> nat option option" where
  "macro_skip E e left p n =
    (if n = 0 then Some (Some p)
     else case left of 0 \<Rightarrow> Some None
     | Suc m \<Rightarrow> do { v \<leftarrow> eeprom_read_byte E e p; macro_skip E e m (p + 1) (if v = 0 then n - 1 else n) })"

definition dynamic_keymap_macro_send ::
    "dk_config \<Rightarrow> 'e eeprom_ops \<Rightarrow> 'e \<Rightarrow> nat \<Rightarrow> macro_event list option" where
  "dynamic_keymap_macro_send C E e n =
    (if n \<ge> DYNAMIC_KEYMAP_MACRO_COUNT C then Some []
     else do {
       v \<leftarrow> eeprom_read_byte E e
         (DYNAMIC_KEYMAP_MACRO_EEPROM_ADDR C + DYNAMIC_KEYMAP_MACRO_EEPROM_SIZE C - 1);
       if v \<noteq> 0 then Some []
       else do {
         r \<leftarrow> macro_skip E e (DYNAMIC_KEYMAP_MACRO_EEPROM_SIZE C) (DYNAMIC_KEYMAP_MACRO_EEPROM_ADDR C) n;
         (case r of None \<Rightarrow> Some [] | Some p \<Rightarrow> macro_send_loop E e p) } })"

end
