(* ===== verification/Dynamic_Keymap_Store.thy ===== *)
theory Dynamic_Keymap_Store
  imports Dynamic_Keymap
begin

unbundle bit_operations_syntax

text \<open>
  Correctness of the dynamic keymap on any EEPROM driver that keeps its contract: the locale
  \<open>keymap_store\<close> adds a layout that fits the device, and its lemmas give the functional behaviour of
  the operations in terms of the byte array of the device.
\<close>

section \<open>Copying loops and the locked check, without the device\<close>

definition boot_pair :: "u8 list \<Rightarrow> nat \<Rightarrow> bool" where
  "boot_pair d i \<longleftrightarrow> be_word (d ! i) (d ! (i + 1)) = QK_BOOT"

lemma not_boot_FF: "be_word 0xFF x \<noteq> QK_BOOT" "be_word x 0xFF \<noteq> QK_BOOT"
  by (auto simp: be_word_eq_iff high_byte_def low_byte_def QK_BOOT_def drop_bit_eq_div)

lemma check_all_result:
  "i + 2 * m \<le> length data \<Longrightarrow> \<exists>d. check_all i (i + 2 * m) data = Some d \<and> length d = length data \<and>
    (\<forall>k. k < i \<or> i + 2 * m \<le> k \<longrightarrow> d ! k = data ! k) \<and> (\<forall>j < m. \<not> boot_pair d (i + 2 * j))"
proof (induction m arbitrary: i data)
  case 0
  then show ?case by (subst check_all.simps) auto
next
  case (Suc m)
  define d1 where "d1 = (if boot_pair data i then (data[i := 0xFF])[i + 1 := 0xFF] else data)"
  have step: "check_all i (i + 2 * Suc m) data = check_all (i + 2) (i + 2 + 2 * m) d1"
    using Suc.prems
    by (subst check_all.simps) (simp add: buf_nth_def buf_set_def d1_def boot_pair_def)
  have d1: "length d1 = length data" "\<forall>k. k < i \<or> i + 2 \<le> k \<longrightarrow> d1 ! k = data ! k" "\<not> boot_pair d1 i"
    using Suc.prems by (auto simp: d1_def boot_pair_def not_boot_FF)
  obtain d where d: "check_all (i + 2) (i + 2 + 2 * m) d1 = Some d" "length d = length d1"
    "\<forall>k. k < i + 2 \<or> i + 2 + 2 * m \<le> k \<longrightarrow> d ! k = d1 ! k" "\<forall>j < m. \<not> boot_pair d (i + 2 + 2 * j)"
    using Suc.IH [of "i + 2" d1] Suc.prems d1(1) by auto
  have "\<not> boot_pair d (i + 2 * j)" if "j < Suc m" for j
    using that d(3,4) d1(3) by (cases j) (auto simp: boot_pair_def)
  then show ?case using step d d1 by auto
qed

section \<open>Positions in a table\<close>

lemma mult_index_less: "i < m \<Longrightarrow> j < n \<Longrightarrow> i * n + j < m * (n :: nat)"
  by (metis (no_types, lifting) add.commute add_less_cancel_left less_le_trans mult_Suc
      mult_le_mono1 Suc_leI)

lemma mult_index_eq: "j < n \<Longrightarrow> j' < n \<Longrightarrow> i * n + j = i' * n + j' \<longleftrightarrow> i = i' \<and> j = (j' :: nat)"
  by (metis add.commute add_right_cancel div_mult_self3 div_less less_zeroE add_0 not_gr_zero)

section \<open>The locale\<close>

locale keymap_store = eeprom_store E array good size
  for E :: "'e eeprom_ops" and array good size +
  fixes C :: dk_config
  assumes layout: "dk_config_ok C"
    and fits: "DYNAMIC_KEYMAP_EEPROM_MAX_ADDR C < size"
begin

lemma buffer_set_loop_result:
  "good e \<Longrightarrow> offset + i + n \<le> limit \<Longrightarrow> i + n \<le> length data \<Longrightarrow> start + limit \<le> size \<Longrightarrow>
    \<exists>e'. buffer_set_loop E e start limit offset i n data = Some e' \<and> good e' \<and>
      array e' = mem_put (array e) (start + offset + i) (mem_get data i n)"
proof (induction n arbitrary: e i)
  case 0
  then show ?case by (simp add: mem_get_def mem_put_def)
next
  case (Suc n)
  let ?e = "put_byte e (start + offset + i) (data ! i)"
  have e: "eeprom_update_byte E e (start + offset + i) (data ! i) = Some ?e" "good ?e"
    "array ?e = (array e)[start + offset + i := data ! i]"
    using update_byte [of e "start + offset + i"] Suc.prems by auto
  obtain e' where e': "buffer_set_loop E ?e start limit offset (Suc i) n data = Some e'" "good e'"
    "array e' = mem_put (array ?e) (start + offset + Suc i) (mem_get data (Suc i) n)"
    using Suc.IH [OF e(2), of "Suc i"] Suc.prems by auto
  have len: "start + offset + i < length (array e)" using Suc.prems length_array by simp
  have "mem_put (array e) (start + offset + i) (mem_get data i (Suc n)) = array e'"
  proof -
    have "mem_get data i (Suc n) = [data ! i] @ mem_get data (Suc i) n"
      using Suc.prems by (simp add: mem_get_def Cons_nth_drop_Suc [symmetric])
    then show ?thesis
      using e'(3) e(3) len Suc.prems length_array
        mem_put_append [of "start + offset + i" "[data ! i]" "mem_get data (Suc i) n" "array e"]
      by (simp add: mem_put_one mem_simps)
  qed
  then show ?case using Suc.prems e e' by (auto simp: buf_nth_def)
qed

lemma buffer_get_loop_result:
  "good e \<Longrightarrow> i + n \<le> length data \<Longrightarrow> start + limit \<le> size \<Longrightarrow>
    \<exists>d. buffer_get_loop E e start limit offset i n data = Some d \<and> length d = length data \<and>
      (\<forall>k < length data. d ! k = (if i \<le> k \<and> k < i + n
         then if offset + k < limit then array e ! (start + offset + k) else 0 else data ! k))"
proof (induction n arbitrary: i data)
  case 0
  then show ?case by auto
next
  case (Suc n)
  let ?v = "if offset + i < limit then array e ! (start + offset + i) else 0"
  obtain d where d: "buffer_get_loop E e start limit offset (Suc i) n (data[i := ?v]) = Some d"
    "length d = length data"
    "\<forall>k < length data. d ! k = (if Suc i \<le> k \<and> k < Suc i + n
         then if offset + k < limit then array e ! (start + offset + k) else 0 else data[i := ?v] ! k)"
    using Suc.IH [of "Suc i" "data[i := ?v]"] Suc.prems by auto
  have "buffer_get_loop E e start limit offset i (Suc n) data = Some d"
    using d(1) Suc.prems read_byte [of e "start + offset + i"] by (auto simp: buf_set_def)
  then show ?case using d(2,3) by (auto simp: nth_list_update Suc_le_eq le_less)
qed

section \<open>Keycodes\<close>

definition key_ok :: "nat \<Rightarrow> nat \<Rightarrow> nat \<Rightarrow> bool" where
  "key_ok l r c \<longleftrightarrow> l < DYNAMIC_KEYMAP_LAYER_COUNT C \<and> r < MATRIX_ROWS C \<and> c < MATRIX_COLS C"

definition encoder_ok :: "nat \<Rightarrow> nat \<Rightarrow> bool" where
  "encoder_ok l i \<longleftrightarrow> l < DYNAMIC_KEYMAP_LAYER_COUNT C \<and> i < NUM_ENCODERS C"

lemma keymap_fits: "DYNAMIC_KEYMAP_EEPROM_ADDR C + keymap_bytes C \<le> size" "keymap_bytes C < 65536"
  and encoders_fit: "VIAL_ENCODERS_EEPROM_ADDR C + VIAL_ENCODERS_SIZE C \<le> size"
  and macros_fit: "DYNAMIC_KEYMAP_MACRO_EEPROM_ADDR C + DYNAMIC_KEYMAP_MACRO_EEPROM_SIZE C \<le> size"
  using layout fits
  by (auto simp: dk_config_ok_def address_defs DYNAMIC_KEYMAP_MACRO_EEPROM_SIZE_def)

lemma key_in_keymap:
  assumes "key_ok l r c"
  shows "dynamic_keymap_key_to_eeprom_address C l r c + 2 \<le> DYNAMIC_KEYMAP_EEPROM_ADDR C + keymap_bytes C"
proof -
  have "(l * MATRIX_ROWS C + r) * MATRIX_COLS C + c < DYNAMIC_KEYMAP_LAYER_COUNT C * MATRIX_ROWS C * MATRIX_COLS C"
    using assms by (auto simp: key_ok_def intro!: mult_index_less)
  then show ?thesis
    by (simp add: dynamic_keymap_key_to_eeprom_address_def keymap_bytes_def algebra_simps)
qed

lemma key_address_eq:
  assumes "key_ok l r c" "key_ok l' r' c'"
  shows "dynamic_keymap_key_to_eeprom_address C l r c = dynamic_keymap_key_to_eeprom_address C l' r' c'
    \<longleftrightarrow> (l, r, c) = (l', r', c')" (is "?a = ?b \<longleftrightarrow> _")
proof -
  have "?a = ?b \<longleftrightarrow> (l * MATRIX_ROWS C + r) * MATRIX_COLS C + c
      = (l' * MATRIX_ROWS C + r') * MATRIX_COLS C + c'"
    by (simp add: dynamic_keymap_key_to_eeprom_address_def algebra_simps) arith
  then show ?thesis using assms by (simp add: mult_index_eq key_ok_def)
qed

lemma key_address_apart:
  "dynamic_keymap_key_to_eeprom_address C l r c = a \<Longrightarrow> dynamic_keymap_key_to_eeprom_address C l' r' c' = b
    \<Longrightarrow> a \<noteq> b \<Longrightarrow> a + 2 \<le> b \<or> b + 2 \<le> a"
  unfolding dynamic_keymap_key_to_eeprom_address_def by presburger

text \<open>A big-endian keycode at an address.\<close>

definition be_at :: "'e \<Rightarrow> nat \<Rightarrow> u16" where
  "be_at e a = be_word (array e ! a) (array e ! (a + 1))"

definition put_be :: "'e \<Rightarrow> nat \<Rightarrow> u16 \<Rightarrow> 'e" where
  "put_be e a k = put_byte (put_byte e a (high_byte k)) (a + 1) (low_byte k)"

lemma get_be:
  "good e \<Longrightarrow> a + 2 \<le> size \<Longrightarrow>
    do { hi \<leftarrow> eeprom_read_byte E e a; lo \<leftarrow> eeprom_read_byte E e (a + 1); Some (be_word hi lo) } = Some (be_at e a)"
  by (simp add: read_byte be_at_def)

lemma set_be:
  assumes "good e" "a + 2 \<le> size"
  shows "do { e1 \<leftarrow> eeprom_update_byte E e a (high_byte k); eeprom_update_byte E e1 (a + 1) (low_byte k) }
      = Some (put_be e a k)"
    and "good (put_be e a k)" and "array (put_be e a k) = mem_put (array e) a [high_byte k, low_byte k]"
  using assms length_array [of e] mem_put_append [of a "[high_byte k]" "[low_byte k]" "array e"]
  by (simp_all add: update_byte put_be_def mem_put_one)

lemma be_at_put_be:
  assumes "good e" "a + 2 \<le> size" "b + 2 \<le> size" "a = b \<or> a + 2 \<le> b \<or> b + 2 \<le> a"
  shows "be_at (put_be e a k) b = (if a = b then k else be_at e b)"
  using assms length_array [of e]
  by (auto simp: be_at_def set_be mem_put_nth be_word_bytes nth_Cons')

lemma get_keycode:
  assumes "good e"
  shows "dynamic_keymap_get_keycode C E e l r c = Some (if key_ok l r c
    then be_at e (dynamic_keymap_key_to_eeprom_address C l r c) else KC_NO)"
proof (cases "key_ok l r c")
  case True
  then show ?thesis using get_be [OF assms] key_in_keymap [OF True] keymap_fits
    by (simp add: dynamic_keymap_get_keycode_def key_ok_def Let_def)
qed (auto simp: dynamic_keymap_get_keycode_def key_ok_def)

lemma set_keycode:
  assumes "good e"
  shows "dynamic_keymap_set_keycode C E e l r c k = Some (if key_ok l r c
    then put_be e (dynamic_keymap_key_to_eeprom_address C l r c) k else e)"
proof (cases "key_ok l r c")
  case True
  then show ?thesis using set_be(1) [OF assms] key_in_keymap [OF True] keymap_fits
    by (simp add: dynamic_keymap_set_keycode_def key_ok_def Let_def)
qed (auto simp: dynamic_keymap_set_keycode_def key_ok_def)

lemma set_get_keycode:
  assumes "good e" "key_ok l r c"
  shows "\<exists>e'. dynamic_keymap_set_keycode C E e l r c k = Some e' \<and> good e' \<and>
    (\<forall>l' r' c'. dynamic_keymap_get_keycode C E e' l' r' c' =
      (if (l', r', c') = (l, r, c) then Some k else dynamic_keymap_get_keycode C E e l' r' c'))"
proof -
  let ?a = "dynamic_keymap_key_to_eeprom_address C"
  let ?e = "put_be e (?a l r c) k"
  have a: "?a l r c + 2 \<le> size" using key_in_keymap [OF assms(2)] keymap_fits by simp
  have g: "good ?e" using set_be(2) [OF assms(1) a] .
  have "be_at ?e (?a l' r' c') = (if (l', r', c') = (l, r, c) then k else be_at e (?a l' r' c'))"
    if "key_ok l' r' c'" for l' r' c'
  proof -
    have "?a l' r' c' + 2 \<le> size" using key_in_keymap [OF that] keymap_fits by simp
    then show ?thesis
      using be_at_put_be [OF assms(1) a, of "?a l' r' c'" k] key_address_apart [OF refl refl]
        key_address_eq [OF assms(2) that] by metis
  qed
  then show ?thesis using assms g by (auto simp: set_keycode get_keycode)
qed

section \<open>Buffers\<close>

lemma check_first_result:
  assumes "good e" "offset < keymap_bytes C" "odd offset \<longrightarrow> data \<noteq> []"
  shows "\<exists>d. check_first E e (DYNAMIC_KEYMAP_EEPROM_ADDR C + offset) offset data = Some (offset mod 2, d) \<and>
    length d = length data \<and> (\<forall>k > 0. d ! k = data ! k) \<and> (even offset \<longrightarrow> d = data) \<and>
    (odd offset \<longrightarrow> be_word (array e ! (DYNAMIC_KEYMAP_EEPROM_ADDR C + offset - 1)) (d ! 0) \<noteq> QK_BOOT)"
proof (cases "even offset")
  case False
  then have "DYNAMIC_KEYMAP_EEPROM_ADDR C + offset - 1 < size" "0 < offset"
    using assms(2) keymap_fits by (auto intro: odd_pos)
  then show ?thesis using assms False
    by (auto simp: check_first_def read_byte buf_nth_def buf_set_def not_boot_FF odd_iff_mod_2_eq_one)
qed (auto simp: check_first_def even_iff_mod_2_eq_zero)

lemma check_last_result:
  assumes "good e" "offset + sz \<le> keymap_bytes C" "sz \<le> length data" "0 < sz \<or> even offset"
  shows "\<exists>d. check_last E e (DYNAMIC_KEYMAP_EEPROM_ADDR C + offset) offset sz data
      = Some (sz - (offset + sz) mod 2, d) \<and> length d = length data \<and>
    (\<forall>k. k \<noteq> sz - 1 \<longrightarrow> d ! k = data ! k) \<and> (even (offset + sz) \<longrightarrow> d = data) \<and>
    (odd (offset + sz) \<longrightarrow>
      be_word (d ! (sz - 1)) (array e ! (DYNAMIC_KEYMAP_EEPROM_ADDR C + offset + sz)) \<noteq> QK_BOOT)"
proof (cases "even (offset + sz)")
  case False
  have even: "even (keymap_bytes C)" by (simp add: keymap_bytes_def)
  then have "offset + sz < keymap_bytes C" using False assms(2) by (metis le_neq_implies_less)
  then have a: "DYNAMIC_KEYMAP_EEPROM_ADDR C + offset + sz < size" using keymap_fits by simp
  have z: "0 < sz" using assms(4) False by (cases sz) auto
  have "(sz + 65535) mod 65536 = sz - 1"
  proof -
    have "sz + 65535 = (sz - 1) + 65536" "sz - 1 < 65536" using z assms(2) keymap_fits by auto
    then show ?thesis by (metis mod_add_self2 mod_less)
  qed
  moreover have p: "(offset + sz) mod 2 = 1" using False by presburger
  define x where "x = array e ! (DYNAMIC_KEYMAP_EEPROM_ADDR C + offset + sz)"
  define d where "d = (if be_word (data ! (sz - 1)) x = QK_BOOT then data[sz - 1 := 0xFF] else data)"
  have "check_last E e (DYNAMIC_KEYMAP_EEPROM_ADDR C + offset) offset sz data = Some (sz - 1, d)"
    using \<open>(sz + 65535) mod 65536 = sz - 1\<close> p z assms(3) read_byte [OF assms(1) a]
    by (simp add: check_last_def buf_nth_def buf_set_def d_def x_def)
  then have "check_last E e (DYNAMIC_KEYMAP_EEPROM_ADDR C + offset) offset sz data
      = Some (sz - (offset + sz) mod 2, d)" by (simp only: p)
  moreover have "be_word (d ! (sz - 1)) x \<noteq> QK_BOOT"
    using z assms(3) by (simp add: d_def not_boot_FF)
  moreover have "length d = length data" "\<forall>k. k \<noteq> sz - 1 \<longrightarrow> d ! k = data ! k"
    by (simp_all add: d_def)
  ultimately show ?thesis using False unfolding x_def by blast
qed (auto simp: check_last_def even_iff_mod_2_eq_zero)

lemma chk_range:
  assumes "0 < sz \<or> even (offset :: nat)"
  shows "offset mod 2 + 2 * ((sz - (offset + sz) mod 2 - offset mod 2) div 2) = sz - (offset + sz) mod 2"
proof -
  define a b where "a = offset div 2" and "b = sz div 2"
  have "offset = 2 * a \<or> offset = 2 * a + 1" "sz = 2 * b \<or> sz = 2 * b + 1"
    unfolding a_def b_def by presburger+
  moreover have "b \<noteq> 0" if "offset = 2 * a + 1" "sz = 2 * b" using assms that by auto
  ultimately show ?thesis by (cases b) auto
qed

text \<open>What the check of a locked keyboard guarantees of the data that is then written.\<close>

definition cleared :: "'e \<Rightarrow> nat \<Rightarrow> nat \<Rightarrow> u8 list \<Rightarrow> bool" where
  "cleared e offset sz d \<longleftrightarrow> (let target = DYNAMIC_KEYMAP_EEPROM_ADDR C + offset in
     (odd offset \<longrightarrow> be_word (array e ! (target - 1)) (d ! 0) \<noteq> QK_BOOT) \<and>
     (odd (offset + sz) \<longrightarrow> be_word (d ! (sz - 1)) (array e ! (target + sz)) \<noteq> QK_BOOT) \<and>
     (\<forall>j. j + 1 < sz \<and> even (offset + j) \<longrightarrow> \<not> boot_pair d j))"

lemma locked_check:
  assumes "good e" "offset < keymap_bytes C" "offset + sz \<le> keymap_bytes C" "sz \<le> length data"
    "0 < sz \<or> even offset"
  shows "\<exists>d. do { (chk_offset, d1) \<leftarrow> check_first E e (DYNAMIC_KEYMAP_EEPROM_ADDR C + offset) offset data;
      (chk_sz, d2) \<leftarrow> check_last E e (DYNAMIC_KEYMAP_EEPROM_ADDR C + offset) offset sz d1;
      check_all chk_offset chk_sz d2 } = Some d \<and> length d = length data \<and> cleared e offset sz d"
proof -
  have "odd offset \<longrightarrow> data \<noteq> []" using assms(4,5) by auto
  then obtain d1 where d1: "check_first E e (DYNAMIC_KEYMAP_EEPROM_ADDR C + offset) offset data = Some (offset mod 2, d1)"
    "length d1 = length data" "\<forall>k > 0. d1 ! k = data ! k" "even offset \<longrightarrow> d1 = data"
    "odd offset \<longrightarrow> be_word (array e ! (DYNAMIC_KEYMAP_EEPROM_ADDR C + offset - 1)) (d1 ! 0) \<noteq> QK_BOOT"
    using check_first_result assms(1,2) by blast
  obtain d2 where d2: "check_last E e (DYNAMIC_KEYMAP_EEPROM_ADDR C + offset) offset sz d1
      = Some (sz - (offset + sz) mod 2, d2)" "length d2 = length data"
    "\<forall>k. k \<noteq> sz - 1 \<longrightarrow> d2 ! k = d1 ! k" "even (offset + sz) \<longrightarrow> d2 = d1"
    "odd (offset + sz) \<longrightarrow>
      be_word (d2 ! (sz - 1)) (array e ! (DYNAMIC_KEYMAP_EEPROM_ADDR C + offset + sz)) \<noteq> QK_BOOT"
    using check_last_result [OF assms(1,3) _ assms(5), of d1] assms(4) d1(2) by auto
  define m where "m = (sz - (offset + sz) mod 2 - offset mod 2) div 2"
  have m: "offset mod 2 + 2 * m = sz - (offset + sz) mod 2"
    unfolding m_def by (rule chk_range [OF assms(5)])
  then have fit: "offset mod 2 + 2 * m \<le> length d2" using assms(4) d2(2) by linarith
  obtain d where d: "check_all (offset mod 2) (offset mod 2 + 2 * m) d2 = Some d" "length d = length d2"
    "\<forall>k. k < offset mod 2 \<or> offset mod 2 + 2 * m \<le> k \<longrightarrow> d ! k = d2 ! k"
    "\<forall>j < m. \<not> boot_pair d (offset mod 2 + 2 * j)"
    using check_all_result [of "offset mod 2" m d2] fit by blast
  have "d ! 0 = d1 ! 0" if "odd offset"
  proof -
    have "sz - 1 \<noteq> 0 \<or> even (offset + sz)" using that assms(5) by (cases "sz = 1") auto
    then have "d2 ! 0 = d1 ! 0" using d2(3,4) by auto
    then show ?thesis using d(3) that by (simp add: odd_iff_mod_2_eq_one)
  qed
  moreover have "d ! (sz - 1) = d2 ! (sz - 1)" if "odd (offset + sz)"
  proof -
    have "(offset + sz) mod 2 = 1" using that by presburger
    then show ?thesis using d(3) m by (metis order_refl)
  qed
  moreover have "\<not> boot_pair d j" if "j + 1 < sz" "even (offset + j)" for j
  proof -
    have "j = offset mod 2 + 2 * (j div 2)" using that(2) by (auto simp: mod2_eq_if)
    moreover have "j div 2 < m"
      using that m by (auto simp: mod2_eq_if split: if_splits elim!: oddE evenE)
    ultimately show ?thesis using d(4) by metis
  qed
  ultimately have "cleared e offset sz d"
    using d1(5) d2(5) by (auto simp: cleared_def Let_def)
  then show ?thesis using d1(1) d2(1,2) d(1,2) m by auto
qed

lemma set_buffer_result:
  assumes "good e" "offset < keymap_bytes C" "offset + sz \<le> keymap_bytes C" "sz \<le> length data"
    "unlocked \<or> 0 < sz \<or> even offset"
  shows "\<exists>e' d. dynamic_keymap_set_buffer C E unlocked e offset sz data = Some (e', d) \<and> good e' \<and>
    length d = length data \<and> (if unlocked then d = data else cleared e offset sz d) \<and>
    array e' = mem_put (array e) (DYNAMIC_KEYMAP_EEPROM_ADDR C + offset) (take sz d)"
proof -
  have kb: "keymap_bytes C mod 2 ^ 16 = keymap_bytes C" using keymap_fits by simp
  define chk where "chk = (if unlocked then Some data
    else do { (chk_offset, d1) \<leftarrow> check_first E e (DYNAMIC_KEYMAP_EEPROM_ADDR C + offset) offset data;
      (chk_sz, d2) \<leftarrow> check_last E e (DYNAMIC_KEYMAP_EEPROM_ADDR C + offset) offset sz d1;
      check_all chk_offset chk_sz d2 })"
  obtain d where d: "chk = Some d" "length d = length data"
    "if unlocked then d = data else cleared e offset sz d"
    using locked_check [OF assms(1-4)] assms(5) unfolding chk_def by (cases unlocked) auto
  obtain e' where e': "buffer_set_loop E e (DYNAMIC_KEYMAP_EEPROM_ADDR C) (keymap_bytes C) offset 0 sz d = Some e'"
    "good e'" "array e' = mem_put (array e) (DYNAMIC_KEYMAP_EEPROM_ADDR C + offset + 0) (mem_get d 0 sz)"
    using buffer_set_loop_result [OF assms(1), of offset 0 sz "keymap_bytes C" d] assms d(2) keymap_fits
    by auto
  have "dynamic_keymap_set_buffer C E unlocked e offset sz data
      = do { data1 \<leftarrow> chk; e1 \<leftarrow> buffer_set_loop E e (DYNAMIC_KEYMAP_EEPROM_ADDR C) (keymap_bytes C) offset 0 sz data1;
             Some (e1, data1) }"
    using assms(2,3) unfolding dynamic_keymap_set_buffer_def kb Let_def chk_def by auto
  then show ?thesis using d e' by (simp add: mem_get_def)
qed

lemma set_buffer_refused:
  "offset \<ge> keymap_bytes C \<or> keymap_bytes C - offset < sz \<Longrightarrow>
    dynamic_keymap_set_buffer C E unlocked e offset sz data = Some (e, data)"
  using keymap_fits by (simp add: dynamic_keymap_set_buffer_def)

text \<open>The two bytes of a keycode lie inside the written block, outside it, or across one of its ends.\<close>

lemma cleared_keycode:
  assumes "good e" "good e'" "cleared e offset sz d" "sz \<le> length d" "offset + sz \<le> keymap_bytes C"
    and arr: "array e' = mem_put (array e) (DYNAMIC_KEYMAP_EEPROM_ADDR C + offset) (take sz d)"
    and q: "even q" "q + 2 \<le> keymap_bytes C"
    and boot: "be_at e' (DYNAMIC_KEYMAP_EEPROM_ADDR C + q) = QK_BOOT"
  shows "be_at e (DYNAMIC_KEYMAP_EEPROM_ADDR C + q) = QK_BOOT"
proof -
  let ?b = "DYNAMIC_KEYMAP_EEPROM_ADDR C"
  have len: "?b + keymap_bytes C \<le> length (array e)" using keymap_fits length_array [OF assms(1)] by simp
  have n: "array e' ! (?b + i) = (if offset \<le> i \<and> i < offset + sz then d ! (i - offset) else array e ! (?b + i))"
    if "i < keymap_bytes C" for i
    using that len assms(4,5) unfolding arr by (subst mem_put_nth) auto
  have c: "odd offset \<Longrightarrow> be_word (array e ! (?b + offset - 1)) (d ! 0) \<noteq> QK_BOOT"
    "odd (offset + sz) \<Longrightarrow> be_word (d ! (sz - 1)) (array e ! (?b + offset + sz)) \<noteq> QK_BOOT"
    "j + 1 < sz \<Longrightarrow> even (offset + j) \<Longrightarrow> \<not> boot_pair d j" for j
    using assms(3) by (auto simp: cleared_def Let_def)
  have b: "be_word (array e' ! (?b + q)) (array e' ! (?b + (q + 1))) = QK_BOOT"
    using boot by (simp add: be_at_def add.assoc)
  consider "offset \<le> q" "q + 1 < offset + sz" | "q + 1 = offset" "0 < sz" | "offset \<le> q" "q + 1 = offset + sz"
    | "q + 1 < offset \<or> offset + sz \<le> q \<or> sz = 0" by linarith
  then show ?thesis
  proof cases
    case 1
    then have "boot_pair d (q - offset)" using b n [of q] n [of "q + 1"] q(2)
      by (simp add: boot_pair_def Suc_diff_le)
    moreover have "\<not> boot_pair d (q - offset)" using c(3) [of "q - offset"] 1 q(1) by auto
    ultimately show ?thesis by simp
  next
    case 2
    then have "be_word (array e ! (?b + offset - 1)) (d ! 0) = QK_BOOT"
      using b n [of q] n [of "q + 1"] q(2) by auto
    then show ?thesis using c(1) 2(1) q(1) by auto
  next
    case 3
    then have "be_word (d ! (sz - 1)) (array e ! (?b + offset + sz)) = QK_BOOT"
    proof -
      have "q - offset = sz - 1" using 3 by linarith
      then have "array e' ! (?b + q) = d ! (sz - 1)" using n [of q] q(2) 3 by simp
      moreover have "array e' ! (?b + (q + 1)) = array e ! (?b + (q + 1))"
        by (subst n) (use 3 q(2) in auto)
      moreover have "?b + offset + sz = ?b + (q + 1)" using 3(2) by simp
      ultimately show ?thesis using b by metis
    qed
    then show ?thesis using c(2) 3(2) q(1) by (metis even_Suc Suc_eq_plus1)
  next
    case 4
    have "array e' ! (?b + q) = array e ! (?b + q)" by (subst n) (use 4 q(2) in auto)
    moreover have "array e' ! (?b + (q + 1)) = array e ! (?b + (q + 1))"
      by (subst n) (use 4 q(2) in auto)
    ultimately show ?thesis using b by (simp add: be_at_def)
  qed
qed

lemma set_buffer_keeps_boot_out:
  assumes "good e" "dynamic_keymap_set_buffer C E False e offset sz data = Some (e', d)" "sz \<le> length data"
    "0 < sz \<or> even offset" "dynamic_keymap_get_keycode C E e' l r c = Some QK_BOOT"
  shows "dynamic_keymap_get_keycode C E e l r c = Some QK_BOOT"
proof (cases "offset \<ge> keymap_bytes C \<or> keymap_bytes C - offset < sz")
  case True
  then show ?thesis using assms(2,5) set_buffer_refused by auto
next
  case False
  have k: "good e'" "length d = length data" "cleared e offset sz d"
    "array e' = mem_put (array e) (DYNAMIC_KEYMAP_EEPROM_ADDR C + offset) (take sz d)"
    using set_buffer_result [OF assms(1), of offset sz data False] assms(2-4) False by auto
  have ok: "key_ok l r c" using assms(5) get_keycode [OF k(1), of l r c]
    by (auto simp: KC_NO_def QK_BOOT_def split: if_splits)
  define q where "q = l * MATRIX_ROWS C * MATRIX_COLS C * 2 + r * MATRIX_COLS C * 2 + c * 2"
  have a: "dynamic_keymap_key_to_eeprom_address C l r c = DYNAMIC_KEYMAP_EEPROM_ADDR C + q"
    by (simp add: q_def dynamic_keymap_key_to_eeprom_address_def)
  have q: "even q" "q + 2 \<le> keymap_bytes C" using key_in_keymap [OF ok] a by (auto simp: q_def)
  have "be_at e (DYNAMIC_KEYMAP_EEPROM_ADDR C + q) = QK_BOOT"
    using cleared_keycode [OF assms(1) k(1,3) _ _ k(4) q] assms(3,5) k(2) False
      get_keycode [OF k(1), of l r c] ok a by auto
  then show ?thesis using get_keycode [OF assms(1), of l r c] ok a by simp
qed

lemma get_buffer_result:
  assumes "good e" "sz \<le> length data"
  shows "\<exists>d. dynamic_keymap_get_buffer C E e offset sz data = Some d \<and> length d = length data \<and>
    (\<forall>k < sz. d ! k = (if offset + k < keymap_bytes C
       then array e ! (DYNAMIC_KEYMAP_EEPROM_ADDR C + offset + k) else 0)) \<and>
    (\<forall>k. sz \<le> k \<and> k < length data \<longrightarrow> d ! k = data ! k)"
  using buffer_get_loop_result [OF assms(1), of 0 sz data "DYNAMIC_KEYMAP_EEPROM_ADDR C" "keymap_bytes C" offset]
    assms(2) keymap_fits
  by (auto simp: dynamic_keymap_get_buffer_def)

lemma set_get_buffer:
  assumes "good e" "offset < keymap_bytes C" "offset + sz \<le> keymap_bytes C" "sz = length data"
    and "length junk = sz"
  shows "\<exists>e'. dynamic_keymap_set_buffer C E True e offset sz data = Some (e', data) \<and> good e' \<and>
    dynamic_keymap_get_buffer C E e' offset sz junk = Some data"
proof -
  obtain e' where e': "dynamic_keymap_set_buffer C E True e offset sz data = Some (e', data)" "good e'"
    "array e' = mem_put (array e) (DYNAMIC_KEYMAP_EEPROM_ADDR C + offset) data"
    using set_buffer_result [OF assms(1-3), of data True] assms(4) by auto
  obtain d where d: "dynamic_keymap_get_buffer C E e' offset sz junk = Some d" "length d = length junk"
    "\<forall>k < sz. d ! k = (if offset + k < keymap_bytes C
       then array e' ! (DYNAMIC_KEYMAP_EEPROM_ADDR C + offset + k) else 0)"
    using get_buffer_result [OF e'(2), of sz junk offset] assms(5) by auto
  have "d = data"
    using d(2,3) e'(3) assms keymap_fits length_array [OF assms(1)]
    by (intro nth_equalityI) (auto simp: mem_put_nth)
  then show ?thesis using e' d by auto
qed

section \<open>Dynamic entries\<close>

lemma entries_fit:
  "VIAL_TAP_DANCE_EEPROM_ADDR C + 10 * VIAL_TAP_DANCE_ENTRIES C \<le> size"
  "VIAL_COMBO_EEPROM_ADDR C + 10 * VIAL_COMBO_ENTRIES C \<le> size"
  "VIAL_KEY_OVERRIDE_EEPROM_ADDR C + 10 * VIAL_KEY_OVERRIDE_ENTRIES C \<le> size"
  using layout fits by (auto simp: dk_config_ok_def address_defs)

text \<open>Writing ten bytes inside a table and reading an entry of the table back.\<close>

lemma entry_store:
  assumes "good e" "base + 10 * n \<le> size" "i < n" "length b = 10"
  shows "\<exists>e'. eeprom_write_block E e b (base + i * 10) = Some e' \<and> good e' \<and>
    array e' = mem_put (array e) (base + i * 10) b \<and>
    (\<forall>j < n. \<forall>junk. length junk = 10 \<longrightarrow> eeprom_read_block E e' junk (base + j * 10) =
      (if j = i then Some b else eeprom_read_block E e junk (base + j * 10)))"
proof -
  have i: "base + i * 10 + length b \<le> size" using assms by simp
  obtain e' where e': "eeprom_write_block E e b (base + i * 10) = Some e'" "good e'"
    "array e' = mem_put (array e) (base + i * 10) b"
    using ee_write [OF assms(1) i] by auto
  have "eeprom_read_block E e' junk (base + j * 10) =
      (if j = i then Some b else eeprom_read_block E e junk (base + j * 10))"
    if "j < n" "length junk = 10" for j junk
  proof -
    have j: "base + j * 10 + length junk \<le> size" using that assms(2) by simp
    have "base + j * 10 + 10 \<le> base + i * 10 \<or> base + i * 10 + 10 \<le> base + j * 10" if "j \<noteq> i"
      using that by auto
    then have "mem_get (array e') (base + j * 10) 10
        = (if j = i then b else mem_get (array e) (base + j * 10) 10)"
      using mem_get_put_other [of "base + i * 10" b "array e" "base + j * 10" 10] e'(3) i j that(2) assms(4)
        mem_get_put_same [of "base + i * 10" b "array e"] length_array [OF assms(1)] by auto
    then show ?thesis using ee_read [OF e'(2) j] ee_read [OF assms(1) j] that(2) by simp
  qed
  then show ?thesis using e' by blast
qed

end

section \<open>Entry layouts\<close>

lemma length_dk_entry_bytes [simp]:
  "length (tap_dance_bytes t) = 10" "length (key_override_bytes k) = 10"
  "length (combo_input c) = 4 \<Longrightarrow> length (combo_bytes c) = 10"
  by (simp_all add: tap_dance_bytes_def key_override_bytes_def combo_bytes_def length_concat
      sum_list_triv comp_def)

lemma tap_dance_of_bytes: "tap_dance_of (tap_dance_bytes t) = t"
  by (cases t) (simp add: tap_dance_of_def tap_dance_bytes_def mem_get_def layout_simps)

lemma key_override_of_bytes: "key_override_of (key_override_bytes t) = t"
  by (cases t) (simp add: key_override_of_def key_override_bytes_def mem_get_def layout_simps nth_append)

lemma combo_of_bytes: "length (combo_input t) = 4 \<Longrightarrow> combo_of (combo_bytes t) = t"
proof -
  assume "length (combo_input t) = 4"
  then obtain a b c d where "combo_input t = [a, b, c, d]"
    by (auto simp: length_Suc_conv numeral_eq_Suc)
  then show ?thesis
    by (cases t) (simp add: combo_of_def combo_bytes_def mem_get_def layout_simps upt_conv_Cons)
qed

end
