(* ===== verification/Dynamic_Keymap_Macro.thy ===== *)
theory Dynamic_Keymap_Macro
  imports Dynamic_Keymap_Store
begin

unbundle bit_operations_syntax

text \<open>
  The byte format of macros: an encoder for the events a macro can hold, and the proof that
  \<open>dynamic_keymap_macro_send\<close> sends exactly the events of the macro with the given number.
\<close>

definition encode_keycode :: "u16 \<Rightarrow> u8 list" where
  "encode_keycode k = (if low_byte k = 0 then [high_byte k, 0xFF] else [low_byte k, high_byte k])"

fun encode_event :: "macro_event \<Rightarrow> u8 list" where
  "encode_event (Send_String s) = s"
| "encode_event (Send_String_With_Delay s) = s"
| "encode_event (Keycode_Tap k) = [SS_QMK_PREFIX, VIAL_MACRO_EXT_TAP] @ encode_keycode k"
| "encode_event (Keycode_Down k) = [SS_QMK_PREFIX, VIAL_MACRO_EXT_DOWN] @ encode_keycode k"
| "encode_event (Keycode_Up k) = [SS_QMK_PREFIX, VIAL_MACRO_EXT_UP] @ encode_keycode k"
| "encode_event (Wait_Ms n) = [SS_QMK_PREFIX, SS_DELAY_CODE, of_nat (n mod 255 + 1), of_nat (n div 255 + 1)]"

definition keycode_ok :: "u16 \<Rightarrow> bool" where
  "keycode_ok k \<longleftrightarrow> high_byte k \<noteq> 0 \<and> (low_byte k = 0 \<or> high_byte k \<noteq> 0xFF)"

text \<open>The events the format can express.\<close>

fun event_ok :: "macro_event \<Rightarrow> bool" where
  "event_ok (Send_String s) \<longleftrightarrow> length s = 3 \<and> s ! 0 = SS_QMK_PREFIX \<and>
     (s ! 1 = SS_TAP_CODE \<or> s ! 1 = SS_DOWN_CODE \<or> s ! 1 = SS_UP_CODE) \<and> s ! 2 \<noteq> 0"
| "event_ok (Send_String_With_Delay s) \<longleftrightarrow> length s = 1 \<and> s ! 0 \<noteq> 0 \<and> s ! 0 \<noteq> SS_QMK_PREFIX"
| "event_ok (Keycode_Tap k) \<longleftrightarrow> keycode_ok k"
| "event_ok (Keycode_Down k) \<longleftrightarrow> keycode_ok k"
| "event_ok (Keycode_Up k) \<longleftrightarrow> keycode_ok k"
| "event_ok (Wait_Ms n) \<longleftrightarrow> n < 255 * 255"

definition encode_macro :: "macro_event list \<Rightarrow> u8 list" where
  "encode_macro m = concat (map encode_event m)"

text \<open>The bytes of a list of macros, each with its terminator.\<close>

definition macro_area :: "macro_event list list \<Rightarrow> u8 list" where
  "macro_area ms = concat (map (\<lambda>m. encode_macro m @ [0]) ms)"

lemmas macro_codes = SS_QMK_PREFIX_def SS_TAP_CODE_def SS_DOWN_CODE_def SS_UP_CODE_def
  SS_DELAY_CODE_def VIAL_MACRO_EXT_TAP_def VIAL_MACRO_EXT_DOWN_def VIAL_MACRO_EXT_UP_def

lemma encode_keycode_shape:
  "keycode_ok k \<Longrightarrow> \<exists>l h. encode_keycode k = [l, h] \<and> l \<noteq> 0 \<and> h \<noteq> 0"
  by (auto simp: encode_keycode_def keycode_ok_def)

lemma decode_encode:
  assumes "keycode_ok k"
  shows "decode_keycode (le_word (encode_keycode k)) = k"
proof (cases "low_byte k = 0")
  case True
  have "0 < unat (high_byte k)" using assms by (simp add: keycode_ok_def unat_gt_0)
  then have "0xFF00 < be_word 0xFF (high_byte k)"
    by (simp add: word_less_nat_alt unat_be_word)
  moreover have "push_bit 8 (be_word 0xFF (high_byte k) AND 0xFF) = be_word (high_byte k) 0"
    by (simp add: and_FF low_byte_be_word) (simp add: be_word_def)
  ultimately have "decode_keycode (be_word 0xFF (high_byte k)) = be_word (high_byte k) 0"
    unfolding decode_keycode_def by (simp only: if_True)
  then show ?thesis using True be_word_bytes [of k]
    by (simp add: encode_keycode_def le_word_two del: le_word.simps)
next
  case False
  have "high_byte k \<noteq> 255" using assms False by (simp add: keycode_ok_def)
  then have "unat (high_byte k) \<noteq> unat (255 :: u8)" by (metis unsigned_word_eqI)
  then have "unat (high_byte k) < 255" using unat_u8 [of "high_byte k"] by simp
  then have "\<not> 0xFF00 < be_word (high_byte k) (low_byte k)"
    using unat_u8 [of "low_byte k"] by (simp add: word_less_nat_alt unat_be_word)
  then show ?thesis using False be_word_bytes [of k]
    by (simp add: encode_keycode_def le_word_two decode_keycode_def be_word_bytes del: le_word.simps)
qed

lemma delay_bytes:
  assumes "n < 255 * 255"
  shows "unat (of_nat (n mod 255 + 1) :: u8) = n mod 255 + 1" "unat (of_nat (n div 255 + 1) :: u8) = n div 255 + 1"
    "(of_nat (n mod 255 + 1) :: u8) \<noteq> 0" "(of_nat (n div 255 + 1) :: u8) \<noteq> 0"
proof -
  have "n mod 255 + 1 < 2 ^ 8" "n div 255 + 1 < 2 ^ 8" using assms by (auto simp: less_mult_imp_div_less)
  then show u: "unat (of_nat (n mod 255 + 1) :: u8) = n mod 255 + 1"
    "unat (of_nat (n div 255 + 1) :: u8) = n div 255 + 1"
    by (simp_all add: unat_of_nat_small del: of_nat_add of_nat_Suc)
  then show "(of_nat (n mod 255 + 1) :: u8) \<noteq> 0" "(of_nat (n div 255 + 1) :: u8) \<noteq> 0"
    by (metis Suc_eq_plus1 nat.distinct(1) unat_0)+
qed

lemma encode_event_nonzero: "event_ok ev \<Longrightarrow> 0 \<notin> set (encode_event ev)"
proof (cases ev)
  case (Send_String s)
  assume ok: "event_ok ev"
  then obtain a b c where "s = [a, b, c]" using Send_String by (auto simp: length_Suc_conv numeral_eq_Suc)
  then show ?thesis using Send_String ok by (auto simp: macro_codes)
next
  case (Wait_Ms n)
  assume "event_ok ev"
  then show ?thesis using Wait_Ms delay_bytes [of n] by (auto simp: macro_codes)
qed (auto simp: macro_codes length_Suc_conv keycode_ok_def encode_keycode_def)

context keymap_store
begin

text \<open>Reading bytes whose list is known.\<close>

lemma read_known:
  assumes "good e" "drop p (array e) = bs" "i < length bs"
  shows "eeprom_read_byte E e (p + i) = Some (bs ! i)"
proof -
  have "p + i < length (array e)" using assms(2,3) by auto
  then show ?thesis using read_byte [OF assms(1)] length_array [OF assms(1)] assms(2) by auto
qed

lemma macro_step_keycode:
  assumes g: "good e" and d: "drop p (array e) = [SS_QMK_PREFIX, x] @ encode_keycode k @ rest"
    and k: "keycode_ok k"
    and x: "x = VIAL_MACRO_EXT_TAP \<or> x = VIAL_MACRO_EXT_DOWN \<or> x = VIAL_MACRO_EXT_UP"
  shows "macro_step E e p = Some ([if x = VIAL_MACRO_EXT_TAP then Keycode_Tap k
    else if x = VIAL_MACRO_EXT_DOWN then Keycode_Down k else Keycode_Up k], Some (p + 4))"
proof -
  obtain l h where lh: "encode_keycode k = [l, h]" "l \<noteq> 0" "h \<noteq> 0"
    using encode_keycode_shape [OF k] by blast
  have r: "eeprom_read_byte E e p = Some SS_QMK_PREFIX" "eeprom_read_byte E e (p + 1) = Some x"
    "eeprom_read_byte E e (p + 2) = Some l" "eeprom_read_byte E e (p + 3) = Some h"
    using read_known [OF g d, of 0] read_known [OF g d, of 1] read_known [OF g d, of 2]
      read_known [OF g d, of 3] lh by (simp_all add: numeral_eq_Suc)
  show ?thesis using x lh(2,3) decode_encode [OF k] lh(1)
    unfolding macro_step_def r by (auto simp: macro_codes Let_def)
qed

lemma macro_step_event:
  assumes g: "good e" and d: "drop p (array e) = encode_event ev @ rest" and ok: "event_ok ev"
  shows "macro_step E e p = Some ([ev], Some (p + length (encode_event ev)))"
proof (cases ev)
  case (Send_String s)
  then obtain a b c where s: "s = [a, b, c]" using ok by (auto simp: length_Suc_conv numeral_eq_Suc)
  have r: "eeprom_read_byte E e p = Some a" "eeprom_read_byte E e (p + 1) = Some b"
    "eeprom_read_byte E e (p + 2) = Some c"
    using read_known [OF g d, of 0] read_known [OF g d, of 1] read_known [OF g d, of 2] s Send_String
    by (simp_all add: numeral_eq_Suc)
  show ?thesis using s Send_String ok unfolding macro_step_def r
    by (auto simp: macro_codes)
next
  case (Send_String_With_Delay s)
  then obtain a where s: "s = [a]" using ok by (auto simp: length_Suc_conv)
  have r: "eeprom_read_byte E e p = Some a" using read_known [OF g d, of 0] s Send_String_With_Delay by simp
  show ?thesis using s Send_String_With_Delay ok unfolding macro_step_def r by auto
next
  case (Wait_Ms n)
  let ?a = "of_nat (n mod 255 + 1) :: u8" and ?b = "of_nat (n div 255 + 1) :: u8"
  have n: "n < 255 * 255" using ok Wait_Ms by simp
  have r: "eeprom_read_byte E e p = Some SS_QMK_PREFIX" "eeprom_read_byte E e (p + 1) = Some SS_DELAY_CODE"
    "eeprom_read_byte E e (p + 2) = Some ?a" "eeprom_read_byte E e (p + 3) = Some ?b"
    using read_known [OF g d, of 0] read_known [OF g d, of 1] read_known [OF g d, of 2]
      read_known [OF g d, of 3] Wait_Ms by (simp_all del: of_nat_add of_nat_Suc)
  have "unat ?a - 1 + (unat ?b - 1) * 255 = n" using delay_bytes(1,2) [OF n] by simp
  then show ?thesis using Wait_Ms delay_bytes(3,4) [OF n] unfolding macro_step_def r
    by (simp add: macro_codes)
next
  case (Keycode_Tap k)
  then show ?thesis using macro_step_keycode [OF g, of p VIAL_MACRO_EXT_TAP k rest] d ok
    encode_keycode_shape [of k] by auto
next
  case (Keycode_Down k)
  then show ?thesis using macro_step_keycode [OF g, of p VIAL_MACRO_EXT_DOWN k rest] d ok
    encode_keycode_shape [of k] by (auto simp: macro_codes)
next
  case (Keycode_Up k)
  then show ?thesis using macro_step_keycode [OF g, of p VIAL_MACRO_EXT_UP k rest] d ok
    encode_keycode_shape [of k] by (auto simp: macro_codes)
qed

lemma macro_send_loop_append:
  assumes "good e"
  shows "drop p (array e) = encode_macro evs @ tail \<Longrightarrow> list_all event_ok evs \<Longrightarrow>
    macro_send_loop E e p
      = map_option (append evs) (macro_send_loop E e (p + length (encode_macro evs)))"
proof (induction evs arbitrary: p)
  case Nil
  then show ?case by (simp add: encode_macro_def append_Nil [abs_def] option.map_ident)
next
  case (Cons ev evs)
  then have d: "drop p (array e) = encode_event ev @ encode_macro evs @ tail"
    by (simp add: encode_macro_def)
  then have "drop (p + length (encode_event ev)) (array e) = encode_macro evs @ tail"
    by (metis add.commute append_eq_conv_conj drop_drop)
  then have "macro_send_loop E e (p + length (encode_event ev))
      = map_option (append evs) (macro_send_loop E e (p + length (encode_event ev) + length (encode_macro evs)))"
    using Cons by simp
  then have "macro_send_loop E e p = map_option (append (ev # evs))
      (macro_send_loop E e (p + length (encode_event ev) + length (encode_macro evs)))"
    using macro_step_event [OF assms d] Cons.prems(2)
    by (subst macro_send_loop.simps)
      (cases "macro_send_loop E e (p + length (encode_event ev) + length (encode_macro evs))"; simp)
  moreover have "(append (ev # evs)) = (\<lambda>a. ev # evs @ a)" by auto
  ultimately show ?case by (simp add: encode_macro_def add.assoc)
qed

lemma macro_send_loop_events:
  assumes "good e" "drop p (array e) = encode_macro evs @ 0 # rest" "list_all event_ok evs"
  shows "macro_send_loop E e p = Some evs"
proof -
  have "drop (p + length (encode_macro evs)) (array e) = 0 # rest"
    using assms(2) by (metis add.commute append_eq_conv_conj drop_drop)
  then have "eeprom_read_byte E e (p + length (encode_macro evs)) = Some 0"
    using read_known [OF assms(1), of "p + length (encode_macro evs)" _ 0] by simp
  then have "macro_send_loop E e (p + length (encode_macro evs)) = Some []"
    by (subst macro_send_loop.simps) (simp add: macro_step_def)
  then show ?thesis using macro_send_loop_append [OF assms] by simp
qed

text \<open>
  An incomplete tap at the end of the area does not end the macro: sending goes on behind the area.
\<close>

lemma macro_send_behind_area:
  assumes "good e" "0 < DYNAMIC_KEYMAP_MACRO_COUNT C" "list_all event_ok evs" "list_all event_ok evs2"
    and area: "mem_get (array e) (DYNAMIC_KEYMAP_MACRO_EEPROM_ADDR C) (DYNAMIC_KEYMAP_MACRO_EEPROM_SIZE C)
      = encode_macro evs @ [SS_QMK_PREFIX, SS_TAP_CODE, 0]"
    and behind: "drop (DYNAMIC_KEYMAP_MACRO_EEPROM_ADDR C + DYNAMIC_KEYMAP_MACRO_EEPROM_SIZE C) (array e)
      = encode_macro evs2 @ 0 # rest"
  shows "dynamic_keymap_macro_send C E e 0 = Some (evs @ evs2)"
proof -
  let ?a = "DYNAMIC_KEYMAP_MACRO_EEPROM_ADDR C" and ?z = "DYNAMIC_KEYMAP_MACRO_EEPROM_SIZE C"
  let ?p = "?a + length (encode_macro evs)"
  have z: "?z = length (encode_macro evs) + 3"
    using arg_cong [OF area, of length] macros_fit length_array [OF assms(1)] by (simp add: mem_get_def)
  have all: "drop ?a (array e) = encode_macro evs @ [SS_QMK_PREFIX, SS_TAP_CODE, 0] @ encode_macro evs2 @ 0 # rest"
  proof -
    have "drop ?a (array e) = take ?z (drop ?a (array e)) @ drop (?a + ?z) (array e)"
      by (metis add.commute append_take_drop_id drop_drop)
    then show ?thesis using area behind by (simp add: mem_get_def)
  qed
  then have d: "drop ?p (array e) = [SS_QMK_PREFIX, SS_TAP_CODE, 0] @ encode_macro evs2 @ 0 # rest"
    by (metis add.commute append_eq_conv_conj drop_drop)
  have r: "eeprom_read_byte E e ?p = Some SS_QMK_PREFIX" "eeprom_read_byte E e (?p + 1) = Some SS_TAP_CODE"
    "eeprom_read_byte E e (?p + 2) = Some 0"
    using read_known [OF assms(1) d, of 0] read_known [OF assms(1) d, of 1] read_known [OF assms(1) d, of 2]
    by simp_all
  have l: "eeprom_read_byte E e (?a + ?z - 1) = Some 0" using r(3) z by (simp add: add.assoc)
  have k: "macro_skip E e ?z ?a 0 = Some (Some ?a)" by (subst macro_skip.simps) simp
  have "macro_send_loop E e (?p + 3) = Some evs2"
    using macro_send_loop_events [OF assms(1) _ assms(4), of "?p + 3"] behind z by (simp add: add.assoc)
  moreover have "macro_step E e ?p = Some ([], Some (?p + 3))"
    unfolding macro_step_def r by (simp add: macro_codes)
  ultimately have "macro_send_loop E e ?p = Some evs2"
    by (subst macro_send_loop.simps) simp
  then have "macro_send_loop E e ?a = Some (evs @ evs2)"
    using macro_send_loop_append [OF assms(1) all assms(3)] by simp
  then show ?thesis using l k assms(2) by (simp add: dynamic_keymap_macro_send_def)
qed

declare macro_skip.simps [simp del]

lemma macro_skip_one:
  assumes "good e" "0 \<notin> set bs"
  shows "drop p (array e) = bs @ 0 # rest \<Longrightarrow> length bs < left \<Longrightarrow>
    macro_skip E e left p (Suc n) = macro_skip E e (left - length bs - 1) (p + length bs + 1) n"
  using assms(2)
proof (induction bs arbitrary: p left)
  case Nil
  then have "eeprom_read_byte E e p = Some 0" using read_known [OF assms(1), of p _ 0] by simp
  moreover obtain m where "left = Suc m" using Nil by (cases left) auto
  ultimately show ?case by (subst macro_skip.simps) simp
next
  case (Cons b bs)
  have "eeprom_read_byte E e p = Some b" using read_known [OF assms(1) Cons.prems(1), of 0] by simp
  moreover obtain m where m: "left = Suc m" using Cons.prems by (cases left) auto
  moreover have "drop (p + 1) (array e) = bs @ 0 # rest"
    using Cons.prems(1) by (metis Suc_eq_plus1 append_Cons drop_Suc list.sel(3) tl_drop)
  ultimately show ?case using Cons.prems Cons.IH [of "p + 1" m]
    by (subst macro_skip.simps) auto
qed

lemma macro_skip_area:
  assumes "good e"
  shows "drop p (array e) = macro_area ms @ rest \<Longrightarrow> list_all (list_all event_ok) ms \<Longrightarrow>
    n \<le> length ms \<Longrightarrow> length (macro_area ms) \<le> left \<Longrightarrow>
    macro_skip E e left p n = Some (Some (p + length (macro_area (take n ms))))"
proof (induction ms arbitrary: p left n)
  case Nil
  then show ?case by (subst macro_skip.simps) (simp add: macro_area_def)
next
  case (Cons m ms)
  show ?case
  proof (cases n)
    case 0
    then show ?thesis by (subst macro_skip.simps) (simp add: macro_area_def)
  next
    case (Suc k)
    have d: "drop p (array e) = encode_macro m @ 0 # (macro_area ms @ rest)"
      using Cons.prems(1) by (simp add: macro_area_def)
    have "0 \<notin> set (encode_macro m)" using Cons.prems(2) encode_event_nonzero
      by (auto simp: encode_macro_def list_all_iff)
    then have "macro_skip E e left p (Suc k) = macro_skip E e (left - length (encode_macro m) - 1)
        (p + length (encode_macro m) + 1) k"
      using macro_skip_one [OF assms] d Cons.prems(4) by (auto simp: macro_area_def)
    moreover have "drop (p + length (encode_macro m) + 1) (array e) = macro_area ms @ rest"
    proof -
      have "drop (p + length (encode_macro m) + 1) (array e)
          = drop (length (encode_macro m) + 1) (drop p (array e))"
        by (simp add: add.commute add.left_commute)
      then show ?thesis unfolding d by simp
    qed
    ultimately show ?thesis using Cons Suc by (simp add: macro_area_def)
  qed
qed

text \<open>
  Sending the macro with number \<open>n\<close> from an area that holds the macros \<open>ms\<close> and whose last byte is
  zero.
\<close>

lemma macro_send_nth:
  assumes "good e" "n < length ms" "n < DYNAMIC_KEYMAP_MACRO_COUNT C" "list_all (list_all event_ok) ms"
    and area: "mem_get (array e) (DYNAMIC_KEYMAP_MACRO_EEPROM_ADDR C) (DYNAMIC_KEYMAP_MACRO_EEPROM_SIZE C)
      = macro_area ms @ pad"
    and last: "array e ! (DYNAMIC_KEYMAP_MACRO_EEPROM_ADDR C + DYNAMIC_KEYMAP_MACRO_EEPROM_SIZE C - 1) = 0"
  shows "dynamic_keymap_macro_send C E e n = Some (ms ! n)"
proof -
  let ?a = "DYNAMIC_KEYMAP_MACRO_EEPROM_ADDR C" and ?z = "DYNAMIC_KEYMAP_MACRO_EEPROM_SIZE C"
  obtain rest where rest: "drop ?a (array e) = macro_area ms @ rest"
    using area unfolding mem_get_def by (metis append_take_drop_id append_assoc)
  have z: "0 < ?z" by (simp add: DYNAMIC_KEYMAP_MACRO_EEPROM_SIZE_def)
  have "eeprom_read_byte E e (?a + ?z - 1) = Some 0"
    using read_byte [OF assms(1), of "?a + ?z - 1"] last macros_fit z by simp
  moreover have "length (macro_area ms) \<le> ?z"
    using arg_cong [OF area, of length] macros_fit length_array [OF assms(1)] by (simp add: mem_get_def)
  then have "macro_skip E e ?z ?a n = Some (Some (?a + length (macro_area (take n ms))))"
    using macro_skip_area [OF assms(1) rest assms(4)] assms(2) by simp
  moreover have "macro_send_loop E e (?a + length (macro_area (take n ms))) = Some (ms ! n)"
  proof (rule macro_send_loop_events [OF assms(1)])
    have "ms = take n ms @ ms ! n # drop (Suc n) ms" using assms(2) by (simp add: id_take_nth_drop)
    then have "macro_area ms = macro_area (take n ms) @ encode_macro (ms ! n) @ 0 # macro_area (drop (Suc n) ms)"
      unfolding macro_area_def by (metis (no_types, lifting) append.assoc append_Cons append_Nil concat.simps(2)
          concat_append list.simps(9) map_append)
    then have "drop ?a (array e) = macro_area (take n ms) @ encode_macro (ms ! n) @ 0 #
        macro_area (drop (Suc n) ms) @ rest" using rest by simp
    then show "drop (?a + length (macro_area (take n ms))) (array e)
        = encode_macro (ms ! n) @ 0 # macro_area (drop (Suc n) ms) @ rest"
      by (metis add.commute append_eq_conv_conj drop_drop)
    show "list_all event_ok (ms ! n)" using assms(2,4) by (auto simp: list_all_iff)
  qed
  ultimately show ?thesis using assms(3) by (simp add: dynamic_keymap_macro_send_def)
qed

lemma macro_reset_loop_result:
  "good e \<Longrightarrow> p + n \<le> size \<Longrightarrow> \<exists>e'. macro_reset_loop E e p n = Some e' \<and> good e' \<and>
    array e' = mem_put (array e) p (replicate n 0)"
proof (induction n arbitrary: e p)
  case 0
  then show ?case by (simp add: mem_put_def)
next
  case (Suc n)
  then have u: "eeprom_update_byte E e p 0 = Some (put_byte e p 0)" "good (put_byte e p 0)"
    "array (put_byte e p 0) = (array e)[p := 0]" by (simp_all add: update_byte)
  then obtain e' where e': "macro_reset_loop E (put_byte e p 0) (p + 1) n = Some e'" "good e'"
    "array e' = mem_put (array (put_byte e p 0)) (p + 1) (replicate n 0)"
    using Suc.IH [OF u(2), of "p + 1"] Suc.prems by auto
  have "array e' = mem_put (array e) p (replicate (Suc n) 0)"
    using e'(3) u(3) mem_put_append [of p "[0]" "replicate n 0" "array e"] Suc.prems
      length_array [OF Suc.prems(1)] by (simp add: mem_put_one)
  then show ?case using u e' by simp
qed

end

end
