(* ===== verification/Eeprom_Wear_Leveling.thy ===== *)
theory Eeprom_Wear_Leveling
  imports Eeprom Wear_Leveling_Run
begin

text \<open>
  The EEPROM driver on the wear-leveling log (\<open>drivers/eeprom/eeprom_wear_leveling.c\<close>). The status
  of the wear-leveling call is dropped, as in the code; a failed read leaves the buffer as it was.
  The driver keeps the contract \<open>eeprom_store\<close> on every backing store that keeps its own.
\<close>

definition wl_driver_init ::
    "wl_config \<Rightarrow> 'b backing_ops \<Rightarrow> 'b wear_leveling \<Rightarrow> 'b wear_leveling option" where
  "wl_driver_init c ops s = map_option snd (wear_leveling_init c ops s)"

definition wl_driver_erase ::
    "wl_config \<Rightarrow> 'b backing_ops \<Rightarrow> 'b wear_leveling \<Rightarrow> 'b wear_leveling" where
  "wl_driver_erase c ops s = snd (wear_leveling_erase c ops s)"

definition wl_driver_format ::
    "wl_config \<Rightarrow> 'b backing_ops \<Rightarrow> bool \<Rightarrow> 'b wear_leveling \<Rightarrow> 'b wear_leveling" where
  "wl_driver_format c ops erase s = wl_driver_erase c ops s"

definition wl_read_block ::
    "wl_config \<Rightarrow> 'b wear_leveling \<Rightarrow> u8 list \<Rightarrow> nat \<Rightarrow> u8 list option" where
  "wl_read_block c s buf addr = map_option snd (wear_leveling_read c s addr buf)"

definition wl_write_block ::
    "wl_config \<Rightarrow> 'b backing_ops \<Rightarrow> 'b wear_leveling \<Rightarrow> u8 list \<Rightarrow> nat \<Rightarrow> 'b wear_leveling option"
  where
  "wl_write_block c ops s buf addr = map_option snd (wear_leveling_write c ops s addr buf)"

definition wl_eeprom_ops :: "wl_config \<Rightarrow> 'b backing_ops \<Rightarrow> 'b wear_leveling eeprom_ops" where
  "wl_eeprom_ops c ops = \<lparr>eeprom_read_block = wl_read_block c,
     eeprom_write_block = wl_write_block c ops,
     eeprom_driver_erase = wl_driver_erase c ops,
     eeprom_driver_format = wl_driver_format c ops\<rparr>"

sublocale backing_store \<subseteq> wl_eeprom: eeprom_store "wl_eeprom_ops c ops" cache coherent "LOGICAL c"
proof unfold_locales
  fix e :: "'b wear_leveling" and a and buf :: "u8 list"
  assume e: "coherent e"
  show "length (cache e) = LOGICAL c" using coherent_length [OF e] .
  assume a: "a + length buf \<le> LOGICAL c"
  show "eeprom_read_block (wl_eeprom_ops c ops) e buf a = Some (mem_get (cache e) a (length buf))"
    using read_ok [OF e a] by (simp add: wl_eeprom_ops_def wl_read_block_def)
  show "\<exists>e'. eeprom_write_block (wl_eeprom_ops c ops) e buf a = Some e' \<and> coherent e' \<and>
      cache e' = mem_put (cache e) a buf"
    using write_ok [OF e a] by (auto simp: wl_eeprom_ops_def wl_write_block_def)
qed

context backing_store
begin

lemma driver_erase:
  "coherent s \<Longrightarrow> coherent (wl_driver_erase c ops s) \<and>
    cache (wl_driver_erase c ops s) = replicate (LOGICAL c) 0"
  using erase_ok [of s] by (auto simp: wl_driver_erase_def)

end

text \<open>The driver on the flash of an STM32 with the layout of \<open>stm32_config\<close>.\<close>

interpretation stm32_eeprom: eeprom_store
  "wl_eeprom_ops (efl_wl stm32_config) (efl_ops stm32_config (nor_hal 128 1024))" cache
  stm32.driver.coherent "LOGICAL (efl_wl stm32_config)"
  by (rule stm32.driver.wl_eeprom.eeprom_store_axioms)

end
