(* ===== verification/Dynamic_Keymap_Run.thy ===== *)
theory Dynamic_Keymap_Run
  imports Dynamic_Keymap_Macro Eeprom_Wear_Leveling
begin

unbundle bit_operations_syntax

text \<open>
  The dynamic keymap on the two EEPROM drivers, and its properties. Each property is stated for any
  driver that keeps the contract and any layout that fits it; the interpretations instantiate it
  with the transient driver and with the wear-leveling driver on embedded flash.
\<close>

definition small_config :: dk_config where
  "small_config = \<lparr>DYNAMIC_KEYMAP_EEPROM_ADDR = 41, DYNAMIC_KEYMAP_EEPROM_MAX_ADDR = 1023,
     DYNAMIC_KEYMAP_LAYER_COUNT = 4, MATRIX_ROWS = 4, MATRIX_COLS = 12, NUM_ENCODERS = 1,
     VIAL_TAP_DANCE_ENTRIES = 4, VIAL_COMBO_ENTRIES = 4, VIAL_KEY_OVERRIDE_ENTRIES = 4,
     DYNAMIC_KEYMAP_MACRO_COUNT = 16\<rparr>"

lemma small_config_ok: "dk_config_ok small_config"
  by (simp add: dk_config_ok_def small_config_def address_defs keymap_bytes_def VIAL_ENCODERS_SIZE_def)

interpretation transient_keymap: keymap_store "transient_ops 1024" "\<lambda>m. m" "\<lambda>m. length m = 1024" 1024
  small_config
  by unfold_locales (simp_all add: small_config_ok, simp add: small_config_def)

interpretation stm32_keymap: keymap_store
  "wl_eeprom_ops (efl_wl stm32_config) (efl_ops stm32_config (nor_hal 128 1024))" cache
  stm32.driver.coherent "LOGICAL (efl_wl stm32_config)" small_config
  by unfold_locales (simp_all add: small_config_ok, simp add: small_config_def stm32_config_def)

section \<open>Properties\<close>

text \<open>C4: the keymap in EEPROM is a table: after setting the keycode of a valid position, reading
  that position gives the keycode and reading any other position, valid or not, what it gave
  before.\<close>

theorem keymap_is_a_table:
  assumes "keymap_store E array good n C" "good e"
    and "l < DYNAMIC_KEYMAP_LAYER_COUNT C" "r < MATRIX_ROWS C" "c < MATRIX_COLS C"
  shows "\<exists>e'. dynamic_keymap_set_keycode C E e l r c k = Some e' \<and> good e' \<and>
    (\<forall>l' r' c'. dynamic_keymap_get_keycode C E e' l' r' c' =
      (if (l', r', c') = (l, r, c) then Some k else dynamic_keymap_get_keycode C E e l' r' c'))"
  using keymap_store.set_get_keycode [OF assms(1,2)] assms(3-5)
  by (simp add: keymap_store.key_ok_def [OF assms(1)])

theorem keymap_is_a_table_witness:
  "\<exists>e'. dynamic_keymap_set_keycode small_config (transient_ops 1024) (replicate 1024 0) 3 2 11 0x5105 = Some e' \<and>
    dynamic_keymap_get_keycode small_config (transient_ops 1024) e' 3 2 11 = Some 0x5105"
  using keymap_is_a_table [OF transient_keymap.keymap_store_axioms, where e = "replicate 1024 0"
      and l = 3 and r = 2 and c = 11 and k = "0x5105"]
  by (auto simp: small_config_def)



text \<open>C6: on an unlocked keyboard a bulk write inside the keymap succeeds, and reading the same
  range back gives the written bytes.\<close>

theorem keymap_buffer_roundtrip:
  assumes "keymap_store E array good n C" "good e"
    and "offset < keymap_bytes C" "offset + length data \<le> keymap_bytes C" "length junk = length data"
  shows "\<exists>e'. dynamic_keymap_set_buffer C E True e offset (length data) data = Some (e', data) \<and> good e' \<and>
    dynamic_keymap_get_buffer C E e' offset (length data) junk = Some data"
  using keymap_store.set_get_buffer [OF assms(1-4) refl assms(5)] .

theorem keymap_buffer_roundtrip_witness:
  "\<exists>e'. dynamic_keymap_set_buffer small_config (transient_ops 1024) True (replicate 1024 0) 381 3
      [1, 2, 3] = Some (e', [1, 2, 3]) \<and>
    dynamic_keymap_get_buffer small_config (transient_ops 1024) e' 381 3 [0, 0, 0] = Some [1, 2, 3]"
  using keymap_buffer_roundtrip [OF transient_keymap.keymap_store_axioms, where e = "replicate 1024 0"
      and offset = 381 and data = "[1, 2, 3]" and junk = "[0, 0, 0]"]
  by (auto simp: small_config_def keymap_bytes_def numeral_3_eq_3)

text \<open>A bulk write of no bytes at an odd offset inside the keymap of a locked keyboard leaves
  the caller's buffer: the check reads \<open>data[size - 1]\<close> in front of it.\<close>

lemma locked_set_buffer_empty:
  assumes "keymap_store E array good n C" "good e" "odd offset" "offset < keymap_bytes C"
  shows "dynamic_keymap_set_buffer C E False e offset 0 data = None"
proof -
  have "keymap_bytes C < 65536" by (rule keymap_store.keymap_fits(2) [OF assms(1)])
  then have kb: "keymap_bytes C mod 65536 = keymap_bytes C" by simp
  have "check_last E e t offset 0 d = None" for t d
    using assms(3) by (simp add: check_last_def odd_iff_mod_2_eq_one)
  then show ?thesis
    using assms(4) kb by (simp add: dynamic_keymap_set_buffer_def bind_eq_None_conv split_def)
qed

lemma locked_set_buffer_empty_witness:
  "dynamic_keymap_set_buffer small_config (transient_ops 1024) False (replicate 1024 0) 1 0 [5] = None"
  by (rule locked_set_buffer_empty [OF transient_keymap.keymap_store_axioms])
    (simp_all add: small_config_def keymap_bytes_def)

text \<open>C7: \<open>dynamic_keymap_macro_send\<close> inverts the byte format of macros: when the macro area holds
  the encodings of a list of macros, each with a zero byte behind it, and ends with a zero byte,
  sending macro \<open>i\<close> performs exactly the events of the \<open>i\<close>-th macro, in order.\<close>

theorem macro_roundtrip:
  assumes "keymap_store E array good n C" "good e" "i < length ms" "i < DYNAMIC_KEYMAP_MACRO_COUNT C"
    and "list_all (list_all event_ok) ms"
    and "mem_get (array e) (DYNAMIC_KEYMAP_MACRO_EEPROM_ADDR C) (DYNAMIC_KEYMAP_MACRO_EEPROM_SIZE C)
      = macro_area ms @ pad"
    and "array e ! (DYNAMIC_KEYMAP_MACRO_EEPROM_ADDR C + DYNAMIC_KEYMAP_MACRO_EEPROM_SIZE C - 1) = 0"
  shows "dynamic_keymap_macro_send C E e i = Some (ms ! i)"
  by (rule keymap_store.macro_send_nth [OF assms])

definition demo_macros :: "macro_event list list" where
  "demo_macros = [[Send_String [1, 1, 4], Wait_Ms 300, Send_String_With_Delay [0x61]],
     [Keycode_Tap 0x5100, Keycode_Down 0x7E01, Keycode_Up 0x7E01]]"

theorem macro_roundtrip_witness:
  "dynamic_keymap_macro_send small_config (transient_ops 1024)
     (replicate 597 0 @ macro_area demo_macros @ replicate (427 - length (macro_area demo_macros)) 0) 1
   = Some [Keycode_Tap 0x5100, Keycode_Down 0x7E01, Keycode_Up 0x7E01]"
proof -
  let ?pad = "replicate (427 - length (macro_area demo_macros)) (0 :: u8)"
  have a: "DYNAMIC_KEYMAP_MACRO_EEPROM_ADDR small_config = 597"
    "DYNAMIC_KEYMAP_MACRO_EEPROM_SIZE small_config = 427"
    by (simp_all add: small_config_def address_defs keymap_bytes_def VIAL_ENCODERS_SIZE_def
        DYNAMIC_KEYMAP_MACRO_EEPROM_SIZE_def)
  have len: "length (macro_area demo_macros) = 22"
    by (simp add: demo_macros_def macro_area_def encode_macro_def encode_keycode_def)
  have ok: "list_all (list_all event_ok) demo_macros"
    by (simp add: demo_macros_def macro_codes keycode_ok_def high_byte_def low_byte_def drop_bit_eq_div)
  have "dynamic_keymap_macro_send small_config (transient_ops 1024)
      (replicate 597 0 @ macro_area demo_macros @ ?pad) 1 = Some (demo_macros ! 1)"
    by (rule macro_roundtrip [OF transient_keymap.keymap_store_axioms _ _ _ ok, where pad = ?pad])
      (simp_all add: len a mem_get_def nth_append, simp_all add: demo_macros_def small_config_def)
  then show ?thesis by (simp add: demo_macros_def)
qed

text \<open>A macro area that ends in an incomplete tap does not stop the sending loop: the comment
  \<open>this cannot go past the end\<close> notwithstanding, the bytes behind the area are sent as well, although the
  last byte of the area is zero.\<close>

lemma macro_send_past_end:
  assumes "keymap_store E array good n C" "good e" "0 < DYNAMIC_KEYMAP_MACRO_COUNT C"
    and "list_all event_ok evs" "list_all event_ok evs2"
    and "mem_get (array e) (DYNAMIC_KEYMAP_MACRO_EEPROM_ADDR C) (DYNAMIC_KEYMAP_MACRO_EEPROM_SIZE C)
      = encode_macro evs @ [SS_QMK_PREFIX, SS_TAP_CODE, 0]"
    and "drop (DYNAMIC_KEYMAP_MACRO_EEPROM_ADDR C + DYNAMIC_KEYMAP_MACRO_EEPROM_SIZE C) (array e)
      = encode_macro evs2 @ 0 # rest"
  shows "dynamic_keymap_macro_send C E e 0 = Some (evs @ evs2)"
  by (rule keymap_store.macro_send_behind_area [OF assms])

lemma transient_keymap_store:
  "dk_config_ok C \<Longrightarrow> DYNAMIC_KEYMAP_EEPROM_MAX_ADDR C < n \<Longrightarrow> n < 2 ^ 32 \<Longrightarrow>
    keymap_store (transient_ops n) (\<lambda>m. m) (\<lambda>m. length m = n) n C"
  by (simp add: keymap_store_def keymap_store_axioms_def transient_store)

lemma encode_replicate: "encode_macro (replicate n (Send_String_With_Delay [x])) = replicate n x"
  by (induction n) (simp_all add: encode_macro_def)

text \<open>A macro of 424 letters \<open>a\<close> and an incomplete tap, with the letter \<open>b\<close> stored behind the area.\<close>

lemma macro_send_past_end_witness:
  "dynamic_keymap_macro_send small_config (transient_ops 1026)
     (replicate 597 0 @ replicate 424 0x61 @ [1, 1, 0] @ [0x62, 0]) 0
   = Some (replicate 424 (Send_String_With_Delay [0x61]) @ [Send_String_With_Delay [0x62]])"
proof -
  have a: "DYNAMIC_KEYMAP_MACRO_EEPROM_ADDR small_config = 597"
    "DYNAMIC_KEYMAP_MACRO_EEPROM_SIZE small_config = 427"
    by (simp_all add: small_config_def address_defs keymap_bytes_def VIAL_ENCODERS_SIZE_def
        DYNAMIC_KEYMAP_MACRO_EEPROM_SIZE_def)
  have s: "keymap_store (transient_ops 1026) (\<lambda>m. m) (\<lambda>m. length m = 1026) 1026 small_config"
    by (rule transient_keymap_store [OF small_config_ok]) (simp_all add: small_config_def)
  show ?thesis
  proof (rule macro_send_past_end [OF s, where rest = "[]"])
    show "mem_get (replicate 597 0 @ replicate 424 0x61 @ [1, 1, 0] @ [0x62, 0 :: u8])
        (DYNAMIC_KEYMAP_MACRO_EEPROM_ADDR small_config) (DYNAMIC_KEYMAP_MACRO_EEPROM_SIZE small_config)
      = encode_macro (replicate 424 (Send_String_With_Delay [0x61])) @ [SS_QMK_PREFIX, SS_TAP_CODE, 0]"
      unfolding a encode_replicate by (simp add: mem_get_def macro_codes)
    show "drop (DYNAMIC_KEYMAP_MACRO_EEPROM_ADDR small_config + DYNAMIC_KEYMAP_MACRO_EEPROM_SIZE small_config)
        (replicate 597 0 @ replicate 424 0x61 @ [1, 1, 0] @ [0x62, 0 :: u8])
      = encode_macro [Send_String_With_Delay [0x62]] @ 0 # []"
      unfolding a by (simp add: encode_macro_def)
  qed (simp_all add: small_config_def macro_codes list_all_iff)
qed

end
