(* ===== verification/Eeconfig.thy ===== *)
theory Eeconfig
  imports Eeprom
begin

unbundle bit_operations_syntax

text \<open>
  The core configuration block in EEPROM (\<open>quantum/eeconfig.h\<close>, \<open>quantum/eeconfig.c\<close>), with no
  keyboard or user data blocks and the default layer state stored as a bit mask. The operations
  that depend on VIA's validity magic are in \<open>Via\<close>.
\<close>

definition EECONFIG_MAGIC_NUMBER :: u16 where "EECONFIG_MAGIC_NUMBER = 0xFEE5"
definition EECONFIG_MAGIC_NUMBER_OFF :: u16 where "EECONFIG_MAGIC_NUMBER_OFF = 0xFFFF"

text \<open>The offsets of the packed structure \<open>eeprom_core_t\<close>.\<close>

definition EECONFIG_MAGIC :: nat where "EECONFIG_MAGIC = 0"
definition EECONFIG_DEBUG :: nat where "EECONFIG_DEBUG = 2"
definition EECONFIG_DEFAULT_LAYER :: nat where "EECONFIG_DEFAULT_LAYER = 3"
definition EECONFIG_KEYMAP :: nat where "EECONFIG_KEYMAP = 4"
definition EECONFIG_BACKLIGHT :: nat where "EECONFIG_BACKLIGHT = 6"
definition EECONFIG_AUDIO :: nat where "EECONFIG_AUDIO = 7"
definition EECONFIG_RGBLIGHT :: nat where "EECONFIG_RGBLIGHT = 8"
definition EECONFIG_UNICODEMODE :: nat where "EECONFIG_UNICODEMODE = 12"
definition EECONFIG_STENOMODE :: nat where "EECONFIG_STENOMODE = 13"
definition EECONFIG_HANDEDNESS :: nat where "EECONFIG_HANDEDNESS = 14"
definition EECONFIG_KEYBOARD :: nat where "EECONFIG_KEYBOARD = 15"
definition EECONFIG_USER :: nat where "EECONFIG_USER = 19"
definition EECONFIG_RGB_MATRIX :: nat where "EECONFIG_RGB_MATRIX = 23"
definition EECONFIG_HAPTIC :: nat where "EECONFIG_HAPTIC = 31"
definition EECONFIG_RGBLIGHT_EXTENDED :: nat where "EECONFIG_RGBLIGHT_EXTENDED = 35"
definition EECONFIG_SIZE :: nat where "EECONFIG_SIZE = 36"

lemmas eeconfig_defs = EECONFIG_MAGIC_def EECONFIG_DEBUG_def EECONFIG_DEFAULT_LAYER_def
  EECONFIG_KEYMAP_def EECONFIG_BACKLIGHT_def EECONFIG_AUDIO_def EECONFIG_RGBLIGHT_def
  EECONFIG_UNICODEMODE_def EECONFIG_STENOMODE_def EECONFIG_HANDEDNESS_def EECONFIG_KEYBOARD_def
  EECONFIG_USER_def EECONFIG_RGB_MATRIX_def EECONFIG_HAPTIC_def EECONFIG_RGBLIGHT_EXTENDED_def
  EECONFIG_SIZE_def

definition eeconfig_enable :: "'e eeprom_ops \<Rightarrow> 'e \<Rightarrow> 'e option" where
  "eeconfig_enable E e = eeprom_update_word E e EECONFIG_MAGIC EECONFIG_MAGIC_NUMBER"

definition eeconfig_disable :: "'e eeprom_ops \<Rightarrow> 'e \<Rightarrow> 'e option" where
  "eeconfig_disable E e =
    eeprom_update_word E (eeprom_driver_format E False e) EECONFIG_MAGIC EECONFIG_MAGIC_NUMBER_OFF"

definition eeconfig_read_debug :: "'e eeprom_ops \<Rightarrow> 'e \<Rightarrow> u8 option" where
  "eeconfig_read_debug E e = eeprom_read_byte E e EECONFIG_DEBUG"

definition eeconfig_update_debug :: "'e eeprom_ops \<Rightarrow> 'e \<Rightarrow> u8 \<Rightarrow> 'e option" where
  "eeconfig_update_debug E e val = eeprom_update_byte E e EECONFIG_DEBUG val"

definition eeconfig_read_default_layer :: "'e eeprom_ops \<Rightarrow> 'e \<Rightarrow> u32 option" where
  "eeconfig_read_default_layer E e = map_option ucast (eeprom_read_byte E e EECONFIG_DEFAULT_LAYER)"

definition eeconfig_update_default_layer :: "'e eeprom_ops \<Rightarrow> 'e \<Rightarrow> u32 \<Rightarrow> 'e option" where
  "eeconfig_update_default_layer E e state =
    eeprom_update_byte E e EECONFIG_DEFAULT_LAYER (ucast state)"

definition eeconfig_read_keymap :: "'e eeprom_ops \<Rightarrow> 'e \<Rightarrow> u16 option" where
  "eeconfig_read_keymap E e = eeprom_read_word E e EECONFIG_KEYMAP"

definition eeconfig_update_keymap :: "'e eeprom_ops \<Rightarrow> 'e \<Rightarrow> u16 \<Rightarrow> 'e option" where
  "eeconfig_update_keymap E e val = eeprom_update_word E e EECONFIG_KEYMAP val"

definition eeconfig_read_audio :: "'e eeprom_ops \<Rightarrow> 'e \<Rightarrow> u8 option" where
  "eeconfig_read_audio E e = eeprom_read_byte E e EECONFIG_AUDIO"

definition eeconfig_update_audio :: "'e eeprom_ops \<Rightarrow> 'e \<Rightarrow> u8 \<Rightarrow> 'e option" where
  "eeconfig_update_audio E e val = eeprom_update_byte E e EECONFIG_AUDIO val"

definition eeconfig_read_kb :: "'e eeprom_ops \<Rightarrow> 'e \<Rightarrow> u32 option" where
  "eeconfig_read_kb E e = eeprom_read_dword E e EECONFIG_KEYBOARD"

definition eeconfig_update_kb :: "'e eeprom_ops \<Rightarrow> 'e \<Rightarrow> u32 \<Rightarrow> 'e option" where
  "eeconfig_update_kb E e val = eeprom_update_dword E e EECONFIG_KEYBOARD val"

definition eeconfig_read_user :: "'e eeprom_ops \<Rightarrow> 'e \<Rightarrow> u32 option" where
  "eeconfig_read_user E e = eeprom_read_dword E e EECONFIG_USER"

definition eeconfig_update_user :: "'e eeprom_ops \<Rightarrow> 'e \<Rightarrow> u32 \<Rightarrow> 'e option" where
  "eeconfig_update_user E e val = eeprom_update_dword E e EECONFIG_USER val"

definition eeconfig_read_haptic :: "'e eeprom_ops \<Rightarrow> 'e \<Rightarrow> u32 option" where
  "eeconfig_read_haptic E e = eeprom_read_dword E e EECONFIG_HAPTIC"

definition eeconfig_update_haptic :: "'e eeprom_ops \<Rightarrow> 'e \<Rightarrow> u32 \<Rightarrow> 'e option" where
  "eeconfig_update_haptic E e val = eeprom_update_dword E e EECONFIG_HAPTIC val"

definition eeconfig_read_handedness :: "'e eeprom_ops \<Rightarrow> 'e \<Rightarrow> bool option" where
  "eeconfig_read_handedness E e = map_option (\<lambda>b. b \<noteq> 0) (eeprom_read_byte E e EECONFIG_HANDEDNESS)"

definition eeconfig_update_handedness :: "'e eeprom_ops \<Rightarrow> 'e \<Rightarrow> bool \<Rightarrow> 'e option" where
  "eeconfig_update_handedness E e val = eeprom_update_byte E e EECONFIG_HANDEDNESS (of_bool val)"

definition eeconfig_init_user :: "'e eeprom_ops \<Rightarrow> 'e \<Rightarrow> 'e option" where
  "eeconfig_init_user E e = eeconfig_update_user E e 0"

definition eeconfig_init_kb :: "'e eeprom_ops \<Rightarrow> 'e \<Rightarrow> 'e option" where
  "eeconfig_init_kb E e = do { e1 \<leftarrow> eeconfig_update_kb E e 0; eeconfig_init_user E e1 }"

section \<open>Updates of words on a driver that keeps the contract\<close>

context eeprom_store
begin

definition put_word :: "'e \<Rightarrow> nat \<Rightarrow> u16 \<Rightarrow> 'e" where
  "put_word e a v = (if le_word (mem_get (array e) a 2) = v then e else put_block e a (le_bytes 2 v))"

definition put_dword :: "'e \<Rightarrow> nat \<Rightarrow> u32 \<Rightarrow> 'e" where
  "put_dword e a v = (if le_word (mem_get (array e) a 4) = v then e else put_block e a (le_bytes 4 v))"

lemma read_word:
  "good e \<Longrightarrow> a + 2 \<le> size \<Longrightarrow> eeprom_read_word E e a = Some (le_word (mem_get (array e) a 2))"
  using read_n [of e a 2 "[0, 0]"] by (simp add: eeprom_read_word_def)

lemma read_dword:
  "good e \<Longrightarrow> a + 4 \<le> size \<Longrightarrow> eeprom_read_dword E e a = Some (le_word (mem_get (array e) a 4))"
  using read_n [of e a 4 "[0, 0, 0, 0]"] by (simp add: eeprom_read_dword_def)

lemma update_word:
  assumes "good e" "a + 2 \<le> size"
  shows "eeprom_update_word E e a v = Some (put_word e a v)"
    and "good (put_word e a v)" and "array (put_word e a v) = mem_put (array e) a (le_bytes 2 v)"
proof -
  have len: "a + 2 \<le> length (array e)" using assms length_array by simp
  then have "le_bytes 2 (le_word (mem_get (array e) a 2) :: u16) = mem_get (array e) a 2"
    by (intro le_bytes_le_word) (simp_all add: mem_simps)
  then have "mem_put (array e) a (le_bytes 2 (le_word (mem_get (array e) a 2) :: u16)) = array e"
    using mem_put_self [OF len] by simp
  then show "eeprom_update_word E e a v = Some (put_word e a v)"
    and "good (put_word e a v)" and "array (put_word e a v) = mem_put (array e) a (le_bytes 2 v)"
    using assms write_block [of e a "le_bytes 2 v"] read_word [OF assms]
    by (auto simp: eeprom_update_word_def eeprom_write_word_def put_word_def)
qed

lemma update_dword:
  assumes "good e" "a + 4 \<le> size"
  shows "eeprom_update_dword E e a v = Some (put_dword e a v)"
    and "good (put_dword e a v)" and "array (put_dword e a v) = mem_put (array e) a (le_bytes 4 v)"
proof -
  have len: "a + 4 \<le> length (array e)" using assms length_array by simp
  then have "le_bytes 4 (le_word (mem_get (array e) a 4) :: u32) = mem_get (array e) a 4"
    by (intro le_bytes_le_word) (simp_all add: mem_simps)
  then have "mem_put (array e) a (le_bytes 4 (le_word (mem_get (array e) a 4) :: u32)) = array e"
    using mem_put_self [OF len] by simp
  then show "eeprom_update_dword E e a v = Some (put_dword e a v)"
    and "good (put_dword e a v)" and "array (put_dword e a v) = mem_put (array e) a (le_bytes 4 v)"
    using assms write_block [of e a "le_bytes 4 v"] read_dword [OF assms]
    by (auto simp: eeprom_update_dword_def eeprom_write_dword_def put_dword_def)
qed

end

end
