(* ===== verification/Keycode_Config.thy ===== *)
theory Keycode_Config
  imports Keycodes
begin

unbundle bit_operations_syntax

text \<open>
  The remapping of keycodes and modifiers by the "magic" configuration
  (\<open>quantum/keycode_config.c\<close>). \<open>keymap_config_t\<close> is its raw 16-bit value; its bit fields are
  allocated from the least significant bit, as on the supported compilers.
\<close>

type_synonym keymap_config_t = u16

definition swap_control_capslock :: "keymap_config_t \<Rightarrow> bool" where "swap_control_capslock k = bit k 0"
definition capslock_to_control :: "keymap_config_t \<Rightarrow> bool" where "capslock_to_control k = bit k 1"
definition swap_lalt_lgui :: "keymap_config_t \<Rightarrow> bool" where "swap_lalt_lgui k = bit k 2"
definition swap_ralt_rgui :: "keymap_config_t \<Rightarrow> bool" where "swap_ralt_rgui k = bit k 3"
definition no_gui :: "keymap_config_t \<Rightarrow> bool" where "no_gui k = bit k 4"
definition swap_grave_esc :: "keymap_config_t \<Rightarrow> bool" where "swap_grave_esc k = bit k 5"
definition swap_backslash_backspace :: "keymap_config_t \<Rightarrow> bool" where
  "swap_backslash_backspace k = bit k 6"
definition nkro :: "keymap_config_t \<Rightarrow> bool" where "nkro k = bit k 7"
definition swap_lctl_lgui :: "keymap_config_t \<Rightarrow> bool" where "swap_lctl_lgui k = bit k 8"
definition swap_rctl_rgui :: "keymap_config_t \<Rightarrow> bool" where "swap_rctl_rgui k = bit k 9"
definition oneshot_enable :: "keymap_config_t \<Rightarrow> bool" where "oneshot_enable k = bit k 10"
definition swap_escape_capslock :: "keymap_config_t \<Rightarrow> bool" where "swap_escape_capslock k = bit k 11"
definition autocorrect_enable :: "keymap_config_t \<Rightarrow> bool" where "autocorrect_enable k = bit k 12"

definition keycode_config :: "keymap_config_t \<Rightarrow> u16 \<Rightarrow> u16" where
  "keycode_config k keycode =
    (if keycode = KC_CAPS_LOCK \<or> keycode = KC_LOCKING_CAPS_LOCK then
       if swap_control_capslock k \<or> capslock_to_control k then KC_LEFT_CTRL
       else if swap_escape_capslock k then KC_ESCAPE
       else keycode
     else if keycode = KC_LEFT_CTRL then
       if swap_control_capslock k then KC_CAPS_LOCK
       else if swap_lctl_lgui k then (if no_gui k then KC_NO else KC_LEFT_GUI)
       else KC_LEFT_CTRL
     else if keycode = KC_LEFT_ALT then
       if swap_lalt_lgui k then (if no_gui k then KC_NO else KC_LEFT_GUI) else KC_LEFT_ALT
     else if keycode = KC_LEFT_GUI then
       if swap_lalt_lgui k then KC_LEFT_ALT
       else if swap_lctl_lgui k then KC_LEFT_CTRL
       else if no_gui k then KC_NO
       else KC_LEFT_GUI
     else if keycode = KC_RIGHT_CTRL then
       if swap_rctl_rgui k then (if no_gui k then KC_NO else KC_RIGHT_GUI) else KC_RIGHT_CTRL
     else if keycode = KC_RIGHT_ALT then
       if swap_ralt_rgui k then (if no_gui k then KC_NO else KC_RIGHT_GUI) else KC_RIGHT_ALT
     else if keycode = KC_RIGHT_GUI then
       if swap_ralt_rgui k then KC_RIGHT_ALT
       else if swap_rctl_rgui k then KC_RIGHT_CTRL
       else if no_gui k then KC_NO
       else KC_RIGHT_GUI
     else if keycode = KC_GRAVE then (if swap_grave_esc k then KC_ESCAPE else KC_GRAVE)
     else if keycode = KC_ESCAPE then
       if swap_grave_esc k then KC_GRAVE
       else if swap_escape_capslock k then KC_CAPS_LOCK
       else KC_ESCAPE
     else if keycode = KC_BACKSLASH then
       (if swap_backslash_backspace k then KC_BACKSPACE else KC_BACKSLASH)
     else if keycode = KC_BACKSPACE then
       (if swap_backslash_backspace k then KC_BACKSLASH else KC_BACKSPACE)
     else keycode)"

text \<open>The 5-bit packed modifiers: bits 0 to 3 are the kinds, bit 4 the right-hand flag.\<close>

definition mod_config :: "keymap_config_t \<Rightarrow> u8 \<Rightarrow> u8" where
  "mod_config k m0 =
    (let m1 = (if swap_lalt_lgui k then
                 if ((m0 AND MOD_RALT) = MOD_LALT) \<noteq> ((m0 AND MOD_RGUI) = MOD_LGUI)
                 then m0 XOR (MOD_LALT OR MOD_LGUI) else m0
               else m0);
         m2 = (if swap_ralt_rgui k then
                 if ((m1 AND MOD_RALT) = MOD_RALT) \<noteq> ((m1 AND MOD_RGUI) = MOD_RGUI)
                 then m1 XOR (MOD_LALT OR MOD_LGUI) else m1
               else m1);
         m3 = (if swap_lctl_lgui k then
                 if ((m2 AND MOD_RCTL) = MOD_LCTL) \<noteq> ((m2 AND MOD_RGUI) = MOD_LGUI)
                 then m2 XOR (MOD_LCTL OR MOD_LGUI) else m2
               else m2);
         m4 = (if swap_rctl_rgui k then
                 if ((m3 AND MOD_RCTL) = MOD_RCTL) \<noteq> ((m3 AND MOD_RGUI) = MOD_RGUI)
                 then m3 XOR (MOD_LCTL OR MOD_LGUI) else m3
               else m3)
     in if no_gui k then (m4 AND NOT MOD_LGUI) AND NOT MOD_RGUI else m4)"

text \<open>Flags that do not act on a common key.\<close>

definition flags_compatible :: "keymap_config_t \<Rightarrow> bool" where
  "flags_compatible k \<longleftrightarrow> \<not> capslock_to_control k \<and> \<not> no_gui k \<and>
     \<not> (swap_control_capslock k \<and> swap_lctl_lgui k) \<and> \<not> (swap_lalt_lgui k \<and> swap_lctl_lgui k) \<and>
     \<not> (swap_ralt_rgui k \<and> swap_rctl_rgui k) \<and> \<not> (swap_grave_esc k \<and> swap_escape_capslock k) \<and>
     \<not> (swap_control_capslock k \<and> swap_escape_capslock k)"

text \<open>The keycode of a single 5-bit modifier, as \<open>action.c\<close> treats it.\<close>

definition single_mods :: "(u8 \<times> u16) list" where
  "single_mods = [(MOD_LCTL, KC_LEFT_CTRL), (MOD_LSFT, KC_LEFT_SHIFT), (MOD_LALT, KC_LEFT_ALT),
     (MOD_LGUI, KC_LEFT_GUI), (MOD_RCTL, KC_RIGHT_CTRL), (MOD_RSFT, KC_RIGHT_SHIFT),
     (MOD_RALT, KC_RIGHT_ALT), (MOD_RGUI, KC_RIGHT_GUI)]"

lemma keycode_config_other:
  "kc \<notin> {KC_CAPS_LOCK, KC_LOCKING_CAPS_LOCK, KC_LEFT_CTRL, KC_LEFT_ALT, KC_LEFT_GUI, KC_RIGHT_CTRL,
      KC_RIGHT_ALT, KC_RIGHT_GUI, KC_GRAVE, KC_ESCAPE, KC_BACKSLASH, KC_BACKSPACE} \<Longrightarrow>
    keycode_config k kc = kc"
  by (simp add: keycode_config_def)

lemma keycode_config_keys:
  "keycode_config k KC_CAPS_LOCK = (if swap_control_capslock k \<or> capslock_to_control k then KC_LEFT_CTRL
     else if swap_escape_capslock k then KC_ESCAPE else KC_CAPS_LOCK)"
  "keycode_config k KC_LEFT_CTRL = (if swap_control_capslock k then KC_CAPS_LOCK
     else if swap_lctl_lgui k then (if no_gui k then KC_NO else KC_LEFT_GUI) else KC_LEFT_CTRL)"
  "keycode_config k KC_LEFT_ALT =
     (if swap_lalt_lgui k then (if no_gui k then KC_NO else KC_LEFT_GUI) else KC_LEFT_ALT)"
  "keycode_config k KC_LEFT_GUI = (if swap_lalt_lgui k then KC_LEFT_ALT
     else if swap_lctl_lgui k then KC_LEFT_CTRL else if no_gui k then KC_NO else KC_LEFT_GUI)"
  "keycode_config k KC_RIGHT_CTRL =
     (if swap_rctl_rgui k then (if no_gui k then KC_NO else KC_RIGHT_GUI) else KC_RIGHT_CTRL)"
  "keycode_config k KC_RIGHT_ALT =
     (if swap_ralt_rgui k then (if no_gui k then KC_NO else KC_RIGHT_GUI) else KC_RIGHT_ALT)"
  "keycode_config k KC_RIGHT_GUI = (if swap_ralt_rgui k then KC_RIGHT_ALT
     else if swap_rctl_rgui k then KC_RIGHT_CTRL else if no_gui k then KC_NO else KC_RIGHT_GUI)"
  "keycode_config k KC_GRAVE = (if swap_grave_esc k then KC_ESCAPE else KC_GRAVE)"
  "keycode_config k KC_ESCAPE = (if swap_grave_esc k then KC_GRAVE
     else if swap_escape_capslock k then KC_CAPS_LOCK else KC_ESCAPE)"
  "keycode_config k KC_BACKSLASH = (if swap_backslash_backspace k then KC_BACKSPACE else KC_BACKSLASH)"
  "keycode_config k KC_BACKSPACE = (if swap_backslash_backspace k then KC_BACKSLASH else KC_BACKSPACE)"
  "keycode_config k KC_LEFT_SHIFT = KC_LEFT_SHIFT"
  "keycode_config k KC_RIGHT_SHIFT = KC_RIGHT_SHIFT"
  by (simp_all add: keycode_config_def kc_defs)

section \<open>Properties\<close>



text \<open>Modifiers and modifier keys are remapped alike: for flags that do not act on a common key
  and do not move caps lock, \<open>mod_config\<close> sends each single modifier to the modifier of the key
  \<open>keycode_config\<close> sends its key to.\<close>

lemma mod_config_follows_keycode_config:
  assumes "flags_compatible k" "\<not> swap_control_capslock k" "(m, kc) \<in> set single_mods"
  shows "(mod_config k m, keycode_config k kc) \<in> set single_mods"
proof -
  have g: "\<not> no_gui k" and l: "\<not> (swap_lalt_lgui k \<and> swap_lctl_lgui k)"
    and r: "\<not> (swap_ralt_rgui k \<and> swap_rctl_rgui k)" using assms(1) by (auto simp: flags_compatible_def)
  have "(m, kc) = (MOD_LCTL, KC_LEFT_CTRL) \<or> (m, kc) = (MOD_LSFT, KC_LEFT_SHIFT) \<or>
    (m, kc) = (MOD_LALT, KC_LEFT_ALT) \<or> (m, kc) = (MOD_LGUI, KC_LEFT_GUI) \<or>
    (m, kc) = (MOD_RCTL, KC_RIGHT_CTRL) \<or> (m, kc) = (MOD_RSFT, KC_RIGHT_SHIFT) \<or>
    (m, kc) = (MOD_RALT, KC_RIGHT_ALT) \<or> (m, kc) = (MOD_RGUI, KC_RIGHT_GUI)"
    using assms(3) by (simp add: single_mods_def)
  then show ?thesis using g l r assms(2)
    by (elim disjE; cases "swap_lalt_lgui k"; cases "swap_ralt_rgui k"; cases "swap_lctl_lgui k";
        cases "swap_rctl_rgui k"; simp add: keycode_config_keys mod_config_def single_mods_def mod_defs)
qed

lemma mod_config_follows_keycode_config_witness:
  "(mod_config 0x4 MOD_LALT, keycode_config 0x4 KC_LEFT_ALT) \<in> set single_mods"
  by (rule mod_config_follows_keycode_config)
    (simp_all add: flags_compatible_def capslock_to_control_def no_gui_def swap_control_capslock_def
      swap_lctl_lgui_def swap_lalt_lgui_def swap_ralt_rgui_def swap_rctl_rgui_def swap_grave_esc_def
      swap_escape_capslock_def single_mods_def bit_word_iff_drop_bit_and)

text \<open>With \<open>no_gui\<close> the right-hand modifiers other than GUI turn into left-hand ones, although
  the keys keep their side: clearing \<open>MOD_RGUI\<close> also clears the right-hand flag.\<close>

lemma no_gui_turns_right_into_left:
  assumes "no_gui k" "\<not> swap_lalt_lgui k" "\<not> swap_ralt_rgui k" "\<not> swap_lctl_lgui k" "\<not> swap_rctl_rgui k"
  shows "mod_config k MOD_RCTL = MOD_LCTL \<and> mod_config k MOD_RSFT = MOD_LSFT \<and>
    mod_config k MOD_RALT = MOD_LALT \<and> keycode_config k KC_RIGHT_CTRL = KC_RIGHT_CTRL"
  using assms by (simp add: mod_config_def mod_defs keycode_config_keys)

lemma no_gui_turns_right_into_left_witness: "mod_config 0x10 MOD_RCTL = MOD_LCTL"
  using no_gui_turns_right_into_left [of "0x10"]
  by (simp add: no_gui_def swap_lctl_lgui_def swap_lalt_lgui_def swap_ralt_rgui_def
      swap_rctl_rgui_def bit_word_iff_drop_bit_and)

end
