(* ===== verification/Qmk_Settings.thy ===== *)
theory Qmk_Settings
  imports Dynamic_Keymap Eeconfig Keycode_Config
begin

unbundle bit_operations_syntax

text \<open>
  The run-time settings of a Vial keyboard (\<open>quantum/qmk_settings.c\<close>): the structure \<open>QS\<close> in RAM,
  its image in EEPROM, and the table of settings the host reads and writes by number. \<open>QS\<close> is kept
  as its 36-byte memory image, which is how the code copies it; mouse keys are enabled in their
  default variant.
\<close>

section \<open>State\<close>

record mousekey_params =
  mk_delay :: u8
  mk_interval :: u8
  mk_max_speed :: u8
  mk_time_to_max :: u8
  mk_wheel_delay :: u8
  mk_wheel_interval :: u8
  mk_wheel_max_speed :: u8
  mk_wheel_time_to_max :: u8

text \<open>\<open>keyboard_clears\<close> counts the calls of \<open>clear_keyboard\<close>.\<close>

record 'e settings =
  eeprom :: 'e
  QS :: "u8 list"
  keymap_config :: keymap_config_t
  mk :: mousekey_params
  autoshift_timeout :: u16
  keyboard_clears :: nat

text \<open>The offsets of the members of \<open>qmk_settings_t\<close>.\<close>

definition qs_auto_shift_timeout :: nat where "qs_auto_shift_timeout = 0"
definition qs_osk_timeout :: nat where "qs_osk_timeout = 2"
definition qs_mousekey_delay :: nat where "qs_mousekey_delay = 4"
definition qs_mousekey_interval :: nat where "qs_mousekey_interval = 6"
definition qs_mousekey_move_delta :: nat where "qs_mousekey_move_delta = 8"
definition qs_mousekey_max_speed :: nat where "qs_mousekey_max_speed = 10"
definition qs_mousekey_time_to_max :: nat where "qs_mousekey_time_to_max = 12"
definition qs_mousekey_wheel_delay :: nat where "qs_mousekey_wheel_delay = 14"
definition qs_mousekey_wheel_interval :: nat where "qs_mousekey_wheel_interval = 16"
definition qs_mousekey_wheel_max_speed :: nat where "qs_mousekey_wheel_max_speed = 18"
definition qs_mousekey_wheel_time_to_max :: nat where "qs_mousekey_wheel_time_to_max = 20"
definition qs_combo_term :: nat where "qs_combo_term = 22"
definition qs_tapping_term :: nat where "qs_tapping_term = 24"
definition qs_grave_esc_override :: nat where "qs_grave_esc_override = 26"
definition qs_auto_shift :: nat where "qs_auto_shift = 27"
definition qs_osk_tap_toggle :: nat where "qs_osk_tap_toggle = 28"
definition qs_tapping :: nat where "qs_tapping = 29"
definition qs_tap_code_delay :: nat where "qs_tap_code_delay = 30"
definition qs_tap_hold_caps_delay :: nat where "qs_tap_hold_caps_delay = 32"
definition qs_tapping_toggle :: nat where "qs_tapping_toggle = 34"

lemmas qs_defs = qs_auto_shift_timeout_def qs_osk_timeout_def qs_mousekey_delay_def
  qs_mousekey_interval_def qs_mousekey_move_delta_def qs_mousekey_max_speed_def
  qs_mousekey_time_to_max_def qs_mousekey_wheel_delay_def qs_mousekey_wheel_interval_def
  qs_mousekey_wheel_max_speed_def qs_mousekey_wheel_time_to_max_def qs_combo_term_def
  qs_tapping_term_def qs_grave_esc_override_def qs_auto_shift_def qs_osk_tap_toggle_def
  qs_tapping_def qs_tap_code_delay_def qs_tap_hold_caps_delay_def qs_tapping_toggle_def

definition qs_u16 :: "u8 list \<Rightarrow> nat \<Rightarrow> u16" where "qs_u16 q off = le_word (mem_get q off 2)"
definition qs_u8 :: "u8 list \<Rightarrow> nat \<Rightarrow> u8" where "qs_u8 q off = q ! off"

text \<open>The board's compile-time defaults.\<close>

record settings_defaults =
  AUTO_SHIFT_TIMEOUT :: u16
  ONESHOT_TAP_TOGGLE :: u8
  ONESHOT_TIMEOUT :: u16
  MOUSEKEY_DELAY :: u16
  MOUSEKEY_INTERVAL :: u16
  MOUSEKEY_MOVE_DELTA :: u16
  MOUSEKEY_MAX_SPEED :: u16
  MOUSEKEY_TIME_TO_MAX :: u16
  MOUSEKEY_WHEEL_DELAY :: u16
  MOUSEKEY_WHEEL_INTERVAL :: u16
  MOUSEKEY_WHEEL_MAX_SPEED :: u16
  MOUSEKEY_WHEEL_TIME_TO_MAX :: u16
  COMBO_TERM :: u16
  TAPPING_TERM :: u16
  TAP_CODE_DELAY :: u16
  TAP_HOLD_CAPS_DELAY :: u16
  TAPPING_TOGGLE :: u8

section \<open>Notifications and the table of settings\<close>

definition clear_keyboard_call :: "'e settings \<Rightarrow> 'e settings" where
  "clear_keyboard_call s = s\<lparr>keyboard_clears := keyboard_clears s + 1\<rparr>"

definition auto_shift_timeout_apply :: "'e settings \<Rightarrow> 'e settings" where
  "auto_shift_timeout_apply s = s\<lparr>autoshift_timeout := qs_u16 (QS s) qs_auto_shift_timeout\<rparr>"

definition mousekey_apply :: "'e settings \<Rightarrow> 'e settings" where
  "mousekey_apply s = s\<lparr>mk := \<lparr>
     mk_delay = ucast (qs_u16 (QS s) qs_mousekey_delay div 10),
     mk_interval = ucast (qs_u16 (QS s) qs_mousekey_interval),
     mk_max_speed = ucast (qs_u16 (QS s) qs_mousekey_max_speed),
     mk_time_to_max = ucast (qs_u16 (QS s) qs_mousekey_time_to_max),
     mk_wheel_delay = ucast (qs_u16 (QS s) qs_mousekey_wheel_delay div 10),
     mk_wheel_interval = ucast (qs_u16 (QS s) qs_mousekey_wheel_interval),
     mk_wheel_max_speed = ucast (qs_u16 (QS s) qs_mousekey_wheel_max_speed),
     mk_wheel_time_to_max = ucast (qs_u16 (QS s) qs_mousekey_wheel_time_to_max)\<rparr>\<rparr>"

datatype qmk_settings_notify_t = No_Notify | Auto_Shift_Timeout_Apply | Mousekey_Apply

fun run_notify :: "qmk_settings_notify_t \<Rightarrow> 'e settings \<Rightarrow> 'e settings" where
  "run_notify No_Notify s = s"
| "run_notify Auto_Shift_Timeout_Apply s = auto_shift_timeout_apply s"
| "run_notify Mousekey_Apply s = mousekey_apply s"

datatype settings_access = Eeprom_Settings | Magic_Settings

record qmk_settings_proto_t =
  qsid :: u16
  setting_ptr :: nat
  setting_sz :: nat
  setting_access :: settings_access
  setting_notify :: qmk_settings_notify_t

definition static_setting :: "u16 \<Rightarrow> nat \<Rightarrow> nat \<Rightarrow> qmk_settings_notify_t \<Rightarrow> qmk_settings_proto_t" where
  "static_setting i off n nt = \<lparr>qsid = i, setting_ptr = off, setting_sz = n, setting_access = Eeprom_Settings, setting_notify = nt\<rparr>"

definition protos :: "qmk_settings_proto_t list" where
  "protos = [
    static_setting 1 qs_grave_esc_override 1 No_Notify,
    static_setting 2 qs_combo_term 2 No_Notify,
    static_setting 3 qs_auto_shift 1 No_Notify,
    static_setting 4 qs_auto_shift_timeout 2 Auto_Shift_Timeout_Apply,
    static_setting 5 qs_osk_tap_toggle 1 No_Notify,
    static_setting 6 qs_osk_timeout 2 No_Notify,
    static_setting 7 qs_tapping_term 2 No_Notify,
    static_setting 8 qs_tapping 1 No_Notify,
    static_setting 9 qs_mousekey_delay 2 Mousekey_Apply,
    static_setting 10 qs_mousekey_interval 2 Mousekey_Apply,
    static_setting 11 qs_mousekey_move_delta 2 Mousekey_Apply,
    static_setting 12 qs_mousekey_max_speed 2 Mousekey_Apply,
    static_setting 13 qs_mousekey_time_to_max 2 Mousekey_Apply,
    static_setting 14 qs_mousekey_wheel_delay 2 Mousekey_Apply,
    static_setting 15 qs_mousekey_wheel_interval 2 Mousekey_Apply,
    static_setting 16 qs_mousekey_wheel_max_speed 2 Mousekey_Apply,
    static_setting 17 qs_mousekey_wheel_time_to_max 2 Mousekey_Apply,
    static_setting 18 qs_tap_code_delay 2 No_Notify,
    static_setting 19 qs_tap_hold_caps_delay 2 No_Notify,
    static_setting 20 qs_tapping_toggle 1 No_Notify,
    \<lparr>qsid = 21, setting_ptr = 0, setting_sz = 0, setting_access = Magic_Settings, setting_notify = No_Notify\<rparr>]"

section \<open>The image in EEPROM\<close>

fun settings_load_loop :: "dk_config \<Rightarrow> 'e eeprom_ops \<Rightarrow> 'e \<Rightarrow> nat \<Rightarrow> nat \<Rightarrow> u8 list \<Rightarrow> u8 list option" where
  "settings_load_loop C E e i 0 q = Some q"
| "settings_load_loop C E e i (Suc n) q = do {
     b \<leftarrow> dynamic_keymap_get_qmk_settings C E e i;
     settings_load_loop C E e (Suc i) n (q[i := b]) }"

definition eeprom_settings_load :: "dk_config \<Rightarrow> 'e eeprom_ops \<Rightarrow> 'e settings \<Rightarrow> 'e settings option" where
  "eeprom_settings_load C E s = do {
     q \<leftarrow> settings_load_loop C E (eeprom s) 0 VIAL_QMK_SETTINGS_SIZE (QS s);
     Some (s\<lparr>QS := q\<rparr>) }"

fun settings_save_loop :: "dk_config \<Rightarrow> 'e eeprom_ops \<Rightarrow> 'e \<Rightarrow> nat \<Rightarrow> nat \<Rightarrow> u8 list \<Rightarrow> 'e option" where
  "settings_save_loop C E e i 0 q = Some e"
| "settings_save_loop C E e i (Suc n) q = do {
     old_byte \<leftarrow> dynamic_keymap_get_qmk_settings C E e i;
     e1 \<leftarrow> (if old_byte \<noteq> q ! i then dynamic_keymap_set_qmk_settings C E e i (q ! i) else Some e);
     settings_save_loop C E e1 (Suc i) n q }"

definition eeprom_settings_save :: "dk_config \<Rightarrow> 'e eeprom_ops \<Rightarrow> 'e settings \<Rightarrow> 'e settings option" where
  "eeprom_settings_save C E s = do {
     e \<leftarrow> settings_save_loop C E (eeprom s) 0 VIAL_QMK_SETTINGS_SIZE (QS s);
     Some (s\<lparr>eeprom := e\<rparr>) }"

section \<open>Getters and setters\<close>

text \<open>
  A getter returns the C result and the bytes it stores at the start of the caller's buffer, of
  which \<open>maxsz\<close> bytes are available. A setter gets the caller's buffer.
\<close>

definition eeprom_settings_get :: "qmk_settings_proto_t \<Rightarrow> 'e settings \<Rightarrow> nat \<Rightarrow> int \<times> u8 list" where
  "eeprom_settings_get p s maxsz =
    (if setting_sz p > maxsz then (-1, []) else (0, mem_get (QS s) (setting_ptr p) (setting_sz p)))"

definition eeprom_settings_set ::
    "dk_config \<Rightarrow> 'e eeprom_ops \<Rightarrow> qmk_settings_proto_t \<Rightarrow> 'e settings \<Rightarrow> u8 list \<Rightarrow> (int \<times> 'e settings) option"
  where
  "eeprom_settings_set C E p s setting =
    (if setting_sz p > length setting then Some (-1, s)
     else do {
       s1 \<leftarrow> eeprom_settings_save C E (s\<lparr>QS := mem_put (QS s) (setting_ptr p) (take (setting_sz p) setting)\<rparr>);
       Some (0, s1) })"

definition flag :: "bool \<Rightarrow> nat \<Rightarrow> u32" where
  "flag b i = push_bit i (of_bool b)"

definition magic_settings_get :: "'e settings \<Rightarrow> nat \<Rightarrow> int \<times> u8 list" where
  "magic_settings_get s maxsz =
    (if maxsz < 4 then (-1, [])
     else let k = keymap_config s;
              flags = flag (swap_control_capslock k) 0 OR flag (capslock_to_control k) 1 OR
                flag (swap_lalt_lgui k) 2 OR flag (swap_ralt_rgui k) 3 OR flag (no_gui k) 4 OR
                flag (swap_grave_esc k) 5 OR flag (swap_backslash_backspace k) 6 OR flag (nkro k) 7 OR
                flag (swap_lctl_lgui k) 8 OR flag (swap_rctl_rgui k) 9 OR 0
          in (0, le_bytes 4 flags))"

text \<open>Assigning a bit field of \<open>keymap_config_t\<close>, by its position.\<close>

definition put_field :: "nat \<Rightarrow> bool \<Rightarrow> keymap_config_t \<Rightarrow> keymap_config_t" where
  "put_field i b k = (if b then set_bit i k else unset_bit i k)"

definition magic_settings_set ::
    "'e eeprom_ops \<Rightarrow> 'e settings \<Rightarrow> u8 list \<Rightarrow> (int \<times> 'e settings) option" where
  "magic_settings_set E s setting =
    (if length setting < 4 then Some (-1, s)
     else do {
       let flags = (le_word (take 4 setting) :: u32);
       let s1 = clear_keyboard_call s;
       let k = fold (\<lambda>i. put_field i (bit flags i)) [0, 1, 2, 3, 4, 5, 6, 7, 8, 9] (keymap_config s1);
       e \<leftarrow> eeconfig_update_keymap E (eeprom s1) k;
       Some (0, s1\<lparr>keymap_config := k, eeprom := e\<rparr>) })"

definition find_setting :: "u16 \<Rightarrow> qmk_settings_proto_t option" where
  "find_setting i = find (\<lambda>p. qsid p = i) protos"

definition qmk_settings_get :: "'e settings \<Rightarrow> u16 \<Rightarrow> nat \<Rightarrow> int \<times> u8 list" where
  "qmk_settings_get s i maxsz =
    (case find_setting i of
       None \<Rightarrow> (-1, [])
     | Some p \<Rightarrow> (case setting_access p of
         Eeprom_Settings \<Rightarrow> eeprom_settings_get p s maxsz
       | Magic_Settings \<Rightarrow> magic_settings_get s maxsz))"

definition qmk_settings_set ::
    "dk_config \<Rightarrow> 'e eeprom_ops \<Rightarrow> 'e settings \<Rightarrow> u16 \<Rightarrow> u8 list \<Rightarrow> (int \<times> 'e settings) option" where
  "qmk_settings_set C E s i setting =
    (case find_setting i of
       None \<Rightarrow> Some (-1, s)
     | Some p \<Rightarrow> do {
         (ret, s1) \<leftarrow> (case setting_access p of
             Eeprom_Settings \<Rightarrow> eeprom_settings_set C E p s setting
           | Magic_Settings \<Rightarrow> magic_settings_set E s setting);
         Some (if ret \<noteq> 0 then (ret, s1) else (0, run_notify (setting_notify p) s1)) })"

section \<open>Initialisation, reset and enumeration\<close>

definition qmk_settings_init :: "dk_config \<Rightarrow> 'e eeprom_ops \<Rightarrow> 'e settings \<Rightarrow> 'e settings option" where
  "qmk_settings_init C E s = do {
     s1 \<leftarrow> eeprom_settings_load C E s;
     Some (fold (\<lambda>p. run_notify (setting_notify p)) protos s1) }"

definition reset_assignments :: "settings_defaults \<Rightarrow> (nat \<times> u8 list) list" where
  "reset_assignments D = [
    (qs_grave_esc_override, [0]), (qs_auto_shift, [0]),
    (qs_auto_shift_timeout, le_bytes 2 (AUTO_SHIFT_TIMEOUT D)),
    (qs_osk_tap_toggle, [ONESHOT_TAP_TOGGLE D]), (qs_osk_timeout, le_bytes 2 (ONESHOT_TIMEOUT D)),
    (qs_mousekey_delay, le_bytes 2 (MOUSEKEY_DELAY D)),
    (qs_mousekey_interval, le_bytes 2 (MOUSEKEY_INTERVAL D)),
    (qs_mousekey_move_delta, le_bytes 2 (MOUSEKEY_MOVE_DELTA D)),
    (qs_mousekey_max_speed, le_bytes 2 (MOUSEKEY_MAX_SPEED D)),
    (qs_mousekey_time_to_max, le_bytes 2 (MOUSEKEY_TIME_TO_MAX D)),
    (qs_mousekey_wheel_delay, le_bytes 2 (MOUSEKEY_WHEEL_DELAY D)),
    (qs_mousekey_wheel_interval, le_bytes 2 (MOUSEKEY_WHEEL_INTERVAL D)),
    (qs_mousekey_wheel_max_speed, le_bytes 2 (MOUSEKEY_WHEEL_MAX_SPEED D)),
    (qs_mousekey_wheel_time_to_max, le_bytes 2 (MOUSEKEY_WHEEL_TIME_TO_MAX D)),
    (qs_combo_term, le_bytes 2 (COMBO_TERM D)), (qs_tapping_term, le_bytes 2 (TAPPING_TERM D)),
    (qs_tapping, [0]), (qs_tap_code_delay, le_bytes 2 (TAP_CODE_DELAY D)),
    (qs_tap_hold_caps_delay, le_bytes 2 (TAP_HOLD_CAPS_DELAY D)),
    (qs_tapping_toggle, [TAPPING_TOGGLE D])]"

definition qmk_settings_reset ::
    "settings_defaults \<Rightarrow> dk_config \<Rightarrow> 'e eeprom_ops \<Rightarrow> 'e settings \<Rightarrow> 'e settings option" where
  "qmk_settings_reset D C E s = do {
     let s1 = s\<lparr>QS := fold (\<lambda>(off, b) q. mem_put q off b) (reset_assignments D) (QS s)\<rparr>;
     s2 \<leftarrow> eeprom_settings_save C E s1;
     let s3 = clear_keyboard_call s2;
     let k = put_field 10 True 0;
     e \<leftarrow> eeconfig_update_keymap E (eeprom s3) k;
     qmk_settings_init C E (s3\<lparr>keymap_config := k, eeprom := e\<rparr>) }"

fun query_loop :: "u16 \<Rightarrow> qmk_settings_proto_t list \<Rightarrow> nat \<Rightarrow> u8 list \<Rightarrow> u8 list" where
  "query_loop gt [] offset buf = buf"
| "query_loop gt (p # ps) offset buf =
    (if offset + 2 > length buf then buf
     else if qsid p > gt then query_loop gt ps (offset + 2) (mem_put buf offset (le_bytes 2 (qsid p)))
     else query_loop gt ps offset buf)"

text \<open>The buffer of \<open>n\<close> bytes after the call.\<close>

definition qmk_settings_query :: "u16 \<Rightarrow> nat \<Rightarrow> u8 list" where
  "qmk_settings_query qsid_gt n = query_loop qsid_gt protos 0 (replicate n 0xFF)"

section \<open>The settings other components read\<close>

definition qs_get_tapping_term :: "'e settings \<Rightarrow> u16" where
  "qs_get_tapping_term s = qs_u16 (QS s) qs_tapping_term"

definition get_permissive_hold :: "'e settings \<Rightarrow> bool" where
  "get_permissive_hold s = (qs_u8 (QS s) qs_tapping AND 1 \<noteq> 0)"

definition get_hold_on_other_key_press :: "'e settings \<Rightarrow> bool" where
  "get_hold_on_other_key_press s = (\<not> (qs_u8 (QS s) qs_tapping AND 2 \<noteq> 0))"

definition get_quick_tap_term :: "'e settings \<Rightarrow> u16" where
  "get_quick_tap_term s =
    (if qs_u8 (QS s) qs_tapping AND 4 \<noteq> 0 then 0 else qs_u16 (QS s) qs_tapping_term)"

definition get_retro_tapping :: "'e settings \<Rightarrow> bool" where
  "get_retro_tapping s = (qs_u8 (QS s) qs_tapping AND 8 \<noteq> 0)"

definition get_combo_term :: "'e settings \<Rightarrow> u16" where
  "get_combo_term s = qs_u16 (QS s) qs_combo_term"

definition get_auto_shift_repeat :: "'e settings \<Rightarrow> bool" where
  "get_auto_shift_repeat s = (qs_u8 (QS s) qs_auto_shift AND 32 \<noteq> 0)"

definition get_auto_shift_no_auto_repeat :: "'e settings \<Rightarrow> bool" where
  "get_auto_shift_no_auto_repeat s = (qs_u8 (QS s) qs_auto_shift AND 64 \<noteq> 0)"

end
