(* ===== verification/Qmk_Settings_Store.thy ===== *)
theory Qmk_Settings_Store
  imports Qmk_Settings Dynamic_Keymap_Store
begin

unbundle bit_operations_syntax

text \<open>
  Correctness of the settings on any EEPROM driver that keeps its contract: the bytes in EEPROM
  follow the structure in RAM, so that a power cycle restores every setting.
\<close>

section \<open>The table of settings\<close>

lemma protos_static:
  assumes "p \<in> set protos" "setting_access p = Eeprom_Settings"
  shows "setting_ptr p + setting_sz p \<le> 36"
proof -
  have "list_all (\<lambda>p. setting_access p = Eeprom_Settings \<longrightarrow> setting_ptr p + setting_sz p \<le> 36) protos"
    by (simp add: protos_def static_setting_def qs_defs)
  then show ?thesis using assms by (simp add: list_all_iff)
qed

lemma protos_disjoint:
  assumes "p \<in> set protos" "q \<in> set protos" "qsid p \<noteq> qsid q"
    "setting_access p = Eeprom_Settings" "setting_access q = Eeprom_Settings"
  shows "setting_ptr p + setting_sz p \<le> setting_ptr q \<or> setting_ptr q + setting_sz q \<le> setting_ptr p"
proof -
  have "list_all (\<lambda>p. list_all (\<lambda>q. qsid p = qsid q \<or> setting_access p \<noteq> Eeprom_Settings \<or>
      setting_access q \<noteq> Eeprom_Settings \<or> setting_ptr p + setting_sz p \<le> setting_ptr q \<or>
      setting_ptr q + setting_sz q \<le> setting_ptr p) protos) protos"
    by (simp add: protos_def static_setting_def qs_defs)
  then show ?thesis using assms by (auto simp: list_all_iff)
qed

lemma find_setting_Some: "find_setting i = Some p \<Longrightarrow> p \<in> set protos \<and> qsid p = i"
  by (auto simp: find_setting_def find_Some_iff)

lemma run_notify_fields [simp]:
  "QS (run_notify n s) = QS s" "eeprom (run_notify n s) = eeprom s"
  "keymap_config (run_notify n s) = keymap_config s" "keyboard_clears (run_notify n s) = keyboard_clears s"
  by (cases n; simp add: auto_shift_timeout_apply_def mousekey_apply_def)+

lemma fold_notify_fields [simp]:
  "QS (fold (\<lambda>p. run_notify (f p)) ps s) = QS s" "eeprom (fold (\<lambda>p. run_notify (f p)) ps s) = eeprom s"
  "keymap_config (fold (\<lambda>p. run_notify (f p)) ps s) = keymap_config s"
  "keyboard_clears (fold (\<lambda>p. run_notify (f p)) ps s) = keyboard_clears s"
  by (induction ps arbitrary: s) simp_all

section \<open>Enumeration\<close>

lemma query_loop_result:
  "length a = off \<Longrightarrow> query_loop gt ps off (a @ replicate m 0xFF) =
    (let ids = take (m div 2) (filter (\<lambda>i. i > gt) (map qsid ps))
     in a @ concat (map (le_bytes 2) ids) @ replicate (m - 2 * length ids) 0xFF)"
proof (induction ps arbitrary: off a m)
  case Nil
  then show ?case by simp
next
  case (Cons p ps)
  show ?case
  proof (cases "m < 2")
    case True
    then have "m div 2 = 0" by simp
    then show ?thesis using Cons.prems True by simp
  next
    case False
    then obtain m' where m: "m = Suc (Suc m')" by (metis less_2_cases_iff not0_implies_Suc One_nat_def)
    have put: "mem_put (a @ replicate m 0xFF) off (le_bytes 2 (qsid p))
        = (a @ le_bytes 2 (qsid p)) @ replicate m' 0xFF"
      using Cons.prems m by (simp add: mem_put_def)
    show ?thesis
    proof (cases "qsid p > gt")
      case True
      then show ?thesis
        using Cons.IH [of "a @ le_bytes 2 (qsid p)" "off + 2" m'] Cons.prems m False put
        by (simp add: Let_def)
    next
      case False
      then show ?thesis using Cons.IH [of a off m] Cons.prems m by (simp add: Let_def)
    qed
  qed
qed

section \<open>The magic flags\<close>

lemma bit_put_field: "bit (put_field i b k) n \<longleftrightarrow> (if n = i \<and> n < 16 then b else bit k n)"
  by (auto simp: put_field_def bit_simps dest: bit_imp_le_length)

lemma bit_fold_put_field:
  "bit (fold (\<lambda>i. put_field i (f i)) is k) n \<longleftrightarrow> (if n \<in> set is \<and> n < 16 then f n else bit k n)"
  by (induction "is" arbitrary: k) (auto simp: bit_put_field)

lemma bit_flag: "bit (flag b i) n \<longleftrightarrow> b \<and> n = i \<and> n < 32"
  by (auto simp: flag_def bit_simps)

lemma less_10_cases: "(n :: nat) < 10 \<longleftrightarrow> n = 0 \<or> n = 1 \<or> n = 2 \<or> n = 3 \<or> n = 4 \<or> n = 5 \<or> n = 6 \<or> n = 7 \<or> n = 8 \<or> n = 9"
  by auto

definition magic_word :: "keymap_config_t \<Rightarrow> u32" where
  "magic_word k = take_bit 10 (ucast k)"

lemma magic_settings_get_result:
  "4 \<le> maxsz \<Longrightarrow> magic_settings_get s maxsz = (0, le_bytes 4 (magic_word (keymap_config s)))"
proof -
  define k where "k = keymap_config s"
  have "flag (swap_control_capslock k) 0 OR flag (capslock_to_control k) 1 OR flag (swap_lalt_lgui k) 2 OR
      flag (swap_ralt_rgui k) 3 OR flag (no_gui k) 4 OR flag (swap_grave_esc k) 5 OR
      flag (swap_backslash_backspace k) 6 OR flag (nkro k) 7 OR flag (swap_lctl_lgui k) 8 OR
      flag (swap_rctl_rgui k) 9 OR 0 = magic_word k"
  proof (rule bit_word_eqI)
    fix n assume "n < LENGTH(32)"
    then show "bit (flag (swap_control_capslock k) 0 OR flag (capslock_to_control k) 1 OR
      flag (swap_lalt_lgui k) 2 OR flag (swap_ralt_rgui k) 3 OR flag (no_gui k) 4 OR
      flag (swap_grave_esc k) 5 OR flag (swap_backslash_backspace k) 6 OR flag (nkro k) 7 OR
      flag (swap_lctl_lgui k) 8 OR flag (swap_rctl_rgui k) 9 OR 0) n = bit (magic_word k) n"
      by (auto simp: bit_or_iff bit_flag magic_word_def bit_take_bit_iff bit_ucast_iff less_10_cases
          swap_control_capslock_def capslock_to_control_def swap_lalt_lgui_def swap_ralt_rgui_def
          no_gui_def swap_grave_esc_def swap_backslash_backspace_def nkro_def swap_lctl_lgui_def
          swap_rctl_rgui_def)
  qed
  then show "4 \<le> maxsz \<Longrightarrow> ?thesis" by (simp add: magic_settings_get_def k_def Let_def)
qed

section \<open>The image in EEPROM\<close>

locale settings_store = keymap_store E array good size C
  for E :: "'e eeprom_ops" and array good size C +
  assumes above_core: "EECONFIG_SIZE \<le> DYNAMIC_KEYMAP_EEPROM_ADDR C"
begin

lemma settings_fit:
  "VIAL_QMK_SETTINGS_EEPROM_ADDR C + 36 \<le> size" "36 \<le> VIAL_QMK_SETTINGS_EEPROM_ADDR C"
  using layout fits above_core by (auto simp: dk_config_ok_def address_defs EECONFIG_SIZE_def)

lemma load_loop_result:
  "good e \<Longrightarrow> i + n \<le> 36 \<Longrightarrow> length q = 36 \<Longrightarrow> \<exists>r. settings_load_loop C E e i n q = Some r \<and>
    length r = 36 \<and> (\<forall>k < 36. r ! k = (if i \<le> k \<and> k < i + n
      then array e ! (VIAL_QMK_SETTINGS_EEPROM_ADDR C + k) else q ! k))"
proof (induction n arbitrary: i q)
  case 0
  then show ?case by auto
next
  case (Suc n)
  let ?v = "array e ! (VIAL_QMK_SETTINGS_EEPROM_ADDR C + i)"
  have "dynamic_keymap_get_qmk_settings C E e i = Some ?v"
    using Suc.prems settings_fit read_byte
    by (simp add: dynamic_keymap_get_qmk_settings_def VIAL_QMK_SETTINGS_SIZE_def)
  moreover obtain r where "settings_load_loop C E e (Suc i) n (q[i := ?v]) = Some r" "length r = 36"
    "\<forall>k < 36. r ! k = (if Suc i \<le> k \<and> k < Suc i + n
      then array e ! (VIAL_QMK_SETTINGS_EEPROM_ADDR C + k) else q[i := ?v] ! k)"
    using Suc.IH [of "Suc i" "q[i := ?v]"] Suc.prems by auto
  ultimately show ?case using Suc.prems by (auto simp: nth_list_update Suc_le_eq le_less)
qed

lemma load_result:
  assumes "good (eeprom s)" "length (QS s) = 36"
  shows "eeprom_settings_load C E s
    = Some (s\<lparr>QS := mem_get (array (eeprom s)) (VIAL_QMK_SETTINGS_EEPROM_ADDR C) 36\<rparr>)"
proof -
  obtain r where r: "settings_load_loop C E (eeprom s) 0 36 (QS s) = Some r" "length r = 36"
    "\<forall>k < 36. r ! k = array (eeprom s) ! (VIAL_QMK_SETTINGS_EEPROM_ADDR C + k)"
    using load_loop_result [of "eeprom s" 0 36 "QS s"] assms by auto
  have "r = mem_get (array (eeprom s)) (VIAL_QMK_SETTINGS_EEPROM_ADDR C) 36"
    using r settings_fit length_array [OF assms(1)]
    by (intro nth_equalityI) (auto simp: mem_simps mem_get_nth)
  then show ?thesis using r(1) by (simp add: eeprom_settings_load_def VIAL_QMK_SETTINGS_SIZE_def)
qed

lemma save_loop_result:
  "good e \<Longrightarrow> i + n \<le> 36 \<Longrightarrow> length q = 36 \<Longrightarrow> \<exists>e'. settings_save_loop C E e i n q = Some e' \<and>
    good e' \<and> array e' = mem_put (array e) (VIAL_QMK_SETTINGS_EEPROM_ADDR C + i) (mem_get q i n)"
proof (induction n arbitrary: e i)
  case 0
  then show ?case using settings_fit length_array by (simp add: mem_get_def mem_put_def)
next
  case (Suc n)
  let ?a = "VIAL_QMK_SETTINGS_EEPROM_ADDR C"
  let ?e = "put_byte e (?a + i) (q ! i)"
  have in_range: "?a + i < size" using Suc.prems settings_fit by simp
  have e: "good ?e" "array ?e = (array e)[?a + i := q ! i]" "eeprom_update_byte E e (?a + i) (q ! i) = Some ?e"
    using update_byte [OF Suc.prems(1) in_range] by auto
  have "put_byte e (?a + i) (q ! i) = e" if "array e ! (?a + i) = q ! i" using that by (simp add: put_byte_def)
  then have step: "settings_save_loop C E e i (Suc n) q = settings_save_loop C E ?e (Suc i) n q"
    using Suc.prems read_byte [OF Suc.prems(1) in_range] e(3)
    by (simp add: dynamic_keymap_get_qmk_settings_def dynamic_keymap_set_qmk_settings_def
        VIAL_QMK_SETTINGS_SIZE_def)
  obtain e' where e': "settings_save_loop C E ?e (Suc i) n q = Some e'" "good e'"
    "array e' = mem_put (array ?e) (?a + Suc i) (mem_get q (Suc i) n)"
    using Suc.IH [OF e(1), of "Suc i"] Suc.prems by auto
  have "mem_get q i (Suc n) = [q ! i] @ mem_get q (Suc i) n"
    using Suc.prems by (simp add: mem_get_def Cons_nth_drop_Suc [symmetric])
  then have "array e' = mem_put (array e) (?a + i) (mem_get q i (Suc n))"
    using e'(3) e(2) Suc.prems settings_fit length_array [OF Suc.prems(1)]
      mem_put_append [of "?a + i" "[q ! i]" "mem_get q (Suc i) n" "array e"]
    by (simp add: mem_put_one mem_simps)
  then show ?case using step e' by auto
qed

definition synced :: "'e settings \<Rightarrow> bool" where
  "synced s \<longleftrightarrow> good (eeprom s) \<and> length (QS s) = 36 \<and>
     mem_get (array (eeprom s)) (VIAL_QMK_SETTINGS_EEPROM_ADDR C) 36 = QS s \<and>
     le_word (mem_get (array (eeprom s)) EECONFIG_KEYMAP 2) = keymap_config s"

lemma synced_notify [simp]: "synced (run_notify n s) = synced s"
  by (simp add: synced_def)

lemma save_result:
  assumes "good (eeprom s)" "length (QS s) = 36"
  shows "\<exists>e'. eeprom_settings_save C E s = Some (s\<lparr>eeprom := e'\<rparr>) \<and> good e' \<and>
    array e' = mem_put (array (eeprom s)) (VIAL_QMK_SETTINGS_EEPROM_ADDR C) (QS s)"
  using save_loop_result [OF assms(1), of 0 36 "QS s"] assms(2)
  by (auto simp: eeprom_settings_save_def VIAL_QMK_SETTINGS_SIZE_def mem_get_0_all)

text \<open>Writing the settings area leaves the keymap word alone, and the other way round.\<close>

lemma keymap_word_kept:
  assumes "good e" "length q = 36" "array e' = mem_put (array e) (VIAL_QMK_SETTINGS_EEPROM_ADDR C) q"
  shows "mem_get (array e') EECONFIG_KEYMAP 2 = mem_get (array e) EECONFIG_KEYMAP 2"
  using settings_fit length_array [OF assms(1)] assms(2,3)
  by (simp add: mem_get_put_other EECONFIG_KEYMAP_def)

lemma settings_area_kept:
  assumes "good e" "array e' = mem_put (array e) EECONFIG_KEYMAP (le_bytes 2 k)"
  shows "mem_get (array e') (VIAL_QMK_SETTINGS_EEPROM_ADDR C) 36
    = mem_get (array e) (VIAL_QMK_SETTINGS_EEPROM_ADDR C) 36"
  using settings_fit length_array [OF assms(1)] assms(2)
  by (simp add: mem_get_put_other EECONFIG_KEYMAP_def)

lemma set_static:
  assumes "synced s" "find_setting i = Some p" "setting_access p = Eeprom_Settings"
    "setting_sz p \<le> length v"
  shows "\<exists>s'. qmk_settings_set C E s i v = Some (0, s') \<and> synced s' \<and>
    QS s' = mem_put (QS s) (setting_ptr p) (take (setting_sz p) v) \<and> keymap_config s' = keymap_config s"
proof -
  have g: "good (eeprom s)" "length (QS s) = 36" using assms(1) by (auto simp: synced_def)
  let ?q = "mem_put (QS s) (setting_ptr p) (take (setting_sz p) v)"
  have q: "length ?q = 36"
    using protos_static find_setting_Some [OF assms(2)] assms(3,4) g(2) by (simp add: mem_simps)
  then obtain e' where e': "eeprom_settings_save C E (s\<lparr>QS := ?q\<rparr>) = Some (s\<lparr>QS := ?q, eeprom := e'\<rparr>)"
    "good e'" "array e' = mem_put (array (eeprom s)) (VIAL_QMK_SETTINGS_EEPROM_ADDR C) ?q"
    using save_result [of "s\<lparr>QS := ?q\<rparr>"] g by auto
  have fit: "VIAL_QMK_SETTINGS_EEPROM_ADDR C + length ?q \<le> length (array (eeprom s))"
    using q settings_fit length_array [OF g(1)] by simp
  have "mem_get (array e') (VIAL_QMK_SETTINGS_EEPROM_ADDR C) 36 = ?q"
    using mem_get_put_same [OF fit] q e'(3) by simp
  then have "synced (s\<lparr>QS := ?q, eeprom := e'\<rparr>)"
    using assms(1) e'(2) q keymap_word_kept [OF g(1) q e'(3)] by (simp add: synced_def)
  then show ?thesis using assms(2-4) e'(1)
    by (simp add: qmk_settings_set_def eeprom_settings_set_def)
qed

lemma update_keymap:
  assumes "good e"
  shows "\<exists>e'. eeconfig_update_keymap E e k = Some e' \<and> good e' \<and>
    array e' = mem_put (array e) EECONFIG_KEYMAP (le_bytes 2 k)"
  using update_word [OF assms, of EECONFIG_KEYMAP k] settings_fit
  by (simp add: eeconfig_update_keymap_def EECONFIG_KEYMAP_def)

lemma keymap_word_put:
  assumes "good e" "array e' = mem_put (array e) EECONFIG_KEYMAP (le_bytes 2 (k :: u16))"
  shows "le_word (mem_get (array e') EECONFIG_KEYMAP 2) = k"
proof -
  have fit: "EECONFIG_KEYMAP + length (le_bytes 2 k) \<le> length (array e)"
    using length_array [OF assms(1)] settings_fit by (simp add: EECONFIG_KEYMAP_def)
  then show ?thesis using mem_get_put_same [OF fit] assms(2) by (simp add: layout_simps)
qed

lemma set_magic:
  assumes "synced s" "find_setting i = Some p" "setting_access p = Magic_Settings" "4 \<le> length v"
  shows "\<exists>s'. qmk_settings_set C E s i v = Some (0, s') \<and> synced s' \<and> QS s' = QS s \<and>
    keyboard_clears s' = keyboard_clears s + 1 \<and>
    (\<forall>n. bit (keymap_config s') n \<longleftrightarrow> (if n < 10 then bit (le_word (take 4 v) :: u32) n
      else bit (keymap_config s) n))"
proof -
  define k where "k = fold (\<lambda>i. put_field i (bit (le_word (take 4 v) :: u32) i))
    [0, 1, 2, 3, 4, 5, 6, 7, 8, 9] (keymap_config s)"
  have g: "good (eeprom s)" using assms(1) by (auto simp: synced_def)
  obtain e' where e': "eeconfig_update_keymap E (eeprom s) k = Some e'" "good e'"
    "array e' = mem_put (array (eeprom s)) EECONFIG_KEYMAP (le_bytes 2 k)"
    using update_keymap [OF g] by blast
  let ?s = "(clear_keyboard_call s)\<lparr>keymap_config := k, eeprom := e'\<rparr>"
  have "qmk_settings_set C E s i v = Some (0, run_notify (setting_notify p) ?s)"
    using assms(2-4) e'(1) k_def
    by (simp add: qmk_settings_set_def magic_settings_set_def Let_def clear_keyboard_call_def)
  moreover have "synced ?s"
    using assms(1) e'(2) settings_area_kept [OF g e'(3)] keymap_word_put [OF g e'(3)]
    by (simp add: synced_def clear_keyboard_call_def)
  moreover have "\<forall>n. bit k n \<longleftrightarrow> (if n < 10 then bit (le_word (take 4 v) :: u32) n else bit (keymap_config s) n)"
    unfolding k_def bit_fold_put_field by auto
  ultimately show ?thesis by (auto simp: clear_keyboard_call_def)
qed

lemma get_static:
  "find_setting i = Some p \<Longrightarrow> setting_access p = Eeprom_Settings \<Longrightarrow> setting_sz p \<le> n \<Longrightarrow>
    qmk_settings_get s i n = (0, mem_get (QS s) (setting_ptr p) (setting_sz p))"
  by (simp add: qmk_settings_get_def eeprom_settings_get_def)

lemma get_other:
  assumes "synced s" "find_setting i = Some p" "setting_access p = Eeprom_Settings"
    "setting_sz p \<le> length v" "j \<noteq> i" "keymap_config s' = keymap_config s"
    "QS s' = mem_put (QS s) (setting_ptr p) (take (setting_sz p) v)"
  shows "qmk_settings_get s' j n = qmk_settings_get s j n"
proof (cases "find_setting j")
  case (Some q)
  note p = find_setting_Some [OF assms(2)] and q = find_setting_Some [OF Some]
  show ?thesis
  proof (cases "setting_access q")
    case Eeprom_Settings
    have "mem_get (QS s') (setting_ptr q) (setting_sz q) = mem_get (QS s) (setting_ptr q) (setting_sz q)"
    proof -
      have "setting_ptr p + setting_sz p \<le> setting_ptr q \<or> setting_ptr q + setting_sz q \<le> setting_ptr p"
        using protos_disjoint p q Eeprom_Settings assms(3,5) by auto
      then show ?thesis
        using protos_static [of p] protos_static [of q] p q Eeprom_Settings assms
          mem_get_put_other [of "setting_ptr p" "take (setting_sz p) v" "QS s" "setting_ptr q" "setting_sz q"]
        by (auto simp: synced_def min_def)
    qed
    then show ?thesis using Some Eeprom_Settings
      by (simp add: qmk_settings_get_def eeprom_settings_get_def)
  next
    case Magic_Settings
    then show ?thesis using Some assms(6)
      by (simp add: qmk_settings_get_def magic_settings_get_def)
  qed
qed (simp add: qmk_settings_get_def)

text \<open>A power cycle: RAM is lost and \<open>qmk_settings_init\<close> runs.\<close>

lemma init_restores_settings:
  assumes "synced s" "length junk = 36"
  shows "\<exists>s'. qmk_settings_init C E (s\<lparr>QS := junk\<rparr>) = Some s' \<and> synced s' \<and> QS s' = QS s \<and>
    eeprom s' = eeprom s \<and> keymap_config s' = keymap_config s"
  using load_result [of "s\<lparr>QS := junk\<rparr>"] assms
  by (simp add: qmk_settings_init_def synced_def)

end

end
