(* ===== verification/Vial.thy ===== *)
theory Vial
  imports Qmk_Settings
begin

unbundle bit_operations_syntax

text \<open>
  The Vial protocol (\<open>quantum/vial.c\<close>): the command handler with the unlock procedure, the
  settings, encoder and dynamic-entry commands, the caches of the dynamic entries, and the
  resetting of the dynamic keymap. A command gets a message of 32 bytes and answers in it.

  The configuration is that of a secure build (no \<open>VIAL_INSECURE\<close>) with encoders, settings,
  tap dance, combos and key overrides, without \<open>VIALRGB_ENABLE\<close>.
\<close>

section \<open>Configuration, state, environment\<close>

record vial_config =
  dk :: dk_config
  defaults :: settings_defaults
  VIAL_KEYBOARD_UID :: "u8 list"
  keyboard_definition :: "u8 list"
  vial_unlock_combo_rows :: "u8 list"
  vial_unlock_combo_cols :: "u8 list"
  keymaps :: "u16 list list list"
  encoder_map :: "(u16 \<times> u16) list list"

definition VIAL_PROTOCOL_VERSION :: u32 where "VIAL_PROTOCOL_VERSION = 6"
definition VIAL_RAW_EPSIZE :: nat where "VIAL_RAW_EPSIZE = 32"
definition VIAL_UNLOCK_COUNTER_MAX :: int where "VIAL_UNLOCK_COUNTER_MAX = 50"
definition KC_TRNS :: u16 where "KC_TRNS = 1"

text \<open>A combo and a key override as the respective features use them.\<close>

record combo_t =
  combo_keys :: "u16 list"
  combo_keycode :: u16

record key_override_t =
  trigger :: u16
  trigger_mods :: u8
  layers :: u32
  negative_mod_mask :: u8
  suppressed_mods :: u8
  replacement :: u16
  options :: u8
  enabled :: bool

record 'e vial =
  settings :: "'e settings"
  vial_unlocked :: bool
  vial_unlock_in_progress :: bool
  vial_unlock_counter :: int
  vial_unlock_timer :: u16
  tap_dance_user_data :: "nat list"
  key_combos :: "combo_t list"
  vial_key_overrides :: "key_override_t list"

text \<open>What a command observes outside: the millisecond timer and the key matrix.\<close>

record vial_env =
  timer_read :: u16
  timer_read32 :: u32
  matrix_get_row :: "nat \<Rightarrow> u32"
  matrix_is_on :: "nat \<Rightarrow> nat \<Rightarrow> bool"

abbreviation ee :: "'e vial \<Rightarrow> 'e" where "ee s \<equiv> eeprom (settings s)"

definition put_ee :: "'e \<Rightarrow> 'e vial \<Rightarrow> 'e vial" where
  "put_ee e s = s\<lparr>settings := (settings s)\<lparr>eeprom := e\<rparr>\<rparr>"

definition timer_elapsed :: "vial_env \<Rightarrow> u16 \<Rightarrow> u16" where
  "timer_elapsed env start = timer_read env - start"

section \<open>Caches of the dynamic entries\<close>

definition reload_tap_dance :: "vial_config \<Rightarrow> 'e vial \<Rightarrow> 'e vial" where
  "reload_tap_dance V s = s\<lparr>tap_dance_user_data := [0..<VIAL_TAP_DANCE_ENTRIES (dk V)]\<rparr>"

definition blank_combo_entry :: vial_combo_entry_t where
  "blank_combo_entry = \<lparr>combo_input = [0, 0, 0, 0], combo_output = 0\<rparr>"

definition blank_tap_dance_entry :: vial_tap_dance_entry_t where
  "blank_tap_dance_entry =
    \<lparr>on_tap = 0, on_hold = 0, on_double_tap = 0, on_tap_hold = 0, custom_tapping_term = 0\<rparr>"

definition blank_key_override_entry :: vial_key_override_entry_t where
  "blank_key_override_entry = \<lparr>entry_trigger = 0, entry_replacement = 0, entry_layers = 0,
     entry_trigger_mods = 0, entry_negative_mod_mask = 0, entry_suppressed_mods = 0, entry_options = 0\<rparr>"

definition load_combo :: "dk_config \<Rightarrow> 'e eeprom_ops \<Rightarrow> 'e \<Rightarrow> nat \<Rightarrow> combo_t option" where
  "load_combo C E e i = do {
     (ret, entry) \<leftarrow> dynamic_keymap_get_combo C E e i blank_combo_entry;
     Some (if ret = 0 then \<lparr>combo_keys = combo_input entry @ [0], combo_keycode = combo_output entry\<rparr>
           else \<lparr>combo_keys = [0, 0, 0, 0, 0], combo_keycode = 0\<rparr>) }"

fun map_opt :: "('a \<Rightarrow> 'b option) \<Rightarrow> 'a list \<Rightarrow> 'b list option" where
  "map_opt f [] = Some []"
| "map_opt f (x # xs) = do { y \<leftarrow> f x; ys \<leftarrow> map_opt f xs; Some (y # ys) }"

definition reload_combo :: "vial_config \<Rightarrow> 'e eeprom_ops \<Rightarrow> 'e vial \<Rightarrow> 'e vial option" where
  "reload_combo V E s = do {
     cs \<leftarrow> map_opt (load_combo (dk V) E (ee s)) [0..<VIAL_COMBO_ENTRIES (dk V)];
     Some (s\<lparr>key_combos := cs\<rparr>) }"

text \<open>
  \<open>vial_get_key_override\<close>: the result and the override after the call. A \<open>NULL\<close> pointer in
  \<open>enabled\<close> and a pointer to a false flag are the two values the code stores.
\<close>

definition option_bit :: "u8 \<Rightarrow> u8 \<Rightarrow> u8" where
  "option_bit opt m = (if opt AND m \<noteq> 0 then m else 0)"

definition vial_get_key_override ::
    "dk_config \<Rightarrow> 'e eeprom_ops \<Rightarrow> 'e \<Rightarrow> nat \<Rightarrow> key_override_t \<Rightarrow> (int \<times> key_override_t) option" where
  "vial_get_key_override C E e index out = do {
     (ret, entry) \<leftarrow> dynamic_keymap_get_key_override C E e index blank_key_override_entry;
     Some (if ret \<noteq> 0 then (ret, out)
       else let opt = entry_options entry in
         (0, \<lparr>trigger = entry_trigger entry, trigger_mods = entry_trigger_mods entry,
              layers = ucast (entry_layers entry), negative_mod_mask = entry_negative_mod_mask entry,
              suppressed_mods = entry_suppressed_mods entry, replacement = entry_replacement entry,
              options = option_bit opt 1 OR option_bit opt 2 OR option_bit opt 4 OR option_bit opt 8 OR
                option_bit opt 16 OR option_bit opt 32,
              enabled = (opt AND 128 \<noteq> 0)\<rparr>)) }"

definition blank_key_override :: key_override_t where
  "blank_key_override = \<lparr>trigger = 0, trigger_mods = 0, layers = 0, negative_mod_mask = 0,
     suppressed_mods = 0, replacement = 0, options = 0, enabled = True\<rparr>"

definition reload_key_override :: "vial_config \<Rightarrow> 'e eeprom_ops \<Rightarrow> 'e vial \<Rightarrow> 'e vial option" where
  "reload_key_override V E s = do {
     kos \<leftarrow> map_opt (\<lambda>i. map_option snd (vial_get_key_override (dk V) E (ee s) i
                (if i < length (vial_key_overrides s) then vial_key_overrides s ! i
                 else blank_key_override)))
       [0..<VIAL_KEY_OVERRIDE_ENTRIES (dk V)];
     Some (s\<lparr>vial_key_overrides := kos\<rparr>) }"

definition vial_init :: "vial_config \<Rightarrow> 'e eeprom_ops \<Rightarrow> 'e vial \<Rightarrow> 'e vial option" where
  "vial_init V E s = do {
     let s1 = reload_tap_dance V s;
     s2 \<leftarrow> reload_combo V E s1;
     reload_key_override V E s2 }"

definition vial_keycode_firewall :: "bool \<Rightarrow> u16 \<Rightarrow> u16" where
  "vial_keycode_firewall unlocked kc = (if kc = QK_BOOT \<and> \<not> unlocked then 0 else kc)"

definition tap_dance_count :: "vial_config \<Rightarrow> u16" where
  "tap_dance_count V = of_nat (VIAL_TAP_DANCE_ENTRIES (dk V))"

definition tap_dance_get :: "vial_config \<Rightarrow> u16 \<Rightarrow> nat option" where
  "tap_dance_get V idx = (if unat idx \<ge> VIAL_TAP_DANCE_ENTRIES (dk V) then None else Some (unat idx))"

definition key_override_count :: "vial_config \<Rightarrow> u16" where
  "key_override_count V = of_nat (VIAL_KEY_OVERRIDE_ENTRIES (dk V))"

definition key_override_get :: "vial_config \<Rightarrow> 'e vial \<Rightarrow> u16 \<Rightarrow> key_override_t option" where
  "key_override_get V s idx =
    (if unat idx \<ge> VIAL_KEY_OVERRIDE_ENTRIES (dk V) then None
     else Some (vial_key_overrides s ! unat idx))"

definition get_tapping_term :: "vial_config \<Rightarrow> 'e eeprom_ops \<Rightarrow> 'e vial \<Rightarrow> u16 \<Rightarrow> u16 option" where
  "get_tapping_term V E s keycode =
    (if keycode \<ge> QK_TAP_DANCE \<and> keycode \<le> QK_TAP_DANCE_MAX then do {
       (ret, td) \<leftarrow> dynamic_keymap_get_tap_dance (dk V) E (ee s) (unat (keycode AND 0xFF))
         blank_tap_dance_entry;
       Some (if ret = 0 then custom_tapping_term td else qs_get_tapping_term (settings s)) }
     else Some (qs_get_tapping_term (settings s)))"

section \<open>Resetting the dynamic keymap\<close>

definition keycode_at_keymap_location_raw :: "vial_config \<Rightarrow> nat \<Rightarrow> nat \<Rightarrow> nat \<Rightarrow> u16" where
  "keycode_at_keymap_location_raw V layer row col =
    (if layer < length (keymaps V) \<and> row < MATRIX_ROWS (dk V) \<and> col < MATRIX_COLS (dk V)
     then keymaps V ! layer ! row ! col else KC_TRNS)"

definition keycode_at_encodermap_location_raw :: "vial_config \<Rightarrow> nat \<Rightarrow> nat \<Rightarrow> bool \<Rightarrow> u16" where
  "keycode_at_encodermap_location_raw V layer idx clockwise =
    (if layer < length (encoder_map V) \<and> idx < NUM_ENCODERS (dk V)
     then (let (cw, ccw) = encoder_map V ! layer ! idx in if clockwise then cw else ccw) else KC_TRNS)"

fun fold_opt :: "('a \<Rightarrow> 'e \<Rightarrow> 'e option) \<Rightarrow> 'a list \<Rightarrow> 'e \<Rightarrow> 'e option" where
  "fold_opt f [] e = Some e"
| "fold_opt f (x # xs) e = do { e1 \<leftarrow> f x e; fold_opt f xs e1 }"

definition reset_keys :: "vial_config \<Rightarrow> 'e eeprom_ops \<Rightarrow> 'e \<Rightarrow> 'e option" where
  "reset_keys V E =
    fold_opt (\<lambda>layer e. do {
        e1 \<leftarrow> fold_opt (\<lambda>row. fold_opt (\<lambda>column e.
               dynamic_keymap_set_keycode (dk V) E e layer row column
                 (keycode_at_keymap_location_raw V layer row column)) [0..<MATRIX_COLS (dk V)])
             [0..<MATRIX_ROWS (dk V)] e;
        fold_opt (\<lambda>encoder e. do {
            e1 \<leftarrow> dynamic_keymap_set_encoder (dk V) E e layer encoder True
              (keycode_at_encodermap_location_raw V layer encoder True);
            dynamic_keymap_set_encoder (dk V) E e1 layer encoder False
              (keycode_at_encodermap_location_raw V layer encoder False) })
          [0..<NUM_ENCODERS (dk V)] e1 })
      [0..<DYNAMIC_KEYMAP_LAYER_COUNT (dk V)]"

definition reset_entries :: "vial_config \<Rightarrow> 'e eeprom_ops \<Rightarrow> 'e \<Rightarrow> 'e option" where
  "reset_entries V E e0 = do {
     let td = blank_tap_dance_entry\<lparr>custom_tapping_term := TAPPING_TERM (defaults V)\<rparr>;
     e1 \<leftarrow> fold_opt (\<lambda>i e. map_option snd (dynamic_keymap_set_tap_dance (dk V) E e i td))
       [0..<VIAL_TAP_DANCE_ENTRIES (dk V)] e0;
     e2 \<leftarrow> fold_opt (\<lambda>i e. map_option snd (dynamic_keymap_set_combo (dk V) E e i blank_combo_entry))
       [0..<VIAL_COMBO_ENTRIES (dk V)] e1;
     let ko = blank_key_override_entry\<lparr>entry_layers := 0xFFFF, entry_options := 4 OR 2 OR 1\<rparr>;
     fold_opt (\<lambda>i e. map_option snd (dynamic_keymap_set_key_override (dk V) E e i ko))
       [0..<VIAL_KEY_OVERRIDE_ENTRIES (dk V)] e2 }"

definition dynamic_keymap_reset :: "vial_config \<Rightarrow> 'e eeprom_ops \<Rightarrow> 'e vial \<Rightarrow> 'e vial option" where
  "dynamic_keymap_reset V E s = do {
     let prev = vial_unlocked s;
     let s1 = s\<lparr>vial_unlocked := True\<rparr>;
     e1 \<leftarrow> reset_keys V E (ee s1);
     let s2 = put_ee e1 s1;
     st \<leftarrow> qmk_settings_reset (defaults V) (dk V) E (settings s2);
     e3 \<leftarrow> reset_entries V E (eeprom st);
     Some ((put_ee e3 (s2\<lparr>settings := st\<rparr>))\<lparr>vial_unlocked := prev\<rparr>) }"

section \<open>The command handler\<close>

definition vial_get_keyboard_id :: u8 where "vial_get_keyboard_id = 0x00"
definition vial_get_size :: u8 where "vial_get_size = 0x01"
definition vial_get_def :: u8 where "vial_get_def = 0x02"
definition vial_get_encoder :: u8 where "vial_get_encoder = 0x03"
definition vial_set_encoder :: u8 where "vial_set_encoder = 0x04"
definition vial_get_unlock_status :: u8 where "vial_get_unlock_status = 0x05"
definition vial_unlock_start :: u8 where "vial_unlock_start = 0x06"
definition vial_unlock_poll :: u8 where "vial_unlock_poll = 0x07"
definition vial_lock :: u8 where "vial_lock = 0x08"
definition vial_qmk_settings_query :: u8 where "vial_qmk_settings_query = 0x09"
definition vial_qmk_settings_get :: u8 where "vial_qmk_settings_get = 0x0A"
definition vial_qmk_settings_set :: u8 where "vial_qmk_settings_set = 0x0B"
definition vial_qmk_settings_reset :: u8 where "vial_qmk_settings_reset = 0x0C"
definition vial_dynamic_entry_op :: u8 where "vial_dynamic_entry_op = 0x0D"

definition dynamic_vial_get_number_of_entries :: u8 where "dynamic_vial_get_number_of_entries = 0x00"
definition dynamic_vial_tap_dance_get :: u8 where "dynamic_vial_tap_dance_get = 0x01"
definition dynamic_vial_tap_dance_set :: u8 where "dynamic_vial_tap_dance_set = 0x02"
definition dynamic_vial_combo_get :: u8 where "dynamic_vial_combo_get = 0x03"
definition dynamic_vial_combo_set :: u8 where "dynamic_vial_combo_set = 0x04"
definition dynamic_vial_key_override_get :: u8 where "dynamic_vial_key_override_get = 0x05"
definition dynamic_vial_key_override_set :: u8 where "dynamic_vial_key_override_set = 0x06"

lemmas vial_cmd_defs = vial_get_keyboard_id_def vial_get_size_def vial_get_def_def
  vial_get_encoder_def vial_set_encoder_def vial_get_unlock_status_def vial_unlock_start_def
  vial_unlock_poll_def vial_lock_def vial_qmk_settings_query_def vial_qmk_settings_get_def
  vial_qmk_settings_set_def vial_qmk_settings_reset_def vial_dynamic_entry_op_def
  dynamic_vial_get_number_of_entries_def dynamic_vial_tap_dance_get_def
  dynamic_vial_tap_dance_set_def dynamic_vial_combo_get_def dynamic_vial_combo_set_def
  dynamic_vial_key_override_get_def dynamic_vial_key_override_set_def

text \<open>\<open>msg[i] | (msg[i + 1] << 8)\<close>\<close>

definition msg_word :: "u8 list \<Rightarrow> nat \<Rightarrow> u16" where
  "msg_word msg i = be_word (msg ! (i + 1)) (msg ! i)"

definition cmd_get_def :: "vial_config \<Rightarrow> u8 list \<Rightarrow> u8 list" where
  "cmd_get_def V msg =
    (let page = unat (msg_word msg 2);
         start = page * VIAL_RAW_EPSIZE;
         stop = min (start + VIAL_RAW_EPSIZE) (length (keyboard_definition V))
     in if start \<ge> length (keyboard_definition V) then msg
        else mem_put msg 0 (mem_get (keyboard_definition V) start (stop - start)))"

definition unlock_keys :: "vial_config \<Rightarrow> (u8 \<times> u8) list" where
  "unlock_keys V = zip (vial_unlock_combo_rows V) (vial_unlock_combo_cols V)"

definition int_byte :: "int \<Rightarrow> u8" where "int_byte i = word_of_int i"

definition cmd_unlock_status :: "vial_config \<Rightarrow> 'e vial \<Rightarrow> u8 list \<Rightarrow> u8 list" where
  "cmd_unlock_status V s msg =
    mem_put (replicate (length msg) 0xFF) 0
      ([of_bool (vial_unlocked s), of_bool (vial_unlock_in_progress s)] @
       concat (map (\<lambda>(r, c). [r, c]) (unlock_keys V)))"

definition cmd_unlock_start :: "vial_env \<Rightarrow> 'e vial \<Rightarrow> 'e vial" where
  "cmd_unlock_start env s = s\<lparr>vial_unlock_in_progress := True,
     vial_unlock_counter := VIAL_UNLOCK_COUNTER_MAX, vial_unlock_timer := timer_read env\<rparr>"

definition holding_keys :: "vial_config \<Rightarrow> vial_env \<Rightarrow> bool" where
  "holding_keys V env = list_all (\<lambda>(r, c). matrix_is_on env (unat r) (unat c)) (unlock_keys V)"

definition unlock_poll :: "vial_config \<Rightarrow> vial_env \<Rightarrow> 'e vial \<Rightarrow> 'e vial" where
  "unlock_poll V env s =
    (if vial_unlock_in_progress s then
       if timer_elapsed env (vial_unlock_timer s) > 100 \<and> holding_keys V env then
         let s1 = s\<lparr>vial_unlock_timer := timer_read env, vial_unlock_counter := vial_unlock_counter s - 1\<rparr>
         in if vial_unlock_counter s1 = 0
            then s1\<lparr>vial_unlock_in_progress := False, vial_unlocked := True\<rparr> else s1
       else s\<lparr>vial_unlock_counter := VIAL_UNLOCK_COUNTER_MAX\<rparr>
     else s)"

definition cmd_unlock_poll :: "vial_config \<Rightarrow> vial_env \<Rightarrow> 'e vial \<Rightarrow> u8 list \<Rightarrow> 'e vial \<times> u8 list" where
  "cmd_unlock_poll V env s msg =
    (let s1 = unlock_poll V env s
     in (s1, mem_put msg 0 [of_bool (vial_unlocked s1), of_bool (vial_unlock_in_progress s1),
          int_byte (vial_unlock_counter s1)]))"

definition cmd_dynamic_entry_op ::
    "vial_config \<Rightarrow> 'e eeprom_ops \<Rightarrow> 'e vial \<Rightarrow> u8 list \<Rightarrow> ('e vial \<times> u8 list) option" where
  "cmd_dynamic_entry_op V E s msg =
    (let C = dk V; op = msg ! 2; idx = unat (msg ! 3); fw = vial_keycode_firewall (vial_unlocked s)
     in if op = dynamic_vial_get_number_of_entries then
          Some (s, mem_put (replicate (length msg) 0) 0 [of_nat (VIAL_TAP_DANCE_ENTRIES C),
            of_nat (VIAL_COMBO_ENTRIES C), of_nat (VIAL_KEY_OVERRIDE_ENTRIES C)])
        else if op = dynamic_vial_tap_dance_get then do {
          (ret, td) \<leftarrow> dynamic_keymap_get_tap_dance C E (ee s) idx blank_tap_dance_entry;
          Some (s, mem_put msg 0 (int_byte ret # tap_dance_bytes td)) }
        else if op = dynamic_vial_tap_dance_set then do {
          let td = tap_dance_of (mem_get msg 4 10);
          let td = td\<lparr>on_tap := fw (on_tap td), on_hold := fw (on_hold td),
                on_double_tap := fw (on_double_tap td), on_tap_hold := fw (on_tap_hold td)\<rparr>;
          (ret, e) \<leftarrow> dynamic_keymap_set_tap_dance C E (ee s) idx td;
          Some (reload_tap_dance V (put_ee e s), msg[0 := int_byte ret]) }
        else if op = dynamic_vial_combo_get then do {
          (ret, entry) \<leftarrow> dynamic_keymap_get_combo C E (ee s) idx blank_combo_entry;
          Some (s, mem_put msg 0 (int_byte ret # combo_bytes entry)) }
        else if op = dynamic_vial_combo_set then do {
          let entry = combo_of (mem_get msg 4 10);
          let entry = entry\<lparr>combo_output := fw (combo_output entry)\<rparr>;
          (ret, e) \<leftarrow> dynamic_keymap_set_combo C E (ee s) idx entry;
          s1 \<leftarrow> reload_combo V E (put_ee e s);
          Some (s1, msg[0 := int_byte ret]) }
        else if op = dynamic_vial_key_override_get then do {
          (ret, entry) \<leftarrow> dynamic_keymap_get_key_override C E (ee s) idx blank_key_override_entry;
          Some (s, mem_put msg 0 (int_byte ret # key_override_bytes entry)) }
        else if op = dynamic_vial_key_override_set then do {
          let entry = key_override_of (mem_get msg 4 10);
          let entry = entry\<lparr>entry_replacement := fw (entry_replacement entry)\<rparr>;
          (ret, e) \<leftarrow> dynamic_keymap_set_key_override C E (ee s) idx entry;
          s1 \<leftarrow> reload_key_override V E (put_ee e s);
          Some (s1, msg[0 := int_byte ret]) }
        else Some (s, msg))"

definition vial_handle_cmd ::
    "vial_config \<Rightarrow> 'e eeprom_ops \<Rightarrow> vial_env \<Rightarrow> 'e vial \<Rightarrow> u8 list \<Rightarrow> ('e vial \<times> u8 list) option" where
  "vial_handle_cmd V E env s msg =
    (let cmd = msg ! 1; C = dk V
     in if length msg \<noteq> VIAL_RAW_EPSIZE then Some (s, msg)
        else if cmd = vial_get_keyboard_id then
          Some (s, mem_put (replicate (length msg) 0) 0
            (le_bytes 4 VIAL_PROTOCOL_VERSION @ take 8 (VIAL_KEYBOARD_UID V)))
        else if cmd = vial_get_size then
          Some (s, mem_put msg 0 (le_bytes 4 (of_nat (length (keyboard_definition V)) :: u32)))
        else if cmd = vial_get_def then Some (s, cmd_get_def V msg)
        else if cmd = vial_get_encoder then do {
          k0 \<leftarrow> dynamic_keymap_get_encoder C E (ee s) (unat (msg ! 2)) (unat (msg ! 3)) False;
          k1 \<leftarrow> dynamic_keymap_get_encoder C E (ee s) (unat (msg ! 2)) (unat (msg ! 3)) True;
          Some (s, mem_put msg 0 [high_byte k0, low_byte k0, high_byte k1, low_byte k1]) }
        else if cmd = vial_set_encoder then do {
          e \<leftarrow> dynamic_keymap_set_encoder C E (ee s) (unat (msg ! 2)) (unat (msg ! 3)) (msg ! 4 \<noteq> 0)
            (vial_keycode_firewall (vial_unlocked s) (be_word (msg ! 5) (msg ! 6)));
          Some (put_ee e s, msg) }
        else if cmd = vial_get_unlock_status then Some (s, cmd_unlock_status V s msg)
        else if cmd = vial_unlock_start then Some (cmd_unlock_start env s, msg)
        else if cmd = vial_unlock_poll then Some (cmd_unlock_poll V env s msg)
        else if cmd = vial_lock then Some (s\<lparr>vial_unlocked := False\<rparr>, msg)
        else if cmd = vial_qmk_settings_query then
          Some (s, qmk_settings_query (msg_word msg 2) (length msg))
        else if cmd = vial_qmk_settings_get then
          (let (ret, bytes) = qmk_settings_get (settings s) (msg_word msg 2) (length msg - 1)
           in Some (s, (mem_put msg 1 bytes)[0 := int_byte ret]))
        else if cmd = vial_qmk_settings_set then do {
          (ret, st) \<leftarrow> qmk_settings_set C E (settings s) (msg_word msg 2) (drop 4 msg);
          Some (s\<lparr>settings := st\<rparr>, msg[0 := int_byte ret]) }
        else if cmd = vial_qmk_settings_reset then do {
          st \<leftarrow> qmk_settings_reset (defaults V) C E (settings s);
          Some (s\<lparr>settings := st\<rparr>, msg) }
        else if cmd = vial_dynamic_entry_op then cmd_dynamic_entry_op V E s msg
        else Some (s, msg))"

end
