(* ===== verification/Via.thy ===== *)
theory Via
  imports Vial
begin

unbundle bit_operations_syntax

text \<open>
  The VIA protocol (\<open>quantum/via.c\<close>): the handler of raw HID messages, into which the Vial
  commands are hooked, the layout options, the validity magic, and the initialisation of the
  EEPROM (with the part of \<open>quantum/eeconfig.c\<close> that depends on it). The configuration has no
  lighting and no \<open>VIA_EEPROM_ALLOW_RESET\<close>; the keyboard-level hooks are the weak defaults.
\<close>

record via_config =
  vial_cfg :: vial_config
  VIA_EEPROM_LAYOUT_OPTIONS_SIZE :: nat
  VIA_EEPROM_LAYOUT_OPTIONS_DEFAULT :: u32
  BUILD_ID :: u32

abbreviation dkc :: "via_config \<Rightarrow> dk_config" where "dkc A \<equiv> dk (vial_cfg A)"

definition VIA_PROTOCOL_VERSION :: u16 where "VIA_PROTOCOL_VERSION = 9"
definition VIA_EEPROM_MAGIC_ADDR :: nat where "VIA_EEPROM_MAGIC_ADDR = EECONFIG_SIZE"
definition VIA_EEPROM_LAYOUT_OPTIONS_ADDR :: nat where
  "VIA_EEPROM_LAYOUT_OPTIONS_ADDR = VIA_EEPROM_MAGIC_ADDR + 3"
definition VIA_EEPROM_CONFIG_END :: "via_config \<Rightarrow> nat" where
  "VIA_EEPROM_CONFIG_END A = VIA_EEPROM_LAYOUT_OPTIONS_ADDR + VIA_EEPROM_LAYOUT_OPTIONS_SIZE A"

text \<open>What the host and the keyboard-level code see of a message, in order.\<close>

datatype via_out = Raw_Hid_Send "u8 list" | Bootloader_Jump | Set_Layout_Options_Kb u32

section \<open>Validity and layout options\<close>

definition via_magic :: "via_config \<Rightarrow> u8 list" where
  "via_magic A = [ucast (BUILD_ID A AND 0xFF), ucast (drop_bit 8 (BUILD_ID A) AND 0xFF),
     ucast (drop_bit 16 (BUILD_ID A) AND 0xFF)]"

text \<open>The conjunction is evaluated from the left and stops at the first difference.\<close>

definition via_eeprom_is_valid :: "via_config \<Rightarrow> 'e eeprom_ops \<Rightarrow> 'e \<Rightarrow> bool option" where
  "via_eeprom_is_valid A E e = do {
     b0 \<leftarrow> eeprom_read_byte E e (VIA_EEPROM_MAGIC_ADDR + 0);
     if b0 \<noteq> via_magic A ! 0 then Some False
     else do {
       b1 \<leftarrow> eeprom_read_byte E e (VIA_EEPROM_MAGIC_ADDR + 1);
       if b1 \<noteq> via_magic A ! 1 then Some False
       else do {
         b2 \<leftarrow> eeprom_read_byte E e (VIA_EEPROM_MAGIC_ADDR + 2);
         Some (b2 = via_magic A ! 2) } } }"

definition via_eeprom_set_valid :: "via_config \<Rightarrow> 'e eeprom_ops \<Rightarrow> 'e \<Rightarrow> bool \<Rightarrow> 'e option" where
  "via_eeprom_set_valid A E e valid = do {
     e1 \<leftarrow> eeprom_update_byte E e (VIA_EEPROM_MAGIC_ADDR + 0) (if valid then via_magic A ! 0 else 0xFF);
     e2 \<leftarrow> eeprom_update_byte E e1 (VIA_EEPROM_MAGIC_ADDR + 1) (if valid then via_magic A ! 1 else 0xFF);
     eeprom_update_byte E e2 (VIA_EEPROM_MAGIC_ADDR + 2) (if valid then via_magic A ! 2 else 0xFF) }"

fun layout_get_loop :: "'e eeprom_ops \<Rightarrow> 'e \<Rightarrow> nat \<Rightarrow> nat \<Rightarrow> u32 \<Rightarrow> u32 option" where
  "layout_get_loop E e src 0 value = Some value"
| "layout_get_loop E e src (Suc n) value = do {
     b \<leftarrow> eeprom_read_byte E e src;
     layout_get_loop E e (src + 1) n (push_bit 8 value OR ucast b) }"

definition via_get_layout_options :: "via_config \<Rightarrow> 'e eeprom_ops \<Rightarrow> 'e \<Rightarrow> u32 option" where
  "via_get_layout_options A E e =
    layout_get_loop E e VIA_EEPROM_LAYOUT_OPTIONS_ADDR (VIA_EEPROM_LAYOUT_OPTIONS_SIZE A) 0"

fun layout_set_loop :: "'e eeprom_ops \<Rightarrow> 'e \<Rightarrow> nat \<Rightarrow> nat \<Rightarrow> u32 \<Rightarrow> 'e option" where
  "layout_set_loop E e target 0 value = Some e"
| "layout_set_loop E e target (Suc n) value = do {
     e1 \<leftarrow> eeprom_update_byte E e target (ucast (value AND 0xFF));
     layout_set_loop E e1 (target - 1) n (drop_bit 8 value) }"

definition via_set_layout_options :: "via_config \<Rightarrow> 'e eeprom_ops \<Rightarrow> 'e \<Rightarrow> u32 \<Rightarrow> 'e option" where
  "via_set_layout_options A E e value =
    layout_set_loop E e (VIA_EEPROM_LAYOUT_OPTIONS_ADDR + VIA_EEPROM_LAYOUT_OPTIONS_SIZE A - 1)
      (VIA_EEPROM_LAYOUT_OPTIONS_SIZE A) value"

section \<open>Initialisation\<close>

definition eeconfig_init_via :: "via_config \<Rightarrow> 'e eeprom_ops \<Rightarrow> 'e vial \<Rightarrow> 'e vial option" where
  "eeconfig_init_via A E s = do {
     e1 \<leftarrow> via_eeprom_set_valid A E (ee s) False;
     e2 \<leftarrow> via_set_layout_options A E e1 (VIA_EEPROM_LAYOUT_OPTIONS_DEFAULT A);
     s3 \<leftarrow> dynamic_keymap_reset (vial_cfg A) E (put_ee e2 s);
     e4 \<leftarrow> dynamic_keymap_macro_reset (dkc A) E (ee s3);
     e5 \<leftarrow> via_eeprom_set_valid A E e4 True;
     Some (put_ee e5 s3) }"

definition via_init :: "via_config \<Rightarrow> 'e eeprom_ops \<Rightarrow> 'e vial \<Rightarrow> ('e vial \<times> via_out list) option" where
  "via_init A E s = do {
     v \<leftarrow> via_get_layout_options A E (ee s);
     valid \<leftarrow> via_eeprom_is_valid A E (ee s);
     s1 \<leftarrow> (if valid then Some s else eeconfig_init_via A E s);
     Some (s1, Set_Layout_Options_Kb v #
       (if valid then [] else [Set_Layout_Options_Kb (VIA_EEPROM_LAYOUT_OPTIONS_DEFAULT A)])) }"

definition eeconfig_is_enabled :: "via_config \<Rightarrow> 'e eeprom_ops \<Rightarrow> 'e \<Rightarrow> bool option" where
  "eeconfig_is_enabled A E e = do {
     m \<leftarrow> eeprom_read_word E e EECONFIG_MAGIC;
     if m = EECONFIG_MAGIC_NUMBER then via_eeprom_is_valid A E e else Some False }"

definition eeconfig_is_disabled :: "via_config \<Rightarrow> 'e eeprom_ops \<Rightarrow> 'e \<Rightarrow> bool option" where
  "eeconfig_is_disabled A E e = do {
     m \<leftarrow> eeprom_read_word E e EECONFIG_MAGIC;
     if m \<noteq> EECONFIG_MAGIC_NUMBER_OFF then map_option Not (via_eeprom_is_valid A E e) else Some True }"

text \<open>\<open>eeprom_write_qword\<close> of \<open>platforms/eeprom.h\<close>; \<open>junk\<close> is the stack buffer of the block update.\<close>

definition eeprom_write_qword :: "'e eeprom_ops \<Rightarrow> 'e \<Rightarrow> u8 list \<Rightarrow> nat \<Rightarrow> u64 \<Rightarrow> 'e option" where
  "eeprom_write_qword E e junk addr value = eeprom_update_block E e junk (le_bytes 8 value) addr"

text \<open>The result holds the new \<open>default_layer_state\<close>.\<close>

definition eeconfig_init_quantum ::
    "via_config \<Rightarrow> 'e eeprom_ops \<Rightarrow> u8 list \<Rightarrow> 'e vial \<Rightarrow> (u32 \<times> 'e vial) option" where
  "eeconfig_init_quantum A E junk s = do {
     let e0 = eeprom_driver_format E False (ee s);
     e1 \<leftarrow> eeprom_update_word E e0 EECONFIG_MAGIC EECONFIG_MAGIC_NUMBER;
     e2 \<leftarrow> eeprom_update_byte E e1 EECONFIG_DEBUG 0;
     let default_layer_state = push_bit 0 1;
     e3 \<leftarrow> eeconfig_update_default_layer E e2 default_layer_state;
     e4 \<leftarrow> eeprom_update_word E e3 EECONFIG_KEYMAP 0x1400;
     e5 \<leftarrow> eeprom_update_byte E e4 EECONFIG_BACKLIGHT 0;
     e6 \<leftarrow> eeprom_update_byte E e5 EECONFIG_AUDIO 0;
     e7 \<leftarrow> eeprom_update_dword E e6 EECONFIG_RGBLIGHT 0;
     e8 \<leftarrow> eeprom_update_byte E e7 EECONFIG_RGBLIGHT_EXTENDED 0;
     e9 \<leftarrow> eeprom_update_byte E e8 EECONFIG_UNICODEMODE 0;
     e10 \<leftarrow> eeprom_update_byte E e9 EECONFIG_STENOMODE 0;
     e11 \<leftarrow> eeprom_write_qword E e10 junk EECONFIG_RGB_MATRIX 0;
     e12 \<leftarrow> eeprom_update_dword E e11 EECONFIG_HAPTIC 0;
     e13 \<leftarrow> via_eeprom_set_valid A E e12 False;
     s1 \<leftarrow> eeconfig_init_via A E (put_ee e13 s);
     e14 \<leftarrow> eeconfig_init_kb E (ee s1);
     Some (default_layer_state, put_ee e14 s1) }"

section \<open>Keycodes\<close>

text \<open>Whether processing goes on, and the events of a macro that was sent.\<close>

definition process_record_via ::
    "via_config \<Rightarrow> 'e eeprom_ops \<Rightarrow> 'e vial \<Rightarrow> u16 \<Rightarrow> bool \<Rightarrow> (bool \<times> macro_event list) option" where
  "process_record_via A E s keycode pressed =
    (if pressed \<and> keycode \<ge> QK_MACRO \<and> keycode \<le> QK_MACRO_MAX
     then do {
       ev \<leftarrow> dynamic_keymap_macro_send (dkc A) E (ee s) (unat (ucast (keycode - QK_MACRO) :: u8));
       Some (False, ev) }
     else Some (True, []))"

section \<open>The message handler\<close>

definition id_get_protocol_version :: u8 where "id_get_protocol_version = 0x01"
definition id_get_keyboard_value :: u8 where "id_get_keyboard_value = 0x02"
definition id_set_keyboard_value :: u8 where "id_set_keyboard_value = 0x03"
definition id_dynamic_keymap_get_keycode :: u8 where "id_dynamic_keymap_get_keycode = 0x04"
definition id_dynamic_keymap_set_keycode :: u8 where "id_dynamic_keymap_set_keycode = 0x05"
definition id_dynamic_keymap_reset :: u8 where "id_dynamic_keymap_reset = 0x06"
definition id_lighting_set_value :: u8 where "id_lighting_set_value = 0x07"
definition id_lighting_get_value :: u8 where "id_lighting_get_value = 0x08"
definition id_lighting_save :: u8 where "id_lighting_save = 0x09"
definition id_bootloader_jump :: u8 where "id_bootloader_jump = 0x0B"
definition id_dynamic_keymap_macro_get_count :: u8 where "id_dynamic_keymap_macro_get_count = 0x0C"
definition id_dynamic_keymap_macro_get_buffer_size :: u8 where
  "id_dynamic_keymap_macro_get_buffer_size = 0x0D"
definition id_dynamic_keymap_macro_get_buffer :: u8 where "id_dynamic_keymap_macro_get_buffer = 0x0E"
definition id_dynamic_keymap_macro_set_buffer :: u8 where "id_dynamic_keymap_macro_set_buffer = 0x0F"
definition id_dynamic_keymap_macro_reset :: u8 where "id_dynamic_keymap_macro_reset = 0x10"
definition id_dynamic_keymap_get_layer_count :: u8 where "id_dynamic_keymap_get_layer_count = 0x11"
definition id_dynamic_keymap_get_buffer :: u8 where "id_dynamic_keymap_get_buffer = 0x12"
definition id_dynamic_keymap_set_buffer :: u8 where "id_dynamic_keymap_set_buffer = 0x13"
definition id_vial_prefix :: u8 where "id_vial_prefix = 0xFE"
definition id_unhandled :: u8 where "id_unhandled = 0xFF"

definition id_uptime :: u8 where "id_uptime = 0x01"
definition id_layout_options :: u8 where "id_layout_options = 0x02"
definition id_switch_matrix_state :: u8 where "id_switch_matrix_state = 0x03"

lemmas via_cmd_defs = id_get_protocol_version_def id_get_keyboard_value_def
  id_set_keyboard_value_def id_dynamic_keymap_get_keycode_def id_dynamic_keymap_set_keycode_def
  id_dynamic_keymap_reset_def id_lighting_set_value_def id_lighting_get_value_def
  id_lighting_save_def id_bootloader_jump_def id_dynamic_keymap_macro_get_count_def
  id_dynamic_keymap_macro_get_buffer_size_def id_dynamic_keymap_macro_get_buffer_def
  id_dynamic_keymap_macro_set_buffer_def id_dynamic_keymap_macro_reset_def
  id_dynamic_keymap_get_layer_count_def id_dynamic_keymap_get_buffer_def
  id_dynamic_keymap_set_buffer_def id_vial_prefix_def id_unhandled_def id_uptime_def
  id_layout_options_def id_switch_matrix_state_def

definition raw_hid_receive_kb :: "u8 list \<Rightarrow> u8 list" where
  "raw_hid_receive_kb data = data[0 := id_unhandled]"

text \<open>\<open>(value >> 24) & 0xFF\<close> down to \<open>value & 0xFF\<close>, and the bytes of a matrix row.\<close>

definition be_bytes :: "nat \<Rightarrow> u32 \<Rightarrow> u8 list" where
  "be_bytes n value = rev (le_bytes n value)"

definition row_bytes :: "dk_config \<Rightarrow> u32 \<Rightarrow> u8 list" where
  "row_bytes C value = be_bytes (if MATRIX_COLS C > 24 then 4 else if MATRIX_COLS C > 16 then 3
     else if MATRIX_COLS C > 8 then 2 else 1) value"

definition via_get_keyboard_value ::
    "via_config \<Rightarrow> 'e eeprom_ops \<Rightarrow> vial_env \<Rightarrow> 'e vial \<Rightarrow> u8 list \<Rightarrow> u8 list option" where
  "via_get_keyboard_value A E env s data =
    (let sub = data ! 1; C = dkc A
     in if sub = id_uptime then Some (mem_put data 2 (be_bytes 4 (timer_read32 env)))
        else if sub = id_layout_options then do {
          v \<leftarrow> via_get_layout_options A E (ee s);
          Some (mem_put data 2 (be_bytes 4 v)) }
        else if sub = id_switch_matrix_state then
          Some (if \<not> vial_unlocked s then data
            else if (MATRIX_COLS C div 8 + 1) * MATRIX_ROWS C \<le> 28
            then mem_put data 2 (concat (map (\<lambda>r. row_bytes C (matrix_get_row env r)) [0..<MATRIX_ROWS C]))
            else data)
        else Some (raw_hid_receive_kb data))"

text \<open>A big-endian offset and a size in the first three bytes of the command data.\<close>

definition buf_offset :: "u8 list \<Rightarrow> nat" where
  "buf_offset data = unat (be_word (data ! 1) (data ! 2))"

definition buf_size :: "u8 list \<Rightarrow> nat" where
  "buf_size data = unat (data ! 3)"

definition vial_blocks :: "'e vial \<Rightarrow> u8 list \<Rightarrow> bool" where
  "vial_blocks s data \<longleftrightarrow> vial_unlock_in_progress s \<and>
     (data ! 0 \<noteq> id_vial_prefix \<or>
      (data ! 1 \<noteq> vial_get_keyboard_id \<and> data ! 1 \<noteq> vial_get_size \<and> data ! 1 \<noteq> vial_get_def \<and>
       data ! 1 \<noteq> vial_get_unlock_status \<and> data ! 1 \<noteq> vial_unlock_start \<and> data ! 1 \<noteq> vial_unlock_poll))"

text \<open>The state after a message and the bytes that are sent back.\<close>

definition via_dispatch ::
    "via_config \<Rightarrow> 'e eeprom_ops \<Rightarrow> vial_env \<Rightarrow> 'e vial \<Rightarrow> u8 list
      \<Rightarrow> ('e vial \<times> u8 list \<times> via_out list) option" where
  "via_dispatch A E env s data =
    (let cmd = data ! 0; C = dkc A
     in if cmd = id_get_protocol_version then
          Some (s, mem_put data 1 [high_byte VIA_PROTOCOL_VERSION, low_byte VIA_PROTOCOL_VERSION], [])
        else if cmd = id_get_keyboard_value then do {
          d \<leftarrow> via_get_keyboard_value A E env s data; Some (s, d, []) }
        else if cmd = id_set_keyboard_value then
          (if data ! 1 = id_layout_options then do {
             let value = le_word (rev (mem_get data 2 4));
             e \<leftarrow> via_set_layout_options A E (ee s) value;
             Some (put_ee e s, data, [Set_Layout_Options_Kb value]) }
           else Some (s, raw_hid_receive_kb data, []))
        else if cmd = id_dynamic_keymap_get_keycode then do {
          k \<leftarrow> dynamic_keymap_get_keycode C E (ee s) (unat (data ! 1)) (unat (data ! 2)) (unat (data ! 3));
          Some (s, mem_put data 4 [high_byte k, low_byte k], []) }
        else if cmd = id_dynamic_keymap_set_keycode then do {
          e \<leftarrow> dynamic_keymap_set_keycode C E (ee s) (unat (data ! 1)) (unat (data ! 2)) (unat (data ! 3))
            (be_word (data ! 4) (data ! 5));
          Some (put_ee e s, data, []) }
        else if cmd = id_dynamic_keymap_reset then do {
          s1 \<leftarrow> dynamic_keymap_reset (vial_cfg A) E s; Some (s1, data, []) }
        else if cmd = id_lighting_set_value \<or> cmd = id_lighting_get_value \<or> cmd = id_lighting_save then
          Some (s, data[0 := id_unhandled], [])
        else if cmd = id_dynamic_keymap_macro_get_count then
          Some (s, data[1 := dynamic_keymap_macro_get_count C], [])
        else if cmd = id_dynamic_keymap_macro_get_buffer_size then
          (let size = dynamic_keymap_macro_get_buffer_size C
           in Some (s, mem_put data 1 [high_byte size, low_byte size], []))
        else if cmd = id_dynamic_keymap_macro_get_buffer then
          (if buf_size data \<le> 28 then do {
             d \<leftarrow> dynamic_keymap_macro_get_buffer C E (ee s) (buf_offset data) (buf_size data) (drop 4 data);
             Some (s, take 4 data @ d, []) }
           else Some (s, data, []))
        else if cmd = id_dynamic_keymap_macro_set_buffer then
          (if \<not> vial_unlocked s then Some (s, data, [])
           else if buf_size data \<le> 28 then do {
             e \<leftarrow> dynamic_keymap_macro_set_buffer C E (ee s) (buf_offset data) (buf_size data) (drop 4 data);
             Some (put_ee e s, data, []) }
           else Some (s, data, []))
        else if cmd = id_dynamic_keymap_macro_reset then do {
          e \<leftarrow> dynamic_keymap_macro_reset C E (ee s); Some (put_ee e s, data, []) }
        else if cmd = id_dynamic_keymap_get_layer_count then
          Some (s, data[1 := dynamic_keymap_get_layer_count C], [])
        else if cmd = id_dynamic_keymap_get_buffer then
          (if buf_size data \<le> 28 then do {
             d \<leftarrow> dynamic_keymap_get_buffer C E (ee s) (buf_offset data) (buf_size data) (drop 4 data);
             Some (s, take 4 data @ d, []) }
           else Some (s, data, []))
        else if cmd = id_dynamic_keymap_set_buffer then
          (if buf_size data \<le> 28 then do {
             (e, d) \<leftarrow> dynamic_keymap_set_buffer C E (vial_unlocked s) (ee s) (buf_offset data)
               (buf_size data) (drop 4 data);
             Some (put_ee e s, take 4 data @ d, []) }
           else Some (s, data, []))
        else if cmd = id_bootloader_jump then
          Some (s, data, if \<not> vial_unlocked s then [] else [Raw_Hid_Send data, Bootloader_Jump])
        else if cmd = id_vial_prefix then do {
          (s1, d) \<leftarrow> vial_handle_cmd (vial_cfg A) E env s data; Some (s1, d, []) }
        else Some (s, raw_hid_receive_kb data, []))"

definition raw_hid_receive ::
    "via_config \<Rightarrow> 'e eeprom_ops \<Rightarrow> vial_env \<Rightarrow> 'e vial \<Rightarrow> u8 list \<Rightarrow> ('e vial \<times> via_out list) option" where
  "raw_hid_receive A E env s data =
    (if vial_blocks s data then Some (s, [Raw_Hid_Send data])
     else do {
       (s1, d, out) \<leftarrow> via_dispatch A E env s data;
       Some (s1, out @ [Raw_Hid_Send d]) })"

end
