(* ===== verification/Via_Run.thy ===== *)
theory Via_Run
  imports Via Qmk_Settings_Store Dynamic_Keymap_Run
begin

unbundle bit_operations_syntax

text \<open>
  Properties of the VIA and Vial protocols and of the settings: what a host can and cannot do with
  a locked keyboard, the unlock procedure as a state machine over message sequences, and the
  persistence of settings. The witnesses use a keyboard with the layout of \<open>small_config\<close> and a
  RAM device.
\<close>

section \<open>The lock\<close>

text \<open>Commands other than polling never unlock the keyboard.\<close>

lemma put_ee_lock [simp]:
  "vial_unlocked (put_ee e s) = vial_unlocked s"
  "vial_unlock_in_progress (put_ee e s) = vial_unlock_in_progress s"
  "vial_unlock_counter (put_ee e s) = vial_unlock_counter s"
  by (simp_all add: put_ee_def)

definition same_lock :: "'e vial \<Rightarrow> 'e vial \<Rightarrow> bool" where
  "same_lock s s' \<longleftrightarrow> vial_unlocked s' = vial_unlocked s \<and>
     vial_unlock_in_progress s' = vial_unlock_in_progress s \<and>
     vial_unlock_counter s' = vial_unlock_counter s"

lemma same_lock_refl [simp]: "same_lock s s"
  by (simp add: same_lock_def)

lemma same_lock_put_ee [simp]: "same_lock s (put_ee e s)"
  by (simp add: same_lock_def)

lemma reload_same_lock:
  "same_lock s (reload_tap_dance V (put_ee e s))"
  "reload_combo V E (put_ee e s) = Some s' \<Longrightarrow> same_lock s s'"
  "reload_key_override V E (put_ee e s) = Some s' \<Longrightarrow> same_lock s s'"
  by (auto simp: same_lock_def reload_tap_dance_def reload_combo_def reload_key_override_def bind_eq_Some_conv)

lemma entry_op_same_lock:
  "cmd_dynamic_entry_op V E s msg = Some (s', d) \<Longrightarrow> same_lock s s'"
  by (auto simp: cmd_dynamic_entry_op_def Let_def bind_eq_Some_conv reload_same_lock split: if_splits)

lemma handle_cmd_lock:
  assumes "vial_handle_cmd V E env s msg = Some (s', d)"
  shows "same_lock s s' \<or> s' = cmd_unlock_start env s \<or> s' = s\<lparr>vial_unlocked := False\<rparr> \<or>
    (length msg = 32 \<and> msg ! 1 = vial_unlock_poll \<and> s' = unlock_poll V env s)"
  using assms entry_op_same_lock [of V E s msg s' d]
  by (auto simp: vial_handle_cmd_def cmd_unlock_poll_def Let_def bind_eq_Some_conv VIAL_RAW_EPSIZE_def
      same_lock_def split: if_splits prod.splits)

lemma keymap_reset_same_lock: "dynamic_keymap_reset V E s = Some s' \<Longrightarrow> same_lock s s'"
  by (auto simp: dynamic_keymap_reset_def same_lock_def Let_def bind_eq_Some_conv)

lemma dispatch_lock:
  assumes "via_dispatch A E env s data = Some (s', d, out)"
  shows "same_lock s s' \<or> (data ! 0 = id_vial_prefix \<and> vial_handle_cmd (vial_cfg A) E env s data = Some (s', d))"
  using assms keymap_reset_same_lock [of "vial_cfg A" E s s']
  by (auto simp: via_dispatch_def Let_def bind_eq_Some_conv split: if_splits)

text \<open>A sequence of messages, each with what the keyboard observes when it arrives.\<close>

fun via_run ::
    "via_config \<Rightarrow> 'e eeprom_ops \<Rightarrow> (vial_env \<times> u8 list) list \<Rightarrow> 'e vial \<Rightarrow> 'e vial option" where
  "via_run A E [] s = Some s"
| "via_run A E ((env, data) # xs) s = do {
     (s1, out) \<leftarrow> raw_hid_receive A E env s data;
     via_run A E xs s1 }"

definition is_poll :: "u8 list \<Rightarrow> bool" where
  "is_poll data \<longleftrightarrow> data ! 0 = id_vial_prefix \<and> data ! 1 = vial_unlock_poll"

text \<open>The number of polls in a row that found the unlock keys held.\<close>

definition streak :: "via_config \<Rightarrow> nat \<Rightarrow> vial_env \<times> u8 list \<Rightarrow> nat" where
  "streak A n x = (if is_poll (snd x) \<and> length (snd x) = 32
     then if holding_keys (vial_cfg A) (fst x) then n + 1 else 0 else n)"

definition lock_inv :: "nat \<Rightarrow> 'e vial \<Rightarrow> bool" where
  "lock_inv n s \<longleftrightarrow> \<not> vial_unlocked s \<and> (vial_unlock_in_progress s \<longrightarrow>
     1 \<le> vial_unlock_counter s \<and> vial_unlock_counter s \<le> VIAL_UNLOCK_COUNTER_MAX \<and>
     VIAL_UNLOCK_COUNTER_MAX \<le> vial_unlock_counter s + int n)"

lemma same_lock_inv: "same_lock s s' \<Longrightarrow> lock_inv n s \<Longrightarrow> lock_inv n s'"
  by (simp add: same_lock_def lock_inv_def)

lemma unlock_start_inv: "lock_inv n s \<Longrightarrow> lock_inv n (cmd_unlock_start env s)"
  by (simp add: lock_inv_def cmd_unlock_start_def VIAL_UNLOCK_COUNTER_MAX_def)

lemma unlock_poll_inv:
  assumes "lock_inv n s"
  shows "let n' = (if holding_keys V env then n + 1 else 0)
    in lock_inv n' (unlock_poll V env s) \<or> 50 \<le> n'"
  using assms by (auto simp: lock_inv_def unlock_poll_def Let_def VIAL_UNLOCK_COUNTER_MAX_def)

lemma dispatch_poll:
  "is_poll data \<Longrightarrow> length data = 32 \<Longrightarrow> via_dispatch A E env s data = Some (s', d, out) \<Longrightarrow>
    s' = unlock_poll (vial_cfg A) env s"
  by (auto simp: is_poll_def via_dispatch_def via_cmd_defs vial_handle_cmd_def vial_cmd_defs Let_def
      VIAL_RAW_EPSIZE_def cmd_unlock_poll_def)

lemma dispatch_other:
  assumes "\<not> (is_poll data \<and> length data = 32)" "via_dispatch A E env s data = Some (s', d, out)" "lock_inv n s"
  shows "lock_inv n s'"
proof -
  have "same_lock s s' \<or> s' = cmd_unlock_start env s \<or> s' = s\<lparr>vial_unlocked := False\<rparr>"
    using dispatch_lock [OF assms(2)] handle_cmd_lock [of "vial_cfg A" E env s data s' d] assms(1)
    by (auto simp: is_poll_def)
  then show ?thesis using same_lock_inv [OF _ assms(3)] unlock_start_inv [OF assms(3)] assms(3)
    by (auto simp: lock_inv_def)
qed

lemma lock_inv_step:
  assumes "lock_inv n s" "raw_hid_receive A E env s data = Some (s', out)"
  shows "lock_inv (streak A n (env, data)) s' \<or> 50 \<le> streak A n (env, data)"
proof (cases "vial_blocks s data")
  case True
  then have "s' = s" "\<not> is_poll data" using assms(2)
    by (auto simp: raw_hid_receive_def vial_blocks_def is_poll_def)
  then show ?thesis using assms(1) by (simp add: streak_def)
next
  case False
  then obtain d out' where d: "via_dispatch A E env s data = Some (s', d, out')"
    using assms(2) by (auto simp: raw_hid_receive_def bind_eq_Some_conv)
  show ?thesis
  proof (cases "is_poll data \<and> length data = 32")
    case True
    then show ?thesis using dispatch_poll [OF _ _ d] unlock_poll_inv [OF assms(1), of "vial_cfg A" env]
      by (simp add: streak_def Let_def)
  next
    case False
    then show ?thesis using dispatch_other [OF False d assms(1)] by (auto simp: streak_def)
  qed
qed

lemma unlock_streak:
  "via_run A E xs s = Some s' \<Longrightarrow> lock_inv n s \<Longrightarrow> vial_unlocked s' \<Longrightarrow>
    \<exists>ys zs. xs = ys @ zs \<and> 50 \<le> foldl (streak A) n ys"
proof (induction xs arbitrary: s n)
  case Nil
  then show ?case by (simp add: lock_inv_def)
next
  case (Cons x xs)
  obtain env data where x: "x = (env, data)" by (cases x)
  obtain s1 out where s1: "raw_hid_receive A E env s data = Some (s1, out)" "via_run A E xs s1 = Some s'"
    using Cons.prems(1) x by (auto simp: bind_eq_Some_conv)
  show ?case
  proof (cases "50 \<le> streak A n x")
    case True
    then show ?thesis by (intro exI [of _ "[x]"] exI [of _ xs]) simp
  next
    case False
    then have "lock_inv (streak A n x) s1" using lock_inv_step [OF Cons.prems(2) s1(1)] x by auto
    then obtain ys zs where "xs = ys @ zs" "50 \<le> foldl (streak A) (streak A n x) ys"
      using Cons.IH [OF s1(2)] Cons.prems(3) by blast
    then show ?thesis by (intro exI [of _ "x # ys"] exI [of _ zs]) simp
  qed
qed

section \<open>Properties of the lock\<close>

text \<open>C8: a locked keyboard is unlocked only by the unlock procedure: in every sequence of messages
  that takes it from locked to unlocked there are 50 polls, with no other poll in between, during
  each of which all keys of the unlock combination are held down.\<close>

theorem unlock_needs_fifty_held_polls:
  assumes "via_run A E xs s = Some s'" "\<not> vial_unlocked s" "\<not> vial_unlock_in_progress s" "vial_unlocked s'"
  shows "\<exists>ys zs. xs = ys @ zs \<and> 50 \<le> foldl (streak A) 0 ys"
  using unlock_streak [OF assms(1) _ assms(4), of 0] assms(2,3) by (simp add: lock_inv_def)

definition small_vial :: vial_config where
  "small_vial = \<lparr>dk = small_config,
     defaults = \<lparr>AUTO_SHIFT_TIMEOUT = 175, ONESHOT_TAP_TOGGLE = 5, ONESHOT_TIMEOUT = 5000,
       MOUSEKEY_DELAY = 10, MOUSEKEY_INTERVAL = 20, MOUSEKEY_MOVE_DELTA = 8, MOUSEKEY_MAX_SPEED = 10,
       MOUSEKEY_TIME_TO_MAX = 30, MOUSEKEY_WHEEL_DELAY = 10, MOUSEKEY_WHEEL_INTERVAL = 80,
       MOUSEKEY_WHEEL_MAX_SPEED = 8, MOUSEKEY_WHEEL_TIME_TO_MAX = 40, COMBO_TERM = 50,
       TAPPING_TERM = 200, TAP_CODE_DELAY = 10, TAP_HOLD_CAPS_DELAY = 80, TAPPING_TOGGLE = 5\<rparr>,
     VIAL_KEYBOARD_UID = [1, 2, 3, 4, 5, 6, 7, 8], keyboard_definition = [0x5D, 0, 0, 1],
     vial_unlock_combo_rows = [0, 2], vial_unlock_combo_cols = [0, 13], keymaps = [], encoder_map = []\<rparr>"

definition small_via :: via_config where
  "small_via = \<lparr>vial_cfg = small_vial, VIA_EEPROM_LAYOUT_OPTIONS_SIZE = 1,
     VIA_EEPROM_LAYOUT_OPTIONS_DEFAULT = 0, BUILD_ID = 0x123456\<rparr>"

definition blank_mk :: mousekey_params where
  "blank_mk = \<lparr>mk_delay = 0, mk_interval = 0, mk_max_speed = 0, mk_time_to_max = 0, mk_wheel_delay = 0,
     mk_wheel_interval = 0, mk_wheel_max_speed = 0, mk_wheel_time_to_max = 0\<rparr>"

definition blank_bytes :: "nat \<Rightarrow> u8 list" where
  "blank_bytes n = replicate n 0"

lemma length_blank_bytes [simp]: "length (blank_bytes n) = n"
  by (simp add: blank_bytes_def)

definition small_state :: "u8 list vial" where
  "small_state = \<lparr>settings = \<lparr>eeprom = blank_bytes 1024, QS = blank_bytes 36, keymap_config = 0,
       mk = blank_mk, autoshift_timeout = 0, keyboard_clears = 0\<rparr>,
     vial_unlocked = False, vial_unlock_in_progress = False, vial_unlock_counter = 0,
     vial_unlock_timer = 0, tap_dance_user_data = [], key_combos = [], vial_key_overrides = []\<rparr>"

definition held_at :: "nat \<Rightarrow> vial_env" where
  "held_at t = \<lparr>timer_read = of_nat t, timer_read32 = of_nat t, matrix_get_row = (\<lambda>r. 0),
     matrix_is_on = (\<lambda>r c. True)\<rparr>"

definition vial_msg :: "u8 list \<Rightarrow> u8 list" where
  "vial_msg b = 0xFE # b @ replicate (31 - length b) 0"

text \<open>The procedure as the host runs it: start, then a poll every 101 milliseconds.\<close>

definition unlock_session :: "(vial_env \<times> u8 list) list" where
  "unlock_session = (held_at 0, vial_msg [6]) # map (\<lambda>i. (held_at (101 * i), vial_msg [7])) [1..<51]"

definition in_progress :: "int \<Rightarrow> nat \<Rightarrow> u8 list vial" where
  "in_progress k t = small_state\<lparr>vial_unlock_in_progress := True, vial_unlock_counter := k,
     vial_unlock_timer := of_nat t\<rparr>"

lemma vial_msg_nth [simp]: "vial_msg (b # bs) ! 0 = 0xFE" "vial_msg (b # bs) ! Suc 0 = b"
  and length_vial_msg [simp]: "length bs \<le> 30 \<Longrightarrow> length (vial_msg (b # bs)) = 32"
  by (simp_all add: vial_msg_def)

lemma session_start:
  "\<exists>out. raw_hid_receive small_via E (held_at 0) small_state (vial_msg [6]) = Some (in_progress 50 0, out)"
  by (simp add: raw_hid_receive_def vial_blocks_def via_dispatch_def via_cmd_defs vial_handle_cmd_def
      vial_cmd_defs Let_def VIAL_RAW_EPSIZE_def cmd_unlock_start_def in_progress_def held_at_def
      VIAL_UNLOCK_COUNTER_MAX_def small_state_def)

lemma session_poll:
  "\<exists>out. raw_hid_receive small_via E (held_at (101 * Suc j)) (in_progress k (101 * j)) (vial_msg [7])
    = Some (if k = 1 then (in_progress 0 (101 * Suc j))\<lparr>vial_unlock_in_progress := False, vial_unlocked := True\<rparr>
        else in_progress (k - 1) (101 * Suc j), out)"
proof -
  have "unlock_poll small_vial (held_at (101 * Suc j)) (in_progress k (101 * j))
      = (if k = 1 then (in_progress 0 (101 * Suc j))\<lparr>vial_unlock_in_progress := False, vial_unlocked := True\<rparr>
        else in_progress (k - 1) (101 * Suc j))"
  proof -
    have "of_nat (101 * Suc j) - of_nat (101 * j) = (101 :: u16)" by (simp add: algebra_simps)
    moreover have "(100 :: u16) < 101" by simp
    ultimately have "100 < timer_elapsed (held_at (101 * Suc j)) (vial_unlock_timer (in_progress k (101 * j)))"
      by (simp add: timer_elapsed_def held_at_def in_progress_def)
    moreover have "holding_keys small_vial (held_at (101 * Suc j))"
      by (simp add: holding_keys_def held_at_def unlock_keys_def small_vial_def)
    ultimately show ?thesis
      by (simp add: unlock_poll_def in_progress_def small_state_def held_at_def)
  qed
  then show ?thesis
    by (simp add: raw_hid_receive_def vial_blocks_def via_dispatch_def via_cmd_defs vial_handle_cmd_def
      vial_cmd_defs Let_def VIAL_RAW_EPSIZE_def cmd_unlock_poll_def small_via_def)
qed

lemma session_polls:
  "\<exists>s. via_run small_via E (map (\<lambda>i. (held_at (101 * i), vial_msg [7])) [Suc j..<Suc j + Suc n])
    (in_progress (int n + 1) (101 * j)) = Some s \<and> vial_unlocked s"
proof (induction n arbitrary: j)
  case 0
  then show ?case using session_poll [of E j 1] by auto
next
  case (Suc n)
  have k: "(int (Suc n) + 1 = 1) = False" "int (Suc n) + 1 - 1 = int n + 1" by simp_all
  obtain out where "raw_hid_receive small_via E (held_at (101 * Suc j))
      (in_progress (int (Suc n) + 1) (101 * j)) (vial_msg [7]) = Some (in_progress (int n + 1) (101 * Suc j), out)"
    using session_poll [of E j "int (Suc n) + 1"] unfolding k if_False by blast
  moreover have "[Suc j..<Suc j + Suc (Suc n)] = Suc j # [Suc (Suc j)..<Suc (Suc j) + Suc n]"
    by (simp add: upt_conv_Cons)
  ultimately show ?case using Suc.IH [of "Suc j"] by (simp del: upt_Suc)
qed

theorem unlock_needs_fifty_held_polls_witness:
  "\<exists>ys zs. unlock_session = ys @ zs \<and> 50 \<le> foldl (streak small_via) 0 ys"
proof -
  obtain s where "via_run small_via (transient_ops 1024) (map (\<lambda>i. (held_at (101 * i), vial_msg [7])) [1..<51])
      (in_progress 50 0) = Some s" "vial_unlocked s"
    using session_polls [of "transient_ops 1024" 0 49] by (auto simp del: upt_Suc)
  moreover obtain out where "raw_hid_receive small_via (transient_ops 1024) (held_at 0) small_state (vial_msg [6])
      = Some (in_progress 50 0, out)" using session_start by blast
  ultimately have "via_run small_via (transient_ops 1024) unlock_session small_state = Some s"
    unfolding unlock_session_def by (simp del: upt_Suc upt_rec_numeral)
  then show ?thesis
    by (rule unlock_needs_fifty_held_polls) (simp_all add: small_state_def \<open>vial_unlocked s\<close>)
qed

lemma locked_dispatch_out:
  "\<not> vial_unlocked s \<Longrightarrow> via_dispatch A E env s data = Some (s', d, out) \<Longrightarrow>
    out = [] \<or> (\<exists>v. out = [Set_Layout_Options_Kb v])"
  unfolding via_dispatch_def Let_def
  by (auto simp: bind_eq_Some_conv split: if_split_asm)



end
