(* ===== verification/Debounce.thy ===== *)
theory Debounce
  imports Qmk_Prelude
begin

unbundle bit_operations_syntax

text \<open>
  The debounce algorithms (\<open>quantum/debounce/\<close>): each takes the raw matrix of a scan and updates the
  cooked matrix the rest of the firmware uses. A matrix is a list of rows of type \<open>matrix_row_t\<close>
  (here its widest variant); the static variables of an algorithm are a record that also holds the
  cooked matrix the algorithm writes to. \<open>D\<close> is \<open>DEBOUNCE\<close>, \<open>C\<close> is \<open>MATRIX_COLS\<close>, \<open>now\<close> the value of
  \<open>timer_read_fast\<close>, \<open>n\<close> is \<open>num_rows\<close>.
\<close>

type_synonym matrix = "u32 list"

definition col_mask :: "nat \<Rightarrow> u32" where
  "col_mask col = push_bit col 1"

section \<open>The static variables and the loops over the keys\<close>

record 'c debounce_vars =
  debounce_counters :: "'c list"
  last_time :: u32
  counters_need_update :: bool
  matrix_need_update :: bool
  cooked_changed :: bool
  cooked :: matrix

text \<open>The nested loop over rows and columns with the pointer that is incremented with each key.\<close>

definition for_keys :: "nat \<Rightarrow> nat \<Rightarrow> (nat \<Rightarrow> nat \<Rightarrow> nat \<Rightarrow> 's \<Rightarrow> 's) \<Rightarrow> 's \<Rightarrow> 's" where
  "for_keys n C body s = fold (\<lambda>row. fold (\<lambda>col. body row col (row * C + col)) [0..<C]) [0..<n] s"

definition clamp_elapsed :: "u32 \<Rightarrow> u8" where
  "clamp_elapsed elapsed_time = (if elapsed_time > 255 then 255 else ucast elapsed_time)"

text \<open>The beginning of \<open>debounce\<close>: the state and \<open>updated_last\<close>.\<close>

definition update_phase ::
    "u32 \<Rightarrow> (u8 \<Rightarrow> 'c debounce_vars \<Rightarrow> 'c debounce_vars) \<Rightarrow> 'c debounce_vars \<Rightarrow> 'c debounce_vars \<times> bool" where
  "update_phase now update s =
    (let s1 = s\<lparr>cooked_changed := False\<rparr>
     in if counters_need_update s1
        then (let elapsed = clamp_elapsed (now - last_time s1);
                  s2 = s1\<lparr>last_time := now\<rparr>
              in (if elapsed > 0 then update elapsed s2 else s2, True))
        else (s1, False))"

definition set_last :: "u32 \<Rightarrow> bool \<Rightarrow> 'c debounce_vars \<Rightarrow> 'c debounce_vars" where
  "set_last now updated_last s = (if \<not> updated_last then s\<lparr>last_time := now\<rparr> else s)"

section \<open>Symmetric deferred, per key\<close>

definition defer_pk_init :: "nat \<Rightarrow> nat \<Rightarrow> u8 debounce_vars \<Rightarrow> u8 debounce_vars" where
  "defer_pk_init n C s = s\<lparr>debounce_counters := replicate (n * C) 0\<rparr>"

definition defer_pk_expire_key ::
    "matrix \<Rightarrow> u8 \<Rightarrow> nat \<Rightarrow> nat \<Rightarrow> nat \<Rightarrow> u8 debounce_vars \<Rightarrow> u8 debounce_vars" where
  "defer_pk_expire_key raw elapsed row col p s =
    (let t = debounce_counters s ! p
     in if t \<noteq> 0
        then if t \<le> elapsed
          then (let cooked_next = (cooked s ! row AND NOT (col_mask col)) OR (raw ! row AND col_mask col)
                in s\<lparr>debounce_counters := (debounce_counters s)[p := 0],
                     cooked_changed := (cooked_changed s \<or> cooked s ! row XOR cooked_next \<noteq> 0),
                     cooked := (cooked s)[row := cooked_next]\<rparr>)
          else s\<lparr>debounce_counters := (debounce_counters s)[p := t - elapsed], counters_need_update := True\<rparr>
        else s)"

definition defer_pk_update ::
    "matrix \<Rightarrow> nat \<Rightarrow> nat \<Rightarrow> u8 \<Rightarrow> u8 debounce_vars \<Rightarrow> u8 debounce_vars" where
  "defer_pk_update raw n C elapsed s =
    for_keys n C (defer_pk_expire_key raw elapsed) (s\<lparr>counters_need_update := False\<rparr>)"

definition defer_pk_start_key ::
    "u8 \<Rightarrow> u32 \<Rightarrow> nat \<Rightarrow> nat \<Rightarrow> u8 debounce_vars \<Rightarrow> u8 debounce_vars" where
  "defer_pk_start_key D delta col p s =
    (if delta AND col_mask col \<noteq> 0
     then if debounce_counters s ! p = 0
       then s\<lparr>debounce_counters := (debounce_counters s)[p := D], counters_need_update := True\<rparr> else s
     else s\<lparr>debounce_counters := (debounce_counters s)[p := 0]\<rparr>)"

definition defer_pk_start ::
    "u8 \<Rightarrow> matrix \<Rightarrow> nat \<Rightarrow> nat \<Rightarrow> u8 debounce_vars \<Rightarrow> u8 debounce_vars" where
  "defer_pk_start D raw n C s =
    fold (\<lambda>row s. let delta = raw ! row XOR cooked s ! row
                  in fold (\<lambda>col. defer_pk_start_key D delta col (row * C + col)) [0..<C] s) [0..<n] s"

definition debounce_sym_defer_pk ::
    "u8 \<Rightarrow> nat \<Rightarrow> nat \<Rightarrow> u32 \<Rightarrow> matrix \<Rightarrow> bool \<Rightarrow> u8 debounce_vars \<Rightarrow> u8 debounce_vars" where
  "debounce_sym_defer_pk D n C now raw changed s =
    (let (s1, updated_last) = update_phase now (defer_pk_update raw n C) s
     in if changed then defer_pk_start D raw n C (set_last now updated_last s1) else s1)"

section \<open>Symmetric eager, per key\<close>

definition eager_pk_init :: "nat \<Rightarrow> nat \<Rightarrow> u8 debounce_vars \<Rightarrow> u8 debounce_vars" where
  "eager_pk_init n C s = s\<lparr>debounce_counters := replicate (n * C) 0\<rparr>"

definition eager_pk_expire_key ::
    "u8 \<Rightarrow> nat \<Rightarrow> nat \<Rightarrow> nat \<Rightarrow> u8 debounce_vars \<Rightarrow> u8 debounce_vars" where
  "eager_pk_expire_key elapsed row col p s =
    (let t = debounce_counters s ! p
     in if t \<noteq> 0
        then if t \<le> elapsed
          then s\<lparr>debounce_counters := (debounce_counters s)[p := 0], matrix_need_update := True\<rparr>
          else s\<lparr>debounce_counters := (debounce_counters s)[p := t - elapsed], counters_need_update := True\<rparr>
        else s)"

definition eager_pk_update :: "nat \<Rightarrow> nat \<Rightarrow> u8 \<Rightarrow> u8 debounce_vars \<Rightarrow> u8 debounce_vars" where
  "eager_pk_update n C elapsed s = for_keys n C (eager_pk_expire_key elapsed)
    (s\<lparr>counters_need_update := False, matrix_need_update := False\<rparr>)"

text \<open>The body of the inner loop works on the state and the local \<open>existing_row\<close>.\<close>

definition eager_pk_transfer_key ::
    "u8 \<Rightarrow> u32 \<Rightarrow> nat \<Rightarrow> nat \<Rightarrow> u8 debounce_vars \<times> u32 \<Rightarrow> u8 debounce_vars \<times> u32" where
  "eager_pk_transfer_key D delta col p = (\<lambda>(s, existing_row).
    if delta AND col_mask col \<noteq> 0 \<and> debounce_counters s ! p = 0
    then (s\<lparr>debounce_counters := (debounce_counters s)[p := D], counters_need_update := True,
            cooked_changed := True\<rparr>, existing_row XOR col_mask col)
    else (s, existing_row))"

definition eager_pk_transfer_row ::
    "u8 \<Rightarrow> matrix \<Rightarrow> nat \<Rightarrow> nat \<Rightarrow> u8 debounce_vars \<Rightarrow> u8 debounce_vars" where
  "eager_pk_transfer_row D raw C row s =
    (let delta = raw ! row XOR cooked s ! row;
         (s1, existing_row) = fold (\<lambda>col. eager_pk_transfer_key D delta col (row * C + col)) [0..<C]
           (s, cooked s ! row)
     in s1\<lparr>cooked := (cooked s1)[row := existing_row]\<rparr>)"

definition eager_pk_transfer ::
    "u8 \<Rightarrow> matrix \<Rightarrow> nat \<Rightarrow> nat \<Rightarrow> u8 debounce_vars \<Rightarrow> u8 debounce_vars" where
  "eager_pk_transfer D raw n C s =
    fold (eager_pk_transfer_row D raw C) [0..<n] (s\<lparr>matrix_need_update := False\<rparr>)"

definition debounce_sym_eager_pk ::
    "u8 \<Rightarrow> nat \<Rightarrow> nat \<Rightarrow> u32 \<Rightarrow> matrix \<Rightarrow> bool \<Rightarrow> u8 debounce_vars \<Rightarrow> u8 debounce_vars" where
  "debounce_sym_eager_pk D n C now raw changed s =
    (let (s1, updated_last) = update_phase now (eager_pk_update n C) s
     in if changed \<or> matrix_need_update s1
        then eager_pk_transfer D raw n C (set_last now updated_last s1) else s1)"

section \<open>Symmetric eager, per row\<close>

definition eager_pr_init :: "nat \<Rightarrow> u8 debounce_vars \<Rightarrow> u8 debounce_vars" where
  "eager_pr_init n s = s\<lparr>debounce_counters := replicate n 0\<rparr>"

definition eager_pr_expire_row :: "u8 \<Rightarrow> nat \<Rightarrow> u8 debounce_vars \<Rightarrow> u8 debounce_vars" where
  "eager_pr_expire_row elapsed row s =
    (let t = debounce_counters s ! row
     in if t \<noteq> 0
        then if t \<le> elapsed
          then s\<lparr>debounce_counters := (debounce_counters s)[row := 0], matrix_need_update := True\<rparr>
          else s\<lparr>debounce_counters := (debounce_counters s)[row := t - elapsed], counters_need_update := True\<rparr>
        else s)"

definition eager_pr_update :: "nat \<Rightarrow> u8 \<Rightarrow> u8 debounce_vars \<Rightarrow> u8 debounce_vars" where
  "eager_pr_update n elapsed s = fold (eager_pr_expire_row elapsed) [0..<n]
    (s\<lparr>counters_need_update := False, matrix_need_update := False\<rparr>)"

definition eager_pr_transfer_row :: "u8 \<Rightarrow> matrix \<Rightarrow> nat \<Rightarrow> u8 debounce_vars \<Rightarrow> u8 debounce_vars" where
  "eager_pr_transfer_row D raw row s =
    (let existing_row = cooked s ! row; raw_row = raw ! row
     in if existing_row \<noteq> raw_row \<and> debounce_counters s ! row = 0
        then s\<lparr>debounce_counters := (debounce_counters s)[row := D],
               cooked_changed := (cooked_changed s \<or> cooked s ! row XOR raw_row \<noteq> 0),
               cooked := (cooked s)[row := raw_row], counters_need_update := True\<rparr>
        else s)"

definition eager_pr_transfer :: "u8 \<Rightarrow> matrix \<Rightarrow> nat \<Rightarrow> u8 debounce_vars \<Rightarrow> u8 debounce_vars" where
  "eager_pr_transfer D raw n s =
    fold (eager_pr_transfer_row D raw) [0..<n] (s\<lparr>matrix_need_update := False\<rparr>)"

definition debounce_sym_eager_pr ::
    "u8 \<Rightarrow> nat \<Rightarrow> u32 \<Rightarrow> matrix \<Rightarrow> bool \<Rightarrow> u8 debounce_vars \<Rightarrow> u8 debounce_vars" where
  "debounce_sym_eager_pr D n now raw changed s =
    (let (s1, updated_last) = update_phase now (eager_pr_update n) s
     in if changed \<or> matrix_need_update s1
        then eager_pr_transfer D raw n (set_last now updated_last s1) else s1)"

section \<open>Asymmetric, per key: eager on press, deferred on release\<close>

text \<open>The counter of a key; \<open>dtime\<close> is the seven-bit field \<open>time\<close>.\<close>

record asym_counter =
  pressed :: bool
  dtime :: u8

text \<open>\<open>junk\<close> is what \<open>malloc\<close> returned in the fields \<open>pressed\<close>, which are not initialised.\<close>

definition asym_init :: "bool list \<Rightarrow> asym_counter debounce_vars \<Rightarrow> asym_counter debounce_vars" where
  "asym_init junk s = s\<lparr>debounce_counters := map (\<lambda>p. \<lparr>pressed = p, dtime = 0\<rparr>) junk\<rparr>"

definition asym_expire_key ::
    "matrix \<Rightarrow> u8 \<Rightarrow> nat \<Rightarrow> nat \<Rightarrow> nat \<Rightarrow> asym_counter debounce_vars \<Rightarrow> asym_counter debounce_vars" where
  "asym_expire_key raw elapsed row col p s =
    (let k = debounce_counters s ! p
     in if dtime k \<noteq> 0
        then if dtime k \<le> elapsed
          then (let s1 = s\<lparr>debounce_counters := (debounce_counters s)[p := k\<lparr>dtime := 0\<rparr>]\<rparr>
                in if pressed k then s1\<lparr>matrix_need_update := True\<rparr>
                   else (let cooked_next = (cooked s ! row AND NOT (col_mask col)) OR (raw ! row AND col_mask col)
                         in s1\<lparr>cooked_changed := (cooked_changed s \<or> cooked_next XOR cooked s ! row \<noteq> 0),
                               cooked := (cooked s)[row := cooked_next]\<rparr>))
          else s\<lparr>debounce_counters := (debounce_counters s)[p := k\<lparr>dtime := dtime k - elapsed\<rparr>],
                 counters_need_update := True\<rparr>
        else s)"

definition asym_update ::
    "matrix \<Rightarrow> nat \<Rightarrow> nat \<Rightarrow> u8 \<Rightarrow> asym_counter debounce_vars \<Rightarrow> asym_counter debounce_vars" where
  "asym_update raw n C elapsed s = for_keys n C (asym_expire_key raw elapsed)
    (s\<lparr>counters_need_update := False, matrix_need_update := False\<rparr>)"

definition asym_transfer_key ::
    "u8 \<Rightarrow> matrix \<Rightarrow> u32 \<Rightarrow> nat \<Rightarrow> nat \<Rightarrow> nat \<Rightarrow> asym_counter debounce_vars \<Rightarrow> asym_counter debounce_vars" where
  "asym_transfer_key D raw delta row col p s =
    (let k = debounce_counters s ! p
     in if delta AND col_mask col \<noteq> 0
        then if dtime k = 0
          then (let down = (raw ! row AND col_mask col \<noteq> 0);
                    s1 = s\<lparr>debounce_counters := (debounce_counters s)[p := \<lparr>pressed = down, dtime = D\<rparr>],
                           counters_need_update := True\<rparr>
                in if down then s1\<lparr>cooked := (cooked s)[row := cooked s ! row XOR col_mask col],
                                   cooked_changed := True\<rparr>
                   else s1)
          else s
        else if dtime k \<noteq> 0 \<and> \<not> pressed k
          then s\<lparr>debounce_counters := (debounce_counters s)[p := k\<lparr>dtime := 0\<rparr>]\<rparr>
          else s)"

definition asym_transfer ::
    "u8 \<Rightarrow> matrix \<Rightarrow> nat \<Rightarrow> nat \<Rightarrow> asym_counter debounce_vars \<Rightarrow> asym_counter debounce_vars" where
  "asym_transfer D raw n C s =
    fold (\<lambda>row s. let delta = raw ! row XOR cooked s ! row
                  in fold (\<lambda>col. asym_transfer_key D raw delta row col (row * C + col)) [0..<C] s)
      [0..<n] (s\<lparr>matrix_need_update := False\<rparr>)"

definition debounce_asym_eager_defer_pk ::
    "u8 \<Rightarrow> nat \<Rightarrow> nat \<Rightarrow> u32 \<Rightarrow> matrix \<Rightarrow> bool \<Rightarrow> asym_counter debounce_vars \<Rightarrow> asym_counter debounce_vars" where
  "debounce_asym_eager_defer_pk D n C now raw changed s =
    (let (s1, updated_last) = update_phase now (asym_update raw n C) s
     in if changed \<or> matrix_need_update s1
        then asym_transfer D raw n C (set_last now updated_last s1) else s1)"

section \<open>Symmetric deferred, per row\<close>

record defer_pr_vars =
  pr_last_time :: u16
  countdowns :: "u8 list"
  last_raw :: matrix
  pr_cooked :: matrix
  pr_cooked_changed :: bool

definition defer_pr_init :: "nat \<Rightarrow> u16 \<Rightarrow> matrix \<Rightarrow> defer_pr_vars" where
  "defer_pr_init n now cooked0 = \<lparr>pr_last_time = now, countdowns = replicate n 0,
     last_raw = replicate n 0, pr_cooked = cooked0, pr_cooked_changed = False\<rparr>"

definition defer_pr_row :: "u8 \<Rightarrow> u8 \<Rightarrow> matrix \<Rightarrow> nat \<Rightarrow> defer_pr_vars \<Rightarrow> defer_pr_vars" where
  "defer_pr_row D elapsed raw row s =
    (let raw_row = raw ! row; countdown = countdowns s ! row
     in if raw_row \<noteq> last_raw s ! row
        then s\<lparr>countdowns := (countdowns s)[row := D], last_raw := (last_raw s)[row := raw_row]\<rparr>
        else if countdown > elapsed
        then s\<lparr>countdowns := (countdowns s)[row := countdown - elapsed]\<rparr>
        else if countdown \<noteq> 0
        then s\<lparr>pr_cooked_changed := (pr_cooked_changed s \<or> pr_cooked s ! row XOR raw_row \<noteq> 0),
               pr_cooked := (pr_cooked s)[row := raw_row], countdowns := (countdowns s)[row := 0]\<rparr>
        else s)"

definition debounce_sym_defer_pr ::
    "u8 \<Rightarrow> nat \<Rightarrow> u16 \<Rightarrow> matrix \<Rightarrow> bool \<Rightarrow> defer_pr_vars \<Rightarrow> defer_pr_vars" where
  "debounce_sym_defer_pr D n now raw changed s =
    (let elapsed16 = now - pr_last_time s;
         elapsed = (if elapsed16 > 255 then 255 else ucast elapsed16)
     in fold (defer_pr_row D elapsed raw) [0..<n] (s\<lparr>pr_last_time := now, pr_cooked_changed := False\<rparr>))"

section \<open>Symmetric deferred, global, and no debouncing\<close>

record defer_g_vars =
  debouncing :: bool
  debouncing_time :: u32

text \<open>The variables, the cooked rows and \<open>cooked_changed\<close>; both matrices have \<open>num_rows\<close> rows.\<close>

definition debounce_sym_defer_g ::
    "u8 \<Rightarrow> u32 \<Rightarrow> matrix \<Rightarrow> bool \<Rightarrow> defer_g_vars \<times> matrix \<Rightarrow> defer_g_vars \<times> matrix \<times> bool" where
  "debounce_sym_defer_g D now raw changed = (\<lambda>(s, cooked0).
    if changed then (s\<lparr>debouncing := True, debouncing_time := now\<rparr>, cooked0, False)
    else if debouncing s \<and> now - debouncing_time s \<ge> ucast D
    then (let s1 = s\<lparr>debouncing := False\<rparr>
          in if cooked0 \<noteq> raw then (s1, raw, True) else (s1, cooked0, False))
    else (s, cooked0, False))"

definition debounce_none :: "matrix \<Rightarrow> bool \<Rightarrow> matrix \<Rightarrow> matrix \<times> bool" where
  "debounce_none raw changed cooked0 =
    (if changed \<and> cooked0 \<noteq> raw then (raw, True) else (cooked0, False))"

end
