(* ===== verification/Debounce_Loops.thy ===== *)
theory Debounce_Loops
  imports Debounce
begin

unbundle bit_operations_syntax

text \<open>
  The loops of the debounce algorithms act on every key by itself. The locale \<open>key_loop\<close> states what
  makes a loop body local to a key; its result is that the whole loop applies the one-key step to
  every key that it visits. It is interpreted on the loop bodies of the per-key and per-row
  algorithms.
\<close>

locale key_loop =
  fixes body :: "'k \<Rightarrow> 's \<Rightarrow> 's"
    and cell :: "'s \<Rightarrow> 'k \<Rightarrow> 'c"
    and step :: "'k \<Rightarrow> 'c \<Rightarrow> 'c"
    and shape :: "'s \<Rightarrow> bool"
    and keys :: "'k set"
    and raised :: "'s \<Rightarrow> bool"
    and raise :: "'k \<Rightarrow> 'c \<Rightarrow> bool"
  assumes shape_body: "shape s \<Longrightarrow> k \<in> keys \<Longrightarrow> shape (body k s)"
    and cell_body: "shape s \<Longrightarrow> k \<in> keys \<Longrightarrow> cell (body k s) k = step k (cell s k)"
    and cell_other: "shape s \<Longrightarrow> k \<in> keys \<Longrightarrow> j \<in> keys \<Longrightarrow> j \<noteq> k \<Longrightarrow> cell (body k s) j = cell s j"
    and raised_body: "shape s \<Longrightarrow> k \<in> keys \<Longrightarrow> raised (body k s) \<longleftrightarrow> raised s \<or> raise k (cell s k)"
begin

lemma shape_loop: "shape s \<Longrightarrow> set ks \<subseteq> keys \<Longrightarrow> shape (fold body ks s)"
  by (induction ks arbitrary: s) (auto simp: shape_body)

lemma cell_kept:
  "shape s \<Longrightarrow> k \<in> keys \<Longrightarrow> set ks \<subseteq> keys \<Longrightarrow> k \<notin> set ks \<Longrightarrow> j \<in> set ks \<Longrightarrow>
    cell (body k s) j = cell s j"
  using cell_other by blast

lemma cell_loop:
  "shape s \<Longrightarrow> set ks \<subseteq> keys \<Longrightarrow> distinct ks \<Longrightarrow> j \<in> keys \<Longrightarrow>
    cell (fold body ks s) j = (if j \<in> set ks then step j (cell s j) else cell s j)"
  by (induction ks arbitrary: s) (auto simp: shape_body cell_body cell_other cell_kept)

lemma raised_loop:
  "shape s \<Longrightarrow> set ks \<subseteq> keys \<Longrightarrow> distinct ks \<Longrightarrow>
    raised (fold body ks s) \<longleftrightarrow> raised s \<or> (\<exists>k\<in>set ks. raise k (cell s k))"
  by (induction ks arbitrary: s) (auto simp: shape_body raised_body cell_kept)

lemma raised_by:
  "shape s \<Longrightarrow> set ks \<subseteq> keys \<Longrightarrow> distinct ks \<Longrightarrow> k \<in> set ks \<Longrightarrow>
    raised s \<or> raise k (cell s k) \<Longrightarrow> raised (fold body ks s)"
  by (auto simp: raised_loop)

end

section \<open>Nested loops as loops over keys\<close>

definition key_list :: "nat \<Rightarrow> nat \<Rightarrow> (nat \<times> nat) list" where
  "key_list n C = List.product [0..<n] [0..<C]"

lemma set_key_list [simp]: "set (key_list n C) = {0..<n} \<times> {0..<C}"
  and distinct_key_list [simp]: "distinct (key_list n C)"
  by (simp_all add: key_list_def distinct_product)

lemma fold_product:
  "fold (\<lambda>r. fold (\<lambda>c. f (r, c)) cs) rs s = fold f (List.product rs cs) s"
  by (induction rs arbitrary: s) (simp_all add: fold_map comp_def)

lemma for_keys_product:
  "for_keys n C body s = fold (\<lambda>(r, c). body r c (r * C + c)) (key_list n C) s"
  using fold_product [of "\<lambda>(r, c). body r c (r * C + c)" "[0..<C]" "[0..<n]" s]
  by (simp add: for_keys_def key_list_def)

lemma key_index_less: "r < n \<Longrightarrow> c < C \<Longrightarrow> r * C + c < n * (C :: nat)"
  by (metis add.commute add_le_cancel_left less_le_trans mult.commute mult_Suc_right Suc_leI
      mult_le_mono1 nat_add_left_cancel_less)

lemma key_index_eq:
  "c < C \<Longrightarrow> c' < C \<Longrightarrow> (r * C + c = r' * C + (c' :: nat)) = (r = r' \<and> c = c')"
  by (metis div_mult_self3 mod_mult_self3 mod_less div_less add_0 add.right_neutral
      gr_implies_not0 mult.commute add.commute)

lemma bit_col_mask: "bit (col_mask c) k \<longleftrightarrow> k = c \<and> c < 32"
  by (auto simp: col_mask_def bit_simps)

lemma bit_u32: "bit (x :: u32) k \<Longrightarrow> k < 32"
  using bit_imp_le_length [of x k] by simp

lemma col_mask_0: "c < 32 \<Longrightarrow> col_mask c \<noteq> 0"
  using bit_col_mask [of c c] by auto

lemma and_col_mask: "x AND col_mask c \<noteq> 0 \<longleftrightarrow> bit x c"
proof -
  have "x AND col_mask c = (if bit x c then col_mask c else 0)"
    by (intro bit_word_eqI) (auto simp: bit_simps bit_col_mask)
  then show ?thesis using col_mask_0 [of c] bit_imp_le_length [of x c] by auto
qed

lemma bit_set_col:
  "bit ((x AND NOT (col_mask c)) OR (y AND col_mask c)) k \<longleftrightarrow> (if k = c then bit y c else bit x k)"
  by (auto simp: bit_simps bit_col_mask dest: bit_imp_le_length)

lemma bit_flip_col:
  "bit x c \<noteq> bit (y :: u32) c \<Longrightarrow> bit (x XOR col_mask c) k \<longleftrightarrow> (if k = c then bit y c else bit x k)"
  using bit_imp_le_length [of x c] bit_imp_le_length [of y c] by (auto simp: bit_simps bit_col_mask)

section \<open>The state of one key\<close>

definition vars_shape :: "nat \<Rightarrow> nat \<Rightarrow> 'c debounce_vars \<Rightarrow> bool" where
  "vars_shape n C s \<longleftrightarrow> length (debounce_counters s) = n * C \<and> length (cooked s) = n"

definition key_cell :: "nat \<Rightarrow> 'c debounce_vars \<Rightarrow> nat \<times> nat \<Rightarrow> 'c \<times> bool" where
  "key_cell C s = (\<lambda>(r, c). (debounce_counters s ! (r * C + c), bit (cooked s ! r) c))"

definition row_cell :: "'c debounce_vars \<Rightarrow> nat \<Rightarrow> 'c \<times> u32" where
  "row_cell s r = (debounce_counters s ! r, cooked s ! r)"

definition raw_key :: "matrix \<Rightarrow> nat \<times> nat \<Rightarrow> bool" where
  "raw_key raw = (\<lambda>(r, c). bit (raw ! r) c)"

lemmas cell_defs = vars_shape_def key_cell_def row_cell_def raw_key_def

abbreviation all_keys :: "nat \<Rightarrow> nat \<Rightarrow> (nat \<times> nat) set" where
  "all_keys n C \<equiv> {0..<n} \<times> {0..<C}"

text \<open>The one-key steps of the loop bodies.\<close>

definition defer_expire_step :: "u8 \<Rightarrow> 'v \<Rightarrow> u8 \<times> 'v \<Rightarrow> u8 \<times> 'v" where
  "defer_expire_step elapsed raw = (\<lambda>(t, v). if t = 0 then (t, v)
     else if t \<le> elapsed then (0, raw) else (t - elapsed, v))"

definition defer_start_step :: "u8 \<Rightarrow> 'v \<Rightarrow> u8 \<times> 'v \<Rightarrow> u8 \<times> 'v" where
  "defer_start_step D raw = (\<lambda>(t, v). if raw \<noteq> v then (if t = 0 then D else t, v) else (0, v))"

definition eager_expire_step :: "u8 \<Rightarrow> u8 \<times> 'v \<Rightarrow> u8 \<times> 'v" where
  "eager_expire_step elapsed = (\<lambda>(t, v). (if t \<le> elapsed then 0 else t - elapsed, v))"

definition eager_transfer_step :: "u8 \<Rightarrow> 'v \<Rightarrow> u8 \<times> 'v \<Rightarrow> u8 \<times> 'v" where
  "eager_transfer_step D raw = (\<lambda>(t, v). if raw \<noteq> v \<and> t = 0 then (D, raw) else (t, v))"

definition asym_expire_step :: "u8 \<Rightarrow> bool \<Rightarrow> asym_counter \<times> bool \<Rightarrow> asym_counter \<times> bool" where
  "asym_expire_step elapsed raw = (\<lambda>(k, v). if dtime k = 0 then (k, v)
     else if dtime k \<le> elapsed then (k\<lparr>dtime := 0\<rparr>, if pressed k then v else raw)
     else (k\<lparr>dtime := dtime k - elapsed\<rparr>, v))"

definition asym_transfer_step :: "u8 \<Rightarrow> bool \<Rightarrow> asym_counter \<times> bool \<Rightarrow> asym_counter \<times> bool" where
  "asym_transfer_step D raw = (\<lambda>(k, v).
     if raw \<noteq> v then (if dtime k = 0 then (\<lparr>pressed = raw, dtime = D\<rparr>, if raw then raw else v) else (k, v))
     else if dtime k \<noteq> 0 \<and> \<not> pressed k then (k\<lparr>dtime := 0\<rparr>, v) else (k, v))"

lemmas step_defs = defer_expire_step_def defer_start_step_def eager_expire_step_def
  eager_transfer_step_def asym_expire_step_def asym_transfer_step_def

lemmas bit_col_simps = and_col_mask bit_set_col bit_flip_col bit_xor_iff
lemmas index_simps = key_index_less key_index_eq nth_list_update

section \<open>The loop bodies\<close>

interpretation defer_expire: key_loop "\<lambda>(r, c). defer_pk_expire_key raw e r c (r * C + c)" "key_cell C"
    "\<lambda>k. defer_expire_step e (raw_key raw k)" "vars_shape n C" "all_keys n C"
    counters_need_update "\<lambda>k x. fst x \<noteq> 0 \<and> \<not> fst x \<le> e"
  for raw e C n
  by unfold_locales (auto simp: defer_pk_expire_key_def step_defs cell_defs bit_col_simps index_simps Let_def split: if_splits)

interpretation eager_expire: key_loop "\<lambda>(r, c). eager_pk_expire_key e r c (r * C + c)" "key_cell C"
    "\<lambda>k. eager_expire_step e" "vars_shape n C" "all_keys n C"
    counters_need_update "\<lambda>k x. fst x \<noteq> 0 \<and> \<not> fst x \<le> e"
  for e C n
  by unfold_locales (auto simp: eager_pk_expire_key_def step_defs cell_defs bit_col_simps index_simps Let_def split: if_splits)

interpretation eager_row_expire: key_loop "eager_pr_expire_row e" row_cell
    "\<lambda>k. eager_expire_step e" "vars_shape n 1" "{0..<n}"
    counters_need_update "\<lambda>k x. fst x \<noteq> 0 \<and> \<not> fst x \<le> e"
  for e n
  by unfold_locales (auto simp: eager_pr_expire_row_def step_defs cell_defs nth_list_update Let_def split: if_splits)

interpretation asym_expire: key_loop "\<lambda>(r, c). asym_expire_key raw e r c (r * C + c)" "key_cell C"
    "\<lambda>k. asym_expire_step e (raw_key raw k)" "vars_shape n C" "all_keys n C"
    counters_need_update "\<lambda>k x. dtime (fst x) \<noteq> 0 \<and> \<not> dtime (fst x) \<le> e"
  for raw e C n
  by unfold_locales (auto simp: asym_expire_key_def step_defs cell_defs bit_col_simps index_simps Let_def split: if_splits)

text \<open>The keys whose expiry asks for a transfer of the matrix.\<close>

interpretation eager_need: key_loop "\<lambda>(r, c). eager_pk_expire_key e r c (r * C + c)" "key_cell C"
    "\<lambda>k. eager_expire_step e" "vars_shape n C" "all_keys n C"
    matrix_need_update "\<lambda>k x. fst x \<noteq> 0 \<and> fst x \<le> e"
  for e C n
  by unfold_locales (auto simp: eager_pk_expire_key_def step_defs cell_defs bit_col_simps index_simps Let_def split: if_splits)

interpretation eager_row_need: key_loop "eager_pr_expire_row e" row_cell
    "\<lambda>k. eager_expire_step e" "vars_shape n 1" "{0..<n}"
    matrix_need_update "\<lambda>k x. fst x \<noteq> 0 \<and> fst x \<le> e"
  for e n
  by unfold_locales (auto simp: eager_pr_expire_row_def step_defs cell_defs nth_list_update Let_def split: if_splits)

interpretation asym_need: key_loop "\<lambda>(r, c). asym_expire_key raw e r c (r * C + c)" "key_cell C"
    "\<lambda>k. asym_expire_step e (raw_key raw k)" "vars_shape n C" "all_keys n C"
    matrix_need_update "\<lambda>k x. dtime (fst x) \<noteq> 0 \<and> dtime (fst x) \<le> e \<and> pressed (fst x)"
  for raw e C n
  by unfold_locales (auto simp: asym_expire_key_def step_defs cell_defs bit_col_simps index_simps Let_def split: if_splits)

section \<open>The transfer loops\<close>

text \<open>
  The code computes the difference of a row before the loop over its columns. Since the loop
  changes only the column it is at, it can equally be computed at every column.
\<close>

definition row_delta :: "matrix \<Rightarrow> 'c debounce_vars \<Rightarrow> nat \<Rightarrow> u32" where
  "row_delta raw s row = raw ! row XOR cooked s ! row"

lemma fold_current_delta:
  assumes other: "\<And>d c s c'. c' \<noteq> c \<Longrightarrow> vars_shape n C s \<Longrightarrow>
      bit (cooked (f d c s) ! row) c' = bit (cooked s ! row) c'"
    and same: "\<And>d d' c s. bit d c = bit d' c \<Longrightarrow> f d c s = f d' c s"
    and shape: "\<And>d c s. vars_shape n C s \<Longrightarrow> vars_shape n C (f d c s)"
  shows "distinct cs \<Longrightarrow> vars_shape n C s \<Longrightarrow> (\<And>c. c \<in> set cs \<Longrightarrow> bit d c = bit (row_delta raw s row) c) \<Longrightarrow>
    fold (f d) cs s = fold (\<lambda>c s. f (row_delta raw s row) c s) cs s"
proof (induction cs arbitrary: s)
  case (Cons c cs)
  have "f d c s = f (row_delta raw s row) c s" using Cons.prems(3) by (intro same) simp
  moreover have "bit d c' = bit (row_delta raw (f d c s) row) c'" if "c' \<in> set cs" for c'
    using Cons.prems that other [of c' c s d] by (auto simp: row_delta_def bit_xor_iff)
  ultimately show ?case using Cons.IH [of "f d c s"] Cons.prems shape by simp
qed simp

lemma fold_rows_current_delta:
  assumes "\<And>row s. vars_shape n C s \<Longrightarrow> row < n \<Longrightarrow>
      fold (f row (row_delta raw s row)) [0..<C] s = fold (\<lambda>c s. f row (row_delta raw s row) c s) [0..<C] s \<and>
      vars_shape n C (fold (\<lambda>c s. f row (row_delta raw s row) c s) [0..<C] s)"
  shows "set rows \<subseteq> {0..<n} \<Longrightarrow> vars_shape n C s \<Longrightarrow>
    fold (\<lambda>row s. fold (f row (row_delta raw s row)) [0..<C] s) rows s =
    fold (\<lambda>(r, c) s. f r (row_delta raw s r) c s) (List.product rows [0..<C]) s"
  using assms by (induction rows arbitrary: s) (simp_all add: fold_map comp_def)

interpretation defer_start: key_loop "\<lambda>(r, c) s. defer_pk_start_key D (row_delta raw s r) c (r * C + c) s"
    "key_cell C" "\<lambda>k. defer_start_step D (raw_key raw k)" "vars_shape n C" "all_keys n C"
    counters_need_update "\<lambda>k x. raw_key raw k \<noteq> snd x \<and> fst x = 0"
  for D raw C n
  by unfold_locales (auto simp: defer_pk_start_key_def row_delta_def step_defs cell_defs bit_col_simps
      index_simps Let_def split: if_splits)

interpretation asym_start: key_loop "\<lambda>(r, c) s. asym_transfer_key D raw (row_delta raw s r) r c (r * C + c) s"
    "key_cell C" "\<lambda>k. asym_transfer_step D (raw_key raw k)" "vars_shape n C" "all_keys n C"
    counters_need_update "\<lambda>k x. raw_key raw k \<noteq> snd x \<and> dtime (fst x) = 0"
  for D raw C n
  by unfold_locales (auto simp: asym_transfer_key_def row_delta_def step_defs cell_defs bit_col_simps
      index_simps Let_def bit_col_mask dest: bit_u32 split: if_splits)

interpretation eager_row_start: key_loop "eager_pr_transfer_row D raw" row_cell
    "\<lambda>k. eager_transfer_step D (raw ! k)" "vars_shape n 1" "{0..<n}"
    counters_need_update "\<lambda>k x. raw ! k \<noteq> snd x \<and> fst x = 0"
  for D raw n
  by unfold_locales (auto simp: eager_pr_transfer_row_def step_defs cell_defs nth_list_update Let_def split: if_splits)

text \<open>The eager transfer with the row written back at once.\<close>

definition eager_flip :: "u8 \<Rightarrow> matrix \<Rightarrow> nat \<Rightarrow> nat \<times> nat \<Rightarrow> u8 debounce_vars \<Rightarrow> u8 debounce_vars" where
  "eager_flip D raw C = (\<lambda>(r, c) s.
    if row_delta raw s r AND col_mask c \<noteq> 0 \<and> debounce_counters s ! (r * C + c) = 0
    then s\<lparr>debounce_counters := (debounce_counters s)[r * C + c := D], counters_need_update := True,
           cooked_changed := True, cooked := (cooked s)[r := cooked s ! r XOR col_mask c]\<rparr>
    else s)"

interpretation eager_start: key_loop "eager_flip D raw C" "key_cell C"
    "\<lambda>k. eager_transfer_step D (raw_key raw k)" "vars_shape n C" "all_keys n C"
    counters_need_update "\<lambda>k x. raw_key raw k \<noteq> snd x \<and> fst x = 0"
  for D raw C n
  by unfold_locales (auto simp: eager_flip_def row_delta_def step_defs cell_defs bit_col_simps
      index_simps Let_def bit_col_mask dest: bit_u32 split: if_splits)

end
