(* ===== verification/Debounce_Sim.thy ===== *)
theory Debounce_Sim
  imports Debounce_Loops
begin

unbundle bit_operations_syntax

text \<open>
  The counter algorithms as one-key machines. Their \<open>debounce\<close> has two phases: with time the
  counters expire, and when something may have changed the matrix is transferred. The locale
  \<open>counter_debounce\<close> states the laws of the two phases; its result is that a scan of the whole matrix
  takes every key through the same one-key step, whatever the flags that let the code skip a phase.
\<close>

definition saturate :: "nat \<Rightarrow> u8" where
  "saturate d = of_nat (min d 255)"

lemma unat_saturate: "unat (saturate d) = min d 255"
  by (simp add: saturate_def unat_of_nat_small)

lemma clamp_elapsed_diff:
  assumes "T \<le> t" "t - T < 2 ^ 32"
  shows "clamp_elapsed (of_nat t - of_nat T) = saturate (t - T)"
proof -
  have "of_nat t - of_nat T = (of_nat (t - T) :: u32)" using assms(1) by (simp add: of_nat_diff)
  moreover have "unat (of_nat (t - T) :: u32) = t - T" using assms(2) by (simp add: unat_of_nat_small)
  moreover have "unat (clamp_elapsed x) = min (unat x) 255" for x
    by (simp add: clamp_elapsed_def word_less_nat_alt unsigned_ucast_eq take_bit_nat_eq_self)
  ultimately have "unat (clamp_elapsed (of_nat t - of_nat T)) = unat (saturate (t - T))"
    by (simp add: unat_saturate)
  then show ?thesis by (rule unsigned_word_eqI)
qed

definition two_phase ::
    "(matrix \<Rightarrow> u8 \<Rightarrow> 'c debounce_vars \<Rightarrow> 'c debounce_vars) \<Rightarrow>
     (matrix \<Rightarrow> 'c debounce_vars \<Rightarrow> 'c debounce_vars) \<Rightarrow> ('c debounce_vars \<Rightarrow> bool) \<Rightarrow>
     u32 \<Rightarrow> matrix \<Rightarrow> bool \<Rightarrow> 'c debounce_vars \<Rightarrow> 'c debounce_vars" where
  "two_phase update transfer needs now raw changed s =
    (let (s1, updated_last) = update_phase now (update raw) s
     in if changed \<or> needs s1 then transfer raw (set_last now updated_last s1) else s1)"

locale counter_debounce =
  fixes update :: "matrix \<Rightarrow> u8 \<Rightarrow> 'c debounce_vars \<Rightarrow> 'c debounce_vars"
    and transfer :: "matrix \<Rightarrow> 'c debounce_vars \<Rightarrow> 'c debounce_vars"
    and needs :: "'c debounce_vars \<Rightarrow> bool"
    and view :: "'c debounce_vars \<Rightarrow> 'k \<Rightarrow> 'c \<times> 'v"
    and obs :: "matrix \<Rightarrow> 'k \<Rightarrow> 'v"
    and keys :: "'k set"
    and shape :: "'c debounce_vars \<Rightarrow> bool"
    and idle :: "'c \<Rightarrow> bool"
    and expire :: "u8 \<Rightarrow> 'v \<Rightarrow> 'c \<times> 'v \<Rightarrow> 'c \<times> 'v"
    and settle :: "'v \<Rightarrow> 'c \<times> 'v \<Rightarrow> 'c \<times> 'v"
  assumes frame: "view (s\<lparr>last_time := t\<rparr>) = view s" "view (s\<lparr>cooked_changed := b\<rparr>) = view s"
      "shape (s\<lparr>last_time := t\<rparr>) = shape s" "shape (s\<lparr>cooked_changed := b\<rparr>) = shape s"
      "needs (s\<lparr>last_time := t\<rparr>) = needs s" "needs (s\<lparr>cooked_changed := b\<rparr>) = needs s"
    and expire_idle: "idle c \<Longrightarrow> expire e v (c, w) = (c, w)"
    and expire_0: "expire 0 v x = x"
    and settle_settle: "settle v (settle v x) = settle v x"
    and update_shape: "shape s \<Longrightarrow> shape (update raw e s)"
    and update_view: "shape s \<Longrightarrow> k \<in> keys \<Longrightarrow> view (update raw e s) k = expire e (obs raw k) (view s k)"
    and update_flag: "shape s \<Longrightarrow> k \<in> keys \<Longrightarrow> \<not> idle (fst (view (update raw e s) k)) \<Longrightarrow>
        counters_need_update (update raw e s)"
    and update_last: "last_time (update raw e s) = last_time s"
    and update_skip: "shape s \<Longrightarrow> k \<in> keys \<Longrightarrow> settle v (view s k) = view s k \<Longrightarrow> v = obs raw k \<Longrightarrow>
        \<not> needs (update raw e s) \<Longrightarrow> settle v (view (update raw e s) k) = view (update raw e s) k"
    and transfer_shape: "shape s \<Longrightarrow> shape (transfer raw s)"
    and transfer_view: "shape s \<Longrightarrow> k \<in> keys \<Longrightarrow> view (transfer raw s) k = settle (obs raw k) (view s k)"
    and transfer_flag: "shape s \<Longrightarrow> k \<in> keys \<Longrightarrow> (\<not> idle (fst (view s k)) \<longrightarrow> counters_need_update s) \<Longrightarrow>
        \<not> idle (fst (view (transfer raw s) k)) \<Longrightarrow> counters_need_update (transfer raw s)"
    and transfer_last: "last_time (transfer raw s) = last_time s"
    and transfer_needs: "\<not> needs (transfer raw s)"
begin

definition ready :: "nat \<Rightarrow> matrix \<Rightarrow> 'c debounce_vars \<Rightarrow> bool" where
  "ready T prev s \<longleftrightarrow> shape s \<and> \<not> needs s \<and> (counters_need_update s \<longrightarrow> last_time s = of_nat T) \<and>
    (\<forall>k\<in>keys. (\<not> idle (fst (view s k)) \<longrightarrow> counters_need_update s) \<and>
      settle (obs prev k) (view s k) = view s k)"

definition key_step :: "nat \<Rightarrow> 'v \<Rightarrow> 'c \<times> 'v \<Rightarrow> 'c \<times> 'v" where
  "key_step d v x = settle v (expire (saturate d) v x)"

lemma settle_key_step: "settle v (key_step d v x) = key_step d v x"
  by (simp add: key_step_def settle_settle)

lemma update_phase_result:
  assumes "ready T prev s" "T \<le> t" "t - T < 2 ^ 32" "update_phase (of_nat t) (update raw) s = (s1, u)"
  shows "shape s1" "u = counters_need_update s" "counters_need_update s1 \<longrightarrow> u \<and> last_time s1 = of_nat t"
    and "k \<in> keys \<Longrightarrow> view s1 k = expire (saturate (t - T)) (obs raw k) (view s k)"
    and "k \<in> keys \<Longrightarrow> \<not> idle (fst (view s1 k)) \<Longrightarrow> counters_need_update s1"
    and "k \<in> keys \<Longrightarrow> raw = prev \<Longrightarrow> \<not> needs s1 \<Longrightarrow> settle (obs raw k) (view s1 k) = view s1 k"
proof -
  define s0 where "s0 = s\<lparr>cooked_changed := False, last_time := of_nat t\<rparr>"
  have r: "shape s0" "view s0 = view s" "shape s" "counters_need_update s0 = counters_need_update s"
    using assms(1) by (simp_all add: s0_def ready_def frame)
  have idle: "k \<in> keys \<Longrightarrow> \<not> idle (fst (view s k)) \<Longrightarrow> counters_need_update s" for k
    using assms(1) by (auto simp: ready_def)
  have e: "counters_need_update s \<Longrightarrow> clamp_elapsed (of_nat t - last_time s) = saturate (t - T)"
    using clamp_elapsed_diff [OF assms(2,3)] assms(1) by (simp add: ready_def)
  have s1: "s1 = (if counters_need_update s
      then if saturate (t - T) > 0 then update raw (saturate (t - T)) s0 else s0
      else s\<lparr>cooked_changed := False\<rparr>)" "u = counters_need_update s"
    using assms(4) e by (auto simp: update_phase_def Let_def s0_def split: if_splits)
  show "u = counters_need_update s" by (rule s1)
  show "shape s1" using r by (simp add: s1 update_shape frame)
  show "counters_need_update s1 \<longrightarrow> u \<and> last_time s1 = of_nat t"
    by (auto simp: s1 update_last s0_def)
  show v: "view s1 k = expire (saturate (t - T)) (obs raw k) (view s k)" if "k \<in> keys" for k
  proof (cases "counters_need_update s \<and> saturate (t - T) > 0")
    case True
    then show ?thesis using r that by (simp add: s1 update_view)
  next
    case False
    then have "saturate (t - T) = 0 \<or> idle (fst (view s k))" using idle [OF that] by (auto simp: word_gt_0)
    then have "expire (saturate (t - T)) (obs raw k) (view s k) = view s k"
      using expire_idle [of "fst (view s k)" _ _ "snd (view s k)"] by (auto simp: expire_0)
    then show ?thesis using False r by (auto simp: s1 frame)
  qed
  show "counters_need_update s1" if "k \<in> keys" "\<not> idle (fst (view s1 k))"
    using that r idle [OF that(1)] by (auto simp: s1 update_flag frame split: if_splits)
  show "settle (obs raw k) (view s1 k) = view s1 k" if "k \<in> keys" "raw = prev" "\<not> needs s1"
    using that assms(1) r update_skip [OF r(1) that(1), of "obs raw k" raw "saturate (t - T)"]
    by (auto simp: s1 ready_def frame split: if_splits)
qed

lemma scan_step:
  assumes "ready T prev s" "T \<le> t" "t - T < 2 ^ 32"
    and s'_def: "s' = two_phase update transfer needs (of_nat t) raw (raw \<noteq> prev) s"
  shows "ready t raw s' \<and> (\<forall>k\<in>keys. view s' k = key_step (t - T) (obs raw k) (view s k))"
proof -
  obtain s1 u where p: "update_phase (of_nat t) (update raw) s = (s1, u)" by (cases "update_phase (of_nat t) (update raw) s")
  note u = update_phase_result [OF assms(1-3) p]
  show ?thesis
  proof (cases "raw \<noteq> prev \<or> needs s1")
    case True
    define s2 where "s2 = set_last (of_nat t) u s1"
    have s2: "shape s2" "view s2 = view s1" "last_time s2 = of_nat t \<or> u \<and> s2 = s1"
        "counters_need_update s2 = counters_need_update s1"
      using u(1) by (auto simp: s2_def set_last_def frame)
    have s': "s' = transfer raw s2" using True p by (simp add: s'_def two_phase_def s2_def)
    have v: "view s' k = key_step (t - T) (obs raw k) (view s k)" if "k \<in> keys" for k
      using that s2 u(4) by (simp add: s' transfer_view key_step_def)
    have "\<not> u \<Longrightarrow> \<not> counters_need_update s1" using u(3) by blast
    have l: "counters_need_update s' \<longrightarrow> last_time s' = of_nat t" if "u \<longrightarrow> last_time s1 = of_nat t"
      using s2(3) that by (auto simp: s' transfer_last)
    have "u \<longrightarrow> last_time s1 = of_nat t"
      using p by (auto simp: update_phase_def Let_def update_last split: if_splits)
    then show ?thesis
      using l v s2 u(5) transfer_flag [OF s2(1)]
      by (auto simp: ready_def s' transfer_shape transfer_needs transfer_view settle_settle settle_key_step)
  next
    case False
    then have s': "s' = s1" using p by (simp add: s'_def two_phase_def)
    then show ?thesis using False u by (auto simp: ready_def key_step_def)
  qed
qed

end

section \<open>Runs\<close>

text \<open>
  The calls of \<open>matrix_scan\<close>: every scan has a time in milliseconds and a raw matrix, and \<open>changed\<close>
  tells whether the raw matrix differs from that of the scan before. A run of one key takes the
  values of the key only.
\<close>

definition scan_one ::
    "(u32 \<Rightarrow> matrix \<Rightarrow> bool \<Rightarrow> 's \<Rightarrow> 's) \<Rightarrow> nat \<times> matrix \<Rightarrow> matrix \<times> 's \<Rightarrow> matrix \<times> 's" where
  "scan_one deb = (\<lambda>(t, raw) (prev, s). (raw, deb (of_nat t) raw (raw \<noteq> prev) s))"

definition debounce_run ::
    "(u32 \<Rightarrow> matrix \<Rightarrow> bool \<Rightarrow> 's \<Rightarrow> 's) \<Rightarrow> (nat \<times> matrix) list \<Rightarrow> matrix \<times> 's \<Rightarrow> matrix \<times> 's" where
  "debounce_run deb xs = fold (scan_one deb) xs"

definition key_run :: "(nat \<Rightarrow> 'v \<Rightarrow> 'x \<Rightarrow> 'x) \<Rightarrow> (nat \<times> 'v) list \<Rightarrow> nat \<times> 'x \<Rightarrow> nat \<times> 'x" where
  "key_run step xs = fold (\<lambda>(t, v) (T, x). (t, step (t - T) v x)) xs"

fun times_ok :: "nat \<Rightarrow> (nat \<times> 'a) list \<Rightarrow> bool" where
  "times_ok T [] = True"
| "times_ok T ((t, v) # xs) = (T \<le> t \<and> t - T < 2 ^ 32 \<and> times_ok t xs)"

lemma key_run_simps [simp]:
  "key_run step [] Tx = Tx"
  "key_run step ((t, v) # xs) (T, x) = key_run step xs (t, step (t - T) v x)"
  by (simp_all add: key_run_def)

lemma key_run_append: "key_run step (xs @ ys) x = key_run step ys (key_run step xs x)"
  by (simp add: key_run_def)

lemma key_run_snoc:
  "key_run step (xs @ [(t, v)]) x = (t, step (t - fst (key_run step xs x)) v (snd (key_run step xs x)))"
  by (cases "key_run step xs x") (simp add: key_run_append)

lemma debounce_run_append: "debounce_run deb (xs @ ys) s = debounce_run deb ys (debounce_run deb xs s)"
  by (simp add: debounce_run_def)

definition last_of :: "nat \<Rightarrow> (nat \<times> 'a) list \<Rightarrow> nat" where
  "last_of T xs = (if xs = [] then T else fst (last xs))"

lemma fst_key_run: "fst (key_run step xs (T, x)) = last_of T xs"
  by (induction xs arbitrary: T x) (auto simp: last_of_def)

lemma times_ok_append: "times_ok T (xs @ ys) \<longleftrightarrow> times_ok T xs \<and> times_ok (last_of T xs) ys"
  by (induction xs arbitrary: T) (auto simp: last_of_def)

lemma times_ok_ge: "times_ok T xs \<Longrightarrow> (t, v) \<in> set xs \<Longrightarrow> T \<le> t"
  by (induction xs arbitrary: T) (auto, fastforce)

definition key_scans :: "(matrix \<Rightarrow> 'v) \<Rightarrow> (nat \<times> matrix) list \<Rightarrow> (nat \<times> 'v) list" where
  "key_scans obs xs = map (\<lambda>(t, raw). (t, obs raw)) xs"

lemma key_scans_simps [simp]:
  "key_scans obs [] = []" "key_scans obs ((t, raw) # xs) = (t, obs raw) # key_scans obs xs"
  "key_scans obs (xs @ ys) = key_scans obs xs @ key_scans obs ys"
  by (simp_all add: key_scans_def)

lemma last_of_key_scans [simp]: "last_of T (key_scans obs xs) = last_of T xs"
  by (auto simp: last_of_def key_scans_def last_map case_prod_beta)

lemma times_ok_key_scans [simp]: "times_ok T (key_scans obs xs) = times_ok T xs"
  by (induction xs arbitrary: T) auto

context counter_debounce
begin

lemma run_is_key_run:
  assumes "ready T prev s" "times_ok T xs"
  defines "res \<equiv> snd (debounce_run (two_phase update transfer needs) xs (prev, s))"
  shows "(\<exists>prev'. ready (last_of T xs) prev' res) \<and>
    (\<forall>k\<in>keys. view res k = snd (key_run key_step (key_scans (\<lambda>raw. obs raw k) xs) (T, view s k)))"
  using assms(1,2) unfolding res_def
proof (induction xs arbitrary: T prev s)
  case Nil
  then show ?case by (auto simp: debounce_run_def last_of_def)
next
  case (Cons x xs)
  obtain t raw where x: "x = (t, raw)" by (cases x)
  define s' where "s' = two_phase update transfer needs (of_nat t) raw (raw \<noteq> prev) s"
  have s': "ready t raw s'" "\<forall>k\<in>keys. view s' k = key_step (t - T) (obs raw k) (view s k)"
    using scan_step [OF Cons.prems(1) _ _ s'_def] Cons.prems(2) x by auto
  have "debounce_run (two_phase update transfer needs) (x # xs) (prev, s)
      = debounce_run (two_phase update transfer needs) xs (raw, s')"
    by (simp add: debounce_run_def scan_one_def x s'_def)
  moreover have "last_of T (x # xs) = last_of t xs" by (simp add: last_of_def x)
  ultimately show ?case using Cons.IH [OF s'(1)] Cons.prems(2) s'(2) by (simp add: x)
qed

end

end
