(* ===== verification/Debounce_Run.thy ===== *)
theory Debounce_Run
  imports Debounce_Sim
begin

unbundle bit_operations_syntax

text \<open>
  The counter algorithms keep the laws of \<open>counter_debounce\<close>; the behaviour of a single key follows
  from its one-key step, and with the simulation the properties of the algorithms: after a change an
  eager key is locked, a deferred key changes only after its input was stable, and a stable input is
  reported.
\<close>

section \<open>The update and transfer phases\<close>

lemma fold_frame: "(\<And>x s. f (g x s) = f s) \<Longrightarrow> f (fold g xs s) = f s"
  by (induction xs arbitrary: s) simp_all

lemmas update_defs = defer_pk_update_def eager_pk_update_def eager_pr_update_def asym_update_def for_keys_product

lemma key_bodies_last:
  "last_time (defer_pk_expire_key raw e r c p s) = last_time s"
  "last_time (eager_pk_expire_key e r c p s) = last_time s"
  "last_time (eager_pr_expire_row e r s) = last_time s"
  "last_time (asym_expire_key raw e r c p s') = last_time s'"
  "last_time (defer_pk_start_key D d c p s) = last_time s"
  "last_time (eager_flip D raw C k s) = last_time s"
  "last_time (eager_pr_transfer_row D raw r s) = last_time s"
  "last_time (asym_transfer_key D raw d r c p s') = last_time s'"
  by (simp_all add: defer_pk_expire_key_def eager_pk_expire_key_def eager_pr_expire_row_def
      asym_expire_key_def defer_pk_start_key_def eager_flip_def eager_pr_transfer_row_def
      asym_transfer_key_def Let_def split: prod.split)

lemma key_bodies_need:
  "matrix_need_update (eager_flip D raw C k s) = matrix_need_update s"
  "matrix_need_update (eager_pr_transfer_row D raw r s) = matrix_need_update s"
  "matrix_need_update (asym_transfer_key D raw d r c p s') = matrix_need_update s'"
  by (simp_all add: eager_flip_def eager_pr_transfer_row_def asym_transfer_key_def Let_def split: prod.split)

lemma vars_frame [simp]:
  "vars_shape n C (s\<lparr>last_time := t\<rparr>) = vars_shape n C s"
  "vars_shape n C (s\<lparr>cooked_changed := b\<rparr>) = vars_shape n C s"
  "vars_shape n C (s\<lparr>counters_need_update := b\<rparr>) = vars_shape n C s"
  "vars_shape n C (s\<lparr>matrix_need_update := b\<rparr>) = vars_shape n C s"
  "key_cell C (s\<lparr>last_time := t\<rparr>) = key_cell C s"
  "key_cell C (s\<lparr>cooked_changed := b\<rparr>) = key_cell C s"
  "key_cell C (s\<lparr>counters_need_update := b\<rparr>) = key_cell C s"
  "key_cell C (s\<lparr>matrix_need_update := b\<rparr>) = key_cell C s"
  "row_cell (s\<lparr>last_time := t\<rparr>) = row_cell s"
  "row_cell (s\<lparr>cooked_changed := b\<rparr>) = row_cell s"
  "row_cell (s\<lparr>counters_need_update := b\<rparr>) = row_cell s"
  "row_cell (s\<lparr>matrix_need_update := b\<rparr>) = row_cell s"
  by (auto simp: cell_defs fun_eq_iff)

lemma eager_pk_row_frame:
  "last_time (eager_pk_transfer_row D raw C row s) = last_time s"
  "matrix_need_update (eager_pk_transfer_row D raw C row s) = matrix_need_update s"
proof -
  have "last_time (fst (fold (\<lambda>c. eager_pk_transfer_key D d c (row * C + c)) cs sx)) = last_time (fst sx)"
    "matrix_need_update (fst (fold (\<lambda>c. eager_pk_transfer_key D d c (row * C + c)) cs sx)) =
      matrix_need_update (fst sx)" for d cs sx
    by (rule fold_frame, simp add: eager_pk_transfer_key_def split: prod.split)+
  then show "last_time (eager_pk_transfer_row D raw C row s) = last_time s"
    "matrix_need_update (eager_pk_transfer_row D raw C row s) = matrix_need_update s"
    by (simp_all add: eager_pk_transfer_row_def Let_def case_prod_beta)
qed

text \<open>The transfer loops as loops over keys.\<close>

lemma shape_bodies:
  "vars_shape n C s \<Longrightarrow> vars_shape n C (defer_pk_start_key D d c p s)"
  "vars_shape n C s' \<Longrightarrow> vars_shape n C (asym_transfer_key D raw d r c p s')"
  by (auto simp: defer_pk_start_key_def asym_transfer_key_def vars_shape_def Let_def)

lemma defer_start_product:
  assumes "vars_shape n C s"
  shows "defer_pk_start D raw n C s =
    fold (\<lambda>(r, c) s. defer_pk_start_key D (row_delta raw s r) c (r * C + c) s) (key_list n C) s"
proof -
  have "fold (\<lambda>row s. fold (\<lambda>c. defer_pk_start_key D (row_delta raw s row) c (row * C + c)) [0..<C] s) [0..<n] s
      = fold (\<lambda>(r, c) s. defer_pk_start_key D (row_delta raw s r) c (r * C + c) s) (List.product [0..<n] [0..<C]) s"
  proof (rule fold_rows_current_delta [where f = "\<lambda>r d c. defer_pk_start_key D d c (r * C + c)" and n = n])
    fix row and s :: "u8 debounce_vars" assume s: "vars_shape n C s" "row < n"
    have "fold (\<lambda>c. defer_pk_start_key D d c (row * C + c)) [0..<C] s
        = fold (\<lambda>c s. defer_pk_start_key D (row_delta raw s row) c (row * C + c) s) [0..<C] s"
      if "d = row_delta raw s row" for d
      using s by (intro fold_current_delta [where n = n and C = C])
        (auto simp: that vars_shape_def defer_pk_start_key_def and_col_mask)
    moreover have "vars_shape n C (fold (\<lambda>c s. defer_pk_start_key D (row_delta raw s row) c (row * C + c) s) cs s)" for cs
      using s(1) by (induction cs arbitrary: s) (auto simp: shape_bodies)
    ultimately show "fold (\<lambda>c. defer_pk_start_key D (row_delta raw s row) c (row * C + c)) [0..<C] s
        = fold (\<lambda>c s. defer_pk_start_key D (row_delta raw s row) c (row * C + c) s) [0..<C] s \<and>
      vars_shape n C (fold (\<lambda>c s. defer_pk_start_key D (row_delta raw s row) c (row * C + c) s) [0..<C] s)"
      by simp
  qed (use assms in auto)
  then show ?thesis by (simp add: defer_pk_start_def Let_def row_delta_def key_list_def)
qed

lemma asym_start_product:
  assumes "vars_shape n C s"
  shows "asym_transfer D raw n C s =
    fold (\<lambda>(r, c) s. asym_transfer_key D raw (row_delta raw s r) r c (r * C + c) s) (key_list n C)
      (s\<lparr>matrix_need_update := False\<rparr>)"
proof -
  have "fold (\<lambda>row s. fold (\<lambda>c. asym_transfer_key D raw (row_delta raw s row) row c (row * C + c)) [0..<C] s) [0..<n] s0
      = fold (\<lambda>(r, c) s. asym_transfer_key D raw (row_delta raw s r) r c (r * C + c) s) (List.product [0..<n] [0..<C]) s0"
    if "vars_shape n C s0" for s0
  proof (rule fold_rows_current_delta [where f = "\<lambda>r d c. asym_transfer_key D raw d r c (r * C + c)" and n = n])
    fix row and s :: "asym_counter debounce_vars" assume s: "vars_shape n C s" "row < n"
    have "fold (\<lambda>c. asym_transfer_key D raw d row c (row * C + c)) [0..<C] s
        = fold (\<lambda>c s. asym_transfer_key D raw (row_delta raw s row) row c (row * C + c) s) [0..<C] s"
      if "d = row_delta raw s row" for d
      using s by (intro fold_current_delta [where n = n and C = C])
        (auto simp: that asym_transfer_key_def and_col_mask Let_def vars_shape_def
          bit_xor_iff bit_col_mask nth_list_update)
    moreover have "vars_shape n C (fold (\<lambda>c s. asym_transfer_key D raw (row_delta raw s row) row c (row * C + c) s) cs s)" for cs
      using s(1) by (induction cs arbitrary: s) (auto simp: shape_bodies)
    ultimately show "fold (\<lambda>c. asym_transfer_key D raw (row_delta raw s row) row c (row * C + c)) [0..<C] s
        = fold (\<lambda>c s. asym_transfer_key D raw (row_delta raw s row) row c (row * C + c) s) [0..<C] s \<and>
      vars_shape n C (fold (\<lambda>c s. asym_transfer_key D raw (row_delta raw s row) row c (row * C + c) s) [0..<C] s)"
      by simp
  qed (use that in auto)
  then show ?thesis using assms by (simp add: asym_transfer_def Let_def row_delta_def key_list_def)
qed

text \<open>The eager loop writes the row back at its end; the flips are those of \<open>eager_flip\<close>.\<close>

lemma eager_row_flips:
  assumes "row < length (cooked s)" "distinct cs" "\<And>c. c \<in> set cs \<Longrightarrow> bit d c = bit (raw ! row XOR x) c"
  shows "(let (s1, x1) = fold (\<lambda>col. eager_pk_transfer_key D d col (row * C + col)) cs (s, x)
      in s1\<lparr>cooked := (cooked s1)[row := x1]\<rparr>)
    = fold (\<lambda>c. eager_flip D raw C (row, c)) cs (s\<lparr>cooked := (cooked s)[row := x]\<rparr>)"
  using assms
proof (induction cs arbitrary: s x)
  case (Cons c cs)
  have d: "d AND col_mask c \<noteq> 0 \<longleftrightarrow> (raw ! row XOR x) AND col_mask c \<noteq> 0"
    using Cons.prems(3) by (simp add: and_col_mask)
  have bits: "bit d c' = bit (raw ! row XOR (x XOR col_mask c)) c'" if "c' \<in> set cs" for c'
    using Cons.prems(2,3) that by (auto simp: bit_xor_iff bit_col_mask)
  show ?case
  proof (cases "d AND col_mask c \<noteq> 0 \<and> debounce_counters s ! (row * C + c) = 0")
    case True
    then show ?thesis
      using Cons.IH [of "s\<lparr>debounce_counters := (debounce_counters s)[row * C + c := D],
          counters_need_update := True, cooked_changed := True\<rparr>" "x XOR col_mask c"] Cons.prems bits d
      by (simp add: eager_pk_transfer_key_def eager_flip_def row_delta_def)
  next
    case False
    then have "eager_flip D raw C (row, c) (s\<lparr>cooked := (cooked s)[row := x]\<rparr>) = s\<lparr>cooked := (cooked s)[row := x]\<rparr>"
      using Cons.prems(1) d by (auto simp: eager_flip_def row_delta_def)
    moreover have "eager_pk_transfer_key D d c (row * C + c) (s, x) = (s, x)"
      using False by (auto simp: eager_pk_transfer_key_def)
    ultimately show ?thesis using Cons.IH [of s x] Cons.prems by simp
  qed
qed simp

lemma eager_flip_length: "length (cooked (eager_flip D raw C k s)) = length (cooked s)"
  by (simp add: eager_flip_def split: prod.split)

lemma eager_start_product:
  assumes "vars_shape n C s"
  shows "eager_pk_transfer D raw n C s = fold (eager_flip D raw C) (key_list n C) (s\<lparr>matrix_need_update := False\<rparr>)"
proof -
  have row: "eager_pk_transfer_row D raw C row s = fold (\<lambda>c. eager_flip D raw C (row, c)) [0..<C] s"
    if "row < length (cooked s)" for row and s :: "u8 debounce_vars"
    using eager_row_flips [OF that, of "[0..<C]" "raw ! row XOR cooked s ! row" raw "cooked s ! row" D C]
    by (simp add: eager_pk_transfer_row_def Let_def)
  have "fold (eager_pk_transfer_row D raw C) rows s = fold (\<lambda>r. fold (\<lambda>c. eager_flip D raw C (r, c)) [0..<C]) rows s"
    if "set rows \<subseteq> {0..<length (cooked s)}" for rows and s :: "u8 debounce_vars"
    using that
  proof (induction rows arbitrary: s)
    case (Cons r rows)
    have "length (cooked (fold (\<lambda>c. eager_flip D raw C (r, c)) [0..<C] s)) = length (cooked s)"
      by (rule fold_frame [of "\<lambda>s. length (cooked s)"]) (rule eager_flip_length)
    then show ?case using Cons row [of r s] by simp
  qed simp
  then show ?thesis using assms
    by (simp add: eager_pk_transfer_def vars_shape_def key_list_def fold_product)
qed

section \<open>The algorithms keep the laws\<close>

lemma expire_steps_0:
  "defer_expire_step 0 v x = x" "eager_expire_step 0 x = x" "asym_expire_step 0 v y = y"
  by (auto simp: step_defs split: prod.split)

lemma eager_need_after:
  assumes "vars_shape n C s"
  shows "matrix_need_update (eager_pk_update n C e s) \<longleftrightarrow>
    (\<exists>k\<in>all_keys n C. fst (key_cell C s k) \<noteq> 0 \<and> fst (key_cell C s k) \<le> e)"
  using assms by (simp add: update_defs eager_need.raised_loop [where n = n])

lemma eager_row_need_after:
  assumes "vars_shape n 1 s"
  shows "matrix_need_update (eager_pr_update n e s) \<longleftrightarrow>
    (\<exists>k\<in>{0..<n}. fst (row_cell s k) \<noteq> 0 \<and> fst (row_cell s k) \<le> e)"
  using assms by (simp add: update_defs eager_row_need.raised_loop [where n = n])

lemma asym_need_after:
  assumes "vars_shape n C s"
  shows "matrix_need_update (asym_update raw n C e s) \<longleftrightarrow>
    (\<exists>k\<in>all_keys n C. dtime (fst (key_cell C s k)) \<noteq> 0 \<and> dtime (fst (key_cell C s k)) \<le> e \<and>
      pressed (fst (key_cell C s k)))"
  using assms by (simp add: update_defs asym_need.raised_loop [where n = n])

interpretation defer_pk: counter_debounce "\<lambda>raw. defer_pk_update raw n C" "\<lambda>raw. defer_pk_start D raw n C"
    "\<lambda>_. False" "key_cell C" raw_key "all_keys n C" "vars_shape n C" "\<lambda>t. t = 0"
    defer_expire_step "defer_start_step D"
  for n C D
proof unfold_locales
  fix s :: "u8 debounce_vars" and raw e
  assume s: "vars_shape n C s"
  then have s0: "vars_shape n C (s\<lparr>counters_need_update := False\<rparr>)" by simp
  show "vars_shape n C (defer_pk_update raw n C e s)"
    using defer_expire.shape_loop [OF s0, of "key_list n C" raw e] by (simp add: update_defs)
  show "vars_shape n C (defer_pk_start D raw n C s)"
    using defer_start.shape_loop [OF s, of "key_list n C" D raw] by (simp add: defer_start_product [OF s])
  fix k assume k: "k \<in> all_keys n C"
  show v: "key_cell C (defer_pk_update raw n C e s) k = defer_expire_step e (raw_key raw k) (key_cell C s k)"
    using defer_expire.cell_loop [OF s0, of "key_list n C" k raw e] k by (auto simp: update_defs)
  show "counters_need_update (defer_pk_update raw n C e s)"
    if "fst (key_cell C (defer_pk_update raw n C e s) k) \<noteq> 0"
  proof -
    have "fst (key_cell C s k) \<noteq> 0 \<and> \<not> fst (key_cell C s k) \<le> e"
      using that unfolding v by (auto simp: step_defs split: if_splits prod.splits)
    then show ?thesis
      using defer_expire.raised_by [OF s0, of "key_list n C" k, where e = e and raw = raw] k by (simp add: update_defs)
  qed
  show w: "key_cell C (defer_pk_start D raw n C s) k = defer_start_step D (raw_key raw k) (key_cell C s k)"
    using defer_start.cell_loop [OF s, of "key_list n C" k D raw] k by (auto simp: defer_start_product [OF s])
  show "counters_need_update (defer_pk_start D raw n C s)"
    if "fst (key_cell C s k) \<noteq> 0 \<longrightarrow> counters_need_update s" "fst (key_cell C (defer_pk_start D raw n C s) k) \<noteq> 0"
  proof -
    have "counters_need_update s \<or> raw_key raw k \<noteq> snd (key_cell C s k) \<and> fst (key_cell C s k) = 0"
      using that unfolding w by (auto simp: step_defs split: if_splits prod.splits)
    then show ?thesis
      using defer_start.raised_by [OF s, of "key_list n C" k, where D = D and raw = raw] k
      by (simp add: defer_start_product [OF s])
  qed
  show "defer_start_step D v (key_cell C (defer_pk_update raw n C e s) k) = key_cell C (defer_pk_update raw n C e s) k"
    if "defer_start_step D v (key_cell C s k) = key_cell C s k" "v = raw_key raw k" for v
    using that unfolding v by (auto simp: step_defs split: if_splits prod.splits)
qed (auto simp: step_defs update_defs defer_pk_start_def Let_def fold_frame key_bodies_last split: prod.splits if_splits)

interpretation eager_pk: counter_debounce "\<lambda>raw. eager_pk_update n C" "\<lambda>raw. eager_pk_transfer D raw n C"
    matrix_need_update "key_cell C" raw_key "all_keys n C" "vars_shape n C" "\<lambda>t. t = 0"
    "\<lambda>e v. eager_expire_step e" "eager_transfer_step D"
  for n C D
proof unfold_locales
  fix s :: "u8 debounce_vars" and raw :: matrix and e
  assume s: "vars_shape n C s"
  then have s0: "vars_shape n C (s\<lparr>counters_need_update := False, matrix_need_update := False\<rparr>)"
    and s1: "vars_shape n C (s\<lparr>matrix_need_update := False\<rparr>)" by simp_all
  show "vars_shape n C (eager_pk_update n C e s)"
    using eager_expire.shape_loop [OF s0, of "key_list n C" e] by (simp add: update_defs)
  show "vars_shape n C (eager_pk_transfer D raw n C s)"
    using eager_start.shape_loop [OF s1, of "key_list n C" D raw] by (simp add: eager_start_product [OF s])
  fix k assume k: "k \<in> all_keys n C"
  show v: "key_cell C (eager_pk_update n C e s) k = eager_expire_step e (key_cell C s k)"
    using eager_expire.cell_loop [OF s0, of "key_list n C" k, where e = e] k by (auto simp: update_defs)
  show "counters_need_update (eager_pk_update n C e s)"
    if "fst (key_cell C (eager_pk_update n C e s) k) \<noteq> 0"
  proof -
    have "fst (key_cell C s k) \<noteq> 0 \<and> \<not> fst (key_cell C s k) \<le> e"
      using that unfolding v by (auto simp: step_defs split: if_splits prod.splits)
    then show ?thesis
      using eager_expire.raised_by [OF s0, of "key_list n C" k, where e = e] k by (simp add: update_defs)
  qed
  show w: "key_cell C (eager_pk_transfer D raw n C s) k = eager_transfer_step D (raw_key raw k) (key_cell C s k)"
    using eager_start.cell_loop [OF s1, of "key_list n C" k, where D = D and raw = raw] k
    by (auto simp: eager_start_product [OF s])
  show "counters_need_update (eager_pk_transfer D raw n C s)"
    if "fst (key_cell C s k) \<noteq> 0 \<longrightarrow> counters_need_update s" "fst (key_cell C (eager_pk_transfer D raw n C s) k) \<noteq> 0"
  proof -
    have "counters_need_update s \<or> raw_key raw k \<noteq> snd (key_cell C s k) \<and> fst (key_cell C s k) = 0"
      using that unfolding w by (auto simp: step_defs split: if_splits prod.splits)
    then show ?thesis
      using eager_start.raised_by [OF s1, of "key_list n C" k, where D = D and raw = raw] k
      by (simp add: eager_start_product [OF s])
  qed
  show "eager_transfer_step D v (key_cell C (eager_pk_update n C e s) k) = key_cell C (eager_pk_update n C e s) k"
    if "eager_transfer_step D v (key_cell C s k) = key_cell C s k" "\<not> matrix_need_update (eager_pk_update n C e s)" for v
  proof -
    have "fst (key_cell C s k) = 0 \<or> \<not> fst (key_cell C s k) \<le> e"
      using that(2) k unfolding eager_need_after [OF s] by blast
    then show ?thesis using that(1) unfolding v by (auto simp: step_defs split: if_splits prod.splits)
  qed
qed (auto simp: step_defs update_defs eager_pk_transfer_def eager_pk_row_frame fold_frame
    key_bodies_last split: prod.splits if_splits)

interpretation eager_pr: counter_debounce "\<lambda>raw. eager_pr_update n" "\<lambda>raw. eager_pr_transfer D raw n"
    matrix_need_update row_cell "(!)" "{0..<n}" "vars_shape n 1" "\<lambda>t. t = 0"
    "\<lambda>e v. eager_expire_step e" "eager_transfer_step D"
  for n D
proof unfold_locales
  fix s :: "u8 debounce_vars" and raw :: matrix and e
  assume s: "vars_shape n 1 s"
  then have s0: "vars_shape n 1 (s\<lparr>counters_need_update := False, matrix_need_update := False\<rparr>)"
    and s1: "vars_shape n 1 (s\<lparr>matrix_need_update := False\<rparr>)" by simp_all
  show "vars_shape n 1 (eager_pr_update n e s)"
    using eager_row_expire.shape_loop [OF s0, of "[0..<n]" e] by (simp add: update_defs)
  show "vars_shape n 1 (eager_pr_transfer D raw n s)"
    using eager_row_start.shape_loop [OF s1, of "[0..<n]" D raw] by (simp add: eager_pr_transfer_def)
  fix k assume k: "k \<in> {0..<n}"
  show v: "row_cell (eager_pr_update n e s) k = eager_expire_step e (row_cell s k)"
    using eager_row_expire.cell_loop [OF s0, of "[0..<n]" k, where e = e] k by (auto simp: update_defs)
  show "counters_need_update (eager_pr_update n e s)"
    if "fst (row_cell (eager_pr_update n e s) k) \<noteq> 0"
  proof -
    have "fst (row_cell s k) \<noteq> 0 \<and> \<not> fst (row_cell s k) \<le> e"
      using that unfolding v by (auto simp: step_defs split: if_splits prod.splits)
    then show ?thesis
      using eager_row_expire.raised_by [OF s0, of "[0..<n]" k, where e = e] k by (simp add: update_defs)
  qed
  show w: "row_cell (eager_pr_transfer D raw n s) k = eager_transfer_step D (raw ! k) (row_cell s k)"
    using eager_row_start.cell_loop [OF s1, of "[0..<n]" k, where D = D and raw = raw] k
    by (auto simp: eager_pr_transfer_def)
  show "counters_need_update (eager_pr_transfer D raw n s)"
    if "fst (row_cell s k) \<noteq> 0 \<longrightarrow> counters_need_update s" "fst (row_cell (eager_pr_transfer D raw n s) k) \<noteq> 0"
  proof -
    have "counters_need_update s \<or> raw ! k \<noteq> snd (row_cell s k) \<and> fst (row_cell s k) = 0"
      using that unfolding w by (auto simp: step_defs split: if_splits prod.splits)
    then show ?thesis
      using eager_row_start.raised_by [OF s1, of "[0..<n]" k, where D = D and raw = raw] k
      by (simp add: eager_pr_transfer_def)
  qed
  show "eager_transfer_step D v (row_cell (eager_pr_update n e s) k) = row_cell (eager_pr_update n e s) k"
    if "eager_transfer_step D v (row_cell s k) = row_cell s k" "\<not> matrix_need_update (eager_pr_update n e s)" for v
  proof -
    have "fst (row_cell s k) = 0 \<or> \<not> fst (row_cell s k) \<le> e"
      using that(2) k unfolding eager_row_need_after [OF s] by blast
    then show ?thesis using that(1) unfolding v by (auto simp: step_defs split: if_splits prod.splits)
  qed
qed (auto simp: step_defs update_defs eager_pr_transfer_def fold_frame
    key_bodies_last key_bodies_need split: prod.splits if_splits)

lemma dtime_0_eq: "k\<lparr>dtime := 0\<rparr> = k \<longleftrightarrow> dtime (k :: asym_counter) = 0"
  by (cases k) auto

interpretation asym: counter_debounce "\<lambda>raw. asym_update raw n C" "\<lambda>raw. asym_transfer D raw n C"
    matrix_need_update "key_cell C" raw_key "all_keys n C" "vars_shape n C" "\<lambda>k. dtime k = 0"
    asym_expire_step "asym_transfer_step D"
  for n C D
proof unfold_locales
  fix s :: "asym_counter debounce_vars" and raw :: matrix and e
  assume s: "vars_shape n C s"
  then have s0: "vars_shape n C (s\<lparr>counters_need_update := False, matrix_need_update := False\<rparr>)"
    and s1: "vars_shape n C (s\<lparr>matrix_need_update := False\<rparr>)" by simp_all
  show "vars_shape n C (asym_update raw n C e s)"
    using asym_expire.shape_loop [OF s0, of "key_list n C", where e = e and raw = raw] by (simp add: update_defs)
  show "vars_shape n C (asym_transfer D raw n C s)"
    using asym_start.shape_loop [OF s1, of "key_list n C" D raw] by (simp add: asym_start_product [OF s])
  fix k assume k: "k \<in> all_keys n C"
  show v: "key_cell C (asym_update raw n C e s) k = asym_expire_step e (raw_key raw k) (key_cell C s k)"
    using asym_expire.cell_loop [OF s0, of "key_list n C" k, where e = e and raw = raw] k by (auto simp: update_defs)
  show "counters_need_update (asym_update raw n C e s)"
    if "dtime (fst (key_cell C (asym_update raw n C e s) k)) \<noteq> 0"
  proof -
    have "dtime (fst (key_cell C s k)) \<noteq> 0 \<and> \<not> dtime (fst (key_cell C s k)) \<le> e"
      using that unfolding v by (auto simp: step_defs split: if_splits prod.splits)
    then show ?thesis
      using asym_expire.raised_by [OF s0, of "key_list n C" k, where e = e and raw = raw] k by (simp add: update_defs)
  qed
  show w: "key_cell C (asym_transfer D raw n C s) k = asym_transfer_step D (raw_key raw k) (key_cell C s k)"
    using asym_start.cell_loop [OF s1, of "key_list n C" k, where D = D and raw = raw] k
    by (auto simp: asym_start_product [OF s])
  show "counters_need_update (asym_transfer D raw n C s)"
    if "dtime (fst (key_cell C s k)) \<noteq> 0 \<longrightarrow> counters_need_update s"
      "dtime (fst (key_cell C (asym_transfer D raw n C s) k)) \<noteq> 0"
  proof -
    have "counters_need_update s \<or> raw_key raw k \<noteq> snd (key_cell C s k) \<and> dtime (fst (key_cell C s k)) = 0"
      using that unfolding w by (auto simp: step_defs split: if_splits prod.splits)
    then show ?thesis
      using asym_start.raised_by [OF s1, of "key_list n C" k, where D = D and raw = raw] k
      by (simp add: asym_start_product [OF s])
  qed
  show "asym_transfer_step D v (key_cell C (asym_update raw n C e s) k) = key_cell C (asym_update raw n C e s) k"
    if "asym_transfer_step D v (key_cell C s k) = key_cell C s k" "v = raw_key raw k"
      "\<not> matrix_need_update (asym_update raw n C e s)" for v
  proof -
    have "dtime (fst (key_cell C s k)) = 0 \<or> \<not> dtime (fst (key_cell C s k)) \<le> e \<or> \<not> pressed (fst (key_cell C s k))"
      using that(3) k unfolding asym_need_after [OF s] by blast
    then show ?thesis using that(1,2) unfolding v by (auto simp: step_defs dtime_0_eq split: if_splits prod.splits)
  qed
qed (auto simp: step_defs update_defs asym_transfer_def Let_def fold_frame
    key_bodies_last key_bodies_need split: prod.splits if_splits)

end
