(* ===== verification/Debounce_Keys.thy ===== *)
theory Debounce_Keys
  imports Debounce_Run
begin

unbundle bit_operations_syntax

text \<open>
  The behaviour of a single key under the one-key steps of the counter algorithms, over runs of
  scans: locking after a change (eager), stability before a change (deferred), and settling.
\<close>

definition eager_step :: "u8 \<Rightarrow> nat \<Rightarrow> 'v \<Rightarrow> u8 \<times> 'v \<Rightarrow> u8 \<times> 'v" where
  "eager_step D d v x = eager_transfer_step D v (eager_expire_step (saturate d) x)"

definition defer_step :: "u8 \<Rightarrow> nat \<Rightarrow> bool \<Rightarrow> u8 \<times> bool \<Rightarrow> u8 \<times> bool" where
  "defer_step D d v x = defer_start_step D v (defer_expire_step (saturate d) v x)"

definition asym_step :: "u8 \<Rightarrow> nat \<Rightarrow> bool \<Rightarrow> asym_counter \<times> bool \<Rightarrow> asym_counter \<times> bool" where
  "asym_step D d v x = asym_transfer_step D v (asym_expire_step (saturate d) v x)"

lemmas key_step_defs = eager_step_def defer_step_def asym_step_def step_defs

lemma le_saturate: "(c :: u8) \<le> saturate d \<longleftrightarrow> unat c \<le> d"
  using unat_u8 [of c] by (auto simp: word_le_nat_alt unat_saturate)

lemma saturate_le [simp]: "unat (saturate d) \<le> d"
  by (simp add: unat_saturate)

lemma unat_minus_saturate: "\<not> (c :: u8) \<le> saturate d \<Longrightarrow> unat (c - saturate d) = unat c - d"
  using unat_u8 [of c]
  by (subst unat_sub) (auto simp: word_le_nat_alt unat_saturate)

text \<open>The one-key steps over the milliseconds that are left of the counter.\<close>

lemma eager_step_result:
  "eager_step D d v (c, w) =
    (if unat c \<le> d then (if v \<noteq> w then (D, v) else (0, w)) else (c - saturate d, w))"
  by (auto simp: key_step_defs le_saturate)

lemma defer_step_result:
  "defer_step D d v (c, w) =
    (if c = 0 then (if v \<noteq> w then (D, w) else (0, w))
     else if unat c \<le> d then (0, v)
     else if v \<noteq> w then (c - saturate d, w) else (0, w))"
  by (auto simp: key_step_defs le_saturate)

section \<open>Locking and settling\<close>

lemma eager_locked:
  "times_ok T xs \<Longrightarrow> \<forall>x\<in>set xs. fst x < T + unat c \<Longrightarrow>
    snd (snd (key_run (eager_step D) xs (T, (c, w)))) = w"
proof (induction xs arbitrary: T c)
  case (Cons x xs)
  obtain t v where x: "x = (t, v)" by (cases x)
  have t: "T \<le> t" "t - T < unat c" "\<not> c \<le> saturate (t - T)"
    using Cons.prems x by (auto simp: le_saturate)
  then have "\<forall>y\<in>set xs. fst y < t + unat (c - saturate (t - T))"
    using Cons.prems(2) by (auto simp: unat_minus_saturate)
  then show ?case using Cons.IH [of t "c - saturate (t - T)"] Cons.prems(1) x t(2)
    by (simp add: eager_step_result)
qed simp

lemma eager_same:
  "\<forall>x\<in>set xs. snd x = v \<Longrightarrow> snd (snd (key_run (eager_step D) xs (T, (c, v)))) = v"
  by (induction xs arbitrary: T c) (auto simp: eager_step_result)

lemma defer_same:
  "\<forall>x\<in>set xs. snd x = v \<Longrightarrow> snd (snd (key_run (defer_step D) xs (T, (c, v)))) = v"
proof (induction xs arbitrary: T c)
  case (Cons x xs)
  then show ?case by (cases x) (simp add: defer_step_result)
qed simp

lemma eager_counter_le:
  "c \<le> D \<Longrightarrow> fst (snd (key_run (eager_step D) xs (T, (c, w)))) \<le> D"
proof (induction xs arbitrary: T c w)
  case (Cons x xs)
  have "fst (eager_step D d v (c, w)) \<le> D" for d v
  proof (cases "c \<le> saturate d")
    case False
    then have "unat (c - saturate d) \<le> unat D"
      using unat_minus_saturate [OF False] Cons.prems by (simp add: word_le_nat_alt)
    then show ?thesis by (auto simp: eager_step_result word_le_nat_alt)
  qed (auto simp: eager_step_result le_saturate)
  then show ?case using Cons.IH by (cases x) (metis key_run_simps(2) prod.collapse)
qed simp

lemma eager_settles:
  "times_ok T xs \<Longrightarrow> \<forall>x\<in>set xs. snd x = v \<Longrightarrow> c \<noteq> 0 \<Longrightarrow> T + unat c \<le> last_of T xs \<Longrightarrow>
    snd (snd (key_run (eager_step D) xs (T, (c, w)))) = v"
proof (induction xs arbitrary: T c)
  case Nil
  then show ?case by (simp add: last_of_def unat_eq_zero)
next
  case (Cons x xs)
  obtain t u where x: "x = (t, u)" by (cases x)
  have u: "u = v" and t: "T \<le> t" "times_ok t xs" "last_of T (x # xs) = last_of t xs"
    using Cons.prems x by (auto simp: last_of_def)
  show ?case
  proof (cases "unat c \<le> t - T")
    case True
    then show ?thesis using eager_same [of xs v D t] Cons.prems(2) by (auto simp: x u eager_step_result)
  next
    case False
    then have c: "\<not> c \<le> saturate (t - T)" by (simp add: le_saturate)
    then have "unat (c - saturate (t - T)) = unat c - (t - T)" "c \<noteq> saturate (t - T)"
      by (auto simp: unat_minus_saturate)
    then show ?thesis
      using Cons.IH [of t "c - saturate (t - T)"] Cons.prems(2,4) t False x
      by (auto simp: eager_step_result)
  qed
qed

lemma defer_settles:
  "times_ok T xs \<Longrightarrow> \<forall>x\<in>set xs. snd x = v \<Longrightarrow> c \<noteq> 0 \<Longrightarrow> T + unat c \<le> last_of T xs \<Longrightarrow>
    snd (snd (key_run (defer_step D) xs (T, (c, w)))) = v"
proof (induction xs arbitrary: T c)
  case Nil
  then show ?case by (simp add: last_of_def unat_eq_zero)
next
  case (Cons x xs)
  obtain t u where x: "x = (t, u)" by (cases x)
  have u: "u = v" and t: "T \<le> t" "times_ok t xs" "last_of T (x # xs) = last_of t xs"
    using Cons.prems x by (auto simp: last_of_def)
  show ?case
  proof (cases "unat c \<le> t - T \<or> v = w")
    case True
    then show ?thesis using defer_same [of xs v D t] Cons.prems(2,3) by (auto simp: x u defer_step_result)
  next
    case False
    then have c: "\<not> c \<le> saturate (t - T)" by (simp add: le_saturate)
    then have "unat (c - saturate (t - T)) = unat c - (t - T)" "c \<noteq> saturate (t - T)"
      by (auto simp: unat_minus_saturate)
    then show ?thesis
      using Cons.IH [of t "c - saturate (t - T)"] Cons.prems(2-4) t False x
      by (auto simp: defer_step_result)
  qed
qed

section \<open>Stability before a change\<close>

text \<open>The last scans from \<open>t0\<close> on have the value \<open>v\<close>.\<close>

definition stable_since :: "nat \<Rightarrow> 'v \<Rightarrow> (nat \<times> 'v) list \<Rightarrow> bool" where
  "stable_since t0 v xs \<longleftrightarrow> (\<exists>ys zs. xs = ys @ (t0, v) # zs \<and> (\<forall>x\<in>set zs. snd x = v))"

lemma stable_since_snoc: "stable_since t0 v xs \<Longrightarrow> stable_since t0 v (xs @ [(t, v)])"
proof -
  assume "stable_since t0 v xs"
  then obtain ys zs where "xs = ys @ (t0, v) # zs" "\<forall>x\<in>set zs. snd x = v" by (auto simp: stable_since_def)
  then show ?thesis unfolding stable_since_def by (intro exI [of _ ys] exI [of _ "zs @ [(t, v)]"]) simp
qed

lemma stable_since_here: "stable_since t v (xs @ [(t, v)])"
  unfolding stable_since_def by (intro exI [of _ xs] exI [of _ "[]"]) simp

lemma stable_since_le: "stable_since t0 v xs \<Longrightarrow> times_ok T xs \<Longrightarrow> t0 \<le> last_of T xs"
proof -
  assume "stable_since t0 v xs" "times_ok T xs"
  then obtain ys zs where xs: "xs = ys @ (t0, v) # zs" by (auto simp: stable_since_def)
  then have "times_ok t0 zs" using \<open>times_ok T xs\<close> by (simp add: times_ok_append)
  moreover have "last_of T xs = last_of t0 zs" by (simp add: xs last_of_def)
  ultimately show ?thesis by (metis times_ok_ge last_of_def last_in_set order_refl prod.collapse)
qed

lemma defer_counting:
  "times_ok T xs \<Longrightarrow> key_run (defer_step D) xs (T, (0, w0)) = (t, (c, w)) \<Longrightarrow> c \<noteq> 0 \<Longrightarrow>
    \<exists>t0. stable_since t0 (\<not> w) xs \<and> unat D + t0 \<le> t + unat c \<and> unat c \<le> unat D"
proof (induction xs arbitrary: t c w rule: rev_induct)
  case (snoc x xs)
  obtain t' v where x: "x = (t', v)" by (cases x)
  obtain T' c' w' where prev: "key_run (defer_step D) xs (T, (0, w0)) = (T', (c', w'))"
    by (metis prod.collapse)
  have step: "t = t'" "(c, w) = defer_step D (t' - T') v (c', w')"
    using snoc.prems(2) by (auto simp: x key_run_snoc prev)
  have T': "T' \<le> t'" using snoc.prems(1) fst_key_run [of "defer_step D" xs T "(0, w0)"] prev
    by (simp add: x times_ok_append)
  show ?case
  proof (cases "c' = 0")
    case True
    then show ?thesis using step snoc.prems(3) stable_since_here [of t' v xs]
      by (intro exI [of _ t']) (auto simp: x defer_step_result split: if_splits)
  next
    case False
    then have c: "\<not> unat c' \<le> t' - T'" "v = (\<not> w)" "w = w'" "c = c' - saturate (t' - T')"
      using step snoc.prems(3) by (auto simp: defer_step_result split: if_splits)
    then have "unat c = unat c' - (t' - T')" using unat_minus_saturate [of c' "t' - T'"] by (simp add: le_saturate)
    moreover obtain t0 where "stable_since t0 (\<not> w') xs" "unat D + t0 \<le> T' + unat c'" "unat c' \<le> unat D"
      using snoc.IH [OF _ prev False] snoc.prems(1) by (auto simp: times_ok_append)
    ultimately show ?thesis using c step T' stable_since_snoc [of t0 "\<not> w" xs t']
      by (intro exI [of _ t0]) (auto simp: x)
  qed
qed simp

lemma defer_change:
  assumes "times_ok T (xs @ [(t, v)])"
    and "snd (snd (key_run (defer_step D) (xs @ [(t, v)]) (T, (0, w0)))) \<noteq> snd (snd (key_run (defer_step D) xs (T, (0, w0))))"
  shows "\<exists>t0. stable_since t0 v (xs @ [(t, v)]) \<and> t0 + unat D \<le> t \<and>
    snd (snd (key_run (defer_step D) (xs @ [(t, v)]) (T, (0, w0)))) = v"
proof -
  obtain T' c w where prev: "key_run (defer_step D) xs (T, (0, w0)) = (T', (c, w))" by (metis prod.collapse)
  have T': "T' \<le> t" using assms(1) fst_key_run [of "defer_step D" xs T "(0, w0)"] prev
    by (simp add: times_ok_append)
  have c: "c \<noteq> 0" "unat c \<le> t - T'" "v \<noteq> w"
    using assms(2) by (auto simp: key_run_snoc prev defer_step_result split: if_splits)
  obtain t0 where "stable_since t0 (\<not> w) xs" "unat D + t0 \<le> T' + unat c" "unat c \<le> unat D"
    using defer_counting [OF _ prev c(1)] assms(1) by (auto simp: times_ok_append)
  then show ?thesis using c T' stable_since_snoc [of t0 v xs t]
    by (intro exI [of _ t0]) (auto simp: key_run_snoc prev defer_step_result)
qed

section \<open>The asymmetric key\<close>

lemma asym_step_result:
  "asym_step D d r (k, v) =
    (if dtime k = 0 then (if r \<noteq> v then (\<lparr>pressed = r, dtime = D\<rparr>, True) else (k, v))
     else if unat (dtime k) \<le> d then
       (if pressed k then (if r \<noteq> v then (\<lparr>pressed = r, dtime = D\<rparr>, True) else (k\<lparr>dtime := 0\<rparr>, v))
        else (k\<lparr>dtime := 0\<rparr>, r))
     else if r \<noteq> v \<or> pressed k then (k\<lparr>dtime := dtime k - saturate d\<rparr>, v) else (k\<lparr>dtime := 0\<rparr>, v))"
  by (auto simp: key_step_defs le_saturate)

lemma asym_inv:
  "times_ok T xs \<Longrightarrow> dtime k0 = 0 \<Longrightarrow> key_run (asym_step D) xs (T, (k0, v0)) = (t, (k, v)) \<Longrightarrow> dtime k \<noteq> 0 \<Longrightarrow>
    v \<and> (\<not> pressed k \<longrightarrow> (\<exists>t0. stable_since t0 False xs \<and> unat D + t0 \<le> t + unat (dtime k) \<and>
      unat (dtime k) \<le> unat D))"
proof (induction xs arbitrary: t k v rule: rev_induct)
  case (snoc x xs)
  obtain t' r where x: "x = (t', r)" by (cases x)
  obtain T' k' v' where prev: "key_run (asym_step D) xs (T, (k0, v0)) = (T', (k', v'))"
    by (metis prod.collapse)
  have step: "t = t'" "asym_step D (t' - T') r (k', v') = (k, v)"
    using snoc.prems(3) by (auto simp: x key_run_snoc prev)
  have T': "T' \<le> t'" using snoc.prems(1) fst_key_run [of "asym_step D" xs T "(k0, v0)"] prev
    by (simp add: x times_ok_append)
  have IH: "v' \<and> (\<not> pressed k' \<longrightarrow> (\<exists>t0. stable_since t0 False xs \<and> unat D + t0 \<le> T' + unat (dtime k') \<and>
      unat (dtime k') \<le> unat D))" if "dtime k' \<noteq> 0"
    using snoc.IH [OF _ snoc.prems(2) prev that] snoc.prems(1) by (simp add: times_ok_append)
  show ?case
  proof (cases "dtime k' \<noteq> 0 \<and> \<not> unat (dtime k') \<le> t' - T'")
    case True
    then have k: "r \<noteq> v' \<or> pressed k'" "k = k'\<lparr>dtime := dtime k' - saturate (t' - T')\<rparr>" "v = v'"
      using step(2) snoc.prems(4) by (auto simp: asym_step_result split: if_splits)
    have "unat (dtime k) = unat (dtime k') - (t' - T')"
      using True unat_minus_saturate [of "dtime k'" "t' - T'"] by (simp add: k(2) le_saturate)
    then show ?thesis using IH True k T' stable_since_snoc [of _ False xs t'] by (force simp: x step(1))
  next
    case False
    then have "k = \<lparr>pressed = r, dtime = D\<rparr> \<and> v" using step(2) snoc.prems(4)
      by (auto simp: asym_step_result split: if_splits)
    then show ?thesis using stable_since_here [of t' False xs] by (auto simp: x step(1) intro!: exI [of _ t'])
  qed
qed simp

lemma asym_press:
  assumes "times_ok T (xs @ [(t, True)])" "dtime k0 = 0"
  shows "snd (snd (key_run (asym_step D) (xs @ [(t, True)]) (T, (k0, v0))))"
proof -
  obtain T' k v where prev: "key_run (asym_step D) xs (T, (k0, v0)) = (T', (k, v))" by (metis prod.collapse)
  have "dtime k \<noteq> 0 \<Longrightarrow> v" using asym_inv [OF _ assms(2) prev] assms(1) by (simp add: times_ok_append)
  then show ?thesis by (auto simp: key_run_snoc prev asym_step_result)
qed

lemma asym_release:
  assumes "times_ok T (xs @ [(t, r)])" "dtime k0 = 0"
    and "snd (snd (key_run (asym_step D) xs (T, (k0, v0))))"
    and "\<not> snd (snd (key_run (asym_step D) (xs @ [(t, r)]) (T, (k0, v0))))"
  shows "\<exists>t0. stable_since t0 False (xs @ [(t, r)]) \<and> t0 + unat D \<le> t"
proof -
  obtain T' k v where prev: "key_run (asym_step D) xs (T, (k0, v0)) = (T', (k, v))" by (metis prod.collapse)
  have T': "T' \<le> t" using assms(1) fst_key_run [of "asym_step D" xs T "(k0, v0)"] prev
    by (simp add: times_ok_append)
  have k: "dtime k \<noteq> 0" "unat (dtime k) \<le> t - T'" "\<not> pressed k" "\<not> r"
    using assms(3,4) by (auto simp: key_run_snoc prev asym_step_result split: if_splits)
  then obtain t0 where "stable_since t0 False xs" "unat D + t0 \<le> T' + unat (dtime k)" "unat (dtime k) \<le> unat D"
    using asym_inv [OF _ assms(2) prev] assms(1) by (auto simp: times_ok_append)
  then show ?thesis using k T' stable_since_snoc [of t0 False xs t] by (intro exI [of _ t0]) auto
qed

end
