(* ===== verification/Debounce_Props.thy ===== *)
theory Debounce_Props
  imports Debounce_Keys
begin

unbundle bit_operations_syntax

text \<open>
  The properties of the debounce algorithms, from the boot of the keyboard: all counters idle, both
  matrices without a pressed key.
\<close>

definition boot_vars :: "'c list \<Rightarrow> nat \<Rightarrow> 'c debounce_vars" where
  "boot_vars cs n = \<lparr>debounce_counters = cs, last_time = 0, counters_need_update = False,
     matrix_need_update = False, cooked_changed = False, cooked = replicate n 0\<rparr>"

definition run_defer_pk :: "u8 \<Rightarrow> nat \<Rightarrow> nat \<Rightarrow> (nat \<times> matrix) list \<Rightarrow> u8 debounce_vars" where
  "run_defer_pk D n C xs = snd (debounce_run (debounce_sym_defer_pk D n C) xs
     (replicate n 0, defer_pk_init n C (boot_vars [] n)))"

definition run_eager_pk :: "u8 \<Rightarrow> nat \<Rightarrow> nat \<Rightarrow> (nat \<times> matrix) list \<Rightarrow> u8 debounce_vars" where
  "run_eager_pk D n C xs = snd (debounce_run (debounce_sym_eager_pk D n C) xs
     (replicate n 0, eager_pk_init n C (boot_vars [] n)))"

definition run_eager_pr :: "u8 \<Rightarrow> nat \<Rightarrow> (nat \<times> matrix) list \<Rightarrow> u8 debounce_vars" where
  "run_eager_pr D n xs = snd (debounce_run (debounce_sym_eager_pr D n) xs
     (replicate n 0, eager_pr_init n (boot_vars [] n)))"

text \<open>The fields \<open>pressed\<close> of the counters are what \<open>malloc\<close> returned.\<close>

definition run_asym ::
    "u8 \<Rightarrow> nat \<Rightarrow> nat \<Rightarrow> bool list \<Rightarrow> (nat \<times> matrix) list \<Rightarrow> asym_counter debounce_vars" where
  "run_asym D n C junk xs = snd (debounce_run (debounce_asym_eager_defer_pk D n C) xs
     (replicate n 0, asym_init junk (boot_vars [] n)))"

definition reported :: "'c debounce_vars \<Rightarrow> nat \<times> nat \<Rightarrow> bool" where
  "reported s = (\<lambda>(r, c). bit (cooked s ! r) c)"

abbreviation key_input :: "nat \<times> nat \<Rightarrow> (nat \<times> matrix) list \<Rightarrow> (nat \<times> bool) list" where
  "key_input k xs \<equiv> key_scans (\<lambda>raw. raw_key raw k) xs"

lemma reported_cell: "reported s k = snd (key_cell C s k)"
  by (simp add: reported_def key_cell_def split: prod.split)

lemma boot_cell:
  "k \<in> all_keys n C \<Longrightarrow> length cs = n * C \<Longrightarrow>
    key_cell C (boot_vars cs n) k = (cs ! (fst k * C + snd k), False)"
  by (auto simp: key_cell_def boot_vars_def)

lemma boot_init:
  "defer_pk_init n C (boot_vars [] n) = boot_vars (replicate (n * C) 0) n"
  "eager_pk_init n C (boot_vars [] n) = boot_vars (replicate (n * C) 0) n"
  "eager_pr_init n (boot_vars [] n) = boot_vars (replicate n 0) n"
  "asym_init junk (boot_vars [] n) = boot_vars (map (\<lambda>p. \<lparr>pressed = p, dtime = 0\<rparr>) junk) n"
  by (simp_all add: defer_pk_init_def eager_pk_init_def eager_pr_init_def asym_init_def boot_vars_def)

lemma boot_raw: "k \<in> all_keys n C \<Longrightarrow> raw_key (replicate n 0) k = False"
  by (auto simp: raw_key_def)

lemma two_phase_forms:
  "debounce_sym_defer_pk D n C = two_phase (\<lambda>raw. defer_pk_update raw n C) (\<lambda>raw. defer_pk_start D raw n C) (\<lambda>_. False)"
  "debounce_sym_eager_pk D n C = two_phase (\<lambda>raw. eager_pk_update n C) (\<lambda>raw. eager_pk_transfer D raw n C) matrix_need_update"
  "debounce_sym_eager_pr D n = two_phase (\<lambda>raw. eager_pr_update n) (\<lambda>raw. eager_pr_transfer D raw n) matrix_need_update"
  "debounce_asym_eager_defer_pk D n C = two_phase (\<lambda>raw. asym_update raw n C) (\<lambda>raw. asym_transfer D raw n C) matrix_need_update"
  by (simp_all add: fun_eq_iff two_phase_def debounce_sym_defer_pk_def debounce_sym_eager_pk_def
      debounce_sym_eager_pr_def debounce_asym_eager_defer_pk_def)

lemma boot_shape: "length cs = n * C \<Longrightarrow> vars_shape n C (boot_vars cs n)"
  by (simp add: vars_shape_def boot_vars_def)

lemma boot_flags:
  "\<not> counters_need_update (boot_vars cs n)" "\<not> matrix_need_update (boot_vars cs n)"
  by (simp_all add: boot_vars_def)

lemmas boot_simps = boot_cell boot_raw boot_shape boot_flags boot_init key_index_less two_phase_forms

lemma run_eager_pk_key:
  assumes "times_ok 0 xs" "k \<in> all_keys n C"
  shows "reported (run_eager_pk D n C xs) k = snd (snd (key_run (eager_step D) (key_input k xs) (0, (0, False))))"
proof -
  have "eager_pk.key_step D = eager_step D" by (simp add: fun_eq_iff eager_pk.key_step_def eager_step_def)
  moreover have "eager_pk.ready C n D 0 (replicate n 0) (boot_vars (replicate (n * C) 0) n)"
    by (auto simp: eager_pk.ready_def boot_simps eager_transfer_step_def)
  ultimately show ?thesis
    using eager_pk.run_is_key_run [of C n D 0 "replicate n 0" _ xs] assms
    by (auto simp: run_eager_pk_def reported_cell [of _ _ C] boot_simps)
qed

lemma run_defer_pk_key:
  assumes "times_ok 0 xs" "k \<in> all_keys n C"
  shows "reported (run_defer_pk D n C xs) k = snd (snd (key_run (defer_step D) (key_input k xs) (0, (0, False))))"
proof -
  have "defer_pk.key_step D = defer_step D" by (simp add: fun_eq_iff defer_pk.key_step_def defer_step_def)
  moreover have "defer_pk.ready C n D 0 (replicate n 0) (boot_vars (replicate (n * C) 0) n)"
    by (auto simp: defer_pk.ready_def boot_simps defer_start_step_def)
  ultimately show ?thesis
    using defer_pk.run_is_key_run [of C n D 0 "replicate n 0" _ xs] assms
    by (auto simp: run_defer_pk_def reported_cell [of _ _ C] boot_simps)
qed

lemma run_asym_key:
  assumes "times_ok 0 xs" "k \<in> all_keys n C" "length junk = n * C"
  shows "reported (run_asym D n C junk xs) k = snd (snd (key_run (asym_step D) (key_input k xs)
    (0, (\<lparr>pressed = junk ! (fst k * C + snd k), dtime = 0\<rparr>, False))))"
proof -
  have "asym.key_step D = asym_step D" by (simp add: fun_eq_iff asym.key_step_def asym_step_def)
  moreover have "asym.ready C n D 0 (replicate n 0) (boot_vars (map (\<lambda>p. \<lparr>pressed = p, dtime = 0\<rparr>) junk) n)"
    using assms(3) by (auto simp: asym.ready_def boot_simps asym_transfer_step_def)
  ultimately show ?thesis
    using asym.run_is_key_run [of C n D 0 "replicate n 0" _ xs] assms
    by (auto simp: run_asym_def reported_cell [of _ _ C] boot_simps)
qed

section \<open>Properties\<close>

text \<open>C12: a key that the eager algorithm has just reported as changed keeps the reported value for
  \<open>DEBOUNCE\<close> milliseconds, whatever its contact does: a bounce causes no second change.\<close>

theorem eager_key_is_locked:
  assumes "times_ok 0 (xs @ (t, raw) # ys)" "k \<in> all_keys n C"
    and "reported (run_eager_pk D n C (xs @ [(t, raw)])) k \<noteq> reported (run_eager_pk D n C xs) k"
    and "\<forall>y\<in>set ys. fst y < t + unat D"
  shows "reported (run_eager_pk D n C (xs @ (t, raw) # ys)) k = reported (run_eager_pk D n C (xs @ [(t, raw)])) k"
proof -
  have ok: "times_ok 0 xs" "times_ok 0 (xs @ [(t, raw)])" "times_ok t ys" using assms(1) by (auto simp: times_ok_append)
  obtain T c w where prev: "key_run (eager_step D) (key_input k xs) (0, (0, False)) = (T, (c, w))"
    by (metis prod.collapse)
  have now: "key_run (eager_step D) (key_input k (xs @ [(t, raw)])) (0, (0, False)) = (t, (D, raw_key raw k))"
    using assms(3) by (auto simp: run_eager_pk_key ok assms(2) key_run_snoc prev eager_step_result split: if_splits)
  have "\<forall>y\<in>set (key_input k ys). fst y < t + unat D" using assms(4) by (auto simp: key_scans_def)
  then have "snd (snd (key_run (eager_step D) (key_input k ys) (t, (D, raw_key raw k)))) = raw_key raw k"
    using ok(3) by (intro eager_locked) simp_all
  moreover have "key_input k (xs @ (t, raw) # ys) = key_input k (xs @ [(t, raw)]) @ key_input k ys" by simp
  ultimately show ?thesis
    by (simp only: run_eager_pk_key [OF assms(1,2)] run_eager_pk_key [OF ok(2) assms(2)] key_run_append now snd_conv)
qed

text \<open>C13: a contact that stays at one value for \<open>DEBOUNCE\<close> milliseconds is reported with that value by
  the eager algorithm: the lock of an earlier change has run out and the missed change is made up
  for, although no further change of the matrix triggers it.\<close>

theorem eager_key_settles:
  assumes "times_ok 0 (xs @ (t, raw) # ys)" "k \<in> all_keys n C" "0 < D"
    and "\<forall>y\<in>set ys. raw_key (snd y) k = raw_key raw k" "t + unat D \<le> last_of t ys"
  shows "reported (run_eager_pk D n C (xs @ (t, raw) # ys)) k = raw_key raw k"
proof -
  have ok: "times_ok t ys" using assms(1) by (auto simp: times_ok_append)
  obtain T c w where prev: "key_run (eager_step D) (key_input k xs) (0, (0, False)) = (T, (c, w))"
    by (metis prod.collapse)
  have c: "unat c \<le> unat D"
    using eager_counter_le [of 0 D "key_input k xs" 0 False] prev by (simp add: word_le_nat_alt)
  have same: "\<forall>y\<in>set (key_input k ys). snd y = raw_key raw k" using assms(4) by (auto simp: key_scans_def)
  have "snd (snd (key_run (eager_step D) (key_input k ys) (t, eager_step D (t - T) (raw_key raw k) (c, w)))) = raw_key raw k"
  proof (cases "unat c \<le> t - T")
    case True
    then show ?thesis using eager_same [OF same] by (auto simp: eager_step_result)
  next
    case False
    then have "\<not> c \<le> saturate (t - T)" by (simp add: le_saturate)
    then have "c - saturate (t - T) \<noteq> 0" "t + unat (c - saturate (t - T)) \<le> last_of t (key_input k ys)"
      using unat_minus_saturate [of c "t - T"] assms(5) c by auto
    then have "snd (snd (key_run (eager_step D) (key_input k ys) (t, (c - saturate (t - T), w)))) = raw_key raw k"
      using ok same by (intro eager_settles) simp_all
    then show ?thesis using False by (simp add: eager_step_result)
  qed
  then show ?thesis
    by (simp add: run_eager_pk_key [OF assms(1,2)] key_run_append prev)
qed

text \<open>C14: the deferred algorithm reports a change of a key only when its contact has had the new value
  in every scan of the last \<open>DEBOUNCE\<close> milliseconds, and it does report a value that was stable for
  \<open>DEBOUNCE\<close> milliseconds.\<close>

theorem deferred_key_is_stable:
  assumes "times_ok 0 (xs @ [(t, raw)])" "k \<in> all_keys n C"
    and "reported (run_defer_pk D n C (xs @ [(t, raw)])) k \<noteq> reported (run_defer_pk D n C xs) k"
  shows "\<exists>t0. t0 + unat D \<le> t \<and>
    stable_since t0 (reported (run_defer_pk D n C (xs @ [(t, raw)])) k) (key_input k (xs @ [(t, raw)]))"
proof -
  have ok: "times_ok 0 xs" using assms(1) by (simp add: times_ok_append)
  have "times_ok 0 (key_input k xs @ [(t, raw_key raw k)])" using assms(1) by (simp add: times_ok_append)
  from defer_change [OF this, of D False] show ?thesis
    using assms(3) by (auto simp: run_defer_pk_key [OF assms(1,2)] run_defer_pk_key [OF ok assms(2)])
qed

text \<open>The asymmetric algorithm reports a pressed key in the very scan that sees its contact closed,
  in every state of the key.\<close>

lemma press_is_reported_at_once:
  assumes "times_ok 0 (xs @ [(t, raw)])" "k \<in> all_keys n C" "length junk = n * C" "raw_key raw k"
  shows "reported (run_asym D n C junk (xs @ [(t, raw)])) k"
proof -
  have "times_ok 0 (key_input k xs @ [(t, True)])" using assms(1) by (simp add: times_ok_append)
  from asym_press [OF this] show ?thesis
    using assms(4) by (simp add: run_asym_key [OF assms(1-3)])
qed

text \<open>The asymmetric algorithm reports a release only when the contact was open in every scan of
  the last \<open>DEBOUNCE\<close> milliseconds.\<close>

lemma release_is_stable:
  assumes "times_ok 0 (xs @ [(t, raw)])" "k \<in> all_keys n C" "length junk = n * C"
    and "reported (run_asym D n C junk xs) k" "\<not> reported (run_asym D n C junk (xs @ [(t, raw)])) k"
  shows "\<exists>t0. t0 + unat D \<le> t \<and> stable_since t0 False (key_input k (xs @ [(t, raw)]))"
proof -
  have ok: "times_ok 0 xs" using assms(1) by (simp add: times_ok_append)
  have "times_ok 0 (key_input k xs @ [(t, raw_key raw k)])" using assms(1) by (simp add: times_ok_append)
  from asym_release [OF this, of "\<lparr>pressed = junk ! (fst k * C + snd k), dtime = 0\<rparr>" D False] show ?thesis
    using assms(4,5) by (auto simp: run_asym_key [OF assms(1-3)] run_asym_key [OF ok assms(2,3)])
qed

section \<open>Witnesses\<close>

text \<open>A keyboard with one key; at 10 ms the contact closes, at 12 ms it bounces, from 14 ms on it is closed.\<close>

definition bounce :: "(nat \<times> matrix) list" where
  "bounce = [(10, [1]), (12, [0]), (14, [1]), (20, [1])]"

lemmas run_simps = bounce_def debounce_run_def scan_one_def boot_vars_def defer_pk_init_def eager_pk_init_def asym_init_def reported_def
  update_phase_def set_last_def clamp_elapsed_def col_mask_def Let_def

theorem eager_key_is_locked_witness:
  "reported (run_eager_pk 5 1 1 [(10, [1]), (12, [0]), (14, [1])]) (0, 0) = reported (run_eager_pk 5 1 1 [(10, [1])]) (0, 0)"
  using eager_key_is_locked [of "[]" 10 "[1]" "[(12, [0]), (14, [1])]" "(0, 0)" 1 1 5]
  by (simp add: run_eager_pk_def run_simps debounce_sym_eager_pk_def eager_pk_transfer_def
      eager_pk_transfer_row_def eager_pk_transfer_key_def)

theorem eager_key_settles_witness:
  "reported (run_eager_pk 5 1 1 [(10, [1]), (12, [0]), (14, [0]), (17, [0])]) (0, 0) = False"
  using eager_key_settles [of "[(10, [1])]" 12 "[0]" "[(14, [0]), (17, [0])]" "(0, 0)" 1 1 5]
  by (simp add: raw_key_def last_of_def)

theorem deferred_key_is_stable_witness:
  "\<exists>t0. t0 + 5 \<le> 20 \<and> stable_since t0 True [(10, True), (12, False), (14, True), (20, True)]"
  using deferred_key_is_stable [of "[(10, [1]), (12, [0]), (14, [1])]" 20 "[1]" "(0, 0)" 1 1 5]
  by (simp add: run_defer_pk_def run_simps debounce_sym_defer_pk_def defer_pk_start_def defer_pk_start_key_def
      defer_pk_update_def for_keys_def defer_pk_expire_key_def raw_key_def)

lemma press_is_reported_at_once_witness:
  "reported (run_asym 5 1 1 [True] [(10, [1]), (12, [0]), (14, [1])]) (0, 0)"
  using press_is_reported_at_once [of "[(10, [1]), (12, [0])]" 14 "[1]" "(0, 0)" 1 1 "[True]" 5]
  by (simp add: raw_key_def)

lemma release_is_stable_witness:
  "\<exists>t0. t0 + 5 \<le> 27 \<and> stable_since t0 False [(10, True), (21, False), (27, False)]"
  using release_is_stable [of "[(10, [1]), (21, [0])]" 27 "[0]" "(0, 0)" 1 1 "[True]" 5]
  by (simp add: run_asym_def run_simps debounce_asym_eager_defer_pk_def asym_transfer_def asym_transfer_key_def
      asym_update_def for_keys_def asym_expire_key_def raw_key_def)

end
