(* ===== verification/Debounce_Rows.thy ===== *)
theory Debounce_Rows
  imports Debounce_Props
begin

unbundle bit_operations_syntax

text \<open>
  The algorithms without a counter per key: the row-wise deferred algorithm, whose loop is local to
  a row, and the global one.
\<close>

section \<open>Rows\<close>

definition pr_cell :: "defer_pr_vars \<Rightarrow> nat \<Rightarrow> u8 \<times> u32 \<times> u32" where
  "pr_cell s r = (countdowns s ! r, last_raw s ! r, pr_cooked s ! r)"

definition pr_shape :: "nat \<Rightarrow> defer_pr_vars \<Rightarrow> bool" where
  "pr_shape n s \<longleftrightarrow> length (countdowns s) = n \<and> length (last_raw s) = n \<and> length (pr_cooked s) = n"

definition pr_step :: "u8 \<Rightarrow> u8 \<Rightarrow> u32 \<Rightarrow> u8 \<times> u32 \<times> u32 \<Rightarrow> u8 \<times> u32 \<times> u32" where
  "pr_step D e raw = (\<lambda>(c, l, v). if raw \<noteq> l then (D, raw, v)
     else if c > e then (c - e, l, v) else if c \<noteq> 0 then (0, l, raw) else (c, l, v))"

lemma xor_eq_0: "x XOR y = 0 \<longleftrightarrow> x = (y :: u32)"
  by (auto simp: bit_eq_iff bit_xor_iff)

lemma run_snoc:
  obtains changed where "snd (debounce_run deb (xs @ [(t, raw)]) ps) = deb (of_nat t) raw changed (snd (debounce_run deb xs ps))"
  by (cases "debounce_run deb xs ps") (auto simp: debounce_run_append, simp add: debounce_run_def scan_one_def)

interpretation defer_rows: key_loop "defer_pr_row D e raw" pr_cell "\<lambda>r. pr_step D e (raw ! r)" "pr_shape n"
    "{0..<n}" pr_cooked_changed
    "\<lambda>r (c, l, v). raw ! r = l \<and> \<not> c > e \<and> c \<noteq> 0 \<and> v \<noteq> raw ! r"
  for D e raw n
  by unfold_locales (auto simp: defer_pr_row_def pr_cell_def pr_shape_def pr_step_def Let_def nth_list_update
      xor_eq_0 split: if_splits)

definition run_defer_pr :: "u8 \<Rightarrow> nat \<Rightarrow> (nat \<times> matrix) list \<Rightarrow> defer_pr_vars" where
  "run_defer_pr D n xs = snd (debounce_run (\<lambda>now. debounce_sym_defer_pr D n (ucast now)) xs
     (replicate n 0, defer_pr_init n 0 (replicate n 0)))"

definition elapsed_pr :: "u16 \<Rightarrow> u8" where
  "elapsed_pr x = (if x > 255 then 255 else ucast x)"

lemma elapsed_pr_le: "T \<le> t \<Longrightarrow> unat (elapsed_pr (of_nat t - of_nat T)) \<le> t - T"
proof -
  assume T: "T \<le> t"
  then have "(of_nat t - of_nat T :: u16) = of_nat (t - T)" by (simp add: of_nat_diff)
  then have u: "unat (of_nat t - of_nat T :: u16) \<le> t - T" by (simp add: unsigned_of_nat)
  show ?thesis
  proof (cases "(of_nat t - of_nat T :: u16) > 255")
    case True
    then show ?thesis using u by (simp add: elapsed_pr_def word_less_nat_alt)
  next
    case False
    have "unat (ucast (of_nat t - of_nat T :: u16) :: u8) \<le> unat (of_nat t - of_nat T :: u16)"
      by (simp add: unsigned_ucast_eq)
    then show ?thesis using False u by (simp add: elapsed_pr_def)
  qed
qed

definition row_reported :: "u8 \<Rightarrow> nat \<Rightarrow> (nat \<times> matrix) list \<Rightarrow> nat \<Rightarrow> u32" where
  "row_reported D n xs r = pr_cooked (run_defer_pr D n xs) ! r"

lemma ucast_of_nat_u16: "ucast (of_nat t :: u32) = (of_nat t :: u16)"
  by (rule bit_word_eqI) (simp add: bit_simps)

text \<open>The state after a run: the last time, and per row a running countdown over a stable input.\<close>

lemma defer_pr_scan:
  assumes "pr_shape n s" "r < n"
    and s'_def: "s' = debounce_sym_defer_pr D n now raw changed s"
  shows "pr_shape n s' \<and> pr_last_time s' = now \<and>
    pr_cell s' r = pr_step D (elapsed_pr (now - pr_last_time s)) (raw ! r) (pr_cell s r)"
proof -
  define s0 where "s0 = s\<lparr>pr_last_time := now, pr_cooked_changed := False\<rparr>"
  have s0: "pr_shape n s0" "pr_cell s0 = pr_cell s" using assms(1)
    by (auto simp: s0_def pr_shape_def pr_cell_def fun_eq_iff)
  have s': "s' = fold (defer_pr_row D (elapsed_pr (now - pr_last_time s)) raw) [0..<n] s0"
    by (simp add: s'_def debounce_sym_defer_pr_def Let_def elapsed_pr_def s0_def)
  have "pr_last_time (fold (defer_pr_row D e raw) rs s0) = now" for e rs
    by (subst fold_frame [of pr_last_time]) (auto simp: defer_pr_row_def Let_def s0_def)
  then show ?thesis using defer_rows.shape_loop [OF s0(1)] defer_rows.cell_loop [OF s0(1)] assms(2) s0(2)
    by (auto simp: s')
qed

definition row_input :: "nat \<Rightarrow> (nat \<times> matrix) list \<Rightarrow> (nat \<times> u32) list" where
  "row_input r xs = key_scans (\<lambda>raw. raw ! r) xs"

lemma defer_pr_counting:
  assumes "r < n"
  shows "times_ok 0 xs \<Longrightarrow> pr_shape n (run_defer_pr D n xs) \<and>
    pr_last_time (run_defer_pr D n xs) = of_nat (last_of 0 xs) \<and>
    (\<forall>c l v. pr_cell (run_defer_pr D n xs) r = (c, l, v) \<longrightarrow> c \<noteq> 0 \<longrightarrow>
      (\<exists>t0. stable_since t0 l (row_input r xs) \<and> unat D + t0 \<le> last_of 0 xs + unat c \<and> unat c \<le> unat D))"
proof (induction xs rule: rev_induct)
  case Nil
  then show ?case using assms
    by (auto simp: run_defer_pr_def debounce_run_def defer_pr_init_def pr_shape_def pr_cell_def last_of_def)
next
  case (snoc x xs)
  obtain t raw where x: "x = (t, raw)" by (cases x)
  define s where "s = run_defer_pr D n xs"
  define T where "T = last_of 0 xs"
  have ok: "times_ok 0 xs" "T \<le> t" using snoc.prems by (auto simp: x times_ok_append T_def)
  have IH: "pr_shape n s" "pr_last_time s = of_nat T"
    "\<And>c l v. pr_cell s r = (c, l, v) \<Longrightarrow> c \<noteq> 0 \<Longrightarrow>
      \<exists>t0. stable_since t0 l (row_input r xs) \<and> unat D + t0 \<le> T + unat c \<and> unat c \<le> unat D"
    using snoc.IH [OF ok(1)] by (auto simp: s_def T_def)
  obtain changed where s': "run_defer_pr D n (xs @ [x]) = debounce_sym_defer_pr D n (of_nat t) raw changed s"
    using run_snoc by (metis (no_types) run_defer_pr_def s_def x ucast_of_nat_u16)
  define e where "e = elapsed_pr (of_nat t - of_nat T)"
  have e: "unat e \<le> t - T" using elapsed_pr_le [OF ok(2)] by (simp add: e_def)
  obtain c l v where cell: "pr_cell s r = (c, l, v)" by (cases "pr_cell s r")
  have step: "pr_cell (run_defer_pr D n (xs @ [x])) r = pr_step D e (raw ! r) (c, l, v)"
    "pr_shape n (run_defer_pr D n (xs @ [x]))" "pr_last_time (run_defer_pr D n (xs @ [x])) = of_nat t"
    using defer_pr_scan [OF IH(1) assms refl, of D "of_nat t" raw changed] by (simp_all add: s' cell IH(2) e_def)
  have input: "row_input r (xs @ [x]) = row_input r xs @ [(t, raw ! r)]" by (simp add: row_input_def x)
  have "\<exists>t0. stable_since t0 l' (row_input r (xs @ [x])) \<and> unat D + t0 \<le> t + unat c' \<and> unat c' \<le> unat D"
    if "pr_step D e (raw ! r) (c, l, v) = (c', l', v')" "c' \<noteq> 0" for c' l' v'
  proof (cases "raw ! r = l")
    case True
    then have c: "c > e" "c' = c - e" "l' = l" using that by (auto simp: pr_step_def split: if_splits)
    then have "unat c' = unat c - unat e" "c \<noteq> 0"
      by (auto simp: unat_sub word_less_nat_alt word_le_nat_alt)
    then show ?thesis using IH(3) [OF cell] e ok(2) c stable_since_snoc [of _ l "row_input r xs" t] True
      by (force simp: input)
  next
    case False
    then show ?thesis using that stable_since_here [of t "raw ! r" "row_input r xs"]
      by (auto simp: pr_step_def input intro!: exI [of _ t])
  qed
  then show ?case using step by (auto simp: last_of_def x)
qed

text \<open>The row-wise deferred algorithm changes a row only to a value that the row had in every scan
  of the last \<open>DEBOUNCE\<close> milliseconds, also when the 16-bit timer wraps.\<close>

lemma deferred_row_is_stable:
  assumes "times_ok 0 (xs @ [(t, raw)])" "r < n"
    and "row_reported D n (xs @ [(t, raw)]) r \<noteq> row_reported D n xs r"
  shows "\<exists>t0. t0 + unat D \<le> t \<and>
    stable_since t0 (row_reported D n (xs @ [(t, raw)]) r) (row_input r (xs @ [(t, raw)]))"
proof -
  define s where "s = run_defer_pr D n xs"
  define T where "T = last_of 0 xs"
  have ok: "times_ok 0 xs" "T \<le> t" using assms(1) by (auto simp: times_ok_append T_def)
  have inv: "pr_shape n s" "pr_last_time s = of_nat T"
    "\<And>c l v. pr_cell s r = (c, l, v) \<Longrightarrow> c \<noteq> 0 \<Longrightarrow>
      \<exists>t0. stable_since t0 l (row_input r xs) \<and> unat D + t0 \<le> T + unat c \<and> unat c \<le> unat D"
    using defer_pr_counting [OF assms(2) ok(1), of D] by (auto simp: s_def T_def)
  obtain changed where s': "run_defer_pr D n (xs @ [(t, raw)]) = debounce_sym_defer_pr D n (of_nat t) raw changed s"
    using run_snoc by (metis (no_types) run_defer_pr_def s_def ucast_of_nat_u16)
  obtain c l v where cell: "pr_cell s r = (c, l, v)" by (cases "pr_cell s r")
  have step: "pr_cell (run_defer_pr D n (xs @ [(t, raw)])) r =
      pr_step D (elapsed_pr (of_nat t - of_nat T)) (raw ! r) (c, l, v)"
    using defer_pr_scan [OF inv(1) assms(2) refl, of D "of_nat t" raw changed] by (simp add: s' cell inv(2))
  then have c: "raw ! r = l" "c \<noteq> 0" "\<not> c > elapsed_pr (of_nat t - of_nat T)"
    "row_reported D n (xs @ [(t, raw)]) r = l"
    using assms(3) cell by (auto simp: pr_step_def row_reported_def pr_cell_def s_def split: if_splits)
  then have "unat c \<le> t - T" using elapsed_pr_le [OF ok(2)] by (auto simp: word_less_nat_alt)
  then show ?thesis using inv(3) [OF cell c(2)] ok(2) c stable_since_snoc [of _ l "row_input r xs" t]
    by (force simp: row_input_def)
qed

lemma deferred_row_is_stable_witness:
  "\<exists>t0. t0 + 5 \<le> 20 \<and> stable_since t0 3 [(10, 1), (12, 0), (14, 3), (20, 3 :: u32)]"
  using deferred_row_is_stable [of "[(10, [1]), (12, [0]), (14, [3])]" 20 "[3]" 0 1 5]
  by (simp add: row_reported_def run_defer_pr_def debounce_run_def scan_one_def debounce_sym_defer_pr_def
      defer_pr_init_def defer_pr_row_def Let_def row_input_def)

section \<open>The whole matrix\<close>

definition defer_g_scan ::
    "u8 \<Rightarrow> u32 \<Rightarrow> matrix \<Rightarrow> bool \<Rightarrow> defer_g_vars \<times> matrix \<Rightarrow> defer_g_vars \<times> matrix" where
  "defer_g_scan D now raw changed sm = (let (s, m, _) = debounce_sym_defer_g D now raw changed sm in (s, m))"

definition run_defer_g :: "u8 \<Rightarrow> nat \<Rightarrow> (nat \<times> matrix) list \<Rightarrow> matrix \<times> defer_g_vars \<times> matrix" where
  "run_defer_g D n xs = debounce_run (defer_g_scan D) xs
     (replicate n 0, \<lparr>debouncing = False, debouncing_time = 0\<rparr>, replicate n 0)"

lemma defer_g_counting:
  "run_defer_g D n xs = (prev, s, m) \<Longrightarrow> debouncing s \<Longrightarrow>
    \<exists>t0. debouncing_time s = of_nat t0 \<and> stable_since t0 prev xs"
proof (induction xs arbitrary: prev s m rule: rev_induct)
  case Nil
  then show ?case by (auto simp: run_defer_g_def debounce_run_def)
next
  case (snoc x xs)
  obtain t raw where x: "x = (t, raw)" by (cases x)
  obtain prev0 s0 m0 where before: "run_defer_g D n xs = (prev0, s0, m0)" by (metis prod.collapse)
  have "prev = raw" "(s, m) = defer_g_scan D (of_nat t) raw (raw \<noteq> prev0) (s0, m0)"
    using snoc.prems(1) before by (simp_all add: run_defer_g_def debounce_run_append)
      (auto simp: debounce_run_def scan_one_def x)
  then have "raw \<noteq> prev0 \<and> debouncing_time s = of_nat t \<or> raw = prev0 \<and> debouncing s0 \<and> s = s0"
    using snoc.prems(2) by (auto simp: defer_g_scan_def debounce_sym_defer_g_def Let_def split: if_splits)
  then show ?case using snoc.IH [OF before] stable_since_here [of t raw xs] stable_since_snoc [of _ raw xs t]
    by (auto simp: x \<open>prev = raw\<close>)
qed

lemma deferred_matrix_is_stable:
  assumes "times_ok 0 (xs @ [(t, raw)])" "run_defer_g D n xs = (prev0, s0, m0)"
    and "run_defer_g D n (xs @ [(t, raw)]) = (prev, s, m)" "m \<noteq> m0"
  shows "m = raw \<and> (\<exists>t0. t0 + unat D \<le> t \<and> stable_since t0 raw (xs @ [(t, raw)]))"
proof -
  have scan: "(s, m) = defer_g_scan D (of_nat t) raw (raw \<noteq> prev0) (s0, m0)"
    using assms(2,3) by (simp add: run_defer_g_def debounce_run_append) (auto simp: debounce_run_def scan_one_def)
  then have g: "m = raw" "raw = prev0" "debouncing s0" "ucast D \<le> of_nat t - debouncing_time s0"
    using assms(4) by (auto simp: defer_g_scan_def debounce_sym_defer_g_def Let_def split: if_splits)
  obtain t0 where t0: "debouncing_time s0 = of_nat t0" "stable_since t0 prev0 xs"
    using defer_g_counting [OF assms(2) g(3)] by blast
  have "t0 \<le> t" using stable_since_le [OF t0(2)] assms(1) by (fastforce simp: times_ok_append)
  then have "(of_nat t - of_nat t0 :: u32) = of_nat (t - t0)" by (simp add: of_nat_diff)
  then have "unat (of_nat t - of_nat t0 :: u32) \<le> t - t0" by (simp add: unsigned_of_nat)
  then have "unat D \<le> t - t0" using g(4) t0(1) unat_u8 [of D]
    by (simp add: word_le_nat_alt unsigned_ucast_eq take_bit_nat_eq_self)
  then show ?thesis using g t0 \<open>t0 \<le> t\<close> stable_since_snoc [of t0 raw xs t] by (intro conjI exI [of _ t0]) auto
qed

end
