(* ===== verification/Crc.thy ===== *)
theory Crc
  imports Qmk_Prelude
begin

unbundle bit_operations_syntax

text \<open>
  The checksum of split-keyboard transactions (\<open>quantum/crc.c\<close>): the bitwise implementation of
  \<open>crc8\<close> and the one driven by a table (\<open>CRC8_USE_TABLE\<close>). Both keep the low eight bits of \<open>crc_t\<close>.
\<close>

definition crc8_bit :: "u8 \<Rightarrow> u8 \<Rightarrow> u8" where
  "crc8_bit poly crc = (if crc AND 0x80 \<noteq> 0 then push_bit 1 crc XOR poly else push_bit 1 crc)"

definition crc8_byte :: "u8 \<Rightarrow> u8 \<Rightarrow> u8 \<Rightarrow> u8" where
  "crc8_byte poly d crc = (crc8_bit poly ^^ 8) (crc XOR d)"

definition crc8 :: "u8 list \<Rightarrow> u8" where
  "crc8 data = fold (crc8_byte 0x31) data 0xFF"

definition crc_table :: "u8 list" where
  "crc_table = [
    0, 7, 14, 9, 28, 27, 18, 21, 56, 63, 54, 49, 36, 35, 42, 45,
    112, 119, 126, 121, 108, 107, 98, 101, 72, 79, 70, 65, 84, 83, 90, 93,
    224, 231, 238, 233, 252, 251, 242, 245, 216, 223, 214, 209, 196, 195, 202, 205,
    144, 151, 158, 153, 140, 139, 130, 133, 168, 175, 166, 161, 180, 179, 186, 189,
    199, 192, 201, 206, 219, 220, 213, 210, 255, 248, 241, 246, 227, 228, 237, 234,
    183, 176, 185, 190, 171, 172, 165, 162, 143, 136, 129, 134, 147, 148, 157, 154,
    39, 32, 41, 46, 59, 60, 53, 50, 31, 24, 17, 22, 3, 4, 13, 10,
    87, 80, 89, 94, 75, 76, 69, 66, 111, 104, 97, 102, 115, 116, 125, 122,
    137, 142, 135, 128, 149, 146, 155, 156, 177, 182, 191, 184, 173, 170, 163, 164,
    249, 254, 247, 240, 229, 226, 235, 236, 193, 198, 207, 200, 221, 218, 211, 212,
    105, 110, 103, 96, 117, 114, 123, 124, 81, 86, 95, 88, 77, 74, 67, 68,
    25, 30, 23, 16, 5, 2, 11, 12, 33, 38, 47, 40, 61, 58, 51, 52,
    78, 73, 64, 71, 82, 85, 92, 91, 118, 113, 120, 127, 106, 109, 100, 99,
    62, 57, 48, 55, 34, 37, 44, 43, 6, 1, 8, 15, 26, 29, 20, 19,
    174, 169, 160, 167, 178, 181, 188, 187, 150, 145, 152, 159, 138, 141, 132, 131,
    222, 217, 208, 215, 194, 197, 204, 203, 230, 225, 232, 239, 250, 253, 244, 243]"

definition crc8_by_table :: "u8 list \<Rightarrow> u8" where
  "crc8_by_table data = fold (\<lambda>d crc. crc_table ! unat (crc XOR d)) data 0xFF"

section \<open>Every step can be undone\<close>

lemma crc8_bit_bits:
  "n < 8 \<Longrightarrow> bit (crc8_bit poly crc) n \<longleftrightarrow> (0 < n \<and> bit crc (n - 1)) \<noteq> (bit crc 7 \<and> bit poly n)"
proof -
  have "crc AND 0x80 \<noteq> 0 \<longleftrightarrow> bit crc 7"
    using and_exp_eq_0_iff_not_bit [of crc 7] by simp
  then show "n < 8 \<Longrightarrow> ?thesis" by (auto simp: crc8_bit_def bit_simps bit_word_times_2)
qed

lemma crc8_bit_inj:
  assumes "bit poly 0"
  shows "inj (crc8_bit poly)"
proof (rule injI)
  fix x y assume eq: "crc8_bit poly x = crc8_bit poly y"
  have top: "bit x 7 = bit y 7"
    using arg_cong [OF eq, of "\<lambda>w. bit w 0"] assms by (simp add: crc8_bit_bits)
  have "bit x n = bit y n" if "n < 8" for n
  proof (cases "n = 7")
    case False
    then show ?thesis using that arg_cong [OF eq, of "\<lambda>w. bit w (Suc n)"] top
      by (auto simp: crc8_bit_bits)
  qed (simp add: top)
  then show "x = y" by (intro bit_word_eqI) simp
qed

lemma xor_left_cancel: "(a :: u8) XOR b = a XOR c \<longleftrightarrow> b = c"
  by (auto simp: bit_eq_iff [where 'a = u8] bit_xor_iff)

lemma xor_right_cancel: "(b :: u8) XOR a = c XOR a \<longleftrightarrow> b = c"
  by (auto simp: bit_eq_iff [where 'a = u8] bit_xor_iff)

lemma crc8_byte_inj:
  assumes "bit poly 0"
  shows "crc8_byte poly d a = crc8_byte poly d b \<longleftrightarrow> a = b" and "crc8_byte poly x a = crc8_byte poly y a \<longleftrightarrow> x = y"
proof -
  have "inj (crc8_bit poly ^^ 8)" using crc8_bit_inj [OF assms] by (rule inj_fn)
  then show "crc8_byte poly d a = crc8_byte poly d b \<longleftrightarrow> a = b" "crc8_byte poly x a = crc8_byte poly y a \<longleftrightarrow> x = y"
    by (simp_all add: crc8_byte_def inj_eq xor_left_cancel xor_right_cancel)
qed

lemma crc8_fold_inj:
  "bit poly 0 \<Longrightarrow> fold (crc8_byte poly) ds a = fold (crc8_byte poly) ds b \<longleftrightarrow> a = b"
  by (induction ds arbitrary: a b) (auto simp: crc8_byte_inj)

text \<open>The checksum changes whenever exactly one byte of the data changes.\<close>

lemma crc8_detects_a_wrong_byte:
  "crc8 (xs @ a # ys) = crc8 (xs @ b # ys) \<longleftrightarrow> a = b"
  by (simp add: crc8_def crc8_fold_inj crc8_byte_inj)

section \<open>The table\<close>

text \<open>A step is linear, so the table is determined by doubling its index.\<close>

lemma crc8_bit_xor: "crc8_bit poly (a XOR b) = crc8_bit poly a XOR crc8_bit poly b"
  by (rule bit_word_eqI) (auto simp: crc8_bit_bits bit_xor_iff)

lemma crc8_bits_xor: "(crc8_bit poly ^^ n) (a XOR b) = (crc8_bit poly ^^ n) a XOR (crc8_bit poly ^^ n) b"
  by (induction n) (simp_all add: crc8_bit_xor)

lemma crc_table_doubles:
  "crc_table = concat (map (\<lambda>t. [crc8_bit 0x07 t, crc8_bit 0x07 t XOR 7]) (take 128 crc_table))"
  by (simp add: crc_table_def crc8_bit_def)

lemma nth_concat_pairs:
  "x < length ts \<Longrightarrow>
    concat (map (\<lambda>t. [f t, g t]) ts) ! (2 * x) = f (ts ! x) \<and>
    concat (map (\<lambda>t. [f t, g t]) ts) ! (2 * x + 1) = g (ts ! x)"
proof (induction ts arbitrary: x)
  case (Cons t ts)
  then show ?case by (cases x) simp_all
qed simp

lemma crc_table_double:
  assumes "x < 128"
  shows "crc_table ! (2 * x) = crc8_bit 0x07 (crc_table ! x) \<and>
    crc_table ! (2 * x + 1) = crc8_bit 0x07 (crc_table ! x) XOR 7"
proof -
  have len: "x < length (take 128 crc_table)" using assms by (simp add: crc_table_def)
  show ?thesis
    using nth_concat_pairs [OF len, of "crc8_bit 0x07" "\<lambda>t. crc8_bit 0x07 t XOR 7"] assms
    unfolding crc_table_doubles [symmetric] by (simp only: nth_take)
qed

lemma xor_1_of_even:
  assumes "\<not> bit (w :: u8) 0"
  shows "w XOR 1 = w + 1"
proof -
  have no: "bit w n \<Longrightarrow> n \<noteq> 0" for n using assms by metis
  then have "w XOR 1 = w OR 1"
    by (intro bit_word_eqI) (auto simp: bit_xor_iff bit_or_iff bit_1_iff)
  also have "\<dots> = w + 1"
    by (rule disjunctive_add [symmetric]) (auto simp: bit_1_iff dest: no)
  finally show ?thesis .
qed

lemma crc8_bit_double:
  assumes "x < 128"
  shows "(of_nat (2 * x) :: u8) = crc8_bit 0x07 (of_nat x)"
    and "(of_nat (2 * x + 1) :: u8) = crc8_bit 0x07 (of_nat x) XOR 1"
proof -
  have "\<not> bit (of_nat x :: u8) 7"
    using bit_less_of_unat [of "of_nat x :: u8" 7 7] assms by (auto simp: unat_of_nat_small)
  then have "(of_nat x :: u8) AND 0x80 = 0"
    using and_exp_eq_0_iff_not_bit [of "of_nat x :: u8" 7] by simp
  then show step: "(of_nat (2 * x) :: u8) = crc8_bit 0x07 (of_nat x)"
    by (simp add: crc8_bit_def push_bit_eq_mult)
  have "\<not> bit (of_nat (2 * x) :: u8) 0" by (simp add: bit_0)
  then have "(of_nat (2 * x) :: u8) XOR 1 = of_nat (2 * x) + 1" by (rule xor_1_of_even)
  then show "(of_nat (2 * x + 1) :: u8) = crc8_bit 0x07 (of_nat x) XOR 1"
    unfolding step [symmetric] by (simp add: add.commute)
qed

lemma eight_times: "(f ^^ 8) x = f (f (f (f (f (f (f (f x)))))))"
  by (simp add: numeral_eq_Suc)

lemma crc_table_is_poly_7:
  "x < 256 \<Longrightarrow> crc_table ! x = (crc8_bit 0x07 ^^ 8) (of_nat x)"
proof (induction x rule: less_induct)
  case (less x)
  show ?case
  proof (cases "x = 0")
    case True
    then show ?thesis by (simp add: crc_table_def crc8_bit_def eight_times)
  next
    case False
    define y where "y = x div 2"
    have y: "y < x" "y < 128" "x = 2 * y \<or> x = 2 * y + 1" using False less(2) by (auto simp: y_def)
    have IH: "crc_table ! y = (crc8_bit 0x07 ^^ 8) (of_nat y)" using less(1) [OF y(1)] y(2) by simp
    have seven: "(crc8_bit 0x07 ^^ 8) 1 = 7" by (simp add: crc8_bit_def eight_times)
    have swap: "crc8_bit 0x07 ((crc8_bit 0x07 ^^ 8) v) = (crc8_bit 0x07 ^^ 8) (crc8_bit 0x07 v)" for v
      by (simp add: funpow_swap1)
    from y(3) show ?thesis
    proof
      assume x: "x = 2 * y"
      show ?thesis unfolding x crc8_bit_double(1) [OF y(2)] using crc_table_double [OF y(2)] IH swap by simp
    next
      assume x: "x = 2 * y + 1"
      show ?thesis unfolding x crc8_bit_double(2) [OF y(2)] crc8_bits_xor seven
        using crc_table_double [OF y(2)] IH swap by simp
    qed
  qed
qed

lemma crc8_by_table_eq: "crc8_by_table data = fold (crc8_byte 0x07) data 0xFF"
proof -
  have "crc_table ! unat (crc XOR d) = crc8_byte 0x07 d crc" for crc d
    using crc_table_is_poly_7 [of "unat (crc XOR d)"] unat_u8 by (simp add: crc8_byte_def)
  then show ?thesis by (simp add: crc8_by_table_def)
qed

text \<open>The two implementations of \<open>crc8\<close> are checksums of different polynomials (0x31 and 0x07), so
  halves of a split keyboard built with and without \<open>CRC8_USE_TABLE\<close> reject each other's messages.\<close>

lemma crc8_table_is_another_crc:
  "crc8_by_table data = fold (crc8_byte 0x07) data 0xFF \<and> crc8 data = fold (crc8_byte 0x31) data 0xFF \<and>
    crc8_by_table [0] \<noteq> crc8 [0]"
  unfolding crc8_by_table_eq crc8_def by (simp add: crc8_byte_def crc8_bit_def eight_times)

end
