(* ===== verification/Keymap_Common.thy ===== *)
theory Keymap_Common
  imports Keycode_Config
begin

unbundle bit_operations_syntax

text \<open>
  From keycodes to actions: the packed action codes (\<open>quantum/action_code.h\<close>), the usage tables
  (\<open>tmk_core/protocol/report.h\<close>) and \<open>action_for_keycode\<close> (\<open>quantum/keymap_common.c\<close>), in a build
  with layers, one-shot keys, tapping, extra keys and without \<open>SWAP_HANDS_ENABLE\<close>.
\<close>

section \<open>Action codes\<close>

type_synonym action_t = u16

definition ACT_MODS :: u16 where "ACT_MODS = 0"
definition ACT_MODS_TAP :: u16 where "ACT_MODS_TAP = 2"
definition ACT_USAGE :: u16 where "ACT_USAGE = 4"
definition ACT_MOUSEKEY :: u16 where "ACT_MOUSEKEY = 5"
definition ACT_LAYER :: u16 where "ACT_LAYER = 8"
definition ACT_LAYER_MODS :: u16 where "ACT_LAYER_MODS = 9"
definition ACT_LAYER_TAP :: u16 where "ACT_LAYER_TAP = 10"
definition ACT_LAYER_TAP_EXT :: u16 where "ACT_LAYER_TAP_EXT = 11"

lemmas act_defs = ACT_MODS_def ACT_MODS_TAP_def ACT_USAGE_def ACT_MOUSEKEY_def ACT_LAYER_def
  ACT_LAYER_MODS_def ACT_LAYER_TAP_def ACT_LAYER_TAP_EXT_def

definition ACTION_NO :: action_t where "ACTION_NO = 0"
definition ACTION_TRANSPARENT :: action_t where "ACTION_TRANSPARENT = 1"

definition ACTION :: "u16 \<Rightarrow> u16 \<Rightarrow> action_t" where
  "ACTION kind param = push_bit 12 kind OR param"

definition ACTION_KEY :: "u16 \<Rightarrow> action_t" where "ACTION_KEY key = ACTION ACT_MODS key"
definition ACTION_MODS_KEY :: "u16 \<Rightarrow> u16 \<Rightarrow> action_t" where
  "ACTION_MODS_KEY mods key = ACTION ACT_MODS (push_bit 8 (mods AND 0x1F) OR key)"
definition ACTION_MODS_TAP_KEY :: "u16 \<Rightarrow> u16 \<Rightarrow> action_t" where
  "ACTION_MODS_TAP_KEY mods key = ACTION ACT_MODS_TAP (push_bit 8 (mods AND 0x1F) OR key)"
definition ACTION_MODS_ONESHOT :: "u16 \<Rightarrow> action_t" where
  "ACTION_MODS_ONESHOT mods = ACTION ACT_MODS_TAP (push_bit 8 (mods AND 0x1F) OR 0)"
definition ACTION_USAGE_SYSTEM :: "u16 \<Rightarrow> action_t" where
  "ACTION_USAGE_SYSTEM i = ACTION ACT_USAGE (push_bit 10 0 OR i)"
definition ACTION_USAGE_CONSUMER :: "u16 \<Rightarrow> action_t" where
  "ACTION_USAGE_CONSUMER i = ACTION ACT_USAGE (push_bit 10 1 OR i)"
definition ACTION_MOUSEKEY :: "u16 \<Rightarrow> action_t" where
  "ACTION_MOUSEKEY key = ACTION ACT_MOUSEKEY key"

definition ON_PRESS :: u16 where "ON_PRESS = 1"
definition ON_RELEASE :: u16 where "ON_RELEASE = 2"
definition OP_BIT_XOR :: u16 where "OP_BIT_XOR = 2"
definition OP_BIT_SET :: u16 where "OP_BIT_SET = 3"
definition OP_TAP_TOGGLE :: u16 where "OP_TAP_TOGGLE = 0xF0"
definition OP_ON_OFF :: u16 where "OP_ON_OFF = 0xF1"
definition OP_ONESHOT :: u16 where "OP_ONESHOT = 0xF4"

lemmas op_defs = ON_PRESS_def ON_RELEASE_def OP_BIT_XOR_def OP_BIT_SET_def OP_TAP_TOGGLE_def
  OP_ON_OFF_def OP_ONESHOT_def

definition ACTION_LAYER_BITOP :: "u16 \<Rightarrow> u16 \<Rightarrow> u16 \<Rightarrow> u16 \<Rightarrow> action_t" where
  "ACTION_LAYER_BITOP op part bits on = ACTION ACT_LAYER
    (push_bit 10 op OR push_bit 8 on OR push_bit 5 part OR (bits AND 0x1F))"

definition ACTION_LAYER_TAP :: "u16 \<Rightarrow> u16 \<Rightarrow> action_t" where
  "ACTION_LAYER_TAP layer key = ACTION ACT_LAYER_TAP (push_bit 8 layer OR key)"

text \<open>\<open>(layer) / 4\<close> and \<open>1 << ((layer) % 4)\<close>.\<close>

definition layer_part :: "u16 \<Rightarrow> u16" where "layer_part layer = layer div 4"
definition layer_bits :: "u16 \<Rightarrow> u16" where "layer_bits layer = push_bit (unat (layer mod 4)) 1"

definition ACTION_LAYER_SET :: "u16 \<Rightarrow> u16 \<Rightarrow> action_t" where
  "ACTION_LAYER_SET layer on = ACTION_LAYER_BITOP OP_BIT_SET (layer_part layer) (layer_bits layer) on"
definition ACTION_LAYER_GOTO :: "u16 \<Rightarrow> action_t" where
  "ACTION_LAYER_GOTO layer = ACTION_LAYER_SET layer ON_PRESS"
definition ACTION_LAYER_MOMENTARY :: "u16 \<Rightarrow> action_t" where
  "ACTION_LAYER_MOMENTARY layer = ACTION_LAYER_TAP layer OP_ON_OFF"
definition ACTION_DEFAULT_LAYER_SET :: "u16 \<Rightarrow> action_t" where
  "ACTION_DEFAULT_LAYER_SET layer = ACTION_LAYER_BITOP OP_BIT_SET (layer_part layer) (layer_bits layer) 0"
definition ACTION_LAYER_TOGGLE :: "u16 \<Rightarrow> action_t" where
  "ACTION_LAYER_TOGGLE layer = ACTION_LAYER_BITOP OP_BIT_XOR (layer_part layer) (layer_bits layer) ON_RELEASE"
definition ACTION_LAYER_ONESHOT :: "u16 \<Rightarrow> action_t" where
  "ACTION_LAYER_ONESHOT layer = ACTION_LAYER_TAP layer OP_ONESHOT"
definition ACTION_LAYER_TAP_TOGGLE :: "u16 \<Rightarrow> action_t" where
  "ACTION_LAYER_TAP_TOGGLE layer = ACTION_LAYER_TAP layer OP_TAP_TOGGLE"
definition ACTION_LAYER_TAP_KEY :: "u16 \<Rightarrow> u16 \<Rightarrow> action_t" where
  "ACTION_LAYER_TAP_KEY layer key = ACTION_LAYER_TAP layer key"
definition ACTION_LAYER_MODS :: "u16 \<Rightarrow> u16 \<Rightarrow> action_t" where
  "ACTION_LAYER_MODS layer mods = ACTION ACT_LAYER_MODS (push_bit 8 layer OR mods)"

lemmas action_defs = ACTION_def ACTION_KEY_def ACTION_MODS_KEY_def ACTION_MODS_TAP_KEY_def
  ACTION_MODS_ONESHOT_def ACTION_USAGE_SYSTEM_def ACTION_USAGE_CONSUMER_def ACTION_MOUSEKEY_def
  ACTION_LAYER_BITOP_def ACTION_LAYER_TAP_def ACTION_LAYER_SET_def ACTION_LAYER_GOTO_def
  ACTION_LAYER_MOMENTARY_def ACTION_DEFAULT_LAYER_SET_def ACTION_LAYER_TOGGLE_def
  ACTION_LAYER_ONESHOT_def ACTION_LAYER_TAP_TOGGLE_def ACTION_LAYER_TAP_KEY_def
  ACTION_LAYER_MODS_def layer_part_def layer_bits_def

text \<open>The bit fields of the union \<open>action_t\<close>.\<close>

definition kind_id :: "action_t \<Rightarrow> u16" where "kind_id a = drop_bit 12 a AND 0xF"
definition key_code :: "action_t \<Rightarrow> u16" where "key_code a = a AND 0xFF"
definition key_mods :: "action_t \<Rightarrow> u16" where "key_mods a = drop_bit 8 a AND 0xF"
definition layer_mods_layer :: "action_t \<Rightarrow> u16" where "layer_mods_layer a = drop_bit 8 a AND 0xF"
definition layer_mods_mods :: "action_t \<Rightarrow> u16" where "layer_mods_mods a = a AND 0xFF"
definition layer_tap_val :: "action_t \<Rightarrow> u16" where "layer_tap_val a = drop_bit 8 a AND 0x1F"
definition layer_tap_code :: "action_t \<Rightarrow> u16" where "layer_tap_code a = a AND 0xFF"
definition layer_tap_kind :: "action_t \<Rightarrow> u16" where "layer_tap_kind a = drop_bit 13 a AND 7"
definition bitop_bits :: "action_t \<Rightarrow> u16" where "bitop_bits a = a AND 0xF"
definition bitop_xbit :: "action_t \<Rightarrow> u16" where "bitop_xbit a = drop_bit 4 a AND 1"
definition bitop_part :: "action_t \<Rightarrow> u16" where "bitop_part a = drop_bit 5 a AND 7"
definition bitop_on :: "action_t \<Rightarrow> u16" where "bitop_on a = drop_bit 8 a AND 3"
definition bitop_op :: "action_t \<Rightarrow> u16" where "bitop_op a = drop_bit 10 a AND 3"

lemmas field_defs = kind_id_def key_code_def key_mods_def layer_mods_layer_def layer_mods_mods_def
  layer_tap_val_def layer_tap_code_def layer_tap_kind_def bitop_bits_def bitop_xbit_def
  bitop_part_def bitop_on_def bitop_op_def

section \<open>Usages\<close>

definition KEYCODE2SYSTEM :: "u8 \<Rightarrow> u16" where
  "KEYCODE2SYSTEM key = (if key = 0xA5 then 0x81 else if key = 0xA6 then 0x82
     else if key = 0xA7 then 0x83 else 0)"

text \<open>From \<open>KC_AUDIO_MUTE\<close> on, in the order of the keycodes.\<close>

definition consumer_usages :: "u16 list" where
  "consumer_usages =
    [0x0E2, 0x0E9, 0x0EA, 0x0B5,
     0x0B6, 0x0B7, 0x0CD,
     0x183, 0x0CC, 0x18A, 0x192,
     0x194, 0x221, 0x223, 0x224,
     0x225, 0x226, 0x227, 0x22A,
     0x0B3, 0x0B4, 0x06F,
     0x070, 0x19F, 0x1CB,
     0x29F, 0x2A0]"

definition KEYCODE2CONSUMER :: "u8 \<Rightarrow> u16" where
  "KEYCODE2CONSUMER key = (if key \<ge> 0xA8 \<and> key \<le> 0xC2 then consumer_usages ! (unat key - 0xA8) else 0)"

section \<open>Keycodes to actions\<close>

definition low5 :: "u16 \<Rightarrow> u16" where "low5 kc = kc AND 0x1F"
definition mods_of :: "u16 \<Rightarrow> u16" where "mods_of kc = drop_bit 8 kc AND 0x1F"
definition basic_of :: "u16 \<Rightarrow> u16" where "basic_of kc = kc AND 0xFF"

text \<open>\<open>mod_config\<close> takes and returns bytes.\<close>

definition mod_config16 :: "keymap_config_t \<Rightarrow> u16 \<Rightarrow> u16" where
  "mod_config16 k mods = ucast (mod_config k (ucast mods))"

definition in_range :: "u16 \<Rightarrow> u16 \<Rightarrow> u16 \<Rightarrow> bool" where
  "in_range kc lo hi \<longleftrightarrow> lo \<le> kc \<and> kc \<le> hi"

definition action_for_keycode :: "keymap_config_t \<Rightarrow> u16 \<Rightarrow> action_t" where
  "action_for_keycode k keycode0 =
    (let keycode = keycode_config k keycode0
     in if in_range keycode 0x04 0xA4 \<or> in_range keycode 0xE0 0xE7 then ACTION_KEY keycode
        else if in_range keycode 0xA5 0xA7 then ACTION_USAGE_SYSTEM (KEYCODE2SYSTEM (ucast keycode))
        else if in_range keycode 0xA8 0xC2 then ACTION_USAGE_CONSUMER (KEYCODE2CONSUMER (ucast keycode))
        else if in_range keycode 0xCD 0xDF then ACTION_MOUSEKEY keycode
        else if keycode = 1 then ACTION_TRANSPARENT
        else if in_range keycode 0x0100 0x1FFF then
          ACTION_MODS_KEY (mod_config16 k (mods_of keycode)) (keycode_config k (basic_of keycode))
        else if in_range keycode 0x4000 0x4FFF then
          ACTION_LAYER_TAP_KEY (drop_bit 8 keycode AND 0xF) (keycode_config k (basic_of keycode))
        else if in_range keycode 0x5200 0x521F then ACTION_LAYER_GOTO (low5 keycode)
        else if in_range keycode 0x5220 0x523F then ACTION_LAYER_MOMENTARY (low5 keycode)
        else if in_range keycode 0x5240 0x525F then ACTION_DEFAULT_LAYER_SET (low5 keycode)
        else if in_range keycode 0x5260 0x527F then ACTION_LAYER_TOGGLE (low5 keycode)
        else if in_range keycode 0x5280 0x529F then ACTION_LAYER_ONESHOT (low5 keycode)
        else if in_range keycode 0x52A0 0x52BF then ACTION_MODS_ONESHOT (mod_config16 k (low5 keycode))
        else if in_range keycode 0x52C0 0x52DF then ACTION_LAYER_TAP_TOGGLE (low5 keycode)
        else if in_range keycode 0x5000 0x51FF then
          (let m = mod_config16 k (low5 keycode); action_layer = drop_bit 5 keycode AND 0xF
           in ACTION_LAYER_MODS action_layer (if m AND 0x10 \<noteq> 0 then push_bit 4 m else m))
        else if in_range keycode 0x2000 0x3FFF then
          ACTION_MODS_TAP_KEY (mod_config16 k (mods_of keycode)) (keycode_config k (basic_of keycode))
        else ACTION_NO)"

section \<open>Keycodes of layers\<close>

definition TO :: "u16 \<Rightarrow> u16" where "TO layer = 0x5200 OR (layer AND 0x1F)"
definition MO :: "u16 \<Rightarrow> u16" where "MO layer = 0x5220 OR (layer AND 0x1F)"
definition DF :: "u16 \<Rightarrow> u16" where "DF layer = 0x5240 OR (layer AND 0x1F)"
definition TG :: "u16 \<Rightarrow> u16" where "TG layer = 0x5260 OR (layer AND 0x1F)"
definition LM :: "u16 \<Rightarrow> u16 \<Rightarrow> u16" where
  "LM layer mods = 0x5000 OR push_bit 5 (layer AND 0xF) OR (mods AND 0x1F)"

lemmas keycode_defs = TO_def MO_def DF_def TG_def LM_def low5_def in_range_def

section \<open>Decoding\<close>

lemma keycode_config_high: "0x100 \<le> kc \<Longrightarrow> keycode_config k kc = kc"
  by (rule keycode_config_other) (auto simp: kc_defs word_le_nat_alt)

lemma layer_keycode:
  "layer < 32 \<Longrightarrow> layer = 0 \<or> layer = 1 \<or> layer = 2 \<or> layer = 3 \<or> layer = 4 \<or> layer = 5 \<or> layer = 6 \<or>
    layer = 7 \<or> layer = 8 \<or> layer = 9 \<or> layer = 10 \<or> layer = 11 \<or> layer = 12 \<or> layer = 13 \<or>
    layer = 14 \<or> layer = 15 \<or> layer = 16 \<or> layer = 17 \<or> layer = 18 \<or> layer = 19 \<or> layer = 20 \<or>
    layer = 21 \<or> layer = 22 \<or> layer = 23 \<or> layer = 24 \<or> layer = 25 \<or> layer = 26 \<or> layer = 27 \<or>
    layer = 28 \<or> layer = 29 \<or> layer = 30 \<or> layer = (31 :: nat)"
  by presburger

text \<open>The mask a layer bit operation acts on: \<open>bits << (part * 4)\<close>.\<close>

definition bitop_mask :: "action_t \<Rightarrow> u32" where
  "bitop_mask a = push_bit (unat (bitop_part a) * 4) (ucast (bitop_bits a))"

lemma goto_decode:
  "layer < 32 \<Longrightarrow> let a = ACTION_LAYER_GOTO (of_nat layer) in
    kind_id a = ACT_LAYER \<and> bitop_op a = OP_BIT_SET \<and> bitop_on a = ON_PRESS \<and> bitop_xbit a = 0 \<and>
    bitop_mask a = push_bit layer 1"
  by (drule layer_keycode) (elim disjE; simp add: action_defs field_defs act_defs op_defs bitop_mask_def)

lemma toggle_decode:
  "layer < 32 \<Longrightarrow> let a = ACTION_LAYER_TOGGLE (of_nat layer) in
    kind_id a = ACT_LAYER \<and> bitop_op a = OP_BIT_XOR \<and> bitop_on a = ON_RELEASE \<and> bitop_xbit a = 0 \<and>
    bitop_mask a = push_bit layer 1"
  by (drule layer_keycode) (elim disjE; simp add: action_defs field_defs act_defs op_defs bitop_mask_def)

lemma default_layer_decode:
  "layer < 32 \<Longrightarrow> let a = ACTION_DEFAULT_LAYER_SET (of_nat layer) in
    kind_id a = ACT_LAYER \<and> bitop_op a = OP_BIT_SET \<and> bitop_on a = 0 \<and> bitop_xbit a = 0 \<and>
    bitop_mask a = push_bit layer 1"
  by (drule layer_keycode) (elim disjE; simp add: action_defs field_defs act_defs op_defs bitop_mask_def)

lemma momentary_decode:
  "layer < 32 \<Longrightarrow> let a = ACTION_LAYER_MOMENTARY (of_nat layer) in
    layer_tap_kind a = 5 \<and> layer_tap_val a = of_nat layer \<and> layer_tap_code a = OP_ON_OFF"
  by (drule layer_keycode) (elim disjE; simp add: action_defs field_defs act_defs op_defs)

lemma layer_keycode_value:
  "layer < 32 \<Longrightarrow>
    unat (TO (of_nat layer)) = 0x5200 + layer \<and> unat (MO (of_nat layer)) = 0x5220 + layer \<and>
    unat (DF (of_nat layer)) = 0x5240 + layer \<and> unat (TG (of_nat layer)) = 0x5260 + layer"
  by (drule layer_keycode) (elim disjE; simp add: TO_def MO_def DF_def TG_def)

lemma layer_keycode_low5:
  "layer < 32 \<Longrightarrow>
    low5 (TO (of_nat layer)) = of_nat layer \<and> low5 (MO (of_nat layer)) = of_nat layer \<and>
    low5 (DF (of_nat layer)) = of_nat layer \<and> low5 (TG (of_nat layer)) = of_nat layer"
  by (drule layer_keycode) (elim disjE; simp add: TO_def MO_def DF_def TG_def low5_def)

lemma u16_eq_1: "(x :: u16) = 1 \<longleftrightarrow> unat x = 1"
  by (simp add: unat_arith_simps)

lemma layer_keycode_action:
  assumes "layer < 32"
  shows "action_for_keycode k (TO (of_nat layer)) = ACTION_LAYER_GOTO (of_nat layer)"
    and "action_for_keycode k (MO (of_nat layer)) = ACTION_LAYER_MOMENTARY (of_nat layer)"
    and "action_for_keycode k (DF (of_nat layer)) = ACTION_DEFAULT_LAYER_SET (of_nat layer)"
    and "action_for_keycode k (TG (of_nat layer)) = ACTION_LAYER_TOGGLE (of_nat layer)"
  using layer_keycode_value [OF assms] layer_keycode_low5 [OF assms] assms
  by (simp_all add: action_for_keycode_def keycode_config_high in_range_def word_le_nat_alt
      u16_eq_1)

text \<open>The actions of the layer keycodes \<open>TO\<close>, \<open>TG\<close>, \<open>DF\<close> and \<open>MO\<close> address exactly the layer of the
  keycode, for all 32 layers and every magic configuration: the layer number survives the split into
  a nibble position and a one-bit nibble.\<close>

lemma layer_keycodes_reach_their_layer:
  assumes "layer < 32"
  shows "bitop_mask (action_for_keycode k (TO (of_nat layer))) = push_bit layer 1 \<and>
    bitop_mask (action_for_keycode k (TG (of_nat layer))) = push_bit layer 1 \<and>
    bitop_mask (action_for_keycode k (DF (of_nat layer))) = push_bit layer 1 \<and>
    layer_tap_val (action_for_keycode k (MO (of_nat layer))) = of_nat layer \<and>
    bitop_op (action_for_keycode k (TO (of_nat layer))) = OP_BIT_SET \<and>
    bitop_op (action_for_keycode k (TG (of_nat layer))) = OP_BIT_XOR"
  using layer_keycode_action [OF assms] goto_decode [OF assms] toggle_decode [OF assms]
    default_layer_decode [OF assms] momentary_decode [OF assms]
  by (simp add: Let_def)

lemma layer_keycodes_reach_their_layer_witness:
  "bitop_mask (action_for_keycode 0 (TO 13)) = 0x2000 \<and> layer_tap_val (action_for_keycode 0 (MO 13)) = 13"
  using layer_keycodes_reach_their_layer [of 13 0] by simp

lemma LM_range: "20480 \<le> unat (LM layer mods)" "unat (LM layer mods) < 20992"
proof -
  have "drop_bit 9 (LM layer mods) = 0x28"
    by (rule bit_word_eqI) (auto simp: LM_def bit_simps bit_consts)
  then have "unat (drop_bit 9 (LM layer mods)) = 40" by simp
  then have "drop_bit 9 (unat (LM layer mods)) = 40" by (simp only: unat_drop_bit_eq)
  then have "unat (LM layer mods) div 512 = 40" by (simp add: drop_bit_eq_div)
  then show "20480 \<le> unat (LM layer mods)" "unat (LM layer mods) < 20992" by linarith+
qed

lemma bit_int_640: "bit (640 :: int) n \<longleftrightarrow> n = 7 \<or> n = 9"
proof -
  have "(640 :: int) = push_bit 7 (mask 1) OR push_bit 9 (mask 1)" by simp
  then show ?thesis by (simp only: bit_or_iff bit_int_range) auto
qed

lemma bit_int_20480: "bit (20480 :: int) n \<longleftrightarrow> n = 12 \<or> n = 14"
proof -
  have "(20480 :: int) = push_bit 12 (mask 1) OR push_bit 14 (mask 1)" by simp
  then show ?thesis by (simp only: bit_or_iff bit_int_range) auto
qed

lemma bit_int_144: "bit (144 :: int) n \<longleftrightarrow> n = 4 \<or> n = 7"
proof -
  have "(144 :: int) = push_bit 4 (mask 1) OR push_bit 7 (mask 1)" by simp
  then show ?thesis by (simp only: bit_or_iff bit_int_range) auto
qed

lemma bit_int_12: "bit (12 :: int) n \<longleftrightarrow> n = 2 \<or> n = 3"
  and bit_int_9: "bit (9 :: int) n \<longleftrightarrow> n = 0 \<or> n = 3"
proof -
  have "(12 :: int) = push_bit 2 (mask 1) OR push_bit 3 (mask 1)" by simp
  then show "bit (12 :: int) n \<longleftrightarrow> n = 2 \<or> n = 3" by (simp only: bit_or_iff bit_int_range) auto
  have "(9 :: int) = push_bit 0 (mask 1) OR push_bit 3 (mask 1)" by simp
  then show "bit (9 :: int) n \<longleftrightarrow> n = 0 \<or> n = 3" by (simp only: bit_or_iff bit_int_range) auto
qed

definition small5 :: "u8 \<Rightarrow> bool" where
  "small5 m \<longleftrightarrow> (\<forall>n. bit m n \<longrightarrow> n < 5)"

lemma small5_rules:
  "small5 m \<Longrightarrow> small5 (m AND y)"
  "small5 m \<Longrightarrow> small5 (m XOR (MOD_LALT OR MOD_LGUI))"
  "small5 m \<Longrightarrow> small5 (m XOR (MOD_LCTL OR MOD_LGUI))"
  unfolding small5_def mod_defs by (auto simp: bit_simps bit_consts bit_int_12 bit_int_9)

lemma mod_config_small5: "small5 m \<Longrightarrow> small5 (mod_config k m)"
  unfolding mod_config_def Let_def
  by (simp only: if_split small5_rules simp_thms if_True if_False cong: if_cong)

lemma LM_action:
  "action_for_keycode k (LM layer mods) =
    (let m = mod_config16 k (low5 (LM layer mods)); action_layer = drop_bit 5 (LM layer mods) AND 0xF
     in ACTION_LAYER_MODS action_layer (if m AND 0x10 \<noteq> 0 then push_bit 4 m else m))"
  using LM_range [of layer mods]
  by (simp add: action_for_keycode_def keycode_config_high in_range_def word_le_nat_alt Let_def unat_arith_simps)

text \<open>\<open>LM\<close> with a right-hand modifier switches to the wrong layer when the layer is even: shifting
  the five-bit modifiers by four moves the right-hand flag into the lowest bit of the layer.\<close>

lemma right_hand_layer_mod_goes_astray:
  assumes "layer < 16" "mods < 32" "mod_config16 k mods AND 0x10 \<noteq> 0"
  shows "layer_mods_layer (action_for_keycode k (LM layer mods)) = layer OR 1"
proof -
  have lb: "bit layer n \<Longrightarrow> n < 4" and mb: "bit mods n \<Longrightarrow> n < 5" for n
    using bit_less_of_unat [of layer 4] bit_less_of_unat [of mods 5] assms(1,2) by (auto simp: word_less_nat_alt)
  have l: "drop_bit 5 (LM layer mods) AND 0xF = layer"
    by (rule bit_word_eqI) (auto simp: LM_def bit_simps bit_consts bit_int_640 dest: lb)
  have m: "low5 (LM layer mods) = mods"
    by (rule bit_word_eqI) (auto simp: LM_def low5_def bit_simps bit_consts bit_int_20480 dest: mb)
  define x where "x = mod_config16 k mods"
  have "bit x 4"
  proof (rule ccontr)
    assume "\<not> bit x 4"
    then have "x AND 0x10 = 0" by (intro bit_word_eqI) (auto simp: bit_simps bit_consts)
    then show False using assms(3) by (simp add: x_def)
  qed
  moreover have "bit x (4 + n) \<Longrightarrow> n = 0" for n
    using mod_config_small5 [of "ucast mods" k] mb by (force simp: small5_def x_def mod_config16_def bit_simps)
  ultimately have "drop_bit 8 (ACTION ACT_LAYER_MODS (push_bit 8 layer OR push_bit 4 x)) AND 0xF = layer OR 1"
    by (intro bit_word_eqI) (auto simp: ACTION_def act_defs bit_simps bit_consts bit_int_144 bit_1_iff dest: lb)
  then show ?thesis using assms(3) by (simp add: LM_action l m Let_def layer_mods_layer_def ACTION_LAYER_MODS_def x_def)
qed

lemma right_hand_layer_mod_goes_astray_witness:
  "layer_mods_layer (action_for_keycode 0 (LM 2 0x11)) = 3"
  using right_hand_layer_mod_goes_astray [of 2 "0x11" 0]
  by (simp add: mod_config16_def mod_config_def swap_lalt_lgui_def swap_ralt_rgui_def swap_lctl_lgui_def
      swap_rctl_rgui_def no_gui_def)

end
