(* ===== verification/Action_Layer.thy ===== *)
theory Action_Layer
  imports Keymap_Common Dynamic_Keymap
begin

unbundle bit_operations_syntax

text \<open>
  Layers (\<open>quantum/action_layer.c\<close>, \<open>quantum/tri_layer.c\<close>): the layer states, the
  search for the layer of a key, and the cache that remembers at which layer a key was pressed, so
  that its release performs the same action. The layer state has \<open>LENGTH('l)\<close> bits (8, 16 or 32), the
  cache \<open>MAX_LAYER_BITS\<close> bits per key. The hooks of keyboards and users are the weak defaults.
\<close>

section \<open>Layer states\<close>

record 'w layers =
  layer_state :: 'w
  default_layer_state :: 'w
  source_layers_cache :: "u8 list list"
  encoder_source_layers_cache :: "u8 list list"

definition layer_mask :: "nat \<Rightarrow> 'l::len word" where
  "layer_mask layer = push_bit layer 1"

definition default_layer_state_set :: "'l::len word \<Rightarrow> 'l word layers \<Rightarrow> 'l word layers" where
  "default_layer_state_set state s = s\<lparr>default_layer_state := state\<rparr>"

definition default_layer_set :: "'l::len word \<Rightarrow> 'l word layers \<Rightarrow> 'l word layers" where
  "default_layer_set state s = default_layer_state_set state s"
definition default_layer_or :: "'l::len word \<Rightarrow> 'l word layers \<Rightarrow> 'l word layers" where
  "default_layer_or state s = default_layer_state_set (default_layer_state s OR state) s"
definition default_layer_and :: "'l::len word \<Rightarrow> 'l word layers \<Rightarrow> 'l word layers" where
  "default_layer_and state s = default_layer_state_set (default_layer_state s AND state) s"
definition default_layer_xor :: "'l::len word \<Rightarrow> 'l word layers \<Rightarrow> 'l word layers" where
  "default_layer_xor state s = default_layer_state_set (default_layer_state s XOR state) s"

definition layer_state_set :: "'l::len word \<Rightarrow> 'l word layers \<Rightarrow> 'l word layers" where
  "layer_state_set state s = s\<lparr>layer_state := state\<rparr>"

definition layer_clear :: "'l::len word layers \<Rightarrow> 'l word layers" where
  "layer_clear s = layer_state_set 0 s"
definition layer_state_cmp :: "'l::len word \<Rightarrow> nat \<Rightarrow> bool" where
  "layer_state_cmp cmp_layer_state layer =
    (if cmp_layer_state = 0 then layer = 0 else cmp_layer_state AND layer_mask layer \<noteq> 0)"
definition layer_state_is :: "'l::len word layers \<Rightarrow> nat \<Rightarrow> bool" where
  "layer_state_is s layer = layer_state_cmp (layer_state s) layer"
definition layer_move :: "nat \<Rightarrow> 'l::len word layers \<Rightarrow> 'l word layers" where
  "layer_move layer s = layer_state_set (layer_mask layer) s"
definition layer_on :: "nat \<Rightarrow> 'l::len word layers \<Rightarrow> 'l word layers" where
  "layer_on layer s = layer_state_set (layer_state s OR layer_mask layer) s"
definition layer_off :: "nat \<Rightarrow> 'l::len word layers \<Rightarrow> 'l word layers" where
  "layer_off layer s = layer_state_set (layer_state s AND NOT (layer_mask layer)) s"
definition layer_invert :: "nat \<Rightarrow> 'l::len word layers \<Rightarrow> 'l word layers" where
  "layer_invert layer s = layer_state_set (layer_state s XOR layer_mask layer) s"
definition layer_or :: "'l::len word \<Rightarrow> 'l word layers \<Rightarrow> 'l word layers" where
  "layer_or state s = layer_state_set (layer_state s OR state) s"
definition layer_and :: "'l::len word \<Rightarrow> 'l word layers \<Rightarrow> 'l word layers" where
  "layer_and state s = layer_state_set (layer_state s AND state) s"
definition layer_xor :: "'l::len word \<Rightarrow> 'l word layers \<Rightarrow> 'l word layers" where
  "layer_xor state s = layer_state_set (layer_state s XOR state) s"

definition update_tri_layer_state :: "'l::len word \<Rightarrow> nat \<Rightarrow> nat \<Rightarrow> nat \<Rightarrow> 'l word" where
  "update_tri_layer_state state layer1 layer2 layer3 =
    (let mask12 = layer_mask layer1 OR layer_mask layer2; mask3 = layer_mask layer3
     in if state AND mask12 = mask12 then state OR mask3 else state AND NOT mask3)"

definition update_tri_layer :: "nat \<Rightarrow> nat \<Rightarrow> nat \<Rightarrow> 'l::len word layers \<Rightarrow> 'l word layers" where
  "update_tri_layer layer1 layer2 layer3 s =
    layer_state_set (update_tri_layer_state (layer_state s) layer1 layer2 layer3) s"

section \<open>The source layer cache\<close>

record keypos_t =
  krow :: nat
  kcol :: nat

definition VIAL_MATRIX_MAGIC :: nat where "VIAL_MATRIX_MAGIC = 240"
definition KEYLOC_ENCODER_CW :: nat where "KEYLOC_ENCODER_CW = 253"
definition KEYLOC_ENCODER_CCW :: nat where "KEYLOC_ENCODER_CCW = 252"

lemmas keyloc_defs = VIAL_MATRIX_MAGIC_def KEYLOC_ENCODER_CW_def KEYLOC_ENCODER_CCW_def

definition cache_bit_step :: "u8 \<Rightarrow> nat \<Rightarrow> nat \<Rightarrow> nat \<Rightarrow> u8 list list \<Rightarrow> u8 list list" where
  "cache_bit_step layer storage_idx storage_bit bit_number cache =
    (let c = cache ! storage_idx ! bit_number;
         v = c XOR (((if layer AND push_bit bit_number 1 \<noteq> 0 then -1 else 0) XOR c) AND push_bit storage_bit 1)
     in cache[storage_idx := (cache ! storage_idx)[bit_number := v]])"

definition update_source_layers_cache_impl ::
    "nat \<Rightarrow> u8 \<Rightarrow> nat \<Rightarrow> u8 list list \<Rightarrow> u8 list list" where
  "update_source_layers_cache_impl MAX_LAYER_BITS layer entry_number cache =
    fold (cache_bit_step layer (entry_number div 8) (entry_number mod 8)) [0..<MAX_LAYER_BITS] cache"

definition read_source_layers_cache_impl :: "nat \<Rightarrow> nat \<Rightarrow> u8 list list \<Rightarrow> u8" where
  "read_source_layers_cache_impl MAX_LAYER_BITS entry_number cache =
    (let storage_idx = entry_number div 8; storage_bit = entry_number mod 8
     in fold (\<lambda>bit_number layer. layer OR
          push_bit bit_number (of_bool (cache ! storage_idx ! bit_number AND push_bit storage_bit 1 \<noteq> 0)))
        [0..<MAX_LAYER_BITS] 0)"

definition update_source_layers_cache ::
    "dk_config \<Rightarrow> nat \<Rightarrow> keypos_t \<Rightarrow> u8 \<Rightarrow> 'l::len word layers \<Rightarrow> 'l word layers" where
  "update_source_layers_cache C bits key layer s =
    (if krow key = VIAL_MATRIX_MAGIC then s
     else if krow key < MATRIX_ROWS C \<and> kcol key < MATRIX_COLS C
     then s\<lparr>source_layers_cache := update_source_layers_cache_impl bits layer
            (krow key * MATRIX_COLS C + kcol key) (source_layers_cache s)\<rparr>
     else if krow key = KEYLOC_ENCODER_CW \<or> krow key = KEYLOC_ENCODER_CCW
     then s\<lparr>encoder_source_layers_cache := update_source_layers_cache_impl bits layer
            (kcol key) (encoder_source_layers_cache s)\<rparr>
     else s)"

definition read_source_layers_cache :: "dk_config \<Rightarrow> nat \<Rightarrow> keypos_t \<Rightarrow> 'l::len word layers \<Rightarrow> u8" where
  "read_source_layers_cache C bits key s =
    (if krow key = VIAL_MATRIX_MAGIC then 0
     else if krow key < MATRIX_ROWS C \<and> kcol key < MATRIX_COLS C
     then read_source_layers_cache_impl bits (krow key * MATRIX_COLS C + kcol key) (source_layers_cache s)
     else if krow key = KEYLOC_ENCODER_CW \<or> krow key = KEYLOC_ENCODER_CCW
     then read_source_layers_cache_impl bits (kcol key) (encoder_source_layers_cache s)
     else 0)"

section \<open>The layer of a key\<close>

text \<open>\<open>at_key\<close> and \<open>at_encoder\<close> are \<open>keycode_at_keymap_location\<close> and \<open>keycode_at_encodermap_location\<close>.\<close>

definition keymap_key_to_keycode ::
    "dk_config \<Rightarrow> bool \<Rightarrow> u16 \<Rightarrow> (nat \<Rightarrow> nat \<Rightarrow> nat \<Rightarrow> u16) \<Rightarrow> (nat \<Rightarrow> nat \<Rightarrow> bool \<Rightarrow> u16) \<Rightarrow> nat \<Rightarrow> keypos_t \<Rightarrow> u16" where
  "keymap_key_to_keycode C unlock_in_progress magic_override at_key at_encoder layer key =
    (if unlock_in_progress then KC_NO
     else if krow key = VIAL_MATRIX_MAGIC \<and> kcol key = VIAL_MATRIX_MAGIC then magic_override
     else if krow key < MATRIX_ROWS C \<and> kcol key < MATRIX_COLS C then at_key layer (krow key) (kcol key)
     else if krow key = KEYLOC_ENCODER_CW \<and> kcol key < NUM_ENCODERS C then at_encoder layer (kcol key) True
     else if krow key = KEYLOC_ENCODER_CCW \<and> kcol key < NUM_ENCODERS C then at_encoder layer (kcol key) False
     else KC_NO)"

definition action_for_key ::
    "keymap_config_t \<Rightarrow> (nat \<Rightarrow> keypos_t \<Rightarrow> u16) \<Rightarrow> nat \<Rightarrow> keypos_t \<Rightarrow> action_t" where
  "action_for_key k keycode_of layer key = action_for_keycode k (keycode_of layer key)"

fun find_layer :: "'l::len word \<Rightarrow> (nat \<Rightarrow> action_t) \<Rightarrow> nat \<Rightarrow> nat" where
  "find_layer layers action 0 = 0"
| "find_layer layers action (Suc i) =
    (if layers AND layer_mask i \<noteq> 0 \<and> action i \<noteq> ACTION_TRANSPARENT then i
     else find_layer layers action i)"

definition layer_switch_get_layer ::
    "nat \<Rightarrow> (nat \<Rightarrow> keypos_t \<Rightarrow> action_t) \<Rightarrow> keypos_t \<Rightarrow> 'l::len word layers \<Rightarrow> nat" where
  "layer_switch_get_layer MAX_LAYER action key s =
    find_layer (layer_state s OR default_layer_state s) (\<lambda>i. action i key) MAX_LAYER"

definition layer_switch_get_action ::
    "nat \<Rightarrow> (nat \<Rightarrow> keypos_t \<Rightarrow> action_t) \<Rightarrow> keypos_t \<Rightarrow> 'l::len word layers \<Rightarrow> action_t" where
  "layer_switch_get_action MAX_LAYER action key s = action (layer_switch_get_layer MAX_LAYER action key s) key"

definition store_or_get_action ::
    "dk_config \<Rightarrow> nat \<Rightarrow> nat \<Rightarrow> (nat \<Rightarrow> keypos_t \<Rightarrow> action_t) \<Rightarrow> bool \<Rightarrow> bool \<Rightarrow> keypos_t \<Rightarrow> 'l::len word layers
      \<Rightarrow> action_t \<times> 'l word layers" where
  "store_or_get_action C bits MAX_LAYER action disable_action_cache pressed key s =
    (if disable_action_cache then (layer_switch_get_action MAX_LAYER action key s, s)
     else if pressed
     then (let layer = of_nat (layer_switch_get_layer MAX_LAYER action key s)
           in (action (unat layer) key, update_source_layers_cache C bits key layer s))
     else (action (unat (read_source_layers_cache C bits key s)) key, s))"

section \<open>The layer search\<close>

text \<open>A layer answers for a key when it is on and the key is not transparent there.\<close>

definition answers :: "'l::len word \<Rightarrow> (nat \<Rightarrow> action_t) \<Rightarrow> nat \<Rightarrow> bool" where
  "answers layers action i \<longleftrightarrow> layers AND layer_mask i \<noteq> 0 \<and> action i \<noteq> ACTION_TRANSPARENT"

lemma find_layer_is_Max:
  "find_layer layers action n = Max (insert 0 {i. i < n \<and> answers layers action i})"
proof (induction n)
  case (Suc n)
  have split: "{i. i < Suc n \<and> answers layers action i} =
      (if answers layers action n then insert n {i. i < n \<and> answers layers action i}
       else {i. i < n \<and> answers layers action i})"
    by (auto simp: less_Suc_eq)
  show ?case
  proof (cases "answers layers action n")
    case True
    have "Max (insert 0 {i. i < Suc n \<and> answers layers action i}) = n"
      by (rule Max_eqI) (auto simp: True)
    then show ?thesis using True by (simp add: answers_def)
  next
    case False
    then have "find_layer layers action (Suc n) = find_layer layers action n"
      by (auto simp: answers_def)
    then show ?thesis by (simp add: split False Suc.IH)
  qed
qed simp

lemma find_layer_less: "0 < n \<Longrightarrow> find_layer layers action n < n"
  by (induction n) (auto simp: less_Suc_eq)

lemma and_layer_mask: "state AND layer_mask i \<noteq> 0 \<longleftrightarrow> bit (state :: 'l::len word) i"
  by (auto simp: layer_mask_def push_bit_eq_mult and_exp_eq_0_iff_not_bit)

text \<open>The layer that decides about a key is the highest layer that is on (as a layer or as a
  default layer) and does not have a transparent action there, and layer 0 when there is none.\<close>

lemma topmost_layer_decides:
  "layer_switch_get_layer MAX_LAYER (action_for_key k keycode_of) key s =
    Max (insert 0 {i. i < MAX_LAYER \<and> (bit (layer_state s) i \<or> bit (default_layer_state s) i) \<and>
      action_for_keycode k (keycode_of i key) \<noteq> ACTION_TRANSPARENT})"
  by (simp add: layer_switch_get_layer_def find_layer_is_Max answers_def and_layer_mask action_for_key_def bit_or_iff)

section \<open>Tri-layer states\<close>

lemma bit_layer_mask: "bit (layer_mask a :: 'l::len word) n \<longleftrightarrow> n = a \<and> a < LENGTH('l)"
  by (auto simp: layer_mask_def bit_simps)

lemma both_layers:
  assumes "a < LENGTH('l)" "b < LENGTH('l)"
  shows "(state :: 'l::len word) AND (layer_mask a OR layer_mask b) = layer_mask a OR layer_mask b \<longleftrightarrow>
    bit state a \<and> bit state b"
  using assms by (auto simp: bit_eq_iff [where 'a = "'l word"] bit_layer_mask bit_and_iff bit_or_iff possible_bit_def)

lemma update_tri_layer_state_bit:
  assumes "layer1 < LENGTH('l)" "layer2 < LENGTH('l)" "n < LENGTH('l)"
  shows "bit (update_tri_layer_state (state :: 'l::len word) layer1 layer2 layer3) n \<longleftrightarrow>
    (if n = layer3 then bit state layer1 \<and> bit state layer2 else bit state n)"
  using assms by (auto simp: update_tri_layer_state_def Let_def both_layers bit_layer_mask bit_simps)

text \<open>The tri-layer rule: after the update the third layer is on exactly when the first two are, every
  other layer is as before, and a second update changes nothing.\<close>

lemma tri_layer_follows_both:
  assumes "layer1 < LENGTH('l)" "layer2 < LENGTH('l)" "layer3 < LENGTH('l)" "layer3 \<notin> {layer1, layer2}"
  shows "(let state' = update_tri_layer_state (state :: 'l::len word) layer1 layer2 layer3
    in (\<forall>n < LENGTH('l). bit state' n \<longleftrightarrow>
          (if n = layer3 then bit state layer1 \<and> bit state layer2 else bit state n)) \<and>
       update_tri_layer_state state' layer1 layer2 layer3 = state')"
  using assms by (simp add: update_tri_layer_state_bit bit_eq_iff [where 'a = "'l word"] possible_bit_def Let_def)

lemma tri_layer_follows_both_witness:
  "bit (update_tri_layer_state (0b110 :: u8) 1 2 3) 3"
  using tri_layer_follows_both [where 'l = 8, of 1 2 3 "0b110"]
  by (simp add: Let_def)

section \<open>The cache as a table\<close>

text \<open>The entry of the two caches a key position selects.\<close>

definition cache_entry :: "dk_config \<Rightarrow> keypos_t \<Rightarrow> (bool \<times> nat) option" where
  "cache_entry C key =
    (if krow key = VIAL_MATRIX_MAGIC then None
     else if krow key < MATRIX_ROWS C \<and> kcol key < MATRIX_COLS C
     then Some (False, krow key * MATRIX_COLS C + kcol key)
     else if krow key = KEYLOC_ENCODER_CW \<or> krow key = KEYLOC_ENCODER_CCW then Some (True, kcol key)
     else None)"

definition cache_shape :: "nat \<Rightarrow> nat \<Rightarrow> u8 list list \<Rightarrow> bool" where
  "cache_shape entries bits cache \<longleftrightarrow>
    length cache = (entries + 7) div 8 \<and> (\<forall>r \<in> set cache. length r = bits)"

definition caches_ok :: "dk_config \<Rightarrow> nat \<Rightarrow> 'l::len word layers \<Rightarrow> bool" where
  "caches_ok C bits s \<longleftrightarrow> cache_shape (MATRIX_ROWS C * MATRIX_COLS C) bits (source_layers_cache s) \<and>
    cache_shape (NUM_ENCODERS C) bits (encoder_source_layers_cache s)"

lemma cache_shape_nth:
  "cache_shape n bits c \<Longrightarrow> e < n \<Longrightarrow> e div 8 < length c \<and> length (c ! (e div 8)) = bits"
  by (auto simp: cache_shape_def)

lemma cache_bit_step_shape:
  "cache_shape n bits c \<Longrightarrow> cache_shape n bits (cache_bit_step layer i b m c)"
  by (cases "i < length c")
    (auto simp: cache_shape_def cache_bit_step_def Let_def list_update_beyond dest!: set_update_subset_insert [THEN subsetD])

lemma cache_steps_shape:
  "cache_shape n bits c \<Longrightarrow> cache_shape n bits (fold (cache_bit_step layer i b) ms c)"
  by (induction ms arbitrary: c) (auto intro: cache_bit_step_shape)

lemma cache_bit_step_bit:
  assumes "idx < length c" "m < length (c ! idx)" "k < 8"
  shows "bit (cache_bit_step layer idx b m c ! i ! j) k \<longleftrightarrow>
    (if i = idx \<and> j = m \<and> k = b then bit layer m else bit (c ! i ! j) k)"
proof -
  have "layer AND push_bit m 1 \<noteq> 0 \<longleftrightarrow> bit layer m" by (simp add: and_exp_eq_0_iff_not_bit push_bit_eq_mult)
  then show ?thesis using assms
    by (auto simp: cache_bit_step_def Let_def nth_list_update bit_simps split: if_splits)
qed

lemma cache_steps_bit:
  assumes "cache_shape n bits c" "e < n" "m \<le> bits" "k < 8"
  shows "bit (fold (cache_bit_step layer (e div 8) b) [0..<m] c ! i ! j) k \<longleftrightarrow>
    (if i = e div 8 \<and> j < m \<and> k = b then bit layer j else bit (c ! i ! j) k)"
  using assms(3)
proof (induction m)
  case (Suc m)
  have "e div 8 < length (fold (cache_bit_step layer (e div 8) b) [0..<m] c) \<and>
      length (fold (cache_bit_step layer (e div 8) b) [0..<m] c ! (e div 8)) = bits"
    by (rule cache_shape_nth [OF cache_steps_shape [OF assms(1)] assms(2)])
  then show ?case using Suc assms(4) by (auto simp: cache_bit_step_bit less_Suc_eq)
qed simp

lemma read_cache_bit:
  assumes "k < 8" "m \<le> 8"
  shows "bit (fold (\<lambda>bit_number layer. layer OR
      push_bit bit_number (of_bool (c ! i ! bit_number AND push_bit b 1 \<noteq> (0 :: u8)))) [0..<m] (0 :: u8)) k \<longleftrightarrow>
    k < m \<and> bit (c ! i ! k) b"
  using assms(2)
proof (induction m)
  case (Suc m)
  have "c ! i ! m AND push_bit b 1 \<noteq> (0 :: u8) \<longleftrightarrow> bit (c ! i ! m) b"
    by (simp add: and_exp_eq_0_iff_not_bit push_bit_eq_mult)
  then show ?case using Suc assms(1) by (auto simp: bit_or_iff bit_push_bit_iff bit_of_bool_iff possible_bit_def less_Suc_eq
      simp del: push_bit_of_1)
qed simp

lemma read_update_cache:
  assumes "cache_shape n bits c" "e < n" "e' < n" "bits \<le> 8" "unat layer < 2 ^ bits"
  shows "read_source_layers_cache_impl bits e' (update_source_layers_cache_impl bits layer e c) =
    (if e' = e then layer else read_source_layers_cache_impl bits e' c)"
proof -
  have "e' = e \<longleftrightarrow> e' div 8 = e div 8 \<and> e' mod 8 = e mod 8"
    by (metis div_mult_mod_eq)
  moreover have "bit layer k \<Longrightarrow> k < bits" for k
    using bit_less_of_unat assms(5) by blast
  ultimately show ?thesis using assms(4)
    by (intro bit_word_eqI)
      (auto simp: read_source_layers_cache_impl_def update_source_layers_cache_impl_def Let_def
        read_cache_bit cache_steps_bit [OF assms(1,2)] simp del: push_bit_of_1)
qed

lemma entry_bound:
  assumes "cache_entry C key = Some (enc, e)" "kcol key < NUM_ENCODERS C \<or> \<not> enc"
  shows "e < (if enc then NUM_ENCODERS C else MATRIX_ROWS C * MATRIX_COLS C)"
proof -
  have "krow key * MATRIX_COLS C + kcol key < MATRIX_ROWS C * MATRIX_COLS C"
    if "krow key < MATRIX_ROWS C" "kcol key < MATRIX_COLS C"
  proof -
    have "krow key * MATRIX_COLS C + kcol key < Suc (krow key) * MATRIX_COLS C" using that by simp
    also have "\<dots> \<le> MATRIX_ROWS C * MATRIX_COLS C" using that by (intro mult_le_mono1) simp
    finally show ?thesis .
  qed
  then show ?thesis using assms by (auto simp: cache_entry_def split: if_splits)
qed

section \<open>A release performs the action of its press\<close>

text \<open>
  A run of key events and changes of the layer states. The positions are keys of the matrix,
  existing encoders or the magic position of Vial; \<open>MAX_LAYER\<close> layers fit the bits of the cache.
\<close>

datatype 'w layer_event = Key_Event bool keypos_t | Layer_Change 'w 'w

fun layer_step :: "dk_config \<Rightarrow> nat \<Rightarrow> nat \<Rightarrow> (nat \<Rightarrow> keypos_t \<Rightarrow> action_t) \<Rightarrow> 'l::len word layer_event \<Rightarrow>
    'l word layers \<Rightarrow> 'l word layers" where
  "layer_step C bits MAX_LAYER action (Key_Event pressed key) s =
    snd (store_or_get_action C bits MAX_LAYER action False pressed key s)"
| "layer_step C bits MAX_LAYER action (Layer_Change l d) s = default_layer_set d (layer_state_set l s)"

definition real_key :: "dk_config \<Rightarrow> keypos_t \<Rightarrow> bool" where
  "real_key C key \<longleftrightarrow> (\<exists>e. cache_entry C key = Some (False, e)) \<or>
    (\<exists>e. cache_entry C key = Some (True, e)) \<and> kcol key < NUM_ENCODERS C"

fun harmless :: "dk_config \<Rightarrow> keypos_t \<Rightarrow> 'w layer_event \<Rightarrow> bool" where
  "harmless C key (Key_Event pressed key') \<longleftrightarrow>
    cache_entry C key' = None \<or> real_key C key' \<and> (pressed \<longrightarrow> cache_entry C key' \<noteq> cache_entry C key)"
| "harmless C key (Layer_Change l d) \<longleftrightarrow> True"

lemma update_cache_ok:
  "caches_ok C bits s \<Longrightarrow> caches_ok C bits (update_source_layers_cache C bits key layer s)"
  by (simp add: caches_ok_def update_source_layers_cache_def update_source_layers_cache_impl_def cache_steps_shape)

lemma read_by_entry:
  "read_source_layers_cache C bits key s = (case cache_entry C key of None \<Rightarrow> 0
    | Some (enc, e) \<Rightarrow> read_source_layers_cache_impl bits e
        (if enc then encoder_source_layers_cache s else source_layers_cache s))"
  by (simp add: read_source_layers_cache_def cache_entry_def)

lemma update_by_entry:
  "update_source_layers_cache C bits key layer s = (case cache_entry C key of None \<Rightarrow> s
    | Some (enc, e) \<Rightarrow> if enc
        then s\<lparr>encoder_source_layers_cache := update_source_layers_cache_impl bits layer e (encoder_source_layers_cache s)\<rparr>
        else s\<lparr>source_layers_cache := update_source_layers_cache_impl bits layer e (source_layers_cache s)\<rparr>)"
  by (simp add: update_source_layers_cache_def cache_entry_def)

lemma real_key_entry:
  "real_key C k \<Longrightarrow> \<exists>enc e. cache_entry C k = Some (enc, e) \<and>
    e < (if enc then NUM_ENCODERS C else MATRIX_ROWS C * MATRIX_COLS C)"
  using entry_bound [of C k] unfolding real_key_def by blast

lemma read_update_other:
  assumes "caches_ok C bits s" "bits \<le> 8" "unat layer < 2 ^ bits" "real_key C key" "real_key C key'"
  shows "read_source_layers_cache C bits key (update_source_layers_cache C bits key' layer s) =
    (if cache_entry C key' = cache_entry C key then layer else read_source_layers_cache C bits key s)"
proof -
  obtain enc e where e: "cache_entry C key = Some (enc, e)"
    "e < (if enc then NUM_ENCODERS C else MATRIX_ROWS C * MATRIX_COLS C)"
    using real_key_entry [OF assms(4)] by blast
  obtain enc' e' where e': "cache_entry C key' = Some (enc', e')"
    "e' < (if enc' then NUM_ENCODERS C else MATRIX_ROWS C * MATRIX_COLS C)"
    using real_key_entry [OF assms(5)] by blast
  show ?thesis using e e' assms(1-3)
    by (cases enc; cases enc') (auto simp: read_by_entry update_by_entry caches_ok_def read_update_cache)
qed

lemma layer_step_ok: "caches_ok C bits s \<Longrightarrow> caches_ok C bits (layer_step C bits M action ev s)"
  by (cases ev) (auto simp: store_or_get_action_def Let_def update_cache_ok default_layer_set_def
      default_layer_state_set_def layer_state_set_def caches_ok_def [of C bits "_\<lparr>layer_state := _\<rparr>"]
      caches_ok_def [of C bits "_\<lparr>layer_state := _, default_layer_state := _\<rparr>"] caches_ok_def [of C bits s])

lemma unat_layer:
  assumes "0 < M" "M \<le> 2 ^ bits" "bits \<le> 8"
  shows "unat (of_nat (layer_switch_get_layer M action key s) :: u8) = layer_switch_get_layer M action key s"
    and "layer_switch_get_layer M action key s < 2 ^ bits"
proof -
  show less: "layer_switch_get_layer M action key s < 2 ^ bits"
    using find_layer_less [OF assms(1)] assms(2) by (auto simp: layer_switch_get_layer_def intro: less_le_trans)
  have "(2 :: nat) ^ bits \<le> 2 ^ 8" using assms(3) by (intro power_increasing) auto
  then show "unat (of_nat (layer_switch_get_layer M action key s) :: u8) = layer_switch_get_layer M action key s"
    using less by (intro unat_of_nat_small) simp
qed

lemma layer_step_keeps_entry:
  assumes "caches_ok C bits s" "bits \<le> 8" "0 < M" "M \<le> 2 ^ bits" "real_key C key" "harmless C key ev"
  shows "read_source_layers_cache C bits key (layer_step C bits M action ev s) = read_source_layers_cache C bits key s"
proof (cases ev)
  case (Key_Event p key')
  have none: "update_source_layers_cache C bits key' layer s = s" if "cache_entry C key' = None" for layer
    using that by (auto simp: cache_entry_def update_source_layers_cache_def split: if_splits)
  show ?thesis
    using assms(6) read_update_other [OF assms(1,2) _ assms(5)] unat_layer [OF assms(3,4,2), of action key' s]
    by (cases "cache_entry C key' = None") (auto simp: Key_Event store_or_get_action_def none Let_def)
qed (simp add: read_source_layers_cache_def default_layer_set_def default_layer_state_set_def layer_state_set_def)

lemma layer_run_keeps_entry:
  assumes "caches_ok C bits s" "bits \<le> 8" "0 < M" "M \<le> 2 ^ bits" "real_key C key"
    "list_all (harmless C key) evs"
  shows "read_source_layers_cache C bits key (fold (layer_step C bits M action) evs s) =
    read_source_layers_cache C bits key s"
  using assms(1,6)
  by (induction evs arbitrary: s) (auto simp: layer_step_ok layer_step_keeps_entry [OF _ assms(2-5)])

text \<open>C15: a key that is released performs the action it had when it was pressed, whatever layers were
  switched and whatever other keys were pressed or released in between: the cache remembers the layer
  of the press.\<close>

theorem release_uses_press_layer:
  assumes "caches_ok C bits s" "bits \<le> 8" "0 < MAX_LAYER" "MAX_LAYER \<le> 2 ^ bits" "real_key C key"
    "list_all (harmless C key) evs"
    "store_or_get_action C bits MAX_LAYER action False True key s = (a, s')"
  shows "fst (store_or_get_action C bits MAX_LAYER action False False key
      (fold (layer_step C bits MAX_LAYER action) evs s')) = a"
proof -
  define l where "l = layer_switch_get_layer MAX_LAYER action key s"
  note l = unat_layer [OF assms(3,4,2), of action key s, folded l_def]
  have s': "s' = update_source_layers_cache C bits key (of_nat l) s" and a: "a = action l key"
    using assms(7) l by (auto simp: store_or_get_action_def Let_def l_def [symmetric])
  have "read_source_layers_cache C bits key (fold (layer_step C bits MAX_LAYER action) evs s') =
      read_source_layers_cache C bits key s'"
    by (rule layer_run_keeps_entry) (use assms(1-6) s' update_cache_ok in auto)
  then show ?thesis
    using read_update_other [OF assms(1,2) _ assms(5,5)] l by (simp add: store_or_get_action_def s' a)
qed

definition two_keys :: dk_config where
  "two_keys = \<lparr>DYNAMIC_KEYMAP_EEPROM_ADDR = 41, DYNAMIC_KEYMAP_EEPROM_MAX_ADDR = 1023,
    DYNAMIC_KEYMAP_LAYER_COUNT = 4, MATRIX_ROWS = 1, MATRIX_COLS = 2, NUM_ENCODERS = 1,
    VIAL_TAP_DANCE_ENTRIES = 4, VIAL_COMBO_ENTRIES = 4, VIAL_KEY_OVERRIDE_ENTRIES = 4,
    DYNAMIC_KEYMAP_MACRO_COUNT = 16\<rparr>"

definition fresh_layers :: "u8 layers" where
  "fresh_layers = \<lparr>layer_state = 0, default_layer_state = 1, source_layers_cache = [[0, 0, 0]],
    encoder_source_layers_cache = [[0, 0, 0]]\<rparr>"

definition two_layer_actions :: "nat \<Rightarrow> keypos_t \<Rightarrow> action_t" where
  "two_layer_actions layer key = of_nat (16 * layer + kcol key)"

theorem release_uses_press_layer_witness:
  "fst (store_or_get_action two_keys 3 8 two_layer_actions False False \<lparr>krow = 0, kcol = 0\<rparr>
    (fold (layer_step two_keys 3 8 two_layer_actions)
      [Layer_Change 2 1, Key_Event True \<lparr>krow = 0, kcol = 1\<rparr>, Key_Event False \<lparr>krow = 0, kcol = 1\<rparr>]
      (snd (store_or_get_action two_keys 3 8 two_layer_actions False True \<lparr>krow = 0, kcol = 0\<rparr>
        (layer_on 2 fresh_layers))))) =
    fst (store_or_get_action two_keys 3 8 two_layer_actions False True \<lparr>krow = 0, kcol = 0\<rparr> (layer_on 2 fresh_layers))"
  by (rule release_uses_press_layer [OF _ _ _ _ _ _ surjective_pairing])
    (auto simp: two_keys_def fresh_layers_def caches_ok_def cache_shape_def layer_on_def layer_state_set_def
      real_key_def cache_entry_def keyloc_defs)

end
