(* ===== verification/Bitwise.thy ===== *)
theory Bitwise
  imports Qmk_Prelude "HOL-Library.While_Combinator"
begin

unbundle bit_operations_syntax

text \<open>
  Bit utilities (\<open>quantum/bitwise.c\<close>): population count, the position of the highest bit and the
  reversal of the bits of 8, 16 and 32-bit integers. The counting loop is the library's
  \<open>while_option\<close>, so that its termination is a theorem and not an assumption.
\<close>

section \<open>Population count\<close>

definition bitpop_loop :: "'a::len word \<Rightarrow> ('a word \<times> u8) option" where
  "bitpop_loop bits = while_option (\<lambda>(bits, c). bits \<noteq> 0) (\<lambda>(bits, c). (bits AND (bits - 1), c + 1)) (bits, 0)"

definition bitpop :: "u8 \<Rightarrow> u8" where
  "bitpop bits = (case bitpop_loop bits of Some (_, c) \<Rightarrow> c | None \<Rightarrow> 0)"
definition bitpop16 :: "u16 \<Rightarrow> u8" where
  "bitpop16 bits = (case bitpop_loop bits of Some (_, c) \<Rightarrow> c | None \<Rightarrow> 0)"
definition bitpop32 :: "u32 \<Rightarrow> u8" where
  "bitpop32 bits = (case bitpop_loop bits of Some (_, c) \<Rightarrow> c | None \<Rightarrow> 0)"

section \<open>Highest bit\<close>

definition biton_step :: "nat \<Rightarrow> 'a::len word \<times> u8 \<Rightarrow> 'a word \<times> u8" where
  "biton_step k = (\<lambda>(bits, n). if drop_bit k bits \<noteq> 0 then (drop_bit k bits, n + of_nat k) else (bits, n))"

definition biton :: "u8 \<Rightarrow> u8" where
  "biton bits = snd (fold biton_step [4, 2, 1] (bits, 0))"
definition biton16 :: "u16 \<Rightarrow> u8" where
  "biton16 bits = snd (fold biton_step [8, 4, 2, 1] (bits, 0))"
definition biton32 :: "u32 \<Rightarrow> u8" where
  "biton32 bits = snd (fold biton_step [16, 8, 4, 2, 1] (bits, 0))"

section \<open>Reversal\<close>

definition bitrev :: "u8 \<Rightarrow> u8" where
  "bitrev bits0 =
    (let bits1 = push_bit 4 (bits0 AND 0x0F) OR drop_bit 4 (bits0 AND 0xF0);
         bits2 = push_bit 2 (bits1 AND 0b00110011) OR drop_bit 2 (bits1 AND 0b11001100)
     in push_bit 1 (bits2 AND 0b01010101) OR drop_bit 1 (bits2 AND 0b10101010))"

definition bitrev16 :: "u16 \<Rightarrow> u16" where
  "bitrev16 bits = push_bit 8 (ucast (bitrev (ucast (bits AND 0x00FF)))) OR
    ucast (bitrev (ucast (drop_bit 8 (bits AND 0xFF00))))"

definition bitrev32 :: "u32 \<Rightarrow> u32" where
  "bitrev32 bits = push_bit 16 (ucast (bitrev16 (ucast (bits AND 0x0000FFFF)))) OR
    ucast (bitrev16 (ucast (drop_bit 16 (bits AND 0xFFFF0000))))"

section \<open>Clearing the lowest bit\<close>

definition bits_of :: "'a::len word \<Rightarrow> nat set" where
  "bits_of w = {n. bit w n}"

lemma finite_bits_of [simp]: "finite (bits_of (w :: 'a::len word))"
  by (rule finite_subset [of _ "{..< LENGTH('a)}"]) (auto simp: bits_of_def dest: bit_imp_le_length)

lemma bits_of_empty [simp]: "bits_of w = {} \<longleftrightarrow> w = 0"
  by (auto simp: bits_of_def intro: bit_word_eqI)

lemma bits_of_0 [simp]: "bits_of 0 = {}"
  by (simp add: bits_of_def)

lemma bits_of_inject: "bits_of v = bits_of w \<Longrightarrow> v = w"
  by (auto simp: bits_of_def bit_eq_iff)

text \<open>\<open>w - 1\<close> keeps the bits above the lowest one, clears it, and sets those below.\<close>

lemma bit_minus_1:
  assumes "bit w n" "\<forall>i < n. \<not> bit (w :: 'a::len word) i"
  shows "w - 1 = (w AND NOT (mask (Suc n))) OR mask n"
proof -
  have n: "n < LENGTH('a)" using assms(1) by (rule bit_imp_le_length)
  have w: "w = (w AND NOT (mask (Suc n))) OR push_bit n 1"
    using assms n by (intro bit_word_eqI) (auto simp: bit_simps less_Suc_eq dest: linorder_neqE_nat)
  have "w = (w AND NOT (mask (Suc n))) + push_bit n 1"
    by (subst w, rule disjunctive_add [symmetric]) (auto simp: bit_simps)
  moreover have "push_bit n 1 = mask n + (1 :: 'a word)"
    by (simp add: mask_eq_exp_minus_1 push_bit_eq_mult)
  moreover have "(w AND NOT (mask (Suc n))) OR mask n = (w AND NOT (mask (Suc n))) + mask n"
    by (rule disjunctive_add [symmetric]) (auto simp: bit_simps)
  ultimately show ?thesis by (metis add_diff_cancel_right' group_cancel.add1 add.commute)
qed

lemma bits_of_clear_lowest:
  assumes "(w :: 'a::len word) \<noteq> 0"
  shows "bits_of (w AND (w - 1)) = bits_of w - {Min (bits_of w)}"
proof -
  define n where "n = Min (bits_of w)"
  have "n \<in> bits_of w" using assms by (simp add: n_def)
  moreover have low: "\<forall>i < n. \<not> bit w i"
    using Min_le [of "bits_of w"] by (auto simp: n_def bits_of_def leD)
  ultimately have "w - 1 = (w AND NOT (mask (Suc n))) OR mask n"
    by (intro bit_minus_1) (simp_all add: bits_of_def)
  then have "bit (w AND (w - 1)) k \<longleftrightarrow> bit w k \<and> k \<noteq> n" for k
    using low bit_imp_le_length [of w k] linorder_less_linear [of k n]
    by (cases "bit w k") (auto simp: bit_and_iff bit_or_iff bit_not_iff bit_mask_iff possible_bit_def)
  then show ?thesis by (auto simp: bits_of_def n_def)
qed

lemma card_clear_lowest:
  "(w :: 'a::len word) \<noteq> 0 \<Longrightarrow> Suc (card (bits_of (w AND (w - 1)))) = card (bits_of w)"
  using card_Suc_Diff1 [of "bits_of w" "Min (bits_of w)"] by (simp add: bits_of_clear_lowest del: card_Diff_insert)

lemma bitpop_loop_ends:
  "\<exists>c. while_option (\<lambda>(bits, c). bits \<noteq> 0) (\<lambda>(bits, c). (bits AND (bits - 1), c + 1)) (w :: 'a::len word, a :: u8) =
    Some (0, a + of_nat (card (bits_of w)))"
proof (induction "card (bits_of w)" arbitrary: w a)
  case 0
  then show ?case by (subst while_option_unfold) auto
next
  case (Suc k)
  then have "w \<noteq> 0" by auto
  with Suc(2) card_clear_lowest [of w] have k: "k = card (bits_of (w AND (w - 1)))"
    and card: "card (bits_of w) = Suc (card (bits_of (w AND (w - 1))))" by simp_all
  from Suc(1) [OF k, of "a + 1"] show ?case
    by (subst while_option_unfold) (simp add: \<open>w \<noteq> 0\<close> card)
qed

text \<open>The counting loop ends for every argument and every width, and its result is the number of
  bits that are set.\<close>

lemma bitpop_loop_counts:
  "bitpop_loop (w :: 'a::len word) = Some (0, of_nat (card {n. bit w n}))"
  using bitpop_loop_ends [of w 0] by (simp add: bitpop_loop_def bits_of_def)

section \<open>The highest bit\<close>

definition narrowed :: "'a::len word \<Rightarrow> nat \<Rightarrow> 'a word \<times> u8 \<Rightarrow> bool" where
  "narrowed w b s \<longleftrightarrow> (\<exists>m. snd s = of_nat m \<and> m + b \<le> LENGTH('a) \<and> fst s = drop_bit m w \<and>
    fst s \<noteq> 0 \<and> drop_bit b (fst s) = 0)"

lemma biton_step_narrows:
  assumes "narrowed w (2 * k) s"
  shows "narrowed w k (biton_step k s)"
proof -
  obtain v n where s: "s = (v, n)" by (cases s)
  from assms obtain m where m: "n = of_nat m" "m + 2 * k \<le> LENGTH('a)" "v = drop_bit m w" "v \<noteq> 0"
    "drop_bit (2 * k) v = 0" by (auto simp: narrowed_def s)
  show ?thesis
  proof (cases "drop_bit k v = 0")
    case True
    then show ?thesis using m by (auto simp: narrowed_def biton_step_def s)
  next
    case False
    have "drop_bit k (drop_bit k v) = 0" using m(5) by (simp add: mult_2)
    then show ?thesis using False m
      by (auto simp: narrowed_def biton_step_def s add.commute intro!: exI [of _ "m + k"])
  qed
qed

lemma narrowed_start:
  assumes "w \<noteq> (0 :: 'a::len word)"
  shows "narrowed w LENGTH('a) (w, 0)"
proof -
  have "drop_bit LENGTH('a) w = 0" by (rule bit_word_eqI) (simp add: bit_simps)
  then show ?thesis using assms by (auto simp: narrowed_def intro!: exI [of _ 0])
qed

text \<open>A width that is small enough for the eight-bit counter.\<close>

lemma narrowed_1:
  assumes "narrowed (w :: 'a::len word) 1 s" "LENGTH('a) \<le> 256"
  shows "bit w (unat (snd s))" and "drop_bit (Suc (unat (snd s))) w = 0"
proof -
  obtain m where m: "snd s = of_nat m" "m + 1 \<le> LENGTH('a)" "fst s = drop_bit m w" "fst s \<noteq> 0"
    "drop_bit 1 (fst s) = 0" using assms(1) by (auto simp: narrowed_def)
  have u: "unat (snd s) = m" unfolding m(1) by (rule unat_of_nat_small) (use m(2) assms(2) in simp)
  show z: "drop_bit (Suc (unat (snd s))) w = 0" using m(3,5) by (simp add: u)
  show "bit w (unat (snd s))"
  proof (rule ccontr)
    assume no: "\<not> bit w (unat (snd s))"
    have "\<not> bit (drop_bit m w) i" for i
      using no bit_drop_bit_eq [of "Suc m" w] arg_cong [OF z, of "\<lambda>x. bit x (i - 1)"]
      by (cases i) (auto simp: u bit_drop_bit_eq)
    then show False using m(3,4) by (metis bit_0_eq bit_eqI bot_apply bot_bool_def)
  qed
qed

lemma highest_bit_unique:
  "bit w n \<Longrightarrow> drop_bit (Suc n) w = 0 \<Longrightarrow> n = Max {i. bit (w :: 'a::len word) i}"
proof (rule Max_eqI [symmetric])
  fix i assume "drop_bit (Suc n) w = 0" "i \<in> {i. bit w i}"
  then show "i \<le> n"
    using bit_drop_bit_eq [of "Suc n" w] by (metis bit_0_eq bot_apply bot_bool_def comp_apply le_add_diff_inverse mem_Collect_eq not_less_eq_eq)
qed (simp_all add: finite_bits_of [unfolded bits_of_def])

text \<open>The three searches return the position of the highest bit that is set, and 0 for 0.\<close>

lemma biton_is_highest_bit:
  "unat (biton w8) = (if w8 = 0 then 0 else Max {i. bit w8 i}) \<and>
   unat (biton16 w16) = (if w16 = 0 then 0 else Max {i. bit w16 i}) \<and>
   unat (biton32 w32) = (if w32 = 0 then 0 else Max {i. bit w32 i})"
proof -
  have 8: "narrowed w8 1 (fold biton_step [4, 2, 1] (w8, 0))" if "w8 \<noteq> 0"
    using biton_step_narrows [of w8 4] biton_step_narrows [of w8 2] biton_step_narrows [of w8 1]
      narrowed_start [OF that] by simp
  have 16: "narrowed w16 1 (fold biton_step [8, 4, 2, 1] (w16, 0))" if "w16 \<noteq> 0"
    using biton_step_narrows [of w16 8] biton_step_narrows [of w16 4] biton_step_narrows [of w16 2]
      biton_step_narrows [of w16 1] narrowed_start [OF that] by simp
  have 32: "narrowed w32 1 (fold biton_step [16, 8, 4, 2, 1] (w32, 0))" if "w32 \<noteq> 0"
    using biton_step_narrows [of w32 16] biton_step_narrows [of w32 8] biton_step_narrows [of w32 4]
      biton_step_narrows [of w32 2] biton_step_narrows [of w32 1] narrowed_start [OF that] by simp
  show ?thesis
    using highest_bit_unique [OF narrowed_1 [OF 8]] highest_bit_unique [OF narrowed_1 [OF 16]]
      highest_bit_unique [OF narrowed_1 [OF 32]]
    by (auto simp: biton_def biton16_def biton32_def biton_step_def)
qed

section \<open>The reversed bits\<close>

lemma bit_int_masks:
  "bit (240 :: int) n \<longleftrightarrow> n = 4 \<or> n = 5 \<or> n = 6 \<or> n = 7"
  "bit (51 :: int) n \<longleftrightarrow> n = 0 \<or> n = 1 \<or> n = 4 \<or> n = 5"
  "bit (204 :: int) n \<longleftrightarrow> n = 2 \<or> n = 3 \<or> n = 6 \<or> n = 7"
  "bit (85 :: int) n \<longleftrightarrow> n = 0 \<or> n = 2 \<or> n = 4 \<or> n = 6"
  "bit (170 :: int) n \<longleftrightarrow> n = 1 \<or> n = 3 \<or> n = 5 \<or> n = 7"
proof -
  have 240: "(240 :: int) = push_bit 4 (mask 4)" and 51: "(51 :: int) = push_bit 0 (mask 2) OR push_bit 4 (mask 2)"
    and 204: "(204 :: int) = push_bit 2 (mask 2) OR push_bit 6 (mask 2)"
    and 85: "(85 :: int) = push_bit 0 (mask 1) OR push_bit 2 (mask 1) OR push_bit 4 (mask 1) OR push_bit 6 (mask 1)"
    and 170: "(170 :: int) = push_bit 1 (mask 1) OR push_bit 3 (mask 1) OR push_bit 5 (mask 1) OR push_bit 7 (mask 1)"
    by (simp_all add: mask_eq_exp_minus_1)
  show "bit (240 :: int) n \<longleftrightarrow> n = 4 \<or> n = 5 \<or> n = 6 \<or> n = 7" unfolding 240 bit_int_range by auto
  show "bit (51 :: int) n \<longleftrightarrow> n = 0 \<or> n = 1 \<or> n = 4 \<or> n = 5" unfolding 51 bit_or_iff bit_int_range by auto
  show "bit (204 :: int) n \<longleftrightarrow> n = 2 \<or> n = 3 \<or> n = 6 \<or> n = 7" unfolding 204 bit_or_iff bit_int_range by auto
  show "bit (85 :: int) n \<longleftrightarrow> n = 0 \<or> n = 2 \<or> n = 4 \<or> n = 6" unfolding 85 bit_or_iff bit_int_range by auto
  show "bit (170 :: int) n \<longleftrightarrow> n = 1 \<or> n = 3 \<or> n = 5 \<or> n = 7" unfolding 170 bit_or_iff bit_int_range by auto
qed

lemma bit_int_high_halves:
  "bit (65280 :: int) n \<longleftrightarrow> 8 \<le> n \<and> n < 16"
  "bit (4294901760 :: int) n \<longleftrightarrow> 16 \<le> n \<and> n < 32"
proof -
  have "(65280 :: int) = push_bit 8 (mask 8)" "(4294901760 :: int) = push_bit 16 (mask 16)"
    by (simp_all add: mask_eq_exp_minus_1)
  then show "bit (65280 :: int) n \<longleftrightarrow> 8 \<le> n \<and> n < 16" "bit (4294901760 :: int) n \<longleftrightarrow> 16 \<le> n \<and> n < 32"
    using bit_int_range [of 8 8 n] bit_int_range [of 16 16 n] by auto
qed

lemma bit_bitrev: "n < 8 \<Longrightarrow> bit (bitrev w) n \<longleftrightarrow> bit w (7 - n)"
  by (erule less_8_cases) (simp_all add: bitrev_def Let_def bit_simps bit_int_masks bit_consts)

lemma bit_bitrev16:
  assumes "n < 16"
  shows "bit (bitrev16 w) n \<longleftrightarrow> bit w (15 - n)"
proof (cases "n < 8")
  case True
  then have "bit (bitrev (ucast (drop_bit 8 (w AND 0xFF00)))) n \<longleftrightarrow> bit (w AND 0xFF00) (15 - n)"
    by (auto simp add: bit_bitrev bit_simps bit_consts bit_int_high_halves)
  moreover have "bit (0xFF00 :: u16) (15 - n)"
    using True by (auto simp: bit_simps bit_int_high_halves)
  ultimately show ?thesis using True by (simp add: bitrev16_def bit_simps)
next
  case False
  then show ?thesis using assms bit_bitrev [of "n - 8" "ucast (w AND 0xFF)"] bit_imp_le_length [of "bitrev _" n]
    by (auto simp: bitrev16_def bit_simps bit_consts)
qed

lemma bit_bitrev32:
  assumes "n < 32"
  shows "bit (bitrev32 w) n \<longleftrightarrow> bit w (31 - n)"
proof (cases "n < 16")
  case True
  then have "bit (bitrev16 (ucast (drop_bit 16 (w AND 0xFFFF0000)))) n \<longleftrightarrow> bit (w AND 0xFFFF0000) (31 - n)"
    by (auto simp add: bit_bitrev16 bit_simps bit_consts bit_int_high_halves)
  moreover have "bit (0xFFFF0000 :: u32) (31 - n)"
    using True by (auto simp: bit_simps bit_int_high_halves)
  ultimately show ?thesis using True by (simp add: bitrev32_def bit_simps)
next
  case False
  then show ?thesis using assms bit_bitrev16 [of "n - 16" "ucast (w AND 0xFFFF)"] bit_imp_le_length [of "bitrev16 _" n]
    by (auto simp: bitrev32_def bit_simps bit_consts)
qed

lemma bitrev_involutive:
  "bitrev (bitrev w8) = w8" "bitrev16 (bitrev16 w16) = w16" "bitrev32 (bitrev32 w32) = w32"
  by (rule bit_word_eqI; simp add: bit_bitrev bit_bitrev16 bit_bitrev32)+

end
