(* ===== verification/Report.thy ===== *)
theory Report
  imports Bitwise
begin

unbundle bit_operations_syntax

text \<open>
  USB reports (\<open>tmk_core/protocol/report.c\<close>): the six-key report with its list of keycodes, the NKRO
  report with one bit per keycode, and the operations that add, remove and look up keys in the
  active one. \<open>nkro\<close> is the test of the code: the host uses the report protocol and \<open>keymap_config.nkro\<close>
  is set. Mouse reports have the field widths of the extended reports.
\<close>

section \<open>The reports\<close>

record report_keyboard_t =
  kb_mods :: u8
  kb_keys :: "u8 list"

record report_nkro_t =
  nkro_mods :: u8
  nkro_bits :: "u8 list"

record reports =
  keyboard_report :: report_keyboard_t
  nkro_report :: report_nkro_t

definition KEYBOARD_REPORT_KEYS :: nat where "KEYBOARD_REPORT_KEYS = 6"
definition NKRO_REPORT_BITS :: nat where "NKRO_REPORT_BITS = 30"

definition has_anykey :: "bool \<Rightarrow> reports \<Rightarrow> u8" where
  "has_anykey nkro r =
    (let p = (if nkro then nkro_bits (nkro_report r) else kb_keys (keyboard_report r))
     in fold (\<lambda>b cnt. if b \<noteq> 0 then cnt + 1 else cnt) p 0)"

text \<open>\<open>None\<close> is the read behind the end of \<open>bits\<close>.\<close>

fun first_bits :: "nat \<Rightarrow> u8 list \<Rightarrow> (nat \<times> u8) option" where
  "first_bits i [] = None"
| "first_bits i (b # bs) = (if b \<noteq> 0 then Some (i, b) else first_bits (Suc i) bs)"

definition get_first_key :: "bool \<Rightarrow> reports \<Rightarrow> u8 option" where
  "get_first_key nkro r =
    (if nkro then (case first_bits 0 (nkro_bits (nkro_report r)) of None \<Rightarrow> None
       | Some (i, b) \<Rightarrow> Some (push_bit 3 (of_nat i) OR biton b))
     else Some (kb_keys (keyboard_report r) ! 0))"

definition is_key_pressed :: "bool \<Rightarrow> u8 \<Rightarrow> reports \<Rightarrow> bool" where
  "is_key_pressed nkro key r =
    (if key = 0 then False
     else if nkro then
       (if unat (drop_bit 3 key) < NKRO_REPORT_BITS
        then nkro_bits (nkro_report r) ! unat (drop_bit 3 key) AND push_bit (unat (key AND 7)) 1 \<noteq> 0
        else False)
     else key \<in> set (kb_keys (keyboard_report r)))"

text \<open>The scan of \<open>add_key_byte\<close>: whether the code was found, and the first empty slot.\<close>

fun scan_keys :: "u8 \<Rightarrow> nat \<Rightarrow> nat option \<Rightarrow> u8 list \<Rightarrow> bool \<times> nat option" where
  "scan_keys code i slot [] = (False, slot)"
| "scan_keys code i slot (k # ks) =
    (if k = code then (True, slot)
     else scan_keys code (Suc i) (if slot = None \<and> k = 0 then Some i else slot) ks)"

definition add_key_byte :: "u8 \<Rightarrow> report_keyboard_t \<Rightarrow> report_keyboard_t" where
  "add_key_byte code r =
    (case scan_keys code 0 None (kb_keys r) of
       (False, Some i) \<Rightarrow> r\<lparr>kb_keys := (kb_keys r)[i := code]\<rparr>
     | _ \<Rightarrow> r)"

definition del_key_byte :: "u8 \<Rightarrow> report_keyboard_t \<Rightarrow> report_keyboard_t" where
  "del_key_byte code r = r\<lparr>kb_keys := map (\<lambda>k. if k = code then 0 else k) (kb_keys r)\<rparr>"

definition add_key_bit :: "u8 \<Rightarrow> report_nkro_t \<Rightarrow> report_nkro_t" where
  "add_key_bit code r =
    (if unat (drop_bit 3 code) < NKRO_REPORT_BITS
     then r\<lparr>nkro_bits := (nkro_bits r)[unat (drop_bit 3 code) :=
       nkro_bits r ! unat (drop_bit 3 code) OR push_bit (unat (code AND 7)) 1]\<rparr>
     else r)"

definition del_key_bit :: "u8 \<Rightarrow> report_nkro_t \<Rightarrow> report_nkro_t" where
  "del_key_bit code r =
    (if unat (drop_bit 3 code) < NKRO_REPORT_BITS
     then r\<lparr>nkro_bits := (nkro_bits r)[unat (drop_bit 3 code) :=
       nkro_bits r ! unat (drop_bit 3 code) AND NOT (push_bit (unat (code AND 7)) 1)]\<rparr>
     else r)"

definition add_key_to_report :: "bool \<Rightarrow> u8 \<Rightarrow> reports \<Rightarrow> reports" where
  "add_key_to_report nkro key r =
    (if nkro then r\<lparr>nkro_report := add_key_bit key (nkro_report r)\<rparr>
     else r\<lparr>keyboard_report := add_key_byte key (keyboard_report r)\<rparr>)"

definition del_key_from_report :: "bool \<Rightarrow> u8 \<Rightarrow> reports \<Rightarrow> reports" where
  "del_key_from_report nkro key r =
    (if nkro then r\<lparr>nkro_report := del_key_bit key (nkro_report r)\<rparr>
     else r\<lparr>keyboard_report := del_key_byte key (keyboard_report r)\<rparr>)"

definition clear_keys_from_report :: "bool \<Rightarrow> reports \<Rightarrow> reports" where
  "clear_keys_from_report nkro r =
    (if nkro then r\<lparr>nkro_report := (nkro_report r)\<lparr>nkro_bits := replicate NKRO_REPORT_BITS 0\<rparr>\<rparr>
     else r\<lparr>keyboard_report := (keyboard_report r)\<lparr>kb_keys := replicate KEYBOARD_REPORT_KEYS 0\<rparr>\<rparr>)"

record report_mouse_t =
  mouse_buttons :: u8
  mouse_boot_x :: u8
  mouse_boot_y :: u8
  mouse_x :: u16
  mouse_y :: u16
  mouse_v :: u16
  mouse_h :: u16

definition has_mouse_report_changed :: "report_mouse_t \<Rightarrow> report_mouse_t \<Rightarrow> bool" where
  "has_mouse_report_changed new old \<longleftrightarrow>
    mouse_buttons new \<noteq> mouse_buttons old \<or>
    mouse_boot_x new \<noteq> 0 \<and> mouse_boot_x new \<noteq> mouse_boot_x old \<or>
    mouse_boot_y new \<noteq> 0 \<and> mouse_boot_y new \<noteq> mouse_boot_y old \<or>
    mouse_x new \<noteq> 0 \<and> mouse_x new \<noteq> mouse_x old \<or>
    mouse_y new \<noteq> 0 \<and> mouse_y new \<noteq> mouse_y old \<or>
    mouse_h new \<noteq> 0 \<and> mouse_h new \<noteq> mouse_h old \<or>
    mouse_v new \<noteq> 0 \<and> mouse_v new \<noteq> mouse_v old"

section \<open>The keys of a report\<close>

definition keys_of :: "report_keyboard_t \<Rightarrow> u8 set" where
  "keys_of r = set (kb_keys r) - {0}"

text \<open>No keycode is reported twice.\<close>

definition report_ok :: "report_keyboard_t \<Rightarrow> bool" where
  "report_ok r \<longleftrightarrow> length (kb_keys r) = KEYBOARD_REPORT_KEYS \<and> distinct (filter (\<lambda>k. k \<noteq> 0) (kb_keys r))"

lemma scan_keys_found: "fst (scan_keys code i slot ks) \<longleftrightarrow> code \<in> set ks"
  by (induction code i slot ks rule: scan_keys.induct) auto

lemma scan_keys_started: "code \<notin> set ks \<Longrightarrow> scan_keys code i (Some e) ks = (False, Some e)"
  by (induction code i "Some e" ks rule: scan_keys.induct) auto

lemma scan_keys_empty:
  "code \<notin> set ks \<Longrightarrow> snd (scan_keys code i None ks) =
    (if 0 \<in> set ks then Some (i + length (takeWhile (\<lambda>k. k \<noteq> 0) ks)) else None)"
  by (induction ks arbitrary: i) (auto simp: scan_keys_started)

lemma add_key_byte_eq:
  "add_key_byte code r =
    (if code \<in> set (kb_keys r) \<or> 0 \<notin> set (kb_keys r) then r
     else r\<lparr>kb_keys := takeWhile (\<lambda>k. k \<noteq> 0) (kb_keys r) @ code # tl (dropWhile (\<lambda>k. k \<noteq> 0) (kb_keys r))\<rparr>)"
proof -
  define ks where "ks = kb_keys r"
  obtain found slot where scan: "scan_keys code 0 None ks = (found, slot)" by fastforce
  have split: "ks[length (takeWhile (\<lambda>k. k \<noteq> 0) ks) := code] =
      takeWhile (\<lambda>k. k \<noteq> 0) ks @ code # tl (dropWhile (\<lambda>k. k \<noteq> 0) ks)" if "0 \<in> set ks"
    using that by (induction ks) auto
  show ?thesis
    using scan scan_keys_found [of code 0 None ks] scan_keys_empty [of code ks 0] split
    by (auto simp: add_key_byte_def ks_def [symmetric] split: bool.split option.split)
qed

lemma zero_split:
  assumes "0 \<in> set ks"
  shows "ks = takeWhile (\<lambda>k. k \<noteq> 0) ks @ 0 # tl (dropWhile (\<lambda>k. k \<noteq> (0 :: u8)) ks)"
  using assms by (induction ks) auto

text \<open>A report is full when no slot is empty.\<close>

lemma keys_of_add:
  assumes "code \<noteq> 0"
  shows "keys_of (add_key_byte code r) = (if 0 \<in> set (kb_keys r) then insert code (keys_of r) else keys_of r)"
proof (cases "code \<in> set (kb_keys r) \<or> 0 \<notin> set (kb_keys r)")
  case True
  then show ?thesis using assms by (auto simp: add_key_byte_eq keys_of_def)
next
  case False
  then have "set (kb_keys r) = set (takeWhile (\<lambda>k. k \<noteq> 0) (kb_keys r) @ 0 # tl (dropWhile (\<lambda>k. k \<noteq> 0) (kb_keys r)))"
    using zero_split by metis
  then show ?thesis using False assms by (auto simp: add_key_byte_eq keys_of_def)
qed

lemma keys_of_del: "keys_of (del_key_byte code r) = keys_of r - {code}"
  by (auto simp: del_key_byte_def keys_of_def)

lemma report_ok_add:
  assumes "report_ok r"
  shows "report_ok (add_key_byte code r)"
proof (cases "code \<in> set (kb_keys r) \<or> 0 \<notin> set (kb_keys r)")
  case True
  then show ?thesis using assms by (auto simp: add_key_byte_eq)
next
  case False
  define a b where "a = takeWhile (\<lambda>k. k \<noteq> 0) (kb_keys r)" and "b = tl (dropWhile (\<lambda>k. k \<noteq> 0) (kb_keys r))"
  have ks: "kb_keys r = a @ 0 # b" using zero_split False by (simp add: a_def b_def)
  have "add_key_byte code r = r\<lparr>kb_keys := a @ code # b\<rparr>"
    using False by (simp add: add_key_byte_eq a_def b_def)
  then show ?thesis using assms False by (auto simp: report_ok_def ks)
qed

lemma report_ok_del: "report_ok r \<Longrightarrow> report_ok (del_key_byte code r)"
proof -
  have "filter (\<lambda>k. k \<noteq> 0) (map (\<lambda>k. if k = code then 0 else k) ks) = filter (\<lambda>k. k \<noteq> 0 \<and> k \<noteq> code) ks" for ks
    by (induction ks) auto
  moreover have "distinct (filter (\<lambda>k. k \<noteq> 0) ks) \<Longrightarrow> distinct (filter (\<lambda>k. k \<noteq> 0 \<and> k \<noteq> code) ks)" for ks
    by (induction ks) (auto split: if_splits)
  ultimately show "report_ok r \<Longrightarrow> ?thesis" by (simp add: report_ok_def del_key_byte_def)
qed

text \<open>The number of keys a report holds.\<close>

lemma card_keys_of:
  assumes "report_ok r"
  shows "card (keys_of r) \<le> 6" and "0 \<in> set (kb_keys r) \<longleftrightarrow> card (keys_of r) < 6"
proof -
  have keys: "keys_of r = set (filter (\<lambda>k. k \<noteq> 0) (kb_keys r))" by (auto simp: keys_of_def)
  have card: "card (keys_of r) = length (filter (\<lambda>k. k \<noteq> 0) (kb_keys r))"
    using assms unfolding keys by (intro distinct_card) (simp add: report_ok_def)
  have six: "length (kb_keys r) = 6" using assms by (simp add: report_ok_def KEYBOARD_REPORT_KEYS_def)
  show "card (keys_of r) \<le> 6" unfolding card six [symmetric] by (rule length_filter_le)
  have "length (filter (\<lambda>k. k \<noteq> 0) ks) < length ks \<longleftrightarrow> (0 :: u8) \<in> set ks" for ks
    by (induction ks) (auto simp: less_Suc_eq_le)
  then show "0 \<in> set (kb_keys r) \<longleftrightarrow> card (keys_of r) < 6" unfolding card six [symmetric] by simp
qed

section \<open>The NKRO bits\<close>

lemma key_slot: "unat (drop_bit 3 (key :: u8)) = unat key div 8" "unat (key AND 7) = unat key mod 8"
proof -
  show "unat (drop_bit 3 key) = unat key div 8" by (simp only: unat_drop_bit_eq) (simp add: drop_bit_eq_div)
  have "key AND 7 = take_bit 3 key" by (simp add: take_bit_eq_mask mask_eq_exp_minus_1)
  then show "unat (key AND 7) = unat key mod 8" by (simp only: unsigned_take_bit_eq) (simp add: take_bit_eq_mod)
qed

definition nkro_ok :: "report_nkro_t \<Rightarrow> bool" where
  "nkro_ok r \<longleftrightarrow> length (nkro_bits r) = NKRO_REPORT_BITS"

definition keys_of_nkro :: "report_nkro_t \<Rightarrow> u8 set" where
  "keys_of_nkro r = {key. unat key < 240 \<and> bit (nkro_bits r ! (unat key div 8)) (unat key mod 8)}"

lemma key_of_slot:
  "unat (key :: u8) div 8 = unat code div 8 \<Longrightarrow> unat key mod 8 = unat code mod 8 \<Longrightarrow> key = code"
  by (metis div_mult_mod_eq unsigned_word_eqI)

lemma add_key_bit_bit:
  assumes "nkro_ok r" "unat code < 240" "unat key < 240"
  shows "bit (nkro_bits (add_key_bit code r) ! (unat key div 8)) (unat key mod 8) \<longleftrightarrow>
    key = code \<or> bit (nkro_bits r ! (unat key div 8)) (unat key mod 8)"
  using assms key_of_slot [of key code]
  by (auto simp: add_key_bit_def nkro_ok_def NKRO_REPORT_BITS_def key_slot nth_list_update bit_or_iff bit_exp_iff
      possible_bit_def)

lemma del_key_bit_bit:
  assumes "nkro_ok r" "unat code < 240" "unat key < 240"
  shows "bit (nkro_bits (del_key_bit code r) ! (unat key div 8)) (unat key mod 8) \<longleftrightarrow>
    key \<noteq> code \<and> bit (nkro_bits r ! (unat key div 8)) (unat key mod 8)"
  using assms key_of_slot [of key code] bit_imp_le_length [of "nkro_bits r ! (unat key div 8)" "unat key mod 8"]
  by (auto simp: del_key_bit_def nkro_ok_def NKRO_REPORT_BITS_def key_slot nth_list_update bit_and_iff bit_not_iff
      bit_exp_iff possible_bit_def)

lemma keys_of_nkro_ops:
  assumes "nkro_ok r" "unat code < 240"
  shows "keys_of_nkro (add_key_bit code r) = insert code (keys_of_nkro r)"
    and "keys_of_nkro (del_key_bit code r) = keys_of_nkro r - {code}"
  using assms by (auto simp: keys_of_nkro_def add_key_bit_bit del_key_bit_bit)

lemma nkro_ok_ops: "nkro_ok r \<Longrightarrow> nkro_ok (add_key_bit code r)" "nkro_ok r \<Longrightarrow> nkro_ok (del_key_bit code r)"
  by (simp_all add: nkro_ok_def add_key_bit_def del_key_bit_def)

section \<open>Both reports as sets of keys\<close>

definition pressed_keys :: "bool \<Rightarrow> reports \<Rightarrow> u8 set" where
  "pressed_keys nkro r = {key. is_key_pressed nkro key r}"

lemma pressed_keys_eq:
  "pressed_keys nkro r = (if nkro then keys_of_nkro (nkro_report r) - {0} else keys_of (keyboard_report r))"
proof -
  have "(w :: u8) AND push_bit n 1 \<noteq> 0 \<longleftrightarrow> bit w n" for w n
    by (simp add: and_exp_eq_0_iff_not_bit)
  then show ?thesis
    by (auto simp: pressed_keys_def is_key_pressed_def keys_of_nkro_def keys_of_def NKRO_REPORT_BITS_def key_slot
        simp del: push_bit_of_1)
qed

datatype key_op = Add u8 | Del u8 | Clear

fun report_op :: "bool \<Rightarrow> key_op \<Rightarrow> reports \<Rightarrow> reports" where
  "report_op nkro (Add key) r = add_key_to_report nkro key r"
| "report_op nkro (Del key) r = del_key_from_report nkro key r"
| "report_op nkro Clear r = clear_keys_from_report nkro r"

fun held_op :: "key_op \<Rightarrow> u8 set \<Rightarrow> u8 set" where
  "held_op (Add key) held = insert key held"
| "held_op (Del key) held = held - {key}"
| "held_op Clear held = {}"

text \<open>A key the reports can carry.\<close>

fun reportable :: "key_op \<Rightarrow> bool" where
  "reportable (Add key) \<longleftrightarrow> 0 < unat key \<and> unat key < 240"
| "reportable (Del key) \<longleftrightarrow> 0 < unat key \<and> unat key < 240"
| "reportable Clear \<longleftrightarrow> True"

definition reports_ok :: "reports \<Rightarrow> bool" where
  "reports_ok r \<longleftrightarrow> report_ok (keyboard_report r) \<and> nkro_ok (nkro_report r)"

lemma reports_ok_op: "reports_ok r \<Longrightarrow> reports_ok (report_op nkro op r)"
  by (cases op) (auto simp: reports_ok_def add_key_to_report_def del_key_from_report_def clear_keys_from_report_def
      report_ok_add report_ok_del nkro_ok_ops nkro_ok_def [of "_\<lparr>nkro_bits := _\<rparr>"] report_ok_def [of "_\<lparr>kb_keys := _\<rparr>"] KEYBOARD_REPORT_KEYS_def)

lemma pressed_keys_op:
  assumes "reports_ok r" "reportable op" "nkro \<or> card (held_op op (pressed_keys nkro r)) \<le> 6"
  shows "pressed_keys nkro (report_op nkro op r) = held_op op (pressed_keys nkro r)"
proof (cases op)
  case (Add key)
  have key: "key \<noteq> 0" "unat key < 240" using assms(2) by (auto simp: Add)
  have "0 \<in> set (kb_keys (keyboard_report r)) \<or> key \<in> keys_of (keyboard_report r)" if "\<not> nkro"
  proof -
    have "finite (keys_of (keyboard_report r))" by (simp add: keys_of_def)
    then show ?thesis
      using that assms(1,3) card_keys_of(2) [of "keyboard_report r"]
      by (auto simp: Add pressed_keys_eq reports_ok_def card_insert_if)
  qed
  then show ?thesis using assms(1) key
    by (auto simp: Add pressed_keys_eq add_key_to_report_def keys_of_add keys_of_nkro_ops reports_ok_def)
next
  case (Del key)
  then show ?thesis using assms(1,2)
    by (auto simp: pressed_keys_eq del_key_from_report_def keys_of_del keys_of_nkro_ops reports_ok_def)
next
  case Clear
  then show ?thesis
    by (auto simp: pressed_keys_eq clear_keys_from_report_def keys_of_def keys_of_nkro_def NKRO_REPORT_BITS_def
        simp flip: replicate_Suc)
qed

definition held_after :: "key_op list \<Rightarrow> u8 set" where
  "held_after ops = fold held_op ops {}"

definition empty_reports :: reports where
  "empty_reports = \<lparr>keyboard_report = \<lparr>kb_mods = 0, kb_keys = replicate KEYBOARD_REPORT_KEYS 0\<rparr>,
    nkro_report = \<lparr>nkro_mods = 0, nkro_bits = replicate NKRO_REPORT_BITS 0\<rparr>\<rparr>"

lemma empty_reports_ok: "reports_ok empty_reports" "pressed_keys nkro empty_reports = {}"
proof -
  show "reports_ok empty_reports"
    by (simp add: empty_reports_def reports_ok_def report_ok_def nkro_ok_def KEYBOARD_REPORT_KEYS_def)
  have "replicate NKRO_REPORT_BITS 0 ! (unat (key :: u8) div 8) = (0 :: u8)" if "unat key < 240" for key
    using that by (intro nth_replicate) (simp add: NKRO_REPORT_BITS_def)
  then show "pressed_keys nkro empty_reports = {}"
    by (auto simp: pressed_keys_eq empty_reports_def keys_of_def keys_of_nkro_def)
qed

text \<open>C16: at every moment of every sequence of key presses, releases and clears the active report carries
  exactly the keys that are held; the six-key report as long as at most six keys are held at a time, the
  NKRO report always.\<close>

theorem report_carries_held_keys:
  assumes "list_all reportable ops"
    and "nkro \<or> (\<forall>n. card (held_after (take n ops)) \<le> 6)"
  shows "pressed_keys nkro (fold (report_op nkro) ops empty_reports) = held_after ops"
proof -
  have "pressed_keys nkro (fold (report_op nkro) ops empty_reports) = held_after ops \<and>
      reports_ok (fold (report_op nkro) ops empty_reports)"
    using assms
  proof (induction ops rule: rev_induct)
    case (snoc op ops)
    have "take n ops = take (min n (length ops)) (ops @ [op])" for n by (simp add: min_def)
    then have "nkro \<or> (\<forall>n. card (held_after (take n ops)) \<le> 6)"
      using snoc.prems(2) by metis
    moreover have "nkro \<or> card (held_after (ops @ [op])) \<le> 6"
      using snoc.prems(2) by (metis order_refl take_all)
    ultimately show ?case using snoc pressed_keys_op [of "fold (report_op nkro) ops empty_reports" op nkro]
      by (auto simp: held_after_def reports_ok_op)
  qed (simp add: held_after_def empty_reports_ok)
  then show ?thesis ..
qed

theorem report_carries_held_keys_witness:
  "pressed_keys False (fold (report_op False) [Add 4, Add 5, Del 4] empty_reports) = {5} \<and>
   pressed_keys True (fold (report_op True) [Add 4, Add 5, Del 4] empty_reports) = {5}"
proof -
  have "card (held_after (take n [Add 4, Add 5, Del 4])) \<le> 6" for n
    by (cases n; cases "n - 1"; cases "n - 2"; cases "n - 3") (auto simp: held_after_def)
  then show ?thesis
    using report_carries_held_keys [of "[Add 4, Add 5, Del 4]" False]
      report_carries_held_keys [of "[Add 4, Add 5, Del 4]" True] by (auto simp add: held_after_def)
qed

section \<open>The first key\<close>

lemma first_bits_None: "first_bits i bs = None \<longleftrightarrow> set bs \<subseteq> {0}"
  by (induction bs arbitrary: i) auto

text \<open>With no key in the NKRO report, and only then, \<open>get_first_key\<close> runs over all bytes and reads the
  one behind the report.\<close>

lemma first_key_of_idle_report:
  "get_first_key True r = None \<longleftrightarrow> set (nkro_bits (nkro_report r)) \<subseteq> {0}"
  by (auto simp: get_first_key_def simp flip: first_bits_None [of 0] split: option.split)

lemma empty_mouse_report_changes:
  "has_mouse_report_changed \<lparr>mouse_buttons = 0, mouse_boot_x = 0, mouse_boot_y = 0, mouse_x = 0, mouse_y = 0,
      mouse_v = 0, mouse_h = 0\<rparr> old \<longleftrightarrow> mouse_buttons old \<noteq> 0"
  by (auto simp: has_mouse_report_changed_def)

end
