(* ===== verification/Action_Util.thy ===== *)
theory Action_Util
  imports Action_Layer Report
begin

unbundle bit_operations_syntax

text \<open>
  Modifiers, one-shot state and the sending of keyboard reports (\<open>quantum/action_util.c\<close>), in a build
  with one-shot keys, key overrides and NKRO and without \<open>SWAP_HANDS_ENABLE\<close> and V-USB. The static
  variables of the file are the fields of \<open>kbd\<close>; \<open>sent\<close> is what was handed to the host so far and
  \<open>keymap_updates\<close> the values given to \<open>eeconfig_update_keymap\<close>. Operations take any extension of the
  state. Of the reports the constant fields \<open>report_id\<close> and \<open>reserved\<close> are left out. The callbacks of
  keyboards and users are the weak defaults, which do nothing.
\<close>

text \<open>
  What the code hands to the host and to the mouse driver, and the delays in between:
  \<open>host_keyboard_send\<close>, \<open>host_nkro_send\<close>, \<open>host_system_send\<close>, \<open>host_consumer_send\<close>, the calls of
  \<open>register_mouse\<close>, \<open>mousekey_clear\<close> with \<open>mousekey_send\<close>, and \<open>wait_ms\<close>.
\<close>

datatype host_report = Six_Keys report_keyboard_t | Nkro report_nkro_t | System u16 | Consumer u16
  | Mouse_Key u8 bool | Mouse_Clear | Wait u16

record 'w kbd =
  real_mods :: u8
  weak_mods :: u8
  weak_override_mods :: u8
  suppressed_mods :: u8
  oneshot_mods :: u8
  oneshot_locked_mods :: u8
  oneshot_time :: u16
  oneshot_layer_data :: u8
  oneshot_layer_time :: u16
  keymap_config :: keymap_config_t
  keymap_updates :: "u16 list"
  reports :: reports
  last_six_keys :: report_keyboard_t
  last_nkro :: report_nkro_t
  sent :: "host_report list"
  layers :: "'w layers"

type_synonym ('l, 'z) kb = "('l word, 'z) kbd_scheme"

text \<open>The clock, the setting \<open>osk_timeout\<close> and the protocol the host selected.\<close>

record kbd_env =
  timer_read :: u16
  QS_oneshot_timeout :: u16
  report_protocol :: bool

definition TIMER_DIFF_16 :: "u16 \<Rightarrow> u16 \<Rightarrow> u16" where
  "TIMER_DIFF_16 a b = a - b"

definition nkro_active :: "'e kbd_env_scheme \<Rightarrow> ('l::len, 'z) kb \<Rightarrow> bool" where
  "nkro_active env s \<longleftrightarrow> report_protocol env \<and> nkro (keymap_config s)"

section \<open>One-shot modifiers\<close>

definition add_oneshot_locked_mods :: "u8 \<Rightarrow> ('l::len, 'z) kb \<Rightarrow> ('l, 'z) kb" where
  "add_oneshot_locked_mods mods s =
    (if oneshot_locked_mods s AND mods \<noteq> mods then s\<lparr>oneshot_locked_mods := oneshot_locked_mods s OR mods\<rparr> else s)"
definition set_oneshot_locked_mods :: "u8 \<Rightarrow> ('l::len, 'z) kb \<Rightarrow> ('l, 'z) kb" where
  "set_oneshot_locked_mods mods s =
    (if mods \<noteq> oneshot_locked_mods s then s\<lparr>oneshot_locked_mods := mods\<rparr> else s)"
definition clear_oneshot_locked_mods :: "('l::len, 'z) kb \<Rightarrow> ('l, 'z) kb" where
  "clear_oneshot_locked_mods s =
    (if oneshot_locked_mods s \<noteq> 0 then s\<lparr>oneshot_locked_mods := 0\<rparr> else s)"
definition del_oneshot_locked_mods :: "u8 \<Rightarrow> ('l::len, 'z) kb \<Rightarrow> ('l, 'z) kb" where
  "del_oneshot_locked_mods mods s =
    (if oneshot_locked_mods s AND mods \<noteq> 0
     then s\<lparr>oneshot_locked_mods := oneshot_locked_mods s AND NOT mods\<rparr> else s)"

definition has_oneshot_mods_timed_out :: "'e kbd_env_scheme \<Rightarrow> ('l::len, 'z) kb \<Rightarrow> bool" where
  "has_oneshot_mods_timed_out env s \<longleftrightarrow>
    QS_oneshot_timeout env > 0 \<and> TIMER_DIFF_16 (timer_read env) (oneshot_time s) \<ge> QS_oneshot_timeout env"

definition add_oneshot_mods :: "'e kbd_env_scheme \<Rightarrow> u8 \<Rightarrow> ('l::len, 'z) kb \<Rightarrow> ('l, 'z) kb" where
  "add_oneshot_mods env mods s =
    (if oneshot_mods s AND mods \<noteq> mods
     then s\<lparr>oneshot_time := timer_read env, oneshot_mods := oneshot_mods s OR mods\<rparr> else s)"
definition del_oneshot_mods :: "'e kbd_env_scheme \<Rightarrow> u8 \<Rightarrow> ('l::len, 'z) kb \<Rightarrow> ('l, 'z) kb" where
  "del_oneshot_mods env mods s =
    (if oneshot_mods s AND mods \<noteq> 0
     then let m = oneshot_mods s AND NOT mods
       in s\<lparr>oneshot_mods := m, oneshot_time := (if m \<noteq> 0 then timer_read env else 0)\<rparr>
     else s)"
definition set_oneshot_mods :: "'e kbd_env_scheme \<Rightarrow> u8 \<Rightarrow> ('l::len, 'z) kb \<Rightarrow> ('l, 'z) kb" where
  "set_oneshot_mods env mods s =
    (if oneshot_enable (keymap_config s) \<and> oneshot_mods s \<noteq> mods
     then s\<lparr>oneshot_time := timer_read env, oneshot_mods := mods\<rparr> else s)"
definition clear_oneshot_mods :: "('l::len, 'z) kb \<Rightarrow> ('l, 'z) kb" where
  "clear_oneshot_mods s = (if oneshot_mods s \<noteq> 0 then s\<lparr>oneshot_mods := 0, oneshot_time := 0\<rparr> else s)"

section \<open>One-shot layers\<close>

definition ONESHOT_PRESSED :: u8 where "ONESHOT_PRESSED = 1"
definition ONESHOT_OTHER_KEY_PRESSED :: u8 where "ONESHOT_OTHER_KEY_PRESSED = 2"
definition ONESHOT_START :: u8 where "ONESHOT_START = 3"
definition ONESHOT_TOGGLED :: u8 where "ONESHOT_TOGGLED = 4"

lemmas oneshot_defs = ONESHOT_PRESSED_def ONESHOT_OTHER_KEY_PRESSED_def ONESHOT_START_def ONESHOT_TOGGLED_def

definition get_oneshot_layer :: "('l::len, 'z) kb \<Rightarrow> u8" where
  "get_oneshot_layer s = drop_bit 3 (oneshot_layer_data s)"
definition get_oneshot_layer_state :: "('l::len, 'z) kb \<Rightarrow> u8" where
  "get_oneshot_layer_state s = oneshot_layer_data s AND 7"

definition has_oneshot_layer_timed_out :: "'e kbd_env_scheme \<Rightarrow> ('l::len, 'z) kb \<Rightarrow> bool" where
  "has_oneshot_layer_timed_out env s \<longleftrightarrow>
    TIMER_DIFF_16 (timer_read env) (oneshot_layer_time s) \<ge> QS_oneshot_timeout env \<and>
    get_oneshot_layer_state s AND ONESHOT_TOGGLED = 0"

definition on_layers :: "('l word layers \<Rightarrow> 'l word layers) \<Rightarrow> ('l::len, 'z) kb \<Rightarrow> ('l, 'z) kb" where
  "on_layers f s = s\<lparr>layers := f (layers s)\<rparr>"

definition set_oneshot_layer :: "'e kbd_env_scheme \<Rightarrow> u8 \<Rightarrow> u8 \<Rightarrow> ('l::len, 'z) kb \<Rightarrow> ('l, 'z) kb" where
  "set_oneshot_layer env layer state s =
    (if oneshot_enable (keymap_config s)
     then (on_layers (layer_on (unat layer)) (s\<lparr>oneshot_layer_data := push_bit 3 layer OR state\<rparr>))
       \<lparr>oneshot_layer_time := timer_read env\<rparr>
     else on_layers (layer_on (unat layer)) s)"

definition reset_oneshot_layer :: "('l::len, 'z) kb \<Rightarrow> ('l, 'z) kb" where
  "reset_oneshot_layer s = s\<lparr>oneshot_layer_data := 0, oneshot_layer_time := 0\<rparr>"

definition clear_oneshot_layer_state :: "u8 \<Rightarrow> ('l::len, 'z) kb \<Rightarrow> ('l, 'z) kb" where
  "clear_oneshot_layer_state state s =
    (let start_state = oneshot_layer_data s;
         s1 = s\<lparr>oneshot_layer_data := oneshot_layer_data s AND NOT state\<rparr>
     in if (get_oneshot_layer_state s1 = 0 \<and> start_state \<noteq> oneshot_layer_data s1) \<and> oneshot_enable (keymap_config s1)
        then reset_oneshot_layer (on_layers (layer_off (unat (get_oneshot_layer s1))) s1)
        else s1)"

definition is_oneshot_layer_active :: "('l::len, 'z) kb \<Rightarrow> bool" where
  "is_oneshot_layer_active s \<longleftrightarrow> get_oneshot_layer_state s \<noteq> 0"

definition oneshot_set :: "bool \<Rightarrow> ('l::len, 'z) kb \<Rightarrow> ('l, 'z) kb" where
  "oneshot_set active s =
    (if oneshot_enable (keymap_config s) \<noteq> active
     then let k = (if active then set_bit 10 (keymap_config s) else unset_bit 10 (keymap_config s));
              s1 = s\<lparr>keymap_config := k, keymap_updates := keymap_updates s @ [k]\<rparr>
          in clear_oneshot_layer_state ONESHOT_OTHER_KEY_PRESSED s1
     else s)"

definition oneshot_toggle :: "('l::len, 'z) kb \<Rightarrow> ('l, 'z) kb" where
  "oneshot_toggle s = oneshot_set (\<not> oneshot_enable (keymap_config s)) s"
definition oneshot_disable :: "('l::len, 'z) kb \<Rightarrow> ('l, 'z) kb" where
  "oneshot_disable s = oneshot_set False s"
definition is_oneshot_enabled :: "('l::len, 'z) kb \<Rightarrow> bool" where
  "is_oneshot_enabled s = oneshot_enable (keymap_config s)"

section \<open>Sending reports\<close>

definition get_mods_for_report :: "'e kbd_env_scheme \<Rightarrow> ('l::len, 'z) kb \<Rightarrow> u8 \<times> ('l, 'z) kb" where
  "get_mods_for_report env s =
    (let mods = real_mods s OR weak_mods s;
         (mods, s) = (if oneshot_mods s \<noteq> 0
           then let s1 = (if QS_oneshot_timeout env > 0 \<and> has_oneshot_mods_timed_out env s
                          then clear_oneshot_mods s else s);
                    mods = mods OR oneshot_mods s1
                in (mods, if has_anykey (nkro_active env s1) (reports s1) \<noteq> 0 then clear_oneshot_mods s1 else s1)
           else (mods, s))
     in ((mods AND NOT (suppressed_mods s)) OR weak_override_mods s, s))"

definition send_6kro_report :: "'e kbd_env_scheme \<Rightarrow> ('l::len, 'z) kb \<Rightarrow> ('l, 'z) kb" where
  "send_6kro_report env s =
    (let (mods, s1) = get_mods_for_report env s;
         r = (keyboard_report (reports s1))\<lparr>kb_mods := mods\<rparr>;
         s2 = s1\<lparr>reports := (reports s1)\<lparr>keyboard_report := r\<rparr>\<rparr>
     in if r \<noteq> last_six_keys s2 then s2\<lparr>last_six_keys := r, sent := sent s2 @ [Six_Keys r]\<rparr> else s2)"

definition send_nkro_report :: "'e kbd_env_scheme \<Rightarrow> ('l::len, 'z) kb \<Rightarrow> ('l, 'z) kb" where
  "send_nkro_report env s =
    (let (mods, s1) = get_mods_for_report env s;
         r = (nkro_report (reports s1))\<lparr>nkro_mods := mods\<rparr>;
         s2 = s1\<lparr>reports := (reports s1)\<lparr>nkro_report := r\<rparr>\<rparr>
     in if r \<noteq> last_nkro s2 then s2\<lparr>last_nkro := r, sent := sent s2 @ [Nkro r]\<rparr> else s2)"

definition send_keyboard_report :: "'e kbd_env_scheme \<Rightarrow> ('l::len, 'z) kb \<Rightarrow> ('l, 'z) kb" where
  "send_keyboard_report env s = (if nkro_active env s then send_nkro_report env s else send_6kro_report env s)"

section \<open>Keys and modifiers\<close>

definition add_key :: "'e kbd_env_scheme \<Rightarrow> u8 \<Rightarrow> ('l::len, 'z) kb \<Rightarrow> ('l, 'z) kb" where
  "add_key env key s = s\<lparr>reports := add_key_to_report (nkro_active env s) key (reports s)\<rparr>"
definition del_key :: "'e kbd_env_scheme \<Rightarrow> u8 \<Rightarrow> ('l::len, 'z) kb \<Rightarrow> ('l, 'z) kb" where
  "del_key env key s = s\<lparr>reports := del_key_from_report (nkro_active env s) key (reports s)\<rparr>"
definition clear_keys :: "'e kbd_env_scheme \<Rightarrow> ('l::len, 'z) kb \<Rightarrow> ('l, 'z) kb" where
  "clear_keys env s = s\<lparr>reports := clear_keys_from_report (nkro_active env s) (reports s)\<rparr>"

definition add_mods :: "u8 \<Rightarrow> ('l::len, 'z) kb \<Rightarrow> ('l, 'z) kb" where
  "add_mods mods s = s\<lparr>real_mods := real_mods s OR mods\<rparr>"
definition del_mods :: "u8 \<Rightarrow> ('l::len, 'z) kb \<Rightarrow> ('l, 'z) kb" where
  "del_mods mods s = s\<lparr>real_mods := real_mods s AND NOT mods\<rparr>"
definition set_mods :: "u8 \<Rightarrow> ('l::len, 'z) kb \<Rightarrow> ('l, 'z) kb" where
  "set_mods mods s = s\<lparr>real_mods := mods\<rparr>"
definition clear_mods :: "('l::len, 'z) kb \<Rightarrow> ('l, 'z) kb" where
  "clear_mods s = s\<lparr>real_mods := 0\<rparr>"
definition add_weak_mods :: "u8 \<Rightarrow> ('l::len, 'z) kb \<Rightarrow> ('l, 'z) kb" where
  "add_weak_mods mods s = s\<lparr>weak_mods := weak_mods s OR mods\<rparr>"
definition del_weak_mods :: "u8 \<Rightarrow> ('l::len, 'z) kb \<Rightarrow> ('l, 'z) kb" where
  "del_weak_mods mods s = s\<lparr>weak_mods := weak_mods s AND NOT mods\<rparr>"
definition set_weak_mods :: "u8 \<Rightarrow> ('l::len, 'z) kb \<Rightarrow> ('l, 'z) kb" where
  "set_weak_mods mods s = s\<lparr>weak_mods := mods\<rparr>"
definition clear_weak_mods :: "('l::len, 'z) kb \<Rightarrow> ('l, 'z) kb" where
  "clear_weak_mods s = s\<lparr>weak_mods := 0\<rparr>"
definition set_weak_override_mods :: "u8 \<Rightarrow> ('l::len, 'z) kb \<Rightarrow> ('l, 'z) kb" where
  "set_weak_override_mods mods s = s\<lparr>weak_override_mods := mods\<rparr>"
definition clear_weak_override_mods :: "('l::len, 'z) kb \<Rightarrow> ('l, 'z) kb" where
  "clear_weak_override_mods s = s\<lparr>weak_override_mods := 0\<rparr>"
definition set_suppressed_override_mods :: "u8 \<Rightarrow> ('l::len, 'z) kb \<Rightarrow> ('l, 'z) kb" where
  "set_suppressed_override_mods mods s = s\<lparr>suppressed_mods := mods\<rparr>"
definition clear_suppressed_override_mods :: "('l::len, 'z) kb \<Rightarrow> ('l, 'z) kb" where
  "clear_suppressed_override_mods s = s\<lparr>suppressed_mods := 0\<rparr>"

definition has_anymod :: "('l::len, 'z) kb \<Rightarrow> u8" where
  "has_anymod s = bitpop (real_mods s)"

end
