(* ===== verification/Action_Codes.thy ===== *)
theory Action_Codes
  imports Action_Util
begin

unbundle bit_operations_syntax

text \<open>
  Registering and unregistering keycodes and modifiers (the utilities of \<open>quantum/action.c\<close> and the
  16-bit variants of \<open>quantum/quantum.c\<close>), in a build with extra keys and mouse keys and without
  \<open>COMMAND_ENABLE\<close> (\<open>command_proc\<close> is then the constant false), pointing device, PS/2 mouse and
  programmable buttons. \<open>locking_support\<close> and \<open>locking_resync\<close> are the build options of locking keys, the
  LED fields what the host reported.
\<close>

record code_env = kbd_env +
  QS_tap_code_delay :: u16
  QS_tap_hold_caps_delay :: u16
  locking_support :: bool
  locking_resync :: bool
  led_caps_lock :: bool
  led_num_lock :: bool
  led_scroll_lock :: bool

definition IS_BASIC_KEYCODE :: "u8 \<Rightarrow> bool" where
  "IS_BASIC_KEYCODE code \<longleftrightarrow> 0x04 \<le> code \<and> code \<le> 0xA4"
definition IS_SYSTEM_KEYCODE :: "u8 \<Rightarrow> bool" where
  "IS_SYSTEM_KEYCODE code \<longleftrightarrow> 0xA5 \<le> code \<and> code \<le> 0xA7"
definition IS_CONSUMER_KEYCODE :: "u8 \<Rightarrow> bool" where
  "IS_CONSUMER_KEYCODE code \<longleftrightarrow> 0xA8 \<le> code \<and> code \<le> 0xC2"
definition IS_MOUSE_KEYCODE :: "u8 \<Rightarrow> bool" where
  "IS_MOUSE_KEYCODE code \<longleftrightarrow> 0xCD \<le> code \<and> code \<le> 0xDF"
definition IS_MODIFIER_KEYCODE :: "u8 \<Rightarrow> bool" where
  "IS_MODIFIER_KEYCODE code \<longleftrightarrow> 0xE0 \<le> code \<and> code \<le> 0xE7"

lemmas keycode_range_defs = IS_BASIC_KEYCODE_def IS_SYSTEM_KEYCODE_def IS_CONSUMER_KEYCODE_def
  IS_MOUSE_KEYCODE_def IS_MODIFIER_KEYCODE_def

definition MOD_BIT :: "u8 \<Rightarrow> u8" where
  "MOD_BIT code = push_bit (unat (code AND 7)) 1"

section \<open>Outputs besides the keyboard report\<close>

definition emit :: "host_report \<Rightarrow> ('l::len, 'z) kb \<Rightarrow> ('l, 'z) kb" where
  "emit r s = s\<lparr>sent := sent s @ [r]\<rparr>"

definition register_mouse :: "u8 \<Rightarrow> bool \<Rightarrow> ('l::len, 'z) kb \<Rightarrow> ('l, 'z) kb" where
  "register_mouse mouse_keycode pressed s = emit (Mouse_Key mouse_keycode pressed) s"

definition wait_ms :: "u16 \<Rightarrow> ('l::len, 'z) kb \<Rightarrow> ('l, 'z) kb" where
  "wait_ms delay s = emit (Wait delay) s"

section \<open>Keycodes\<close>

text \<open>A locking key is pressed and released at once; \<open>delay\<close> is the wait of \<open>register_code\<close>.\<close>

definition tap_locking_key :: "'e code_env_scheme \<Rightarrow> u8 \<Rightarrow> u16 option \<Rightarrow> ('l::len, 'z) kb \<Rightarrow> ('l, 'z) kb" where
  "tap_locking_key env key delay s =
    (let s1 = send_keyboard_report env (add_key env key s);
         s2 = (case delay of Some d \<Rightarrow> wait_ms d s1 | None \<Rightarrow> s1)
     in send_keyboard_report env (del_key env key s2))"

definition TAP_HOLD_CAPS_DELAY :: u16 where "TAP_HOLD_CAPS_DELAY = 80"

definition register_code :: "'e code_env_scheme \<Rightarrow> u8 \<Rightarrow> ('l::len, 'z) kb \<Rightarrow> ('l, 'z) kb" where
  "register_code env code s =
    (if code = 0 then s
     else if locking_support env \<and> code = 0x82 then
       (if locking_resync env \<and> led_caps_lock env then s
        else tap_locking_key env 0x39 (Some TAP_HOLD_CAPS_DELAY) s)
     else if locking_support env \<and> code = 0x83 then
       (if locking_resync env \<and> led_num_lock env then s else tap_locking_key env 0x53 (Some 100) s)
     else if locking_support env \<and> code = 0x84 then
       (if locking_resync env \<and> led_scroll_lock env then s else tap_locking_key env 0x47 (Some 100) s)
     else if IS_BASIC_KEYCODE code then
       (let s1 = (if is_key_pressed (nkro_active env s) code (reports s)
                  then send_keyboard_report env (del_key env code s) else s)
        in send_keyboard_report env (add_key env code s1))
     else if IS_MODIFIER_KEYCODE code then send_keyboard_report env (add_mods (MOD_BIT code) s)
     else if IS_SYSTEM_KEYCODE code then emit (System (KEYCODE2SYSTEM code)) s
     else if IS_CONSUMER_KEYCODE code then emit (Consumer (KEYCODE2CONSUMER code)) s
     else if IS_MOUSE_KEYCODE code then register_mouse code True s
     else s)"

definition unregister_code :: "'e code_env_scheme \<Rightarrow> u8 \<Rightarrow> ('l::len, 'z) kb \<Rightarrow> ('l, 'z) kb" where
  "unregister_code env code s =
    (if code = 0 then s
     else if locking_support env \<and> code = 0x82 then
       (if locking_resync env \<and> \<not> led_caps_lock env then s else tap_locking_key env 0x39 None s)
     else if locking_support env \<and> code = 0x83 then
       (if locking_resync env \<and> \<not> led_num_lock env then s else tap_locking_key env 0x53 None s)
     else if locking_support env \<and> code = 0x84 then
       (if locking_resync env \<and> \<not> led_scroll_lock env then s else tap_locking_key env 0x47 None s)
     else if IS_BASIC_KEYCODE code then send_keyboard_report env (del_key env code s)
     else if IS_MODIFIER_KEYCODE code then send_keyboard_report env (del_mods (MOD_BIT code) s)
     else if IS_SYSTEM_KEYCODE code then emit (System 0) s
     else if IS_CONSUMER_KEYCODE code then emit (Consumer 0) s
     else if IS_MOUSE_KEYCODE code then register_mouse code False s
     else s)"

definition tap_code_delay :: "'e code_env_scheme \<Rightarrow> u8 \<Rightarrow> u16 \<Rightarrow> ('l::len, 'z) kb \<Rightarrow> ('l, 'z) kb" where
  "tap_code_delay env code delay s = unregister_code env code (wait_ms delay (register_code env code s))"

definition tap_code :: "'e code_env_scheme \<Rightarrow> u8 \<Rightarrow> ('l::len, 'z) kb \<Rightarrow> ('l, 'z) kb" where
  "tap_code env code s =
    tap_code_delay env code (if code = 0x39 then QS_tap_hold_caps_delay env else QS_tap_code_delay env) s"

section \<open>Modifiers\<close>

definition register_mods :: "'e code_env_scheme \<Rightarrow> u8 \<Rightarrow> ('l::len, 'z) kb \<Rightarrow> ('l, 'z) kb" where
  "register_mods env mods s = (if mods \<noteq> 0 then send_keyboard_report env (add_mods mods s) else s)"
definition unregister_mods :: "'e code_env_scheme \<Rightarrow> u8 \<Rightarrow> ('l::len, 'z) kb \<Rightarrow> ('l, 'z) kb" where
  "unregister_mods env mods s = (if mods \<noteq> 0 then send_keyboard_report env (del_mods mods s) else s)"
definition register_weak_mods :: "'e code_env_scheme \<Rightarrow> u8 \<Rightarrow> ('l::len, 'z) kb \<Rightarrow> ('l, 'z) kb" where
  "register_weak_mods env mods s = (if mods \<noteq> 0 then send_keyboard_report env (add_weak_mods mods s) else s)"
definition unregister_weak_mods :: "'e code_env_scheme \<Rightarrow> u8 \<Rightarrow> ('l::len, 'z) kb \<Rightarrow> ('l, 'z) kb" where
  "unregister_weak_mods env mods s = (if mods \<noteq> 0 then send_keyboard_report env (del_weak_mods mods s) else s)"

section \<open>Clearing the keyboard\<close>

definition clear_keyboard_but_mods_and_keys :: "'e code_env_scheme \<Rightarrow> ('l::len, 'z) kb \<Rightarrow> ('l, 'z) kb" where
  "clear_keyboard_but_mods_and_keys env s =
    emit Mouse_Clear (send_keyboard_report env (clear_weak_mods (emit (Consumer 0) (emit (System 0) s))))"
definition clear_keyboard_but_mods :: "'e code_env_scheme \<Rightarrow> ('l::len, 'z) kb \<Rightarrow> ('l, 'z) kb" where
  "clear_keyboard_but_mods env s = clear_keyboard_but_mods_and_keys env (clear_keys env s)"
definition clear_keyboard :: "'e code_env_scheme \<Rightarrow> ('l::len, 'z) kb \<Rightarrow> ('l, 'z) kb" where
  "clear_keyboard env s = clear_keyboard_but_mods env (clear_mods s)"

section \<open>Keycodes with modifiers\<close>

definition extract_mod_bits :: "u16 \<Rightarrow> u8" where
  "extract_mod_bits code =
    (let has = (\<lambda>m. code AND m \<noteq> 0)
     in if \<not> (0x0100 \<le> code \<and> code \<le> QK_MODS_MAX) then 0
        else if has 0x1000
        then (if has 0x0100 then 0x10 else 0) OR (if has 0x0200 then 0x20 else 0) OR
             (if has 0x0400 then 0x40 else 0) OR (if has 0x0800 then 0x80 else 0)
        else (if has 0x0100 then 0x01 else 0) OR (if has 0x0200 then 0x02 else 0) OR
             (if has 0x0400 then 0x04 else 0) OR (if has 0x0800 then 0x08 else 0))"

definition plain_modifier :: "u16 \<Rightarrow> bool" where
  "plain_modifier code \<longleftrightarrow> (0xE0 \<le> code \<and> code \<le> 0xE7) \<or> code = KC_NO"

definition register_code16 :: "'e code_env_scheme \<Rightarrow> u16 \<Rightarrow> ('l::len, 'z) kb \<Rightarrow> ('l, 'z) kb" where
  "register_code16 env code s =
    register_code env (ucast code)
      (if plain_modifier code then register_mods env (extract_mod_bits code) s
       else register_weak_mods env (extract_mod_bits code) s)"

definition unregister_code16 :: "'e code_env_scheme \<Rightarrow> u16 \<Rightarrow> ('l::len, 'z) kb \<Rightarrow> ('l, 'z) kb" where
  "unregister_code16 env code s =
    (let s1 = unregister_code env (ucast code) s
     in if plain_modifier code then unregister_mods env (extract_mod_bits code) s1
        else unregister_weak_mods env (extract_mod_bits code) s1)"

definition tap_code16_delay :: "'e code_env_scheme \<Rightarrow> u16 \<Rightarrow> u16 \<Rightarrow> ('l::len, 'z) kb \<Rightarrow> ('l, 'z) kb" where
  "tap_code16_delay env code delay s =
    unregister_code16 env code ((wait_ms 1 ^^ unat delay) (register_code16 env code s))"

definition tap_code16 :: "'e code_env_scheme \<Rightarrow> u16 \<Rightarrow> ('l::len, 'z) kb \<Rightarrow> ('l, 'z) kb" where
  "tap_code16 env code s = tap_code16_delay env code
    (if code = KC_CAPS_LOCK then QS_tap_hold_caps_delay env else QS_tap_code_delay env) s"

end
