(* ===== verification/Action.thy ===== *)
theory Action
  imports Action_Codes
begin

unbundle bit_operations_syntax

text \<open>
  Executing actions (\<open>quantum/action.c\<close>): \<open>process_record\<close> and \<open>process_action\<close> for key, modifier, tap,
  usage, mouse and layer actions, one-shot keys and retro tapping, as a Vial build with
  \<open>RETRO_TAPPING_PER_KEY\<close> compiles them; \<open>SWAP_HANDS_ENABLE\<close>, \<open>NO_ACTION_TAPPING\<close>, \<open>RETRO_SHIFT\<close> and
  \<open>HOLD_ON_OTHER_KEY_PRESS\<close> (without \<open>_PER_KEY\<close>) are not defined. The feature pipeline
  (\<open>process_record_quantum\<close> and \<open>post_process_record_quantum\<close>, weak functions in this file) is an argument,
  the update of the lock LEDs is left out. \<open>process_record\<close> can call itself, so it has fuel.
\<close>

section \<open>Events and records\<close>

datatype keyevent_type_t = TICK_EVENT | KEY_EVENT | ENCODER_CW_EVENT | ENCODER_CCW_EVENT | COMBO_EVENT
  | DIP_SWITCH_ON_EVENT | DIP_SWITCH_OFF_EVENT

record keyrecord_t =
  ev_key :: keypos_t
  ev_time :: u16
  ev_type :: keyevent_type_t
  ev_pressed :: bool
  tap_interrupted :: bool
  tap_count :: u8
  rec_keycode :: u16

definition IS_NOEVENT :: "keyrecord_t \<Rightarrow> bool" where
  "IS_NOEVENT r \<longleftrightarrow> ev_type r = TICK_EVENT"

text \<open>The configuration of the keyboard, its keymap and the settings of tap keys.\<close>

record act_env = code_env +
  dk :: dk_config
  cache_bits :: nat
  max_layer :: nat
  keycode_at :: "nat \<Rightarrow> keypos_t \<Rightarrow> u16"
  QS_oneshot_tap_toggle :: u8
  QS_tapping_toggle :: u8
  get_retro_tapping :: "u16 \<Rightarrow> keyrecord_t \<Rightarrow> bool"

record 'w act = "'w kbd" +
  disable_action_cache :: bool
  retro_tap_primed :: bool
  retro_tap_curr_key :: u16
  retro_tap_curr_mods :: u8
  retro_tap_next_mods :: u8

type_synonym ('l, 'z) ks = "('l word, 'z) act_scheme"

definition action_at :: "'e act_env_scheme \<Rightarrow> ('l::len, 'z) ks \<Rightarrow> nat \<Rightarrow> keypos_t \<Rightarrow> action_t" where
  "action_at env s = action_for_key (keymap_config s) (keycode_at env)"

definition get_event_keycode :: "'e act_env_scheme \<Rightarrow> keyrecord_t \<Rightarrow> bool \<Rightarrow> ('l::len, 'z) ks \<Rightarrow> u16 \<times> ('l, 'z) ks" where
  "get_event_keycode env r update_layer_cache s =
    (if \<not> disable_action_cache s
     then if ev_pressed r \<and> update_layer_cache
       then let layer = of_nat (layer_switch_get_layer (max_layer env) (action_at env s) (ev_key r) (layers s))
            in (keycode_at env (unat layer) (ev_key r),
                on_layers (update_source_layers_cache (dk env) (cache_bits env) (ev_key r) layer) s)
       else (keycode_at env (unat (read_source_layers_cache (dk env) (cache_bits env) (ev_key r) (layers s))) (ev_key r), s)
     else (keycode_at env (layer_switch_get_layer (max_layer env) (action_at env s) (ev_key r) (layers s)) (ev_key r), s))"

definition get_record_keycode :: "'e act_env_scheme \<Rightarrow> keyrecord_t \<Rightarrow> bool \<Rightarrow> ('l::len, 'z) ks \<Rightarrow> u16 \<times> ('l, 'z) ks" where
  "get_record_keycode env r update_layer_cache s =
    (if rec_keycode r \<noteq> 0 then (rec_keycode r, s) else get_event_keycode env r update_layer_cache s)"

definition is_tap_action :: "action_t \<Rightarrow> bool" where
  "is_tap_action a \<longleftrightarrow> kind_id a \<in> {2, 3, ACT_LAYER_TAP, ACT_LAYER_TAP_EXT} \<and>
    (layer_tap_code a \<le> KC_RIGHT_GUI \<or> layer_tap_code a = OP_TAP_TOGGLE \<or> layer_tap_code a = OP_ONESHOT)"

definition is_tap_record :: "'e act_env_scheme \<Rightarrow> keyrecord_t \<Rightarrow> ('l::len, 'z) ks \<Rightarrow> bool" where
  "is_tap_record env r s =
    (if IS_NOEVENT r then False
     else is_tap_action
       (if rec_keycode r \<noteq> 0 then action_for_keycode (keymap_config s) (rec_keycode r)
        else layer_switch_get_action (max_layer env) (action_at env s) (ev_key r) (layers s)))"

section \<open>Key and modifier actions\<close>

text \<open>\<open>IS_MODIFIER_KEYCODE(code) || code == KC_NO\<close>: the modifiers of the action are then not weak.\<close>

definition strong_mods :: "u8 \<Rightarrow> bool" where
  "strong_mods code \<longleftrightarrow> IS_MODIFIER_KEYCODE code \<or> code = 0"

definition mods_key_press :: "'e act_env_scheme \<Rightarrow> u8 \<Rightarrow> u8 \<Rightarrow> ('l::len, 'z) kb \<Rightarrow> ('l, 'z) kb" where
  "mods_key_press env mods code s =
    register_code env code
      (if mods \<noteq> 0
       then send_keyboard_report env (if strong_mods code then add_mods mods s else add_weak_mods mods s)
       else s)"

definition mods_key_release :: "'e act_env_scheme \<Rightarrow> u8 \<Rightarrow> u8 \<Rightarrow> ('l::len, 'z) kb \<Rightarrow> ('l, 'z) kb" where
  "mods_key_release env mods code s =
    (let s1 = unregister_code env code s
     in if mods \<noteq> 0
        then send_keyboard_report env (if strong_mods code then del_mods mods s1 else del_weak_mods mods s1)
        else s1)"

definition oneshot_mods_action :: "'e act_env_scheme \<Rightarrow> u8 \<Rightarrow> bool \<Rightarrow> u8 \<Rightarrow> u8 \<Rightarrow> ('l::len, 'z) kb \<Rightarrow> ('l, 'z) kb" where
  "oneshot_mods_action env tap pressed mods code s =
    (if \<not> oneshot_enable (keymap_config s)
     then if pressed then mods_key_press env mods code s else mods_key_release env mods code s
     else if pressed
     then if tap = 0 then register_mods env mods s
       else if tap = 1 then add_oneshot_mods env mods s
       else if QS_oneshot_tap_toggle env > 1 \<and> tap = QS_oneshot_tap_toggle env
       then add_oneshot_locked_mods mods (del_oneshot_mods env mods (register_mods env mods s))
       else s
     else if tap = 0 \<or> (QS_oneshot_tap_toggle env > 1 \<and> tap = 1 \<and> mods AND real_mods s \<noteq> 0)
       then del_oneshot_locked_mods mods (del_oneshot_mods env mods (unregister_mods env mods s))
       else s)"

text \<open>The release of a tapped key waits first.\<close>

definition tap_release :: "'e act_env_scheme \<Rightarrow> u8 \<Rightarrow> ('l::len, 'z) kb \<Rightarrow> ('l, 'z) kb" where
  "tap_release env code s =
    unregister_code env code (wait_ms (if code = 0x39 then QS_tap_hold_caps_delay env else QS_tap_code_delay env) s)"

definition mods_tap_action :: "'e act_env_scheme \<Rightarrow> u8 \<Rightarrow> bool \<Rightarrow> u8 \<Rightarrow> u8 \<Rightarrow> ('l::len, 'z) kb \<Rightarrow> ('l, 'z) kb" where
  "mods_tap_action env tap pressed mods code s =
    (if code = 0 then oneshot_mods_action env tap pressed mods code s
     else if code = 1
     then if pressed then (if tap \<le> QS_tapping_toggle env then register_mods env mods s else s)
          else (if tap < QS_tapping_toggle env then unregister_mods env mods s else s)
     else if pressed then (if tap > 0 then register_code env code s else register_mods env mods s)
     else (if tap > 0 then tap_release env code s else unregister_mods env mods s))"

section \<open>Layer actions\<close>

definition bitop_operand :: "action_t \<Rightarrow> 'l::len word" where
  "bitop_operand a =
    (let shift = unat (bitop_part a) * 4
     in push_bit shift (ucast (bitop_bits a)) OR (if bitop_xbit a \<noteq> 0 then NOT (push_bit shift 0xF) else 0))"

definition layer_bitop_action :: "bool \<Rightarrow> action_t \<Rightarrow> 'l::len word layers \<Rightarrow> 'l word layers" where
  "layer_bitop_action pressed a s =
    (let v = bitop_operand a; op = bitop_op a
     in if bitop_on a = 0
        then if \<not> pressed
          then if op = 0 then default_layer_and v s else if op = 1 then default_layer_or v s
            else if op = OP_BIT_XOR then default_layer_xor v s else default_layer_set v s
          else s
        else if bitop_on a AND (if pressed then ON_PRESS else ON_RELEASE) \<noteq> 0
        then if op = 0 then layer_and v s else if op = 1 then layer_or v s
          else if op = OP_BIT_XOR then layer_xor v s else layer_state_set v s
        else s)"

definition oneshot_layer_action :: "'e act_env_scheme \<Rightarrow> u8 \<Rightarrow> bool \<Rightarrow> u8 \<Rightarrow> ('l::len, 'z) kb \<Rightarrow> ('l, 'z) kb" where
  "oneshot_layer_action env tap pressed val s =
    (if \<not> oneshot_enable (keymap_config s)
     then on_layers (if pressed then layer_on (unat val) else layer_off (unat val)) s
     else if QS_oneshot_tap_toggle env > 1
     then if pressed
       then if get_oneshot_layer_state s = ONESHOT_TOGGLED
            then on_layers (layer_off (unat val)) (reset_oneshot_layer s)
            else if tap < QS_oneshot_tap_toggle env then set_oneshot_layer env val ONESHOT_START s else s
       else if tap \<ge> QS_oneshot_tap_toggle env
            then set_oneshot_layer env val ONESHOT_TOGGLED (reset_oneshot_layer s)
            else clear_oneshot_layer_state ONESHOT_PRESSED s
     else if pressed then set_oneshot_layer env val ONESHOT_START s
     else let s1 = clear_oneshot_layer_state ONESHOT_PRESSED s
          in if tap > 1 then clear_oneshot_layer_state ONESHOT_OTHER_KEY_PRESSED s1 else s1)"

definition layer_tap_action :: "'e act_env_scheme \<Rightarrow> u8 \<Rightarrow> bool \<Rightarrow> action_t \<Rightarrow> ('l::len, 'z) kb \<Rightarrow> ('l, 'z) kb" where
  "layer_tap_action env tap pressed a s =
    (let val = unat (layer_tap_val a); code = layer_tap_code a
     in if code = OP_TAP_TOGGLE
        then if (if pressed then tap < QS_tapping_toggle env else tap \<le> QS_tapping_toggle env)
             then on_layers (layer_invert val) s else s
        else if code = OP_ON_OFF then on_layers (if pressed then layer_on val else layer_off val) s
        else if code = 0xF2 then on_layers (if pressed then layer_off val else layer_on val) s
        else if code = 0xF3 then on_layers (if pressed then layer_move val else layer_clear) s
        else if code = OP_ONESHOT then oneshot_layer_action env tap pressed (ucast (layer_tap_val a)) s
        else if pressed
        then if tap > 0 then register_code env (ucast code) s else on_layers (layer_on val) s
        else if tap > 0 then tap_release env (ucast code) s else on_layers (layer_off val) s)"

section \<open>Retro tapping\<close>

definition retro_tapping :: "'e act_env_scheme \<Rightarrow> keyrecord_t \<Rightarrow> action_t \<Rightarrow> ('l::len, 'z) ks \<Rightarrow> ('l, 'z) ks" where
  "retro_tapping env r a s =
    (if \<not> is_tap_action a then s
     else if ev_pressed r
     then if tap_count r > 0 then s\<lparr>retro_tap_primed := False\<rparr>
       else s\<lparr>retro_tap_curr_mods := retro_tap_next_mods s, retro_tap_next_mods := real_mods s\<rparr>
     else let event_keycode = fst (get_event_keycode env r False s); curr_mods = real_mods s;
              s1 = (if tap_count r > 0 then s\<lparr>retro_tap_primed := False\<rparr>
                else if retro_tap_curr_key s = event_keycode
                then let s2 = (if get_retro_tapping env event_keycode r \<and> retro_tap_primed s
                       then unregister_mods env (retro_tap_curr_mods s) (wait_ms 0 (tap_code env (ucast (layer_tap_code a))
                         (wait_ms 0 (register_mods env (retro_tap_curr_mods s) s))))
                       else s)
                  in s2\<lparr>retro_tap_primed := False\<rparr>
                else s)
          in s1\<lparr>retro_tap_next_mods := curr_mods\<rparr>)"

section \<open>Actions\<close>

text \<open>Whether the press ends a one-shot layer, and the state in which the action runs.\<close>

definition oneshot_layer_ends :: "keyrecord_t \<Rightarrow> action_t \<Rightarrow> ('l::len, 'z) kb \<Rightarrow> bool \<times> ('l, 'z) kb" where
  "oneshot_layer_ends r a s =
    (if is_oneshot_layer_active s \<and> ev_pressed r \<and>
        (kind_id a = ACT_USAGE \<or> \<not> (IS_MODIFIER_KEYCODE (ucast (key_code a)) \<or>
          (kind_id a \<in> {2, 3} \<and> (layer_tap_code a \<le> 1 \<or> tap_count r = 0)))) \<and>
        oneshot_enable (keymap_config s)
     then let s1 = clear_oneshot_layer_state ONESHOT_OTHER_KEY_PRESSED s in (\<not> is_oneshot_layer_active s1, s1)
     else (False, s))"

definition action_kind :: "'e act_env_scheme \<Rightarrow> keyrecord_t \<Rightarrow> action_t \<Rightarrow> ('l::len, 'z) kb \<Rightarrow> ('l, 'z) kb" where
  "action_kind env r a s =
    (let kind = kind_id a; pressed = ev_pressed r; code = ucast (key_code a); tap = tap_count r;
         mods = (if kind = 0 \<or> kind = 2 then ucast (key_mods a) else push_bit 4 (ucast (key_mods a)))
     in if kind = 0 \<or> kind = 1
        then if pressed then mods_key_press env mods code s else mods_key_release env mods code s
        else if kind = 2 \<or> kind = 3 then mods_tap_action env tap pressed mods code s
        else if kind = ACT_USAGE
        then let page = drop_bit 10 a AND 3; usage = (if pressed then a AND 0x3FF else 0)
             in if page = 0 then emit (System usage) s else if page = 1 then emit (Consumer usage) s else s
        else if kind = ACT_MOUSEKEY then register_mouse code pressed s
        else if kind = ACT_LAYER then on_layers (layer_bitop_action pressed a) s
        else if kind = ACT_LAYER_MODS
        then if pressed
             then register_mods env (ucast (layer_mods_mods a)) (on_layers (layer_on (unat (layer_mods_layer a))) s)
             else on_layers (layer_off (unat (layer_mods_layer a))) (unregister_mods env (ucast (layer_mods_mods a)) s)
        else if kind = ACT_LAYER_TAP \<or> kind = ACT_LAYER_TAP_EXT then layer_tap_action env tap pressed a s
        else s)"

text \<open>\<open>process_action\<close> up to the release of the key of a one-shot layer; the flag tells whether that follows.\<close>

definition process_action_body :: "'e act_env_scheme \<Rightarrow> keyrecord_t \<Rightarrow> action_t \<Rightarrow> ('l::len, 'z) ks \<Rightarrow> bool \<times> ('l, 'z) ks" where
  "process_action_body env r a s =
    (let (release1, s1) = oneshot_layer_ends r a s;
         s2 = action_kind env r a s1;
         release2 = (if kind_id a \<in> {ACT_LAYER, ACT_LAYER_MODS, ACT_LAYER_TAP, ACT_LAYER_TAP_EXT} then False else release1);
         s3 = retro_tapping env r a s2
     in (release2 \<and> get_oneshot_layer_state s3 AND ONESHOT_PRESSED = 0, s3))"

definition record_action :: "'e act_env_scheme \<Rightarrow> keyrecord_t \<Rightarrow> ('l::len, 'z) ks \<Rightarrow> action_t \<times> ('l, 'z) ks" where
  "record_action env r s =
    (if rec_keycode r \<noteq> 0 then (action_for_keycode (keymap_config s) (rec_keycode r), s)
     else let (a, l) = store_or_get_action (dk env) (cache_bits env) (max_layer env) (action_at env s)
                (disable_action_cache s) (ev_pressed r) (ev_key r) (layers s)
          in (a, s\<lparr>layers := l\<rparr>))"

type_synonym ('l, 'z) hook = "keyrecord_t \<Rightarrow> ('l, 'z) ks \<Rightarrow> bool \<times> keyrecord_t \<times> ('l, 'z) ks"

text \<open>The record is passed by pointer: the result holds what the caller finds in it afterwards.\<close>

fun process_record :: "nat \<Rightarrow> 'e act_env_scheme \<Rightarrow> ('l::len, 'z) hook \<Rightarrow> (keyrecord_t \<Rightarrow> ('l, 'z) ks \<Rightarrow> ('l, 'z) ks) \<Rightarrow>
    keyrecord_t \<Rightarrow> ('l, 'z) ks \<Rightarrow> (keyrecord_t \<times> ('l, 'z) ks) option" where
  "process_record 0 env quantum post r s = None"
| "process_record (Suc fuel) env quantum post r s =
    (if IS_NOEVENT r then Some (r, s)
     else case quantum r s of
       (False, r1, s1) \<Rightarrow>
         Some (r1, if is_oneshot_layer_active s1 \<and> ev_pressed r1 \<and> oneshot_enable (keymap_config s1)
               then clear_oneshot_layer_state ONESHOT_OTHER_KEY_PRESSED s1 else s1)
     | (True, r1, s1) \<Rightarrow>
         let (a, s2) = record_action env r1 s1; (release, s3) = process_action_body env r1 a s2
         in if release
            then map_option (\<lambda>(r2, s4). (r2, post r2 (on_layers (layer_off (unat (get_oneshot_layer s4))) s4)))
                   (process_record fuel env quantum post (r1\<lparr>ev_pressed := False\<rparr>)
                     (on_layers (layer_on (unat (get_oneshot_layer s3))) s3))
            else Some (r1, post r1 s3))"

definition process_record_nocache :: "nat \<Rightarrow> 'e act_env_scheme \<Rightarrow> ('l::len, 'z) hook \<Rightarrow> (keyrecord_t \<Rightarrow> ('l, 'z) ks \<Rightarrow> ('l, 'z) ks) \<Rightarrow>
    keyrecord_t \<Rightarrow> ('l, 'z) ks \<Rightarrow> (keyrecord_t \<times> ('l, 'z) ks) option" where
  "process_record_nocache fuel env quantum post r s =
    map_option (\<lambda>(r, s). (r, s\<lparr>disable_action_cache := False\<rparr>))
      (process_record fuel env quantum post r (s\<lparr>disable_action_cache := True\<rparr>))"

end
