(* ===== verification/Action_Ok.thy ===== *)
theory Action_Ok
  imports Action
begin

unbundle bit_operations_syntax

text \<open>
  The invariant of the keyboard state that every operation of \<open>action_util.c\<close> and \<open>action.c\<close> keeps: the
  six-key report has six slots and no key twice, the NKRO report its 30 bytes, and the reports handed to
  the host never repeat: the saved copy of the last report is the last one sent.
\<close>

section \<open>The invariant\<close>

fun six_reports :: "host_report list \<Rightarrow> report_keyboard_t list" where
  "six_reports [] = []"
| "six_reports (Six_Keys r # rs) = r # six_reports rs"
| "six_reports (_ # rs) = six_reports rs"

fun nkro_reports :: "host_report list \<Rightarrow> report_nkro_t list" where
  "nkro_reports [] = []"
| "nkro_reports (Nkro r # rs) = r # nkro_reports rs"
| "nkro_reports (_ # rs) = nkro_reports rs"

lemma six_reports_append [simp]: "six_reports (xs @ ys) = six_reports xs @ six_reports ys"
  by (induction xs rule: six_reports.induct) simp_all

lemma nkro_reports_append [simp]: "nkro_reports (xs @ ys) = nkro_reports xs @ nkro_reports ys"
  by (induction xs rule: nkro_reports.induct) simp_all

definition stream_ok :: "'r \<Rightarrow> 'r list \<Rightarrow> bool" where
  "stream_ok saved rs \<longleftrightarrow> distinct_adj rs \<and> (rs \<noteq> [] \<longrightarrow> last rs = saved)"

definition kbd_ok :: "('l::len, 'z) kb \<Rightarrow> bool" where
  "kbd_ok s \<longleftrightarrow> reports_ok (reports s) \<and> stream_ok (last_six_keys s) (six_reports (sent s)) \<and>
    stream_ok (last_nkro s) (nkro_reports (sent s))"

lemma stream_ok_snoc: "stream_ok saved rs \<Longrightarrow> r \<noteq> saved \<Longrightarrow> stream_ok r (rs @ [r])"
  by (auto simp: stream_ok_def distinct_adj_append_iff)

named_theorems kbd_ok_intros \<open>operations that keep the invariant of the keyboard state\<close>

text \<open>Assignments to the other variables of the state.\<close>

lemma kbd_ok_updates [simp]:
  "kbd_ok (s\<lparr>real_mods := m\<rparr>) = kbd_ok s" "kbd_ok (s\<lparr>weak_mods := m\<rparr>) = kbd_ok s"
  "kbd_ok (s\<lparr>weak_override_mods := m\<rparr>) = kbd_ok s" "kbd_ok (s\<lparr>suppressed_mods := m\<rparr>) = kbd_ok s"
  "kbd_ok (s\<lparr>oneshot_mods := m\<rparr>) = kbd_ok s" "kbd_ok (s\<lparr>oneshot_locked_mods := m\<rparr>) = kbd_ok s"
  "kbd_ok (s\<lparr>oneshot_time := t\<rparr>) = kbd_ok s" "kbd_ok (s\<lparr>oneshot_layer_data := d\<rparr>) = kbd_ok s"
  "kbd_ok (s\<lparr>oneshot_layer_time := t\<rparr>) = kbd_ok s" "kbd_ok (s\<lparr>keymap_config := k\<rparr>) = kbd_ok s"
  "kbd_ok (s\<lparr>keymap_updates := u\<rparr>) = kbd_ok s" "kbd_ok (s\<lparr>layers := l\<rparr>) = kbd_ok s"
  by (simp_all add: kbd_ok_def)

lemma kbd_ok_act_updates [simp]:
  fixes s :: "('l::len, 'z) ks"
  shows "kbd_ok (s\<lparr>disable_action_cache := b\<rparr>) = kbd_ok s" "kbd_ok (s\<lparr>retro_tap_primed := b\<rparr>) = kbd_ok s"
    "kbd_ok (s\<lparr>retro_tap_curr_key := c\<rparr>) = kbd_ok s" "kbd_ok (s\<lparr>retro_tap_curr_mods := m\<rparr>) = kbd_ok s"
    "kbd_ok (s\<lparr>retro_tap_next_mods := m\<rparr>) = kbd_ok s"
  by (simp_all add: kbd_ok_def)

lemma kbd_ok_mods_ops [simp]:
  "kbd_ok (add_mods m s) = kbd_ok s" "kbd_ok (del_mods m s) = kbd_ok s" "kbd_ok (clear_mods s) = kbd_ok s"
  "kbd_ok (add_weak_mods m s) = kbd_ok s" "kbd_ok (del_weak_mods m s) = kbd_ok s"
  "kbd_ok (clear_weak_mods s) = kbd_ok s" "kbd_ok (on_layers f s) = kbd_ok s"
  by (simp_all add: add_mods_def del_mods_def clear_mods_def add_weak_mods_def del_weak_mods_def
      clear_weak_mods_def on_layers_def)

lemma kbd_ok_oneshot_ops [simp]:
  "kbd_ok (add_oneshot_mods env m s) = kbd_ok s" "kbd_ok (del_oneshot_mods env m s) = kbd_ok s"
  "kbd_ok (clear_oneshot_mods s) = kbd_ok s" "kbd_ok (add_oneshot_locked_mods m s) = kbd_ok s"
  "kbd_ok (del_oneshot_locked_mods m s) = kbd_ok s" "kbd_ok (set_oneshot_layer env v st s) = kbd_ok s"
  "kbd_ok (reset_oneshot_layer s) = kbd_ok s" "kbd_ok (clear_oneshot_layer_state st s) = kbd_ok s"
  by (simp_all add: add_oneshot_mods_def del_oneshot_mods_def clear_oneshot_mods_def add_oneshot_locked_mods_def
      del_oneshot_locked_mods_def set_oneshot_layer_def reset_oneshot_layer_def clear_oneshot_layer_state_def Let_def)

lemma kbd_ok_if [kbd_ok_intros]: "kbd_ok a \<Longrightarrow> kbd_ok b \<Longrightarrow> kbd_ok (if P then a else b)"
  by simp

section \<open>Reports\<close>

lemma kbd_ok_emit [kbd_ok_intros]:
  "kbd_ok s \<Longrightarrow> six_reports [r] = [] \<Longrightarrow> nkro_reports [r] = [] \<Longrightarrow> kbd_ok (emit r s)"
  by (simp add: kbd_ok_def emit_def)

lemma kbd_ok_wait [kbd_ok_intros]: "kbd_ok s \<Longrightarrow> kbd_ok (wait_ms d s)"
  by (simp add: wait_ms_def kbd_ok_emit)

lemma kbd_ok_mouse [kbd_ok_intros]: "kbd_ok s \<Longrightarrow> kbd_ok (register_mouse c p s)"
  by (simp add: register_mouse_def kbd_ok_emit)

lemma get_mods_for_report_ok: "kbd_ok s \<Longrightarrow> kbd_ok (snd (get_mods_for_report env s))"
  by (simp add: get_mods_for_report_def Let_def)

lemma reports_ok_mods [simp]:
  "reports_ok (r\<lparr>keyboard_report := (keyboard_report r)\<lparr>kb_mods := m\<rparr>\<rparr>) = reports_ok r"
  "reports_ok (r\<lparr>nkro_report := (nkro_report r)\<lparr>nkro_mods := m\<rparr>\<rparr>) = reports_ok r"
  by (simp_all add: reports_ok_def report_ok_def nkro_ok_def)

lemma kbd_ok_send_6kro:
  assumes "kbd_ok s"
  shows "kbd_ok (send_6kro_report env s)"
proof -
  obtain m s1 where g: "get_mods_for_report env s = (m, s1)" by fastforce
  have s1: "kbd_ok s1" using get_mods_for_report_ok [OF assms, of env] by (simp add: g)
  define r where "r = (keyboard_report (reports s1))\<lparr>kb_mods := m\<rparr>"
  have "reports_ok ((reports s1)\<lparr>keyboard_report := r\<rparr>)" using s1 by (simp add: r_def kbd_ok_def)
  then show ?thesis using s1
    by (cases "r = last_six_keys s1") (simp_all add: send_6kro_report_def g Let_def r_def [symmetric] kbd_ok_def stream_ok_snoc [of "last_six_keys s1"])
qed

lemma kbd_ok_send_nkro:
  assumes "kbd_ok s"
  shows "kbd_ok (send_nkro_report env s)"
proof -
  obtain m s1 where g: "get_mods_for_report env s = (m, s1)" by fastforce
  have s1: "kbd_ok s1" using get_mods_for_report_ok [OF assms, of env] by (simp add: g)
  define r where "r = (nkro_report (reports s1))\<lparr>nkro_mods := m\<rparr>"
  have "reports_ok ((reports s1)\<lparr>nkro_report := r\<rparr>)" using s1 by (simp add: r_def kbd_ok_def)
  then show ?thesis using s1
    by (cases "r = last_nkro s1") (simp_all add: send_nkro_report_def g Let_def r_def [symmetric] kbd_ok_def stream_ok_snoc [of "last_nkro s1"])
qed

lemma kbd_ok_send [kbd_ok_intros]: "kbd_ok s \<Longrightarrow> kbd_ok (send_keyboard_report env s)"
  by (simp add: send_keyboard_report_def kbd_ok_send_6kro kbd_ok_send_nkro)

lemma kbd_ok_key_ops [kbd_ok_intros]:
  "kbd_ok s \<Longrightarrow> kbd_ok (add_key env k s)" "kbd_ok s \<Longrightarrow> kbd_ok (del_key env k s)" "kbd_ok s \<Longrightarrow> kbd_ok (clear_keys env s)"
  using reports_ok_op [of "reports s" _ "Add k"] reports_ok_op [of "reports s" _ "Del k"]
    reports_ok_op [of "reports s" _ Clear]
  by (simp_all add: kbd_ok_def add_key_def del_key_def clear_keys_def)

section \<open>Codes\<close>

lemma kbd_ok_tap_locking [kbd_ok_intros]: "kbd_ok s \<Longrightarrow> kbd_ok (tap_locking_key env key d s)"
  unfolding tap_locking_key_def Let_def by (cases d) (simp_all add: kbd_ok_intros)

lemma kbd_ok_register [kbd_ok_intros]: "kbd_ok s \<Longrightarrow> kbd_ok (register_code env code s)"
  unfolding register_code_def Let_def by (intro kbd_ok_intros; simp add: kbd_ok_intros)

lemma kbd_ok_unregister [kbd_ok_intros]: "kbd_ok s \<Longrightarrow> kbd_ok (unregister_code env code s)"
  unfolding unregister_code_def Let_def by (intro kbd_ok_intros; simp add: kbd_ok_intros)

lemma kbd_ok_tap_code [kbd_ok_intros]: "kbd_ok s \<Longrightarrow> kbd_ok (tap_code env code s)"
  unfolding tap_code_def tap_code_delay_def by (intro kbd_ok_intros)

lemma kbd_ok_register_mods [kbd_ok_intros]:
  "kbd_ok s \<Longrightarrow> kbd_ok (register_mods env m s)" "kbd_ok s \<Longrightarrow> kbd_ok (unregister_mods env m s)"
  "kbd_ok s \<Longrightarrow> kbd_ok (register_weak_mods env m s)" "kbd_ok s \<Longrightarrow> kbd_ok (unregister_weak_mods env m s)"
  by (simp_all add: register_mods_def unregister_mods_def register_weak_mods_def unregister_weak_mods_def kbd_ok_send)

lemma kbd_ok_code16 [kbd_ok_intros]:
  "kbd_ok s \<Longrightarrow> kbd_ok (register_code16 env c s)" "kbd_ok s \<Longrightarrow> kbd_ok (unregister_code16 env c s)"
  unfolding register_code16_def unregister_code16_def Let_def by (intro kbd_ok_intros; simp add: kbd_ok_intros)+

lemma kbd_ok_tap_code16 [kbd_ok_intros]: "kbd_ok (s :: ('l::len, 'z) kb) \<Longrightarrow> kbd_ok (tap_code16 env c s)"
proof -
  have "kbd_ok s \<Longrightarrow> kbd_ok ((wait_ms 1 ^^ n) s)" for s :: "('l::len, 'z) kb" and n
    by (induction n) (auto intro: kbd_ok_intros)
  then show "kbd_ok s \<Longrightarrow> ?thesis" unfolding tap_code16_def tap_code16_delay_def by (simp add: kbd_ok_intros)
qed

lemma kbd_ok_clear [kbd_ok_intros]: "kbd_ok s \<Longrightarrow> kbd_ok (clear_keyboard env s)"
  unfolding clear_keyboard_def clear_keyboard_but_mods_def clear_keyboard_but_mods_and_keys_def
  by (intro kbd_ok_intros; simp add: kbd_ok_intros)

section \<open>Actions\<close>

lemma kbd_ok_mods_key [kbd_ok_intros]:
  "kbd_ok s \<Longrightarrow> kbd_ok (mods_key_press env m c s)" "kbd_ok s \<Longrightarrow> kbd_ok (mods_key_release env m c s)"
  unfolding mods_key_press_def mods_key_release_def Let_def by (intro kbd_ok_intros; simp add: kbd_ok_intros)+

lemma kbd_ok_tap_release [kbd_ok_intros]: "kbd_ok s \<Longrightarrow> kbd_ok (tap_release env c s)"
  unfolding tap_release_def by (intro kbd_ok_intros)

lemma kbd_ok_mods_tap [kbd_ok_intros]: "kbd_ok s \<Longrightarrow> kbd_ok (mods_tap_action env tap p m c s)"
  unfolding mods_tap_action_def oneshot_mods_action_def by (intro kbd_ok_intros; simp add: kbd_ok_intros)

lemma kbd_ok_layer_tap [kbd_ok_intros]: "kbd_ok s \<Longrightarrow> kbd_ok (layer_tap_action env tap p a s)"
  unfolding layer_tap_action_def oneshot_layer_action_def Let_def by (intro kbd_ok_intros; simp add: kbd_ok_intros)

lemma kbd_ok_retro [kbd_ok_intros]: "kbd_ok s \<Longrightarrow> kbd_ok (retro_tapping env r a s)"
  by (simp add: retro_tapping_def Let_def kbd_ok_intros)

lemma kbd_ok_action_kind [kbd_ok_intros]: "kbd_ok s \<Longrightarrow> kbd_ok (action_kind env r a s)"
  unfolding action_kind_def Let_def by (intro kbd_ok_intros; simp add: kbd_ok_intros)

lemma kbd_ok_body: "kbd_ok s \<Longrightarrow> kbd_ok (snd (process_action_body env r a s))"
  by (simp add: process_action_body_def oneshot_layer_ends_def Let_def kbd_ok_intros split: prod.split)

lemma kbd_ok_record_action: "kbd_ok s \<Longrightarrow> kbd_ok (snd (record_action env r s))"
  by (auto simp: record_action_def split: prod.split)

section \<open>Records\<close>

text \<open>A press can end a one-shot layer, a release cannot.\<close>

lemma body_releases_a_press: "fst (process_action_body env r a s) \<Longrightarrow> ev_pressed r"
  by (auto simp: process_action_body_def oneshot_layer_ends_def Let_def split: if_splits prod.splits)

text \<open>The feature pipeline may change the record, but not turn a release into a press.\<close>

definition keeps_release :: "('l::len, 'z) hook \<Rightarrow> bool" where
  "keeps_release quantum \<longleftrightarrow> (\<forall>r s. \<not> ev_pressed r \<longrightarrow> \<not> ev_pressed (fst (snd (quantum r s))))"

lemma release_returns:
  assumes "keeps_release quantum" "\<not> ev_pressed r"
  shows "\<exists>r' s'. process_record (Suc n) env quantum post r s = Some (r', s')"
proof -
  obtain go r1 s1 where q: "quantum r s = (go, r1, s1)" by (metis prod_cases3)
  have r1: "\<not> ev_pressed r1" using assms q unfolding keeps_release_def by (metis fst_conv snd_conv)
  obtain a s2 where a: "record_action env r1 s1 = (a, s2)" by fastforce
  obtain release s3 where b: "process_action_body env r1 a s2 = (release, s3)" by fastforce
  have "\<not> release" using body_releases_a_press [of env r1 a s2] r1 b by auto
  then show ?thesis by (cases go) (simp_all add: q a b)
qed

lemma process_record_total:
  assumes "keeps_release quantum"
  shows "\<exists>r' s'. process_record 2 env quantum post r s = Some (r', s')"
proof -
  obtain go r1 s1 where q: "quantum r s = (go, r1, s1)" by (metis prod_cases3)
  obtain a s2 where a: "record_action env r1 s1 = (a, s2)" by fastforce
  obtain release s3 where b: "process_action_body env r1 a s2 = (release, s3)" by fastforce
  obtain r4 s4 where "process_record (Suc 0) env quantum post (r1\<lparr>ev_pressed := False\<rparr>)
      (on_layers (layer_on (unat (get_oneshot_layer s3))) s3) = Some (r4, s4)"
    using release_returns [OF assms, of "r1\<lparr>ev_pressed := False\<rparr>"] by force
  then show ?thesis by (cases go) (simp_all add: numeral_2_eq_2 q a b Let_def del: process_record.simps(1))
qed

text \<open>The state after power-on: the static variables are zero.\<close>

definition kbd_start :: "keymap_config_t \<Rightarrow> 'w layers \<Rightarrow> 'w act" where
  "kbd_start k l = \<lparr>real_mods = 0, weak_mods = 0, weak_override_mods = 0, suppressed_mods = 0, oneshot_mods = 0,
    oneshot_locked_mods = 0, oneshot_time = 0, oneshot_layer_data = 0, oneshot_layer_time = 0, keymap_config = k,
    keymap_updates = [], reports = empty_reports, last_six_keys = keyboard_report empty_reports,
    last_nkro = nkro_report empty_reports, sent = [], layers = l, disable_action_cache = False,
    retro_tap_primed = False, retro_tap_curr_key = 0, retro_tap_curr_mods = 0, retro_tap_next_mods = 0\<rparr>"

definition plain_hook :: "('l::len, 'z) hook" where
  "plain_hook r s = (True, r, s)"

definition plain_env :: act_env where
  "plain_env = \<lparr>timer_read = 100, QS_oneshot_timeout = 0, report_protocol = True, QS_tap_code_delay = 0,
    QS_tap_hold_caps_delay = 80, locking_support = False, locking_resync = False, led_caps_lock = False,
    led_num_lock = False, led_scroll_lock = False, dk = two_keys, cache_bits = 3, max_layer = 8,
    keycode_at = (\<lambda>layer key. if layer = 0 \<and> kcol key = 0 then 4 else if layer = 0 then 0x5221 else 1),
    QS_oneshot_tap_toggle = 0, QS_tapping_toggle = 5, get_retro_tapping = (\<lambda>_ _. False)\<rparr>"

definition key_record :: "nat \<Rightarrow> bool \<Rightarrow> keyrecord_t" where
  "key_record col pressed = \<lparr>ev_key = \<lparr>krow = 0, kcol = col\<rparr>, ev_time = 100, ev_type = KEY_EVENT,
    ev_pressed = pressed, tap_interrupted = False, tap_count = 0, rec_keycode = 0\<rparr>"

lemma plain_hook_keeps: "keeps_release plain_hook"
  by (simp add: keeps_release_def plain_hook_def)



lemma process_record_ok:
  assumes "\<forall>r s. kbd_ok s \<longrightarrow> kbd_ok (snd (snd (quantum r s)))" "\<forall>r s. kbd_ok s \<longrightarrow> kbd_ok (post r s)"
  shows "kbd_ok s \<Longrightarrow> process_record n env quantum post r s = Some (r', s') \<Longrightarrow> kbd_ok s'"
proof (induction n arbitrary: r s r' s')
  case (Suc n)
  show ?case
  proof (cases "IS_NOEVENT r")
    case False
    obtain go r1 s1 where q: "quantum r s = (go, r1, s1)" by (metis prod_cases3)
    have s1: "kbd_ok s1" using assms(1) Suc.prems(1) q by (metis snd_conv)
    obtain a s2 where a: "record_action env r1 s1 = (a, s2)" by fastforce
    have s2: "kbd_ok s2" using kbd_ok_record_action [OF s1, of env r1] by (simp add: a)
    obtain release s3 where b: "process_action_body env r1 a s2 = (release, s3)" by fastforce
    have s3: "kbd_ok s3" using kbd_ok_body [OF s2, of env r1 a] by (simp add: b)
    show ?thesis using Suc.prems(2) False s1 s3 assms(2)
      by (auto simp: q a b Let_def split: if_splits bool.splits dest!: Suc.IH [rotated])
  qed (use Suc.prems in simp)
qed simp

text \<open>A run over a sequence of records, each with the clock and settings of its moment.\<close>

fun process_records :: "nat \<Rightarrow> ('l::len, 'z) hook \<Rightarrow> (keyrecord_t \<Rightarrow> ('l, 'z) ks \<Rightarrow> ('l, 'z) ks) \<Rightarrow>
    ('e act_env_scheme \<times> keyrecord_t) list \<Rightarrow> ('l, 'z) ks \<Rightarrow> ('l, 'z) ks option" where
  "process_records n quantum post [] s = Some s"
| "process_records n quantum post ((env, r) # rs) s =
    (case process_record n env quantum post r s of None \<Rightarrow> None
     | Some (_, s1) \<Rightarrow> process_records n quantum post rs s1)"

lemma process_records_ok:
  assumes "\<forall>r s. kbd_ok s \<longrightarrow> kbd_ok (snd (snd (quantum r s)))" "\<forall>r s. kbd_ok s \<longrightarrow> kbd_ok (post r s)"
  shows "kbd_ok s \<Longrightarrow> process_records n quantum post rs s = Some s' \<Longrightarrow> kbd_ok s'"
proof (induction rs arbitrary: s)
  case (Cons er rs)
  obtain env r where er: "er = (env, r)" by fastforce
  then obtain r1 s1 where "process_record n env quantum post r s = Some (r1, s1)"
    "process_records n quantum post rs s1 = Some s'"
    using Cons.prems(2) by (auto split: option.splits)
  then show ?case using Cons.IH process_record_ok [OF assms Cons.prems(1)] by blast
qed simp

lemma kbd_start_ok: "kbd_ok (kbd_start k l)"
  by (simp add: kbd_ok_def kbd_start_def empty_reports_ok stream_ok_def)


lemma process_records_total:
  "keeps_release quantum \<Longrightarrow> \<exists>s'. process_records 2 quantum post rs s = Some s'"
proof (induction rs arbitrary: s)
  case (Cons er rs)
  obtain env r where "er = (env, r)" by fastforce
  moreover obtain r1 s1 where "process_record 2 env quantum post r s = Some (r1, s1)"
    using process_record_total [OF Cons.prems] by blast
  ultimately show ?case using Cons by simp
qed simp


end
