(* ===== verification/Action_Props.thy ===== *)
theory Action_Props
  imports Action_Ok
begin

unbundle bit_operations_syntax

text \<open>
  What registering, tapping, holding and one-shot keys do: the effect of the operations of \<open>action.c\<close> on
  the keys of the active report, the modifiers and the layers.
\<close>

section \<open>The keys that are down\<close>

definition down :: "'e kbd_env_scheme \<Rightarrow> ('l::len, 'z) kb \<Rightarrow> u8 set" where
  "down env s = pressed_keys (nkro_active env s) (reports s)"

named_theorems send_simps \<open>what sending a report leaves alone\<close>

lemma get_mods_for_report_keeps [send_simps]:
  "reports (snd (get_mods_for_report env s)) = reports s" "layers (snd (get_mods_for_report env s)) = layers s"
  "real_mods (snd (get_mods_for_report env s)) = real_mods s" "weak_mods (snd (get_mods_for_report env s)) = weak_mods s"
  "keymap_config (snd (get_mods_for_report env s)) = keymap_config s"
  "oneshot_layer_data (snd (get_mods_for_report env s)) = oneshot_layer_data s"
  "nkro_active env' (snd (get_mods_for_report env s)) = nkro_active env' s"
  by (simp_all add: get_mods_for_report_def Let_def clear_oneshot_mods_def nkro_active_def)

lemma send_keeps [send_simps]:
  "layers (send_keyboard_report env s) = layers s" "real_mods (send_keyboard_report env s) = real_mods s"
  "weak_mods (send_keyboard_report env s) = weak_mods s"
  "keymap_config (send_keyboard_report env s) = keymap_config s"
  "oneshot_layer_data (send_keyboard_report env s) = oneshot_layer_data s"
  "nkro_active env' (send_keyboard_report env s) = nkro_active env' s"
  using get_mods_for_report_keeps [where env = env and s = s]
  by (auto simp: send_keyboard_report_def send_6kro_report_def send_nkro_report_def Let_def nkro_active_def
      split: prod.split)

lemma send_keeps_keys:
  "kb_keys (keyboard_report (reports (send_keyboard_report env s))) = kb_keys (keyboard_report (reports s))"
  "nkro_bits (nkro_report (reports (send_keyboard_report env s))) = nkro_bits (nkro_report (reports s))"
proof -
  obtain m s1 where g: "get_mods_for_report env s = (m, s1)" by fastforce
  have "reports s1 = reports s" using get_mods_for_report_keeps(1) [of env s] by (simp add: g)
  then show "kb_keys (keyboard_report (reports (send_keyboard_report env s))) = kb_keys (keyboard_report (reports s))"
    "nkro_bits (nkro_report (reports (send_keyboard_report env s))) = nkro_bits (nkro_report (reports s))"
    by (cases "nkro_active env s"; simp add: send_keyboard_report_def send_6kro_report_def send_nkro_report_def g Let_def
        if_distrib [of reports] if_distrib [of keyboard_report] if_distrib [of kb_keys]
        if_distrib [of nkro_report] if_distrib [of nkro_bits] cong: if_cong split del: if_split)+
qed

lemma down_send [send_simps]: "down env' (send_keyboard_report env s) = down env' s"
  by (simp add: down_def send_simps pressed_keys_eq keys_of_def keys_of_nkro_def send_keeps_keys)

lemma down_mods [send_simps]:
  "down env (add_mods m s) = down env s" "down env (del_mods m s) = down env s"
  "down env (add_weak_mods m s) = down env s" "down env (del_weak_mods m s) = down env s"
  "down env (wait_ms d s) = down env s" "down env (on_layers f s) = down env s"
  by (simp_all add: down_def add_mods_def del_mods_def add_weak_mods_def del_weak_mods_def wait_ms_def emit_def
      on_layers_def nkro_active_def)

lemma down_key_ops:
  assumes "kbd_ok s" "0 < unat k" "unat k < 240"
  shows "down env (del_key env k s) = down env s - {k}"
    and "nkro_active env s \<or> card (insert k (down env s)) \<le> 6 \<Longrightarrow> down env (add_key env k s) = insert k (down env s)"
proof -
  have ok: "reports_ok (reports s)" using assms(1) by (simp add: kbd_ok_def)
  have nk: "nkro_active env (s\<lparr>reports := r\<rparr>) = nkro_active env s" for r by (simp add: nkro_active_def)
  have "nkro_active env s \<or> card (down env s - {k}) \<le> 6"
    using card_keys_of(1) [of "keyboard_report (reports s)"] ok
    by (auto simp: down_def pressed_keys_eq reports_ok_def intro: order_trans [OF card_Diff1_le])
  then show "down env (del_key env k s) = down env s - {k}"
    using pressed_keys_op [OF ok, of "Del k" "nkro_active env s"] assms(2,3) by (simp add: down_def del_key_def nk)
  show "nkro_active env s \<or> card (insert k (down env s)) \<le> 6 \<Longrightarrow> down env (add_key env k s) = insert k (down env s)"
    using pressed_keys_op [OF ok, of "Add k" "nkro_active env s"] assms(2,3) by (simp add: down_def add_key_def nk)
qed

text \<open>A basic key that is not a locking key.\<close>

definition plain_key :: "'e code_env_scheme \<Rightarrow> u8 \<Rightarrow> bool" where
  "plain_key env code \<longleftrightarrow> IS_BASIC_KEYCODE code \<and> \<not> (locking_support env \<and> code \<in> {0x82, 0x83, 0x84})"

lemma plain_key_range: "plain_key env code \<Longrightarrow> 0 < unat code \<and> unat code < 240 \<and> code \<noteq> 0"
  by (auto simp: plain_key_def IS_BASIC_KEYCODE_def word_le_nat_alt)

lemma down_unregister:
  assumes "kbd_ok s" "plain_key env code"
  shows "down env (unregister_code env code s) = down env s - {code}"
  using assms(2) plain_key_range [OF assms(2)] down_key_ops(1) [OF assms(1)]
  by (auto simp: unregister_code_def plain_key_def send_simps)

lemma down_register:
  assumes "kbd_ok s" "plain_key env code" "nkro_active env s \<or> card (insert code (down env s)) \<le> 6"
  shows "down env (register_code env code s) = insert code (down env s)"
proof -
  define s1 where "s1 = (if is_key_pressed (nkro_active env s) code (reports s)
    then send_keyboard_report env (del_key env code s) else s)"
  have r: "0 < unat code" "unat code < 240" using plain_key_range [OF assms(2)] by auto
  have nk: "nkro_active env (del_key env code s) = nkro_active env s" by (simp add: nkro_active_def del_key_def)
  have s1: "kbd_ok s1" "insert code (down env s1) = insert code (down env s)" "nkro_active env s1 = nkro_active env s"
    using assms(1) down_key_ops(1) [OF assms(1) r] by (auto simp: s1_def send_simps nk intro: kbd_ok_intros)
  have "register_code env code s = send_keyboard_report env (add_key env code s1)"
    using assms(2) plain_key_range [OF assms(2)] by (auto simp: register_code_def plain_key_def s1_def)
  then show ?thesis using down_key_ops(2) [OF s1(1) r, of env] s1 assms(3) by (simp add: send_simps)
qed

text \<open>A basic key is in the active report after its press (when there is room for it) and gone after its
  release, whether or not it was down before; the other keys stay as they are.\<close>

lemma key_is_down_between_press_and_release:
  assumes "kbd_ok s" "plain_key env code" "nkro_active env s \<or> card (insert code (down env s)) \<le> 6"
  shows "down env (register_code env code s) = insert code (down env s) \<and>
    down env (unregister_code env code (register_code env code s)) = down env s - {code}"
  using down_register [OF assms] down_unregister [OF kbd_ok_register [OF assms(1)] assms(2)] by auto

lemma key_is_down_between_press_and_release_witness:
  "down plain_env (register_code plain_env 4 (kbd_start 0 fresh_layers)) = insert 4 (down plain_env (kbd_start 0 fresh_layers))"
proof -
  have "down plain_env (kbd_start 0 fresh_layers) = {}"
    by (simp add: down_def kbd_start_def empty_reports_ok)
  then show ?thesis
    using key_is_down_between_press_and_release [OF kbd_start_ok, of plain_env 4 0 fresh_layers]
    by (simp add: plain_key_def IS_BASIC_KEYCODE_def plain_env_def)
qed

section \<open>Mod-tap keys\<close>

lemma register_mods_effect:
  "real_mods (register_mods env m s) = real_mods s OR m" "down env' (register_mods env m s) = down env' s"
  "real_mods (unregister_mods env m s) = real_mods s AND NOT m" "down env' (unregister_mods env m s) = down env' s"
  by (simp_all add: register_mods_def unregister_mods_def send_simps) (simp_all add: add_mods_def del_mods_def)

lemma unregister_code_keeps_mods: "plain_key env code \<Longrightarrow> real_mods (unregister_code env code s) = real_mods s"
  using plain_key_range [of env code] by (auto simp: unregister_code_def plain_key_def send_simps del_key_def)

lemma register_code_keeps_mods: "plain_key env code \<Longrightarrow> real_mods (register_code env code s) = real_mods s"
  using plain_key_range [of env code]
  by (auto simp: register_code_def plain_key_def send_simps del_key_def add_key_def Let_def)

text \<open>C19: a mod-tap key that is held is its modifiers and nothing else, one that is tapped is its key and
  nothing else; after the release nothing of it is left.\<close>

theorem mod_tap_is_modifier_or_key:
  assumes "kbd_ok s" "plain_key env code" "nkro_active env s \<or> card (insert code (down env s)) \<le> 6" "tap > 0"
  shows "let held = mods_tap_action env 0 True mods code s; tapped = mods_tap_action env tap True mods code s in
    real_mods held = real_mods s OR mods \<and> down env held = down env s \<and>
    real_mods (mods_tap_action env 0 False mods code held) = real_mods s AND NOT mods \<and>
    real_mods tapped = real_mods s \<and> down env tapped = insert code (down env s) \<and>
    down env (mods_tap_action env tap False mods code tapped) = down env s - {code}"
proof -
  have code: "code \<noteq> 0" "code \<noteq> 1" using assms(2) by (auto simp: plain_key_def IS_BASIC_KEYCODE_def word_le_nat_alt)
  have "(real_mods s OR mods) AND NOT mods = real_mods s AND NOT mods"
    by (rule bit_word_eqI) (auto simp: bit_simps)
  then show ?thesis using code assms(4)
    by (auto simp: mods_tap_action_def Let_def register_mods_effect register_code_keeps_mods [OF assms(2)]
        down_register [OF assms(1-3)] tap_release_def down_unregister [OF _ assms(2)] kbd_ok_intros assms(1) send_simps)
qed

theorem mod_tap_is_modifier_or_key_witness:
  "real_mods (mods_tap_action plain_env 0 False 2 4 (mods_tap_action plain_env 0 True 2 4 (kbd_start 0 fresh_layers))) = 0"
proof -
  have "down plain_env (kbd_start 0 fresh_layers) = {}"
    by (simp add: down_def kbd_start_def empty_reports_ok)
  then show ?thesis
    using mod_tap_is_modifier_or_key [OF kbd_start_ok, of plain_env 4 0 fresh_layers 1 2]
    by (simp add: plain_key_def IS_BASIC_KEYCODE_def plain_env_def Let_def) (simp add: kbd_start_def)
qed

end
