(* ===== verification/Action_Oneshot.thy ===== *)
theory Action_Oneshot
  imports Action_Props
begin

unbundle bit_operations_syntax

text \<open>
  Momentary layers, one-shot modifiers and one-shot layers: what their actions do to the layers, and what
  happens to the layers when a one-shot layer ends or one-shot keys are switched off.
\<close>

section \<open>Momentary layers\<close>

lemma momentary_kind:
  "layer < 32 \<Longrightarrow> let a = ACTION_LAYER_MOMENTARY (of_nat layer) in
    (kind_id a = ACT_LAYER_TAP \<or> kind_id a = ACT_LAYER_TAP_EXT) \<and> unat (layer_tap_val a) = layer \<and>
    layer_tap_code a = OP_ON_OFF"
  by (drule layer_keycode) (elim disjE; simp add: action_defs field_defs act_defs op_defs)

lemma layer_kinds:
  "kind = ACT_LAYER_TAP \<or> kind = ACT_LAYER_TAP_EXT \<Longrightarrow>
    kind \<noteq> 0 \<and> kind \<noteq> 1 \<and> kind \<noteq> 2 \<and> kind \<noteq> 3 \<and> kind \<noteq> ACT_USAGE \<and> kind \<noteq> ACT_MOUSEKEY \<and>
    kind \<noteq> ACT_LAYER \<and> kind \<noteq> ACT_LAYER_MODS"
  by (auto simp: act_defs)

lemma action_kind_momentary:
  assumes "layer < 32"
  shows "action_kind env r (ACTION_LAYER_MOMENTARY (of_nat layer)) s =
    on_layers (if ev_pressed r then layer_on layer else layer_off layer) s"
  using momentary_kind [OF assms] layer_kinds [of "kind_id (ACTION_LAYER_MOMENTARY (of_nat layer))"]
  by (auto simp: action_kind_def layer_tap_action_def Let_def op_defs)

text \<open>A \<open>MO\<close> key turns its layer on when pressed and off when released, and touches no other layer, no
  modifier, no key and nothing the host sees.\<close>

lemma momentary_layer_while_held:
  assumes "layer < 32"
  shows "let a = action_for_keycode k (MO (of_nat layer)) in
    action_kind env (r\<lparr>ev_pressed := True\<rparr>) a s =
      s\<lparr>layers := (layers s)\<lparr>layer_state := layer_state (layers s) OR layer_mask layer\<rparr>\<rparr> \<and>
    action_kind env (r\<lparr>ev_pressed := False\<rparr>) a s =
      s\<lparr>layers := (layers s)\<lparr>layer_state := layer_state (layers s) AND NOT (layer_mask layer)\<rparr>\<rparr>"
  by (simp add: layer_keycode_action(2) [OF assms] action_kind_momentary [OF assms] on_layers_def layer_on_def layer_off_def layer_state_set_def)

lemma momentary_layer_while_held_witness:
  "bit (layer_state (layers (action_kind plain_env (key_record 1 True) (action_for_keycode 0 (MO 5))
    (kbd_start 0 fresh_layers)))) 5"
  using momentary_layer_while_held [of 5 0 plain_env "key_record 1 True" "kbd_start 0 fresh_layers"]
  by (simp add: Let_def key_record_def kbd_start_def fresh_layers_def bit_layer_mask bit_or_iff)

section \<open>One-shot modifiers\<close>

definition last_mods :: "'e kbd_env_scheme \<Rightarrow> ('l::len, 'z) kb \<Rightarrow> u8" where
  "last_mods env s = (if nkro_active env s then nkro_mods (last_nkro s) else kb_mods (last_six_keys s))"


lemma six_slots: "replicate KEYBOARD_REPORT_KEYS x = [x, x, x, x, x, x]"
  by (simp add: KEYBOARD_REPORT_KEYS_def numeral_eq_Suc)


section \<open>One-shot layers\<close>

named_theorems layer_data_simps \<open>operations that leave the one-shot layer alone\<close>

lemma layer_data_basic [layer_data_simps]:
  "oneshot_layer_data (send_keyboard_report env s) = oneshot_layer_data s"
  "oneshot_layer_data (add_key env k s) = oneshot_layer_data s" "oneshot_layer_data (del_key env k s) = oneshot_layer_data s"
  "oneshot_layer_data (add_mods m s) = oneshot_layer_data s" "oneshot_layer_data (del_mods m s) = oneshot_layer_data s"
  "oneshot_layer_data (add_weak_mods m s) = oneshot_layer_data s"
  "oneshot_layer_data (del_weak_mods m s) = oneshot_layer_data s"
  "oneshot_layer_data (emit x s) = oneshot_layer_data s" "oneshot_layer_data (wait_ms d s) = oneshot_layer_data s"
  "oneshot_layer_data (register_mouse c p s) = oneshot_layer_data s"
  "oneshot_layer_data (add_oneshot_mods env m s) = oneshot_layer_data s"
  "oneshot_layer_data (del_oneshot_mods env m s) = oneshot_layer_data s"
  "oneshot_layer_data (add_oneshot_locked_mods m s) = oneshot_layer_data s"
  "oneshot_layer_data (del_oneshot_locked_mods m s) = oneshot_layer_data s"
  by (simp_all add: send_simps add_key_def del_key_def add_mods_def del_mods_def add_weak_mods_def del_weak_mods_def
      emit_def wait_ms_def register_mouse_def add_oneshot_mods_def del_oneshot_mods_def add_oneshot_locked_mods_def
      del_oneshot_locked_mods_def Let_def)

lemma layer_data_codes [layer_data_simps]:
  "oneshot_layer_data (tap_locking_key env k d s) = oneshot_layer_data s"
  "oneshot_layer_data (register_code env c s) = oneshot_layer_data s"
  "oneshot_layer_data (unregister_code env c s) = oneshot_layer_data s"
  "oneshot_layer_data (register_mods env m s) = oneshot_layer_data s"
  "oneshot_layer_data (unregister_mods env m s) = oneshot_layer_data s"
proof -
  show lock: "oneshot_layer_data (tap_locking_key env k d s) = oneshot_layer_data s" for k d and s :: "('a, 'b) kb"
    by (cases d) (simp_all add: tap_locking_key_def layer_data_simps Let_def)
  show "oneshot_layer_data (register_code env c s) = oneshot_layer_data s"
    "oneshot_layer_data (unregister_code env c s) = oneshot_layer_data s"
    "oneshot_layer_data (register_mods env m s) = oneshot_layer_data s"
    "oneshot_layer_data (unregister_mods env m s) = oneshot_layer_data s"
    by (simp_all add: register_code_def unregister_code_def register_mods_def unregister_mods_def lock
        layer_data_simps Let_def)
qed

lemma layer_data_taps [layer_data_simps]:
  "oneshot_layer_data (mods_key_press env m c s) = oneshot_layer_data s"
  "oneshot_layer_data (mods_key_release env m c s) = oneshot_layer_data s"
  "oneshot_layer_data (tap_release env c s) = oneshot_layer_data s"
  "oneshot_layer_data (tap_code env c s) = oneshot_layer_data s"
  by (simp_all add: mods_key_press_def mods_key_release_def tap_release_def tap_code_def tap_code_delay_def
      layer_data_simps Let_def)

lemma layer_data_mods_tap [layer_data_simps]:
  "oneshot_layer_data (mods_tap_action env tap p m c s) = oneshot_layer_data s"
  by (simp add: mods_tap_action_def oneshot_mods_action_def layer_data_simps)

lemma layer_data_retro [layer_data_simps]:
  "oneshot_layer_data (retro_tapping env r a s) = oneshot_layer_data s"
  by (simp add: retro_tapping_def layer_data_simps Let_def)

lemma layer_data_action_kind:
  "kind_id a \<notin> {ACT_LAYER, ACT_LAYER_MODS, ACT_LAYER_TAP, ACT_LAYER_TAP_EXT} \<Longrightarrow>
    oneshot_layer_data (action_kind env r a s) = oneshot_layer_data s"
  by (simp add: action_kind_def layer_data_simps Let_def)

lemma oneshot_layer_ends_data:
  "oneshot_layer_ends r a s = (True, s1) \<Longrightarrow> is_oneshot_layer_active s \<and> oneshot_layer_data s1 = 0"
  by (auto simp: oneshot_layer_ends_def is_oneshot_layer_active_def clear_oneshot_layer_state_def Let_def
      reset_oneshot_layer_def on_layers_def get_oneshot_layer_state_def split: if_splits)

text \<open>When a press ends a one-shot layer the layer data are reset before they are read: the layer that is
  switched on for the release of the key and off again afterwards is always layer 0, not the one-shot layer.\<close>

lemma oneshot_end_forgets_its_layer:
  assumes "process_action_body env r a s = (True, s')"
  shows "is_oneshot_layer_active s \<and> get_oneshot_layer s' = 0"
proof -
  obtain ends s1 where e: "oneshot_layer_ends r a s = (ends, s1)" by fastforce
  have kind: "kind_id a \<notin> {ACT_LAYER, ACT_LAYER_MODS, ACT_LAYER_TAP, ACT_LAYER_TAP_EXT}" "ends"
    and s': "s' = retro_tapping env r a (action_kind env r a s1)"
    using assms by (auto simp: process_action_body_def e Let_def split: if_splits)
  have "oneshot_layer_data s' = 0"
    using oneshot_layer_ends_data [of r a s s1] e kind by (simp add: s' layer_data_simps layer_data_action_kind)
  then show ?thesis using oneshot_layer_ends_data [of r a s s1] e kind by (simp add: get_oneshot_layer_def)
qed

definition waiting_layer :: "u8 act" where
  "waiting_layer = (kbd_start 0x400 fresh_layers)\<lparr>oneshot_layer_data := 10\<rparr>"

lemma waiting_layer_state:
  "get_oneshot_layer_state waiting_layer = ONESHOT_OTHER_KEY_PRESSED" "oneshot_enable (keymap_config waiting_layer)"
  "get_oneshot_layer waiting_layer = 1"
  by (simp_all add: waiting_layer_def kbd_start_def get_oneshot_layer_state_def get_oneshot_layer_def oneshot_defs
      oneshot_enable_def)

lemma oneshot_end_forgets_its_layer_witness:
  "get_oneshot_layer (snd (process_action_body plain_env (key_record 0 True) (ACTION_KEY 4) waiting_layer)) = 0"
proof -
  have kind: "kind_id (ACTION_KEY 4) = 0" "key_code (ACTION_KEY 4) = 4"
    by (simp_all add: field_defs action_defs act_defs)
  have "oneshot_layer_ends (key_record 0 True) (ACTION_KEY 4) waiting_layer =
      (True, reset_oneshot_layer (on_layers (layer_off 1) (waiting_layer\<lparr>oneshot_layer_data := 8\<rparr>)))"
    by (simp add: oneshot_layer_ends_def kind IS_MODIFIER_KEYCODE_def key_record_def is_oneshot_layer_active_def
        waiting_layer_state oneshot_defs clear_oneshot_layer_state_def waiting_layer_def kbd_start_def
        get_oneshot_layer_state_def get_oneshot_layer_def oneshot_enable_def reset_oneshot_layer_def on_layers_def Let_def)
  then have "fst (process_action_body plain_env (key_record 0 True) (ACTION_KEY 4) waiting_layer)"
    by (simp add: process_action_body_def Let_def kind act_defs get_oneshot_layer_state_def layer_data_simps
        layer_data_action_kind reset_oneshot_layer_def)
  then show ?thesis
    using oneshot_end_forgets_its_layer [of plain_env "key_record 0 True" "ACTION_KEY 4" waiting_layer]
    by (cases "process_action_body plain_env (key_record 0 True) (ACTION_KEY 4) waiting_layer") simp
qed

text \<open>Switching one-shot keys off while a one-shot layer waits for its key ends the one-shot state but leaves
  the layer on: nothing switches it off afterwards.\<close>

lemma oneshot_off_leaves_layer_on:
  assumes "get_oneshot_layer_state s = ONESHOT_OTHER_KEY_PRESSED" "oneshot_enable (keymap_config s)"
  shows "\<not> is_oneshot_layer_active (oneshot_disable s) \<and> layers (oneshot_disable s) = layers s"
proof -
  have off: "\<not> oneshot_enable (unset_bit 10 (keymap_config s))"
    by (simp add: oneshot_enable_def bit_unset_bit_iff)
  have "(oneshot_layer_data s AND NOT ONESHOT_OTHER_KEY_PRESSED) AND 7 = (oneshot_layer_data s AND 7) AND NOT ONESHOT_OTHER_KEY_PRESSED"
    by (simp add: ac_simps)
  also have "\<dots> = 0" using assms(1) by (simp add: get_oneshot_layer_state_def oneshot_defs)
  finally show ?thesis using assms(2) off
    by (simp add: oneshot_disable_def oneshot_set_def clear_oneshot_layer_state_def is_oneshot_layer_active_def
        get_oneshot_layer_state_def Let_def)
qed

lemma oneshot_off_leaves_layer_on_witness:
  "\<not> is_oneshot_layer_active (oneshot_disable waiting_layer) \<and>
    layers (oneshot_disable waiting_layer) = layers waiting_layer"
  by (rule oneshot_off_leaves_layer_on [OF waiting_layer_state(1,2)])

end
