(* ===== verification/Tap_Dance.thy ===== *)
theory Tap_Dance
  imports Action_Ok
begin

unbundle bit_operations_syntax

text \<open>
  Tap dances: the state machine of \<open>process_tap_dance.c\<close> with the callbacks of \<open>quantum/vial.c\<close>, which play
  the five keycodes of a tap-dance entry. The entries are those \<open>dynamic_keymap_get_tap_dance\<close> reads
  (\<open>None\<close> for an index it rejects). A keycode above \<open>QK_MODS_MAX\<close> is played by \<open>action_exec\<close> at the magic
  position, which is the argument \<open>exec\<close>. \<open>vial_calls\<close> is the trace of the calls of \<open>vial_keycode_down\<close> and
  \<open>vial_keycode_up\<close>.
\<close>

section \<open>State\<close>

record tap_dance_state_t =
  interrupting_keycode :: u16
  td_taps :: u8
  td_weak_mods :: u8
  td_oneshot_mods :: u8
  td_pressed :: bool
  td_finished :: bool
  td_interrupted :: bool

definition td_zero :: tap_dance_state_t where
  "td_zero = \<lparr>interrupting_keycode = 0, td_taps = 0, td_weak_mods = 0, td_oneshot_mods = 0, td_pressed = False,
    td_finished = False, td_interrupted = False\<rparr>"

datatype vial_call = Down u16 | Up u16

record 'w tds = "'w act" +
  tap_dance_actions :: "tap_dance_state_t list"
  dance_state :: "u8 list"
  active_td :: u16
  last_tap_time :: u16
  magic_override :: u16
  vial_calls :: "vial_call list"

type_synonym ('l, 'z) ts = "('l word, 'z) tds_scheme"

record td_env = act_env +
  td_entries :: nat
  td_entry_at :: "nat \<Rightarrow> vial_tap_dance_entry_t option"
  tapping_term_of :: "u16 \<Rightarrow> u16"

type_synonym ('l, 'z) exec = "bool \<Rightarrow> ('l, 'z) ts \<Rightarrow> ('l, 'z) ts"

section \<open>Playing keycodes\<close>

definition vial_keycode_down :: "'e td_env_scheme \<Rightarrow> ('l::len, 'z) exec \<Rightarrow> u16 \<Rightarrow> ('l, 'z) ts \<Rightarrow> ('l, 'z) ts" where
  "vial_keycode_down env exec keycode s =
    (let s1 = s\<lparr>magic_override := keycode, vial_calls := vial_calls s @ [Down keycode]\<rparr>
     in if keycode \<le> QK_MODS_MAX then register_code16 env keycode s1 else exec True s1)"

definition vial_keycode_up :: "'e td_env_scheme \<Rightarrow> ('l::len, 'z) exec \<Rightarrow> u16 \<Rightarrow> ('l, 'z) ts \<Rightarrow> ('l, 'z) ts" where
  "vial_keycode_up env exec keycode s =
    (let s1 = s\<lparr>magic_override := keycode, vial_calls := vial_calls s @ [Up keycode]\<rparr>
     in if keycode \<le> QK_MODS_MAX then unregister_code16 env keycode s1 else exec False s1)"

definition vial_keycode_tap :: "'e td_env_scheme \<Rightarrow> ('l::len, 'z) exec \<Rightarrow> u16 \<Rightarrow> ('l, 'z) ts \<Rightarrow> ('l, 'z) ts" where
  "vial_keycode_tap env exec keycode s =
    vial_keycode_up env exec keycode (wait_ms (QS_tap_code_delay env) (vial_keycode_down env exec keycode s))"

section \<open>The callbacks of Vial\<close>

definition SINGLE_TAP :: u8 where "SINGLE_TAP = 1"
definition SINGLE_HOLD :: u8 where "SINGLE_HOLD = 2"
definition DOUBLE_TAP :: u8 where "DOUBLE_TAP = 3"
definition DOUBLE_HOLD :: u8 where "DOUBLE_HOLD = 4"
definition DOUBLE_SINGLE_TAP :: u8 where "DOUBLE_SINGLE_TAP = 5"
definition MORE_TAPS :: u8 where "MORE_TAPS = 6"

lemmas dance_defs = SINGLE_TAP_def SINGLE_HOLD_def DOUBLE_TAP_def DOUBLE_HOLD_def DOUBLE_SINGLE_TAP_def MORE_TAPS_def

definition dance_step :: "tap_dance_state_t \<Rightarrow> u8" where
  "dance_step st =
    (if td_taps st = 1 then (if td_interrupted st \<or> \<not> td_pressed st then SINGLE_TAP else SINGLE_HOLD)
     else if td_taps st = 2
     then (if td_interrupted st then DOUBLE_SINGLE_TAP else if td_pressed st then DOUBLE_HOLD else DOUBLE_TAP)
     else MORE_TAPS)"

definition on_dance :: "'e td_env_scheme \<Rightarrow> ('l::len, 'z) exec \<Rightarrow> nat \<Rightarrow> ('l, 'z) ts \<Rightarrow> ('l, 'z) ts" where
  "on_dance env exec index s =
    (case td_entry_at env index of None \<Rightarrow> s
     | Some td \<Rightarrow>
       let kc = on_tap td; n = td_taps (tap_dance_actions s ! index); tap = vial_keycode_tap env exec kc
       in if kc \<noteq> 0 then (if n = 3 then tap (tap (tap s)) else if n > 3 then tap s else s) else s)"

definition on_dance_finished :: "'e td_env_scheme \<Rightarrow> ('l::len, 'z) exec \<Rightarrow> nat \<Rightarrow> ('l, 'z) ts \<Rightarrow> ('l, 'z) ts" where
  "on_dance_finished env exec index s =
    (case td_entry_at env index of None \<Rightarrow> s
     | Some td \<Rightarrow>
       let st = dance_step (tap_dance_actions s ! index);
           s1 = s\<lparr>dance_state := (dance_state s)[index := st]\<rparr>;
           down = vial_keycode_down env exec; tap = vial_keycode_tap env exec
       in if st = SINGLE_TAP then (if on_tap td \<noteq> 0 then down (on_tap td) s1 else s1)
          else if st = SINGLE_HOLD
          then (if on_hold td \<noteq> 0 then down (on_hold td) s1 else if on_tap td \<noteq> 0 then down (on_tap td) s1 else s1)
          else if st = DOUBLE_TAP
          then (if on_double_tap td \<noteq> 0 then down (on_double_tap td) s1
                else if on_tap td \<noteq> 0 then down (on_tap td) (tap (on_tap td) s1) else s1)
          else if st = DOUBLE_HOLD
          then (if on_tap_hold td \<noteq> 0 then down (on_tap_hold td) s1
                else if on_tap td \<noteq> 0
                then (if on_hold td \<noteq> 0 then down (on_hold td) (tap (on_tap td) s1)
                      else down (on_tap td) (tap (on_tap td) s1))
                else if on_hold td \<noteq> 0 then down (on_hold td) s1 else s1)
          else if st = DOUBLE_SINGLE_TAP
          then (if on_tap td \<noteq> 0 then down (on_tap td) (tap (on_tap td) s1) else s1)
          else s1)"

definition on_dance_reset :: "'e td_env_scheme \<Rightarrow> ('l::len, 'z) exec \<Rightarrow> nat \<Rightarrow> ('l, 'z) ts \<Rightarrow> ('l, 'z) ts" where
  "on_dance_reset env exec index s =
    (case td_entry_at env index of None \<Rightarrow> s
     | Some td \<Rightarrow>
       let s0 = wait_ms (QS_tap_code_delay env) s; st = dance_state s0 ! index;
           s1 = s0\<lparr>tap_dance_actions := (tap_dance_actions s0)[index := (tap_dance_actions s0 ! index)\<lparr>td_taps := 0\<rparr>],
                  dance_state := (dance_state s0)[index := 0]\<rparr>;
           up = vial_keycode_up env exec
       in if st = SINGLE_TAP then (if on_tap td \<noteq> 0 then up (on_tap td) s1 else s1)
          else if st = SINGLE_HOLD
          then (if on_hold td \<noteq> 0 then up (on_hold td) s1 else if on_tap td \<noteq> 0 then up (on_tap td) s1 else s1)
          else if st = DOUBLE_TAP
          then (if on_double_tap td \<noteq> 0 then up (on_double_tap td) s1
                else if on_tap td \<noteq> 0 then up (on_tap td) s1 else s1)
          else if st = DOUBLE_HOLD
          then (if on_tap_hold td \<noteq> 0 then up (on_tap_hold td) s1
                else if on_tap td \<noteq> 0
                then (if on_hold td \<noteq> 0 then up (on_hold td) s1 else up (on_tap td) s1)
                else if on_hold td \<noteq> 0 then up (on_hold td) s1 else s1)
          else if st = DOUBLE_SINGLE_TAP then (if on_tap td \<noteq> 0 then up (on_tap td) s1 else s1)
          else s1)"

section \<open>The state machine\<close>

definition set_td :: "nat \<Rightarrow> (tap_dance_state_t \<Rightarrow> tap_dance_state_t) \<Rightarrow> ('l::len, 'z) ts \<Rightarrow> ('l, 'z) ts" where
  "set_td index f s = s\<lparr>tap_dance_actions := (tap_dance_actions s)[index := f (tap_dance_actions s ! index)]\<rparr>"

definition td_on_each_tap :: "'e td_env_scheme \<Rightarrow> ('l::len, 'z) exec \<Rightarrow> nat \<Rightarrow> ('l, 'z) ts \<Rightarrow> ('l, 'z) ts" where
  "td_on_each_tap env exec index s =
    on_dance env exec index
      (set_td index (\<lambda>st. st\<lparr>td_taps := td_taps st + 1, td_weak_mods := real_mods s OR weak_mods s,
        td_oneshot_mods := oneshot_mods s\<rparr>) s)"

definition td_on_reset :: "'e td_env_scheme \<Rightarrow> ('l::len, 'z) exec \<Rightarrow> nat \<Rightarrow> ('l, 'z) ts \<Rightarrow> ('l, 'z) ts" where
  "td_on_reset env exec index s =
    (let s1 = on_dance_reset env exec index s; st = tap_dance_actions s1 ! index
     in set_td index (\<lambda>_. td_zero)
          (send_keyboard_report env (del_mods (td_oneshot_mods st) (del_weak_mods (td_weak_mods st) s1))))"

definition td_on_dance_finished :: "'e td_env_scheme \<Rightarrow> ('l::len, 'z) exec \<Rightarrow> nat \<Rightarrow> ('l, 'z) ts \<Rightarrow> ('l, 'z) ts" where
  "td_on_dance_finished env exec index s =
    (let st = tap_dance_actions s ! index;
         s1 = (if \<not> td_finished st
           then on_dance_finished env exec index (send_keyboard_report env (add_mods (td_oneshot_mods st)
                  (add_weak_mods (td_weak_mods st) (set_td index (\<lambda>st. st\<lparr>td_finished := True\<rparr>) s))))
           else s);
         s2 = s1\<lparr>active_td := 0\<rparr>
     in if \<not> td_pressed (tap_dance_actions s2 ! index) then td_on_reset env exec index s2 else s2)"

definition td_index :: "u16 \<Rightarrow> nat" where
  "td_index kc = unat (kc AND 0xFF)"

definition preprocess_tap_dance :: "'e td_env_scheme \<Rightarrow> ('l::len, 'z) exec \<Rightarrow> u16 \<Rightarrow> bool \<Rightarrow> ('l, 'z) ts \<Rightarrow> bool \<times> ('l, 'z) ts" where
  "preprocess_tap_dance env exec keycode pressed s =
    (if \<not> pressed then (False, s)
     else if active_td s = 0 \<or> keycode = active_td s then (False, s)
     else let i = td_index (active_td s);
              s1 = set_td i (\<lambda>st. st\<lparr>td_interrupted := True, interrupting_keycode := keycode\<rparr>) s
          in (True, clear_weak_mods (td_on_dance_finished env exec i s1)))"

definition process_tap_dance :: "'e td_env_scheme \<Rightarrow> ('l::len, 'z) exec \<Rightarrow> u16 \<Rightarrow> bool \<Rightarrow> ('l, 'z) ts \<Rightarrow> bool \<times> ('l, 'z) ts" where
  "process_tap_dance env exec keycode pressed s =
    (if QK_TAP_DANCE \<le> keycode \<and> keycode \<le> QK_TAP_DANCE_MAX
     then let i = td_index keycode
       in if i \<ge> td_entries env then (False, s)
          else let s1 = set_td i (\<lambda>st. st\<lparr>td_pressed := pressed\<rparr>) s
            in if pressed
               then let s2 = td_on_each_tap env exec i (s1\<lparr>last_tap_time := timer_read env\<rparr>)
                 in (True, s2\<lparr>active_td := (if td_finished (tap_dance_actions s2 ! i) then 0 else keycode)\<rparr>)
               else if td_finished (tap_dance_actions s1 ! i)
               then let s2 = td_on_reset env exec i s1
                 in (True, if active_td s2 = keycode then s2\<lparr>active_td := 0\<rparr> else s2)
               else (True, s1)
     else (True, s))"

definition tap_dance_task :: "'e td_env_scheme \<Rightarrow> ('l::len, 'z) exec \<Rightarrow> ('l, 'z) ts \<Rightarrow> ('l, 'z) ts" where
  "tap_dance_task env exec s =
    (if active_td s = 0 \<or> timer_read env - last_tap_time s \<le> tapping_term_of env (active_td s) then s
     else let i = td_index (active_td s)
          in if \<not> td_interrupted (tap_dance_actions s ! i) then td_on_dance_finished env exec i s else s)"

definition reset_tap_dance :: "'e td_env_scheme \<Rightarrow> ('l::len, 'z) exec \<Rightarrow> nat \<Rightarrow> ('l, 'z) ts \<Rightarrow> ('l, 'z) ts" where
  "reset_tap_dance env exec i s = td_on_reset env exec i (s\<lparr>active_td := 0\<rparr>)"

text \<open>The early processing of releases by Vial.\<close>

definition process_record_vial :: "'e td_env_scheme \<Rightarrow> ('l::len, 'z) exec \<Rightarrow> u16 \<Rightarrow> bool \<Rightarrow> ('l, 'z) ts \<Rightarrow> ('l, 'z) ts" where
  "process_record_vial env exec keycode pressed s =
    (if \<not> pressed \<and> QK_TAP_DANCE \<le> keycode \<and> keycode \<le> QK_TAP_DANCE_MAX
     then let idx = unat (keycode - QK_TAP_DANCE)
       in case td_entry_at env idx of None \<Rightarrow> s
          | Some td \<Rightarrow>
            let n = td_taps (tap_dance_actions s ! idx)
            in if n = 1 \<and> on_tap td \<noteq> 0 \<and> on_hold td \<noteq> 0 \<and> on_double_tap td = 0 \<and> on_tap_hold td = 0 \<or>
                  n = 2 \<and> on_double_tap td \<noteq> 0
               then td_on_dance_finished env exec idx (set_td idx (\<lambda>st. st\<lparr>td_pressed := False\<rparr>) s)
               else s
     else s)"

end
