(* ===== verification/Action_More.thy ===== *)
theory Action_More
  imports Action_Ok
begin

unbundle bit_operations_syntax

text \<open>
  What the operations of the keyboard leave alone: the extension of the state record, in which other components
  keep their variables, and the record that \<open>process_record\<close> gets.
\<close>

section \<open>Keyboard operations leave the extension alone\<close>

named_theorems more_simps \<open>operations on the keyboard part of a state\<close>

lemma more_basic [more_simps]:
  "kbd.more (add_key env k s) = kbd.more s" "kbd.more (del_key env k s) = kbd.more s"
  "kbd.more (add_mods m s) = kbd.more s" "kbd.more (del_mods m s) = kbd.more s"
  "kbd.more (add_weak_mods m s) = kbd.more s" "kbd.more (del_weak_mods m s) = kbd.more s"
  "kbd.more (clear_weak_mods s) = kbd.more s" "kbd.more (clear_oneshot_mods s) = kbd.more s"
  "kbd.more (emit x s) = kbd.more s" "kbd.more (wait_ms d s) = kbd.more s" "kbd.more (register_mouse c p s) = kbd.more s"
  by (simp_all add: add_key_def del_key_def add_mods_def del_mods_def add_weak_mods_def del_weak_mods_def
      clear_weak_mods_def clear_oneshot_mods_def emit_def wait_ms_def register_mouse_def)

lemma more_get_mods [more_simps]: "kbd.more (snd (get_mods_for_report env s)) = kbd.more s"
  by (simp add: get_mods_for_report_def Let_def more_simps)

lemma more_send [more_simps]: "kbd.more (send_keyboard_report env s) = kbd.more s"
  using more_get_mods [of env s]
  by (auto simp: send_keyboard_report_def send_6kro_report_def send_nkro_report_def Let_def split: prod.split)

lemma more_locking [more_simps]: "kbd.more (tap_locking_key env k d s) = kbd.more s"
  by (cases d) (simp_all add: tap_locking_key_def Let_def more_simps)

lemma more_codes [more_simps]:
  "kbd.more (register_code env c s) = kbd.more s" "kbd.more (unregister_code env c s) = kbd.more s"
  "kbd.more (register_mods env m s) = kbd.more s" "kbd.more (unregister_mods env m s) = kbd.more s"
  "kbd.more (register_weak_mods env m s) = kbd.more s" "kbd.more (unregister_weak_mods env m s) = kbd.more s"
  by (simp_all add: register_code_def unregister_code_def register_mods_def unregister_mods_def
      register_weak_mods_def unregister_weak_mods_def Let_def more_simps)

lemma more_code16 [more_simps]:
  "kbd.more (register_code16 env c s) = kbd.more s" "kbd.more (unregister_code16 env c s) = kbd.more s"
  by (simp_all add: register_code16_def unregister_code16_def Let_def more_simps)

lemma more_tap_code [more_simps]: "kbd.more (tap_code env c s) = kbd.more s"
  by (simp add: tap_code_def tap_code_delay_def more_simps)

lemma more_oneshot [more_simps]:
  "kbd.more (add_oneshot_mods env m s) = kbd.more s" "kbd.more (del_oneshot_mods env m s) = kbd.more s"
  "kbd.more (add_oneshot_locked_mods m s) = kbd.more s" "kbd.more (del_oneshot_locked_mods m s) = kbd.more s"
  "kbd.more (set_oneshot_layer env v st s) = kbd.more s" "kbd.more (reset_oneshot_layer s) = kbd.more s"
  "kbd.more (clear_oneshot_layer_state st s) = kbd.more s" "kbd.more (on_layers f s) = kbd.more s"
  "kbd.more (clear_keys env s) = kbd.more s" "kbd.more (clear_mods s) = kbd.more s"
  by (simp_all add: add_oneshot_mods_def del_oneshot_mods_def add_oneshot_locked_mods_def clear_keys_def clear_mods_def
      del_oneshot_locked_mods_def set_oneshot_layer_def reset_oneshot_layer_def clear_oneshot_layer_state_def
      on_layers_def Let_def)

lemma more_clear [more_simps]: "kbd.more (clear_keyboard env s) = kbd.more s"
  by (simp add: clear_keyboard_def clear_keyboard_but_mods_def clear_keyboard_but_mods_and_keys_def more_simps)

lemma more_mods_key [more_simps]:
  "kbd.more (mods_key_press env m c s) = kbd.more s" "kbd.more (mods_key_release env m c s) = kbd.more s"
  by (simp_all add: mods_key_press_def mods_key_release_def Let_def more_simps)

lemma more_mods_tap [more_simps]: "kbd.more (mods_tap_action env tap p m c s) = kbd.more s"
  by (simp add: mods_tap_action_def oneshot_mods_action_def tap_release_def more_simps)

lemma more_layer_tap [more_simps]: "kbd.more (layer_tap_action env tap p a s) = kbd.more s"
  by (simp add: layer_tap_action_def oneshot_layer_action_def tap_release_def Let_def more_simps)

lemma more_action_kind [more_simps]: "kbd.more (action_kind env r a s) = kbd.more s"
  by (simp add: action_kind_def Let_def more_simps)

lemma more_oneshot_ends [more_simps]: "kbd.more (snd (oneshot_layer_ends r a s)) = kbd.more s"
  by (simp add: oneshot_layer_ends_def Let_def more_simps)

section \<open>The extension of the action state\<close>

lemma act_more_of_kbd: "kbd.more s' = kbd.more s \<Longrightarrow> act.more s' = act.more s"
  by (cases s; cases s') simp

lemmas act_more_simps = more_simps [THEN act_more_of_kbd]

lemma act_more_retro: "act.more (retro_tapping env r a s) = act.more s"
  by (simp add: retro_tapping_def Let_def act_more_simps)

lemma act_more_body: "act.more (snd (process_action_body env r a s)) = act.more s"
proof -
  obtain release s1 where e: "oneshot_layer_ends r a s = (release, s1)" by fastforce
  have "act.more s1 = act.more s"
    using act_more_of_kbd [OF more_oneshot_ends, of r a s] by (simp add: e)
  then show ?thesis by (simp add: process_action_body_def e Let_def act_more_retro act_more_simps)
qed

lemma act_more_record_action: "act.more (snd (record_action env r s)) = act.more s"
  by (simp add: record_action_def split: prod.split)

text \<open>A feature pipeline that leaves the record and the extension alone.\<close>

definition hook_keeps :: "('l::len, 'z) hook \<Rightarrow> bool" where
  "hook_keeps quantum \<longleftrightarrow> (\<forall>r s. fst (snd (quantum r s)) = r \<and> act.more (snd (snd (quantum r s))) = act.more s)"

lemma process_record_keeps:
  assumes "hook_keeps quantum" "\<forall>r s. act.more (post r s) = act.more s"
  shows "process_record n env quantum post r s = Some (r', s') \<Longrightarrow>
    (r' = r \<or> r' = r\<lparr>ev_pressed := False\<rparr>) \<and> act.more s' = act.more s"
proof (induction n arbitrary: r s r' s')
  case (Suc n)
  show ?case
  proof (cases "IS_NOEVENT r")
    case False
    obtain go r1 s1 where q: "quantum r s = (go, r1, s1)" by (metis prod_cases3)
    have s1: "r1 = r" "act.more s1 = act.more s" using assms(1) q unfolding hook_keeps_def by (metis fst_conv snd_conv)+
    obtain a s2 where a: "record_action env r s1 = (a, s2)" by fastforce
    obtain release s3 where b: "process_action_body env r a s2 = (release, s3)" by fastforce
    have s3: "act.more s3 = act.more s"
      using act_more_record_action [of env r s1] act_more_body [of env r a s2] s1(2) by (simp add: a b)
    show ?thesis using Suc.prems False s1 s3 assms(2)
      by (auto simp: q a b Let_def act_more_simps split: if_splits bool.splits dest!: Suc.IH)
  qed (use Suc.prems in simp)
qed simp

end
