(* ===== verification/Tap_Dance_Ok.thy ===== *)
theory Tap_Dance_Ok
  imports Tap_Dance Action_More
begin

unbundle bit_operations_syntax

text \<open>
  Tap dances release what they press: in every run of key events and ticks the keycodes that were sent down
  and not yet up are those of the dances that are finished and not yet reset. The keyboard operations leave
  the variables of the tap dances alone (\<open>Action_More\<close>).
\<close>

section \<open>The state of the dances\<close>

text \<open>The part of the state the dances are about.\<close>

definition dances :: "('l::len, 'z) ts \<Rightarrow> tap_dance_state_t list \<times> u8 list \<times> vial_call list" where
  "dances s = (tap_dance_actions s, dance_state s, vial_calls s)"

lemma dances_of_more: "kbd.more s' = kbd.more s \<Longrightarrow> dances s' = dances s"
  by (cases s; cases s') (simp add: dances_def)

lemma dances_update [simp]:
  "dances (s\<lparr>tap_dance_actions := a\<rparr>) = (a, dance_state s, vial_calls s)"
  "dances (s\<lparr>dance_state := d\<rparr>) = (tap_dance_actions s, d, vial_calls s)"
  "dances (s\<lparr>active_td := k\<rparr>) = dances s" "dances (s\<lparr>last_tap_time := t\<rparr>) = dances s"
  by (simp_all add: dances_def)

definition exec_neutral :: "('l::len, 'z) exec \<Rightarrow> bool" where
  "exec_neutral exec \<longleftrightarrow> (\<forall>b s. dances (exec b s) = dances s)"

section \<open>What a call of a callback adds to the trace\<close>

lemma dances_down:
  "exec_neutral exec \<Longrightarrow> dances s = (a, d, c) \<Longrightarrow> dances (vial_keycode_down env exec kc s) = (a, d, c @ [Down kc])"
  using dances_of_more [OF more_code16(1), of env kc "s\<lparr>magic_override := kc, vial_calls := vial_calls s @ [Down kc]\<rparr>"]
  by (auto simp: vial_keycode_down_def Let_def exec_neutral_def dances_def)

lemma dances_up:
  "exec_neutral exec \<Longrightarrow> dances s = (a, d, c) \<Longrightarrow> dances (vial_keycode_up env exec kc s) = (a, d, c @ [Up kc])"
  using dances_of_more [OF more_code16(2), of env kc "s\<lparr>magic_override := kc, vial_calls := vial_calls s @ [Up kc]\<rparr>"]
  by (auto simp: vial_keycode_up_def Let_def exec_neutral_def dances_def)

lemma dances_wait: "dances (wait_ms t s) = dances s"
  by (rule dances_of_more) (simp add: more_simps)

lemma dances_tap:
  "exec_neutral exec \<Longrightarrow> dances s = (a, d, c) \<Longrightarrow>
    dances (vial_keycode_tap env exec kc s) = (a, d, c @ [Down kc, Up kc])"
  unfolding vial_keycode_tap_def by (simp add: dances_up dances_down dances_wait)

text \<open>The keycodes a dance holds down in each of its states.\<close>

definition held_by :: "vial_tap_dance_entry_t option \<Rightarrow> u8 \<Rightarrow> u16 list" where
  "held_by entry st =
    (case entry of None \<Rightarrow> []
     | Some td \<Rightarrow>
       let first = (\<lambda>ks. take 1 (filter (\<lambda>k. k \<noteq> 0) ks))
       in if st = SINGLE_TAP \<or> st = DOUBLE_SINGLE_TAP then first [on_tap td]
          else if st = SINGLE_HOLD then first [on_hold td, on_tap td]
          else if st = DOUBLE_TAP then first [on_double_tap td, on_tap td]
          else if st = DOUBLE_HOLD then first [on_tap_hold td, on_hold td, on_tap td] else [])"

fun balance :: "vial_call list \<Rightarrow> u16 \<Rightarrow> int" where
  "balance [] kc = 0"
| "balance (Down k # cs) kc = of_bool (k = kc) + balance cs kc"
| "balance (Up k # cs) kc = balance cs kc - of_bool (k = kc)"

lemma balance_append [simp]: "balance (xs @ ys) kc = balance xs kc + balance ys kc"
  by (induction xs kc rule: balance.induct) auto

lemma on_dance_effect:
  assumes "exec_neutral exec" "dances s = (a, d, c)"
  shows "\<exists>c'. dances (on_dance env exec i s) = (a, d, c @ c') \<and> (\<forall>kc. balance c' kc = 0)"
proof -
  note tap = dances_tap [OF assms(1)]
  show ?thesis using assms(2)
    by (auto simp: on_dance_def Let_def tap [OF tap [OF tap]] tap split: option.split)
qed

text \<open>The three shapes of the calls of a finished dance, and the two of a reset.\<close>

definition adds :: "('l::len, 'z) ts \<Rightarrow> tap_dance_state_t list \<Rightarrow> u8 list \<Rightarrow> vial_call list \<Rightarrow> u16 list \<Rightarrow> u16 list \<Rightarrow> bool" where
  "adds s a d c downs ups \<longleftrightarrow> (\<exists>c'. dances s = (a, d, c @ c') \<and>
    (\<forall>kc. balance c' kc = int (count_list downs kc) - int (count_list ups kc)))"

lemma adds_rules:
  assumes "exec_neutral exec" "dances s = (a, d, c)"
  shows "adds s a d c [] []" "adds (vial_keycode_down env exec k s) a d c [k] []"
    "adds (vial_keycode_down env exec k (vial_keycode_tap env exec k' s)) a d c [k] []"
    "adds (vial_keycode_up env exec k s) a d c [] [k]"
proof -
  note down = dances_down [OF assms] and up = dances_up [OF assms] and both = dances_down [OF assms(1) dances_tap [OF assms]]
  show "adds s a d c [] []" using assms(2) by (auto simp: adds_def intro!: exI [of _ "[]"])
  show "adds (vial_keycode_down env exec k s) a d c [k] []"
    by (auto simp: adds_def down intro!: exI [of _ "[Down k]"])
  show "adds (vial_keycode_down env exec k (vial_keycode_tap env exec k' s)) a d c [k] []"
    by (auto simp: adds_def both intro!: exI [of _ "[Down k', Up k', Down k]"])
  show "adds (vial_keycode_up env exec k s) a d c [] [k]"
    by (auto simp: adds_def up intro!: exI [of _ "[Up k]"])
qed

lemma dance_step_cases:
  "dance_step st = 1 \<or> dance_step st = 2 \<or> dance_step st = 3 \<or> dance_step st = 4 \<or> dance_step st = 5 \<or> dance_step st = 6"
  by (simp add: dance_step_def dance_defs)

lemma on_dance_finished_effect:
  assumes "exec_neutral exec" "dances s = (a, d, c)"
  shows "adds (on_dance_finished env exec i s) a
    (if td_entry_at env i = None then d else d[i := dance_step (a ! i)]) c
    (held_by (td_entry_at env i) (dance_step (a ! i))) []"
proof (cases "td_entry_at env i")
  case (Some td)
  define st where "st = dance_step (a ! i)"
  define s1 where "s1 = s\<lparr>dance_state := (dance_state s)[i := st]\<rparr>"
  define d1 where "d1 = d[i := st]"
  have s1: "dances s1 = (a, d1, c)" using assms(2) by (auto simp: s1_def d1_def st_def dances_def)
  have ai: "dance_step (tap_dance_actions s ! i) = st" using assms(2) by (auto simp: dances_def st_def)
  note rules = adds_rules [OF assms(1) s1]
  have "st = 1 \<or> st = 2 \<or> st = 3 \<or> st = 4 \<or> st = 5 \<or> st = 6" unfolding st_def by (rule dance_step_cases)
  then show ?thesis
    unfolding on_dance_finished_def Some option.case Let_def ai st_def [symmetric]
    unfolding s1_def [symmetric] option.distinct if_False d1_def [symmetric]
    by (elim disjE; cases "on_tap td = 0"; cases "on_hold td = 0"; cases "on_double_tap td = 0";
      cases "on_tap_hold td = 0"; simp add: rules held_by_def dance_defs)
qed (use assms adds_rules in \<open>simp add: on_dance_finished_def held_by_def\<close>)

lemma on_dance_reset_effect:
  assumes "exec_neutral exec" "dances s = (a, d, c)"
  shows "adds (on_dance_reset env exec i s)
    (if td_entry_at env i = None then a else a[i := (a ! i)\<lparr>td_taps := 0\<rparr>])
    (if td_entry_at env i = None then d else d[i := 0]) c
    [] (held_by (td_entry_at env i) (d ! i))"
proof (cases "td_entry_at env i")
  case (Some td)
  define s0 where "s0 = wait_ms (QS_tap_code_delay env) s"
  have s0: "dances s0 = (a, d, c)" using assms(2) by (simp add: s0_def dances_wait)
  define s1 where "s1 = s0\<lparr>tap_dance_actions := (tap_dance_actions s0)[i := (tap_dance_actions s0 ! i)\<lparr>td_taps := 0\<rparr>],
    dance_state := (dance_state s0)[i := 0]\<rparr>"
  have s1: "dances s1 = (a[i := (a ! i)\<lparr>td_taps := 0\<rparr>], d[i := 0], c)" and st: "dance_state s0 ! i = d ! i"
    using s0 by (auto simp: s1_def dances_def)
  note rules = adds_rules [OF assms(1) s1]
  show ?thesis
    unfolding on_dance_reset_def Some option.case Let_def s0_def [symmetric] s1_def [symmetric] st
    by (cases "on_tap td = 0"; cases "on_hold td = 0"; cases "on_double_tap td = 0"; cases "on_tap_hold td = 0";
      simp add: rules held_by_def dance_defs)
qed (use assms adds_rules in \<open>simp add: on_dance_reset_def held_by_def\<close>)

section \<open>The invariant\<close>

definition entries_ok :: "'e td_env_scheme \<Rightarrow> bool" where
  "entries_ok env \<longleftrightarrow> (\<forall>i. td_entry_at env i \<noteq> None \<longleftrightarrow> i < td_entries env)"

text \<open>The keycodes all dances hold down.\<close>

definition all_held :: "'e td_env_scheme \<Rightarrow> u8 list \<Rightarrow> u16 \<Rightarrow> int" where
  "all_held env d kc = (\<Sum>i < td_entries env. int (count_list (held_by (td_entry_at env i) (d ! i)) kc))"

definition dances_ok :: "'e td_env_scheme \<Rightarrow> tap_dance_state_t list \<times> u8 list \<times> vial_call list \<Rightarrow> bool" where
  "dances_ok env = (\<lambda>(a, d, c). length a = td_entries env \<and> length d = td_entries env \<and>
    (\<forall>i < td_entries env. td_finished (a ! i) \<or> d ! i = 0) \<and> (\<forall>kc. balance c kc = all_held env d kc))"

lemma held_by_0 [simp]: "held_by e 0 = []"
  by (simp add: held_by_def dance_defs split: option.split)

lemma all_held_update:
  assumes "i < td_entries env" "length d = td_entries env"
  shows "all_held env (d[i := v]) kc = all_held env d kc
    + int (count_list (held_by (td_entry_at env i) v) kc) - int (count_list (held_by (td_entry_at env i) (d ! i)) kc)"
proof -
  let ?f = "\<lambda>d i. int (count_list (held_by (td_entry_at env i) (d ! i)) kc)"
  have "all_held env (d[i := v]) kc = ?f (d[i := v]) i + sum (?f (d[i := v])) ({..<td_entries env} - {i})"
    unfolding all_held_def using assms(1) by (simp add: sum.remove [of _ i])
  also have "sum (?f (d[i := v])) ({..<td_entries env} - {i}) = sum (?f d) ({..<td_entries env} - {i})"
    by (rule sum.cong) auto
  also have "?f (d[i := v]) i = int (count_list (held_by (td_entry_at env i) v) kc)" using assms by simp
  finally show ?thesis
    using sum.remove [of "{..<td_entries env}" i "?f d"] assms(1) by (simp add: all_held_def)
qed

lemma set_td_ok:
  assumes "dances_ok env (dances s)" "td_finished (tap_dance_actions s ! i) \<longrightarrow> td_finished (f (tap_dance_actions s ! i))"
  shows "dances_ok env (dances (set_td i f s))"
  using assms by (cases "i < td_entries env") (auto simp: set_td_def dances_ok_def dances_def nth_list_update)

lemma on_dance_ok:
  assumes "exec_neutral exec" "dances_ok env (dances s)"
  shows "dances_ok env (dances (on_dance env exec i s))"
proof -
  obtain a d c where s: "dances s = (a, d, c)" by (metis prod_cases3)
  obtain c' where "dances (on_dance env exec i s) = (a, d, c @ c')" "\<forall>kc. balance c' kc = 0"
    using on_dance_effect [OF assms(1) s] by blast
  then show ?thesis using assms(2) s by (simp add: dances_ok_def)
qed

lemma on_dance_finished_ok:
  assumes "exec_neutral exec" "entries_ok env" "dances_ok env (dances s)"
    "td_finished (tap_dance_actions s ! i)" "i < td_entries env \<longrightarrow> dance_state s ! i = 0"
  shows "dances_ok env (dances (on_dance_finished env exec i s))"
proof -
  obtain a d c where s: "dances s = (a, d, c)" by (metis prod_cases3)
  have a: "a ! i = tap_dance_actions s ! i" "d ! i = dance_state s ! i" using s by (auto simp: dances_def)
  obtain c' where c': "dances (on_dance_finished env exec i s) =
      (a, (if td_entry_at env i = None then d else d[i := dance_step (a ! i)]), c @ c')"
    "\<forall>kc. balance c' kc = int (count_list (held_by (td_entry_at env i) (dance_step (a ! i))) kc)"
    using on_dance_finished_effect [OF assms(1) s, of env i] by (auto simp: adds_def)
  show ?thesis
  proof (cases "i < td_entries env")
    case True
    then have e: "td_entry_at env i \<noteq> None" using assms(2) by (simp add: entries_ok_def)
    have "length d = td_entries env" using assms(3) s by (simp add: dances_ok_def)
    from all_held_update [OF True this] show ?thesis
      using assms(3-5) True s c' a e by (auto simp: dances_ok_def nth_list_update)
  next
    case False
    then have "td_entry_at env i = None" using assms(2) unfolding entries_ok_def by blast
    then show ?thesis using assms(3) s c' by (simp add: dances_ok_def held_by_def)
  qed
qed

lemma on_reset_ok:
  assumes "exec_neutral exec" "entries_ok env" "dances_ok env (dances s)"
  shows "dances_ok env (dances (td_on_reset env exec i s))"
proof -
  obtain a d c where s: "dances s = (a, d, c)" by (metis prod_cases3)
  define s1 where "s1 = on_dance_reset env exec i s"
  obtain c' where c': "dances s1 = (if td_entry_at env i = None then a else a[i := (a ! i)\<lparr>td_taps := 0\<rparr>],
      if td_entry_at env i = None then d else d[i := 0], c @ c')"
    "\<forall>kc. balance c' kc = - int (count_list (held_by (td_entry_at env i) (d ! i)) kc)"
    using on_dance_reset_effect [OF assms(1) s, of env i] by (auto simp: adds_def s1_def)
  define s2 where "s2 = send_keyboard_report env (del_mods (td_oneshot_mods (tap_dance_actions s1 ! i))
    (del_weak_mods (td_weak_mods (tap_dance_actions s1 ! i)) s1))"
  have s2: "dances s2 = dances s1" unfolding s2_def by (rule dances_of_more) (simp add: more_simps)
  have reset: "td_on_reset env exec i s = set_td i (\<lambda>_. td_zero) s2"
    by (simp add: td_on_reset_def Let_def s1_def s2_def)
  show ?thesis
  proof (cases "i < td_entries env")
    case True
    then have e: "td_entry_at env i \<noteq> None" using assms(2) by (simp add: entries_ok_def)
    have "length d = td_entries env" using assms(3) s by (simp add: dances_ok_def)
    from all_held_update [OF True this] show ?thesis
      using assms(3) True s c' s2 e unfolding reset
      by (auto simp: dances_ok_def nth_list_update set_td_def dances_def)
  next
    case False
    then have "td_entry_at env i = None" using assms(2) unfolding entries_ok_def by blast
    then show ?thesis using assms(3) s c' s2 False unfolding reset
      by (auto simp: dances_ok_def held_by_def set_td_def dances_def)
  qed
qed

lemma on_finished_ok:
  assumes "exec_neutral exec" "entries_ok env" "dances_ok env (dances s)"
  shows "dances_ok env (dances (td_on_dance_finished env exec i s))"
proof -
  define s0 where "s0 = set_td i (\<lambda>st. st\<lparr>td_finished := True\<rparr>) s"
  define sent where "sent = send_keyboard_report env (add_mods (td_oneshot_mods (tap_dance_actions s ! i))
    (add_weak_mods (td_weak_mods (tap_dance_actions s ! i)) s0))"
  define s1 where "s1 = (if \<not> td_finished (tap_dance_actions s ! i) then on_dance_finished env exec i sent else s)"
  have sent: "dances sent = dances s0" unfolding sent_def by (rule dances_of_more) (simp add: more_simps)
  have s0: "dances_ok env (dances s0)" unfolding s0_def by (rule set_td_ok [OF assms(3)]) simp
  have "dances_ok env (dances s1)"
  proof (cases "\<not> td_finished (tap_dance_actions s ! i) \<and> i < td_entries env")
    case True
    then have "dance_state s ! i = 0" "i < length (tap_dance_actions s)"
      using assms(3) by (auto simp: dances_ok_def dances_def)
    then have "td_finished (tap_dance_actions sent ! i)" "dance_state sent ! i = 0"
      using sent by (auto simp: s0_def set_td_def dances_def)
    then show ?thesis using on_dance_finished_ok [OF assms(1,2), of sent i] s0 sent True by (simp add: s1_def)
  next
    case False
    then have "td_finished (tap_dance_actions s ! i) \<or> td_entry_at env i = None"
      using assms(2) unfolding entries_ok_def by blast
    then show ?thesis using assms(3) s0 sent by (auto simp: s1_def on_dance_finished_def)
  qed
  then have "dances_ok env (dances (s1\<lparr>active_td := 0\<rparr>))" by simp
  moreover have "td_on_dance_finished env exec i s = (let s2 = s1\<lparr>active_td := 0\<rparr>
      in if \<not> td_pressed (tap_dance_actions s2 ! i) then td_on_reset env exec i s2 else s2)"
    by (simp add: td_on_dance_finished_def Let_def s1_def sent_def s0_def)
  ultimately show ?thesis by (simp add: Let_def on_reset_ok [OF assms(1,2)])
qed

end
