(* ===== verification/Tap_Dance_Run.thy ===== *)
theory Tap_Dance_Run
  imports Tap_Dance_Ok
begin

unbundle bit_operations_syntax

text \<open>
  Runs of the tap-dance state machine: key events (with the preprocessing, the early release of Vial and the
  processing in the order of \<open>process_record_quantum_helper\<close>) and ticks of \<open>tap_dance_task\<close>.
\<close>

datatype td_event = Td_Key u16 bool | Td_Tick

fun td_step :: "'e td_env_scheme \<Rightarrow> ('l::len, 'z) exec \<Rightarrow> td_event \<Rightarrow> ('l, 'z) ts \<Rightarrow> ('l, 'z) ts" where
  "td_step env exec (Td_Key kc pressed) s =
    snd (process_tap_dance env exec kc pressed
      (process_record_vial env exec kc pressed (snd (preprocess_tap_dance env exec kc pressed s))))"
| "td_step env exec Td_Tick s = tap_dance_task env exec s"

definition td_run :: "'e td_env_scheme \<Rightarrow> ('l::len, 'z) exec \<Rightarrow> (u16 \<times> td_event) list \<Rightarrow> ('l, 'z) ts \<Rightarrow> ('l, 'z) ts" where
  "td_run env exec evs s = fold (\<lambda>(t, ev). td_step (env\<lparr>timer_read := t\<rparr>) exec ev) evs s"

section \<open>A finished dance is a pressed one\<close>

definition calm :: "tap_dance_state_t list \<Rightarrow> bool" where
  "calm a \<longleftrightarrow> (\<forall>i < length a. td_finished (a ! i) \<longrightarrow> td_pressed (a ! i))"

text \<open>All but one dance.\<close>

definition calm_but :: "nat \<Rightarrow> tap_dance_state_t list \<Rightarrow> bool" where
  "calm_but j a \<longleftrightarrow> (\<forall>i < length a. i \<noteq> j \<longrightarrow> td_finished (a ! i) \<longrightarrow> td_pressed (a ! i))"

lemma nth_update_iff: "j < length xs \<Longrightarrow> xs[i := x] ! j = (if j = i then x else xs ! j)"
  by (cases "i = j") simp_all

lemma calm_but_calm: "calm a \<Longrightarrow> calm_but j a"
  by (simp add: calm_def calm_but_def)

lemma actions_of_dances: "dances s' = dances s \<Longrightarrow> tap_dance_actions s' = tap_dance_actions s"
  by (simp add: dances_def)

lemma actions_on_dance:
  assumes "exec_neutral exec"
  shows "tap_dance_actions (on_dance env exec i s) = tap_dance_actions s"
  using on_dance_effect [OF assms, of s "tap_dance_actions s" "dance_state s" "vial_calls s" env i]
  by (auto simp: dances_def)

lemma actions_on_reset:
  assumes "exec_neutral exec"
  shows "tap_dance_actions (td_on_reset env exec i s) = (tap_dance_actions s)[i := td_zero]"
proof -
  define s1 where "s1 = on_dance_reset env exec i s"
  have s1: "tap_dance_actions s1 = tap_dance_actions s \<or>
      tap_dance_actions s1 = (tap_dance_actions s)[i := (tap_dance_actions s ! i)\<lparr>td_taps := 0\<rparr>]"
    using on_dance_reset_effect [OF assms, of s "tap_dance_actions s" "dance_state s" "vial_calls s" env i]
    by (auto simp: adds_def dances_def s1_def split: if_splits)
  define s2 where "s2 = send_keyboard_report env (del_mods (td_oneshot_mods (tap_dance_actions s1 ! i))
    (del_weak_mods (td_weak_mods (tap_dance_actions s1 ! i)) s1))"
  have "tap_dance_actions s2 = tap_dance_actions s1"
    unfolding s2_def by (rule actions_of_dances, rule dances_of_more) (simp add: more_simps)
  then show ?thesis using s1
    by (auto simp: td_on_reset_def Let_def set_td_def s1_def [symmetric] s2_def [symmetric])
qed

lemma actions_on_finished:
  assumes "exec_neutral exec"
  shows "calm_but i (tap_dance_actions s) \<Longrightarrow> calm (tap_dance_actions (td_on_dance_finished env exec i s))"
proof -
  define s0 where "s0 = set_td i (\<lambda>st. st\<lparr>td_finished := True\<rparr>) s"
  define sent where "sent = send_keyboard_report env (add_mods (td_oneshot_mods (tap_dance_actions s ! i))
    (add_weak_mods (td_weak_mods (tap_dance_actions s ! i)) s0))"
  define s1 where "s1 = (if \<not> td_finished (tap_dance_actions s ! i) then on_dance_finished env exec i sent else s)"
  have "tap_dance_actions sent = tap_dance_actions s0"
    unfolding sent_def by (rule actions_of_dances, rule dances_of_more) (simp add: more_simps)
  then have "tap_dance_actions (on_dance_finished env exec i sent) = tap_dance_actions s0"
    using on_dance_finished_effect [OF assms, of sent "tap_dance_actions sent" "dance_state sent" "vial_calls sent" env i]
    by (auto simp: adds_def dances_def)
  then have s1: "tap_dance_actions s1 = tap_dance_actions s \<or> tap_dance_actions s1 = tap_dance_actions s0"
    by (auto simp: s1_def)
  have eq: "td_on_dance_finished env exec i s = (let s2 = s1\<lparr>active_td := 0\<rparr>
      in if \<not> td_pressed (tap_dance_actions s2 ! i) then td_on_reset env exec i s2 else s2)"
    by (simp add: td_on_dance_finished_def Let_def s1_def sent_def s0_def)
  assume "calm_but i (tap_dance_actions s)"
  then show ?thesis using s1 unfolding eq
    by (auto simp: Let_def actions_on_reset [OF assms] calm_def calm_but_def s0_def set_td_def nth_update_iff td_zero_def)
qed

section \<open>Steps\<close>

definition td_ok :: "'e td_env_scheme \<Rightarrow> ('l::len, 'z) ts \<Rightarrow> bool" where
  "td_ok env s \<longleftrightarrow> dances_ok env (dances s) \<and> calm (tap_dance_actions s)"

lemma dances_weak [simp]: "dances (clear_weak_mods s) = dances s"
  by (rule dances_of_more) (simp add: more_simps)

lemma actions_weak [simp]: "tap_dance_actions (clear_weak_mods s) = tap_dance_actions s"
  by (rule actions_of_dances) simp

lemma preprocess_ok:
  assumes "exec_neutral exec" "entries_ok env" "td_ok env s"
  shows "td_ok env (snd (preprocess_tap_dance env exec kc p s))"
proof -
  define i where "i = td_index (active_td s)"
  define s1 where "s1 = set_td i (\<lambda>st. st\<lparr>td_interrupted := True, interrupting_keycode := kc\<rparr>) s"
  have "dances_ok env (dances s1)" unfolding s1_def
    by (rule set_td_ok) (use assms(3) in \<open>simp_all add: td_ok_def\<close>)
  moreover have "calm_but i (tap_dance_actions s1)"
    using assms(3) by (auto simp: td_ok_def calm_def calm_but_def s1_def set_td_def nth_update_iff)
  ultimately have "td_ok env (clear_weak_mods (td_on_dance_finished env exec i s1))"
    using on_finished_ok [OF assms(1,2)] actions_on_finished [OF assms(1)]
    by (simp add: td_ok_def)
  then show ?thesis using assms(3)
    by (simp add: preprocess_tap_dance_def Let_def i_def [symmetric] s1_def [symmetric])
qed

lemma vial_ok:
  assumes "exec_neutral exec" "entries_ok env" "td_ok env s"
  shows "td_ok env (process_record_vial env exec kc p s)"
proof -
  have "td_ok env (td_on_dance_finished env exec i (set_td i (\<lambda>st. st\<lparr>td_pressed := False\<rparr>) s))" for i
  proof -
    have "dances_ok env (dances (set_td i (\<lambda>st. st\<lparr>td_pressed := False\<rparr>) s))"
      by (rule set_td_ok) (use assms(3) in \<open>simp_all add: td_ok_def\<close>)
    moreover have "calm_but i (tap_dance_actions (set_td i (\<lambda>st. st\<lparr>td_pressed := False\<rparr>) s))"
      using assms(3) by (auto simp: td_ok_def calm_def calm_but_def set_td_def nth_update_iff)
    ultimately show ?thesis
      using on_finished_ok [OF assms(1,2)] actions_on_finished [OF assms(1)] by (simp add: td_ok_def)
  qed
  then show ?thesis using assms(3) by (auto simp: process_record_vial_def Let_def split: option.split)
qed

lemma process_press_ok:
  assumes "exec_neutral exec" "td_ok env s"
  shows "td_ok env (td_on_each_tap env exec i ((set_td i (\<lambda>st. st\<lparr>td_pressed := True\<rparr>) s)\<lparr>last_tap_time := t\<rparr>))"
proof -
  define s1 where "s1 = (set_td i (\<lambda>st. st\<lparr>td_pressed := True\<rparr>) s)\<lparr>last_tap_time := t\<rparr>"
  have "dances_ok env (dances s1)" unfolding s1_def dances_update
    by (rule set_td_ok) (use assms(2) in \<open>simp_all add: td_ok_def\<close>)
  then have "dances_ok env (dances (td_on_each_tap env exec i s1))"
    unfolding td_on_each_tap_def by (intro on_dance_ok assms(1) set_td_ok) simp_all
  moreover have "calm (tap_dance_actions (td_on_each_tap env exec i s1))"
    using assms(2)
    by (auto simp: td_on_each_tap_def actions_on_dance [OF assms(1)] td_ok_def calm_def s1_def set_td_def nth_update_iff)
  ultimately show ?thesis by (simp add: td_ok_def s1_def)
qed

lemma process_release_ok:
  fixes i :: nat
  assumes "exec_neutral exec" "entries_ok env" "td_ok env s"
    and s1_def: "s1 = set_td i (\<lambda>st. st\<lparr>td_pressed := False\<rparr>) s"
  shows "td_ok env (if td_finished (tap_dance_actions s1 ! i) then td_on_reset env exec i s1 else s1)"
proof -
  have ok: "dances_ok env (dances s1)" unfolding s1_def
    by (rule set_td_ok) (use assms(3) in \<open>simp_all add: td_ok_def\<close>)
  have "calm_but i (tap_dance_actions s1)"
    using assms(3) by (auto simp: td_ok_def calm_def calm_but_def s1_def set_td_def nth_update_iff)
  then show ?thesis using ok on_reset_ok [OF assms(1,2) ok]
    by (auto simp: td_ok_def actions_on_reset [OF assms(1)] calm_def calm_but_def nth_update_iff td_zero_def)
qed

lemma td_ok_update [simp]: "td_ok env (s\<lparr>active_td := k\<rparr>) = td_ok env s"
  by (simp add: td_ok_def)

lemma process_ok:
  assumes "exec_neutral exec" "entries_ok env" "td_ok env s"
  shows "td_ok env (snd (process_tap_dance env exec kc p s))"
proof (cases p)
  case True
  then show ?thesis using assms(3) process_press_ok [OF assms(1,3)]
    by (simp add: process_tap_dance_def Let_def)
next
  case False
  then show ?thesis using assms(3) process_release_ok [OF assms(1-3) refl, of "td_index kc"]
    by (auto simp: process_tap_dance_def Let_def split: if_splits)
qed

lemma task_ok:
  assumes "exec_neutral exec" "entries_ok env" "td_ok env s"
  shows "td_ok env (tap_dance_task env exec s)"
proof -
  have "td_ok env (td_on_dance_finished env exec i s)" for i
    using on_finished_ok [OF assms(1,2)] actions_on_finished [where env = env, OF assms(1) calm_but_calm] assms(3)
    by (simp add: td_ok_def)
  then show ?thesis using assms(3) by (simp add: tap_dance_task_def Let_def)
qed

lemma td_step_ok:
  assumes "exec_neutral exec" "entries_ok env" "td_ok env s"
  shows "td_ok env (td_step env exec ev s)"
  using assms by (cases ev) (auto intro: process_ok vial_ok preprocess_ok task_ok)

section \<open>Runs\<close>

definition td_start :: "'e td_env_scheme \<Rightarrow> keymap_config_t \<Rightarrow> 'w layers \<Rightarrow> 'w tds" where
  "td_start env k l = act.extend (kbd_start k l)
    \<lparr>tap_dance_actions = replicate (td_entries env) td_zero, dance_state = replicate (td_entries env) 0,
     active_td = 0, last_tap_time = 0, magic_override = 0, vial_calls = []\<rparr>"

lemma td_start_ok: "td_ok env (td_start env k l)"
  by (simp add: td_ok_def td_start_def act.defs dances_def dances_ok_def all_held_def calm_def td_zero_def)

lemma env_time [simp]:
  "entries_ok (env\<lparr>timer_read := t\<rparr>) = entries_ok env" "td_ok (env\<lparr>timer_read := t\<rparr>) s = td_ok env s"
  by (simp_all add: entries_ok_def td_ok_def dances_ok_def all_held_def)

lemma td_run_ok:
  assumes "exec_neutral exec" "entries_ok env"
  shows "td_ok env s \<Longrightarrow> td_ok env (td_run env exec evs s)"
proof (induction evs arbitrary: s)
  case (Cons tev evs)
  obtain t ev where tev: "tev = (t, ev)" by fastforce
  have "td_ok env (td_step (env\<lparr>timer_read := t\<rparr>) exec ev s)"
    using td_step_ok [of exec "env\<lparr>timer_read := t\<rparr>" s ev] assms Cons.prems by simp
  then show ?case using Cons.IH by (simp add: td_run_def tev)
qed (simp add: td_run_def)

lemma nothing_held:
  assumes "td_ok env s" "\<forall>st \<in> set (tap_dance_actions s). \<not> td_pressed st"
  shows "all_held env (dance_state s) kc = 0"
  using assms by (auto simp: td_ok_def dances_ok_def dances_def calm_def all_held_def)


text \<open>A keyboard with two dances: the first has a tap and a hold keycode, the second a tap only.\<close>

definition dance_env :: td_env where
  "dance_env = act_env.extend plain_env \<lparr>td_entries = 2,
    td_entry_at = (\<lambda>i. if i = 0 then Some \<lparr>on_tap = 4, on_hold = 5, on_double_tap = 0, on_tap_hold = 0, custom_tapping_term = 200\<rparr>
      else if i = 1 then Some \<lparr>on_tap = 6, on_hold = 0, on_double_tap = 0, on_tap_hold = 0, custom_tapping_term = 200\<rparr> else None),
    tapping_term_of = (\<lambda>_. 200)\<rparr>"

definition no_exec :: "('l::len, 'z) exec" where
  "no_exec b s = s"

lemma dance_env_ok: "exec_neutral no_exec" "entries_ok dance_env"
  by (auto simp: exec_neutral_def no_exec_def entries_ok_def dance_env_def act_env.defs)


section \<open>The early release of a dance\<close>

definition exec_keeps_active :: "('l::len, 'z) exec \<Rightarrow> bool" where
  "exec_keeps_active exec \<longleftrightarrow> (\<forall>b s. active_td (exec b s) = active_td s)"

lemma active_of_more: "kbd.more s' = kbd.more s \<Longrightarrow> active_td s' = active_td s"
  by (cases s; cases s') simp

lemma active_up: "exec_keeps_active exec \<Longrightarrow> active_td (vial_keycode_up env exec kc s) = active_td s"
  using active_of_more [OF more_code16(2), of env kc "s\<lparr>magic_override := kc, vial_calls := vial_calls s @ [Up kc]\<rparr>"]
  by (auto simp: vial_keycode_up_def Let_def exec_keeps_active_def)

lemma active_on_reset:
  assumes "exec_keeps_active exec"
  shows "active_td (td_on_reset env exec i s) = active_td s"
proof -
  have wait: "active_td (wait_ms t s) = active_td s" for t by (rule active_of_more) (simp add: more_simps)
  have send: "active_td (send_keyboard_report env (del_mods m (del_weak_mods w x))) = active_td x" for m w and x :: "('a, 'b) ts"
    by (rule active_of_more) (simp add: more_simps)
  have "active_td (on_dance_reset env exec i s) = active_td s"
    by (auto simp: on_dance_reset_def Let_def active_up [OF assms] wait split: option.split)
  then show ?thesis by (simp add: td_on_reset_def Let_def set_td_def send)
qed

text \<open>Vial finishes a dance with a tap and a hold keycode on its release, also when that dance is no longer the
  active one: the other dance, which waits for its tapping term, loses its place and is never finished by the
  timer.\<close>

lemma early_release_forgets_active_dance:
  assumes "exec_keeps_active exec" "QK_TAP_DANCE \<le> kc" "kc \<le> QK_TAP_DANCE_MAX"
    "td_entry_at env (unat (kc - QK_TAP_DANCE)) = Some td" "on_tap td \<noteq> 0" "on_hold td \<noteq> 0"
    "on_double_tap td = 0" "on_tap_hold td = 0" "td_taps (tap_dance_actions s ! unat (kc - QK_TAP_DANCE)) = 1"
  shows "active_td (process_record_vial env exec kc False s) = 0"
  using assms by (simp add: process_record_vial_def td_on_dance_finished_def Let_def active_on_reset [OF assms(1)])

end
