(* ===== verification/Tapping.thy ===== *)
theory Tapping
  imports Action_Ok
begin

unbundle bit_operations_syntax

text \<open>
  Tap or hold: the state machine of \<open>quantum/action_tapping.c\<close> with its ring of waiting records, and
  \<open>action_exec\<close> of \<open>quantum/action.c\<close>, the entry point of every key event and tick. A Vial build has the
  per-key settings \<open>TAPPING_TERM_PER_KEY\<close>, \<open>QUICK_TAP_TERM_PER_KEY\<close>, \<open>PERMISSIVE_HOLD_PER_KEY\<close> and
  \<open>HOLD_ON_OTHER_KEY_PRESS_PER_KEY\<close> and \<open>COMBO_ENABLE\<close>; \<open>CHORDAL_HOLD\<close>, \<open>RETRO_SHIFT\<close> and
  \<open>SWAP_HANDS_ENABLE\<close> are not defined (\<open>process_record_tap_hint\<close> is then empty).

  The static variables of \<open>action_tapping.c\<close> stand beside the state of the keyboard, which \<open>process_record\<close>
  changes: it is an argument \<open>pr\<close>, gets the record by pointer and yields what the caller finds in it
  afterwards. Its typing says that it does not call \<open>action_exec\<close> itself.
\<close>

section \<open>State\<close>

definition WAITING_BUFFER_SIZE :: nat where
  "WAITING_BUFFER_SIZE = 8"

record 'k tapping =
  tapping_key :: keyrecord_t
  waiting_buffer :: "keyrecord_t list"
  waiting_buffer_head :: nat
  waiting_buffer_tail :: nat
  keyboard :: 'k

type_synonym ('l, 'z) tp = "('l, 'z) ks tapping"
type_synonym ('l, 'z) processor = "keyrecord_t \<Rightarrow> ('l, 'z) ks \<Rightarrow> keyrecord_t \<times> ('l, 'z) ks"

record tap_env = act_env +
  tapping_term_at :: "u16 \<Rightarrow> keyrecord_t \<Rightarrow> u16"
  quick_tap_term_at :: "u16 \<Rightarrow> keyrecord_t \<Rightarrow> u16"
  permissive_hold_at :: "u16 \<Rightarrow> keyrecord_t \<Rightarrow> bool"
  hold_on_other_key_press_at :: "u16 \<Rightarrow> keyrecord_t \<Rightarrow> bool"

text \<open>The record \<open>(keyrecord_t){0}\<close>: no event.\<close>

definition no_record :: keyrecord_t where
  "no_record = \<lparr>ev_key = \<lparr>krow = 0, kcol = 0\<rparr>, ev_time = 0, ev_type = TICK_EVENT, ev_pressed = False,
    tap_interrupted = False, tap_count = 0, rec_keycode = 0\<rparr>"

definition IS_TAPPING_RECORD :: "keyrecord_t \<Rightarrow> 'k tapping \<Rightarrow> bool" where
  "IS_TAPPING_RECORD r s \<longleftrightarrow> ev_key (tapping_key s) = ev_key r \<and> rec_keycode (tapping_key s) = rec_keycode r"

definition tapping_keycode :: "'e tap_env_scheme \<Rightarrow> ('l::len, 'z) tp \<Rightarrow> u16" where
  "tapping_keycode env s = fst (get_record_keycode env (tapping_key s) False (keyboard s))"

definition WITHIN_TAPPING_TERM :: "'e tap_env_scheme \<Rightarrow> keyrecord_t \<Rightarrow> ('l::len, 'z) tp \<Rightarrow> bool" where
  "WITHIN_TAPPING_TERM env r s \<longleftrightarrow>
    TIMER_DIFF_16 (ev_time r) (ev_time (tapping_key s)) < tapping_term_at env (tapping_keycode env s) (tapping_key s)"

definition WITHIN_QUICK_TAP_TERM :: "'e tap_env_scheme \<Rightarrow> keyrecord_t \<Rightarrow> ('l::len, 'z) tp \<Rightarrow> bool" where
  "WITHIN_QUICK_TAP_TERM env r s \<longleftrightarrow>
    TIMER_DIFF_16 (ev_time r) (ev_time (tapping_key s)) < quick_tap_term_at env (tapping_keycode env s) (tapping_key s)"

section \<open>The ring of waiting records\<close>

text \<open>The indices that the loops from the tail to the head visit.\<close>

definition waiting_slots :: "'k tapping \<Rightarrow> nat list" where
  "waiting_slots s = map (\<lambda>k. (waiting_buffer_tail s + k) mod WAITING_BUFFER_SIZE)
    [0..<(waiting_buffer_head s + WAITING_BUFFER_SIZE - waiting_buffer_tail s) mod WAITING_BUFFER_SIZE]"

definition waiting_buffer_enq :: "keyrecord_t \<Rightarrow> 'k tapping \<Rightarrow> bool \<times> 'k tapping" where
  "waiting_buffer_enq r s =
    (if IS_NOEVENT r then (True, s)
     else if (waiting_buffer_head s + 1) mod WAITING_BUFFER_SIZE = waiting_buffer_tail s then (False, s)
     else (True, s\<lparr>waiting_buffer := (waiting_buffer s)[waiting_buffer_head s := r],
       waiting_buffer_head := (waiting_buffer_head s + 1) mod WAITING_BUFFER_SIZE\<rparr>))"

definition waiting_buffer_pop :: "'k tapping \<Rightarrow> 'k tapping" where
  "waiting_buffer_pop s = s\<lparr>waiting_buffer_tail := (waiting_buffer_tail s + 1) mod WAITING_BUFFER_SIZE\<rparr>"

definition waiting_buffer_clear :: "'k tapping \<Rightarrow> 'k tapping" where
  "waiting_buffer_clear s = s\<lparr>waiting_buffer_head := 0, waiting_buffer_tail := 0\<rparr>"

definition waiting_buffer_typed :: "keyrecord_t \<Rightarrow> 'k tapping \<Rightarrow> bool" where
  "waiting_buffer_typed r s = list_ex (\<lambda>i. ev_key r = ev_key (waiting_buffer s ! i) \<and>
    ev_pressed r \<noteq> ev_pressed (waiting_buffer s ! i)) (waiting_slots s)"

definition waiting_buffer_has_anykey_pressed :: "'k tapping \<Rightarrow> bool" where
  "waiting_buffer_has_anykey_pressed s = list_ex (\<lambda>i. ev_pressed (waiting_buffer s ! i)) (waiting_slots s)"

text \<open>\<open>process_record(&tapping_key)\<close> and \<open>process_record(keyp)\<close>.\<close>

definition process_tapping_key :: "('l::len, 'z) processor \<Rightarrow> ('l, 'z) tp \<Rightarrow> ('l, 'z) tp" where
  "process_tapping_key pr s =
    (let (r, k) = pr (tapping_key s) (keyboard s) in s\<lparr>tapping_key := r, keyboard := k\<rparr>)"

definition process_keyp :: "('l::len, 'z) processor \<Rightarrow> keyrecord_t \<Rightarrow> ('l, 'z) tp \<Rightarrow> keyrecord_t \<times> ('l, 'z) tp" where
  "process_keyp pr r s = (let (r1, k) = pr r (keyboard s) in (r1, s\<lparr>keyboard := k\<rparr>))"

definition waiting_buffer_scan_tap :: "'e tap_env_scheme \<Rightarrow> ('l::len, 'z) processor \<Rightarrow> ('l, 'z) tp \<Rightarrow> ('l, 'z) tp" where
  "waiting_buffer_scan_tap env pr s =
    (if tap_count (tapping_key s) > 0 \<or> \<not> ev_pressed (tapping_key s) then s
     else case find (\<lambda>i. let c = waiting_buffer s ! i in \<not> IS_NOEVENT c \<and> ev_key c = ev_key (tapping_key s) \<and>
            \<not> ev_pressed c \<and> WITHIN_TAPPING_TERM env c s) (waiting_slots s) of
       None \<Rightarrow> s
     | Some i \<Rightarrow> process_tapping_key pr
         (s\<lparr>tapping_key := (tapping_key s)\<lparr>tap_count := 1\<rparr>,
            waiting_buffer := (waiting_buffer s)[i := (waiting_buffer s ! i)\<lparr>tap_count := 1\<rparr>]\<rparr>))"

section \<open>The state machine\<close>

text \<open>The result: whether the record is consumed, the record, and the state.\<close>

definition tapping_starts :: "'e tap_env_scheme \<Rightarrow> ('l::len, 'z) processor \<Rightarrow> keyrecord_t \<Rightarrow> ('l, 'z) tp
    \<Rightarrow> bool \<times> keyrecord_t \<times> ('l, 'z) tp" where
  "tapping_starts env pr r s = (True, r, waiting_buffer_scan_tap env pr (s\<lparr>tapping_key := r\<rparr>))"

definition process_and_done :: "('l::len, 'z) processor \<Rightarrow> keyrecord_t \<Rightarrow> ('l, 'z) tp
    \<Rightarrow> bool \<times> keyrecord_t \<times> ('l, 'z) tp" where
  "process_and_done pr r s = (let (r1, s1) = process_keyp pr r s in (True, r1, s1))"

definition tapping_idle :: "'e tap_env_scheme \<Rightarrow> ('l::len, 'z) processor \<Rightarrow> keyrecord_t \<Rightarrow> ('l, 'z) tp
    \<Rightarrow> bool \<times> keyrecord_t \<times> ('l, 'z) tp" where
  "tapping_idle env pr r s =
    (if IS_NOEVENT r then (True, r, s)
     else if ev_pressed r \<and> is_tap_record env r (keyboard s) then tapping_starts env pr r s
     else process_and_done pr r s)"

text \<open>The release of a key pressed before the tapping key: modifiers and layers are kept till its end.\<close>

definition release_is_retained :: "'e tap_env_scheme \<Rightarrow> keyrecord_t \<Rightarrow> ('l::len, 'z) ks \<Rightarrow> bool" where
  "release_is_retained env r k =
    (let a = layer_switch_get_action (max_layer env) (action_at env k) (ev_key r) (layers k)
     in if kind_id a = 0 \<or> kind_id a = 1
        then key_mods a \<noteq> 0 \<and> key_code a = 0 \<or> IS_MODIFIER_KEYCODE (ucast (key_code a))
        else if kind_id a = 2 \<or> kind_id a = 3
        then key_mods a \<noteq> 0 \<and> tap_count r = 0 \<or> IS_MODIFIER_KEYCODE (ucast (key_code a))
        else if kind_id a = ACT_LAYER_TAP \<or> kind_id a = ACT_LAYER_TAP_EXT
        then layer_tap_code a < OP_TAP_TOGGLE \<or> layer_tap_code a \<in> {OP_ON_OFF, 0xF2, 0xF3}
        else False)"

definition settle_as_hold :: "('l::len, 'z) processor \<Rightarrow> ('l, 'z) tp \<Rightarrow> ('l, 'z) tp" where
  "settle_as_hold pr s = (process_tapping_key pr s)\<lparr>tapping_key := no_record\<rparr>"

definition tapping_unsettled :: "'e tap_env_scheme \<Rightarrow> ('l::len, 'z) processor \<Rightarrow> keyrecord_t \<Rightarrow> ('l, 'z) tp
    \<Rightarrow> bool \<times> keyrecord_t \<times> ('l, 'z) tp" where
  "tapping_unsettled env pr r s =
    (let kc = tapping_keycode env s
     in if IS_TAPPING_RECORD r s \<and> \<not> ev_pressed r
        then let s1 = process_tapping_key pr (s\<lparr>tapping_key := (tapping_key s)\<lparr>tap_count := 1\<rparr>\<rparr>)
          in (False, r\<lparr>tap_interrupted := tap_interrupted (tapping_key s1), tap_count := tap_count (tapping_key s1)\<rparr>, s1)
        else if \<not> ev_pressed r \<and> waiting_buffer_typed r s \<and> permissive_hold_at env kc (tapping_key s)
        then (False, r, settle_as_hold pr s)
        else if \<not> ev_pressed r \<and> \<not> waiting_buffer_typed r s
        then if release_is_retained env r (keyboard s) then (False, r, s) else process_and_done pr r s
        else if ev_pressed r
        then let s1 = s\<lparr>tapping_key := (tapping_key s)\<lparr>tap_interrupted := True\<rparr>\<rparr>
          in (False, r, if hold_on_other_key_press_at env kc (tapping_key s1) then settle_as_hold pr s1 else s1)
        else (False, r, s))"

text \<open>A press of a tapping key while the last one is held after taps: its key goes up first.\<close>

definition tapping_restarts :: "'e tap_env_scheme \<Rightarrow> ('l::len, 'z) processor \<Rightarrow> keyrecord_t \<Rightarrow> ('l, 'z) tp
    \<Rightarrow> bool \<times> keyrecord_t \<times> ('l, 'z) tp" where
  "tapping_restarts env pr r s =
    (let s1 = (if tap_count (tapping_key s) > 1
         then snd (process_keyp pr ((tapping_key s)\<lparr>ev_time := ev_time r, ev_pressed := False\<rparr>) s) else s)
     in tapping_starts env pr r s1)"

definition with_tap_of :: "keyrecord_t \<Rightarrow> keyrecord_t \<Rightarrow> keyrecord_t" where
  "with_tap_of t r = r\<lparr>tap_interrupted := tap_interrupted t, tap_count := tap_count t\<rparr>"

definition tapping_settled :: "'e tap_env_scheme \<Rightarrow> ('l::len, 'z) processor \<Rightarrow> keyrecord_t \<Rightarrow> ('l, 'z) tp
    \<Rightarrow> bool \<times> keyrecord_t \<times> ('l, 'z) tp" where
  "tapping_settled env pr r s =
    (if IS_TAPPING_RECORD r s \<and> \<not> ev_pressed r
     then let (r1, s1) = process_keyp pr (with_tap_of (tapping_key s) r) s in (True, r1, s1\<lparr>tapping_key := r1\<rparr>)
     else if is_tap_record env r (keyboard s) \<and> ev_pressed r then tapping_restarts env pr r s
     else process_and_done pr r s)"

definition tapping_timed_out :: "'e tap_env_scheme \<Rightarrow> ('l::len, 'z) processor \<Rightarrow> keyrecord_t \<Rightarrow> ('l, 'z) tp
    \<Rightarrow> bool \<times> keyrecord_t \<times> ('l, 'z) tp" where
  "tapping_timed_out env pr r s =
    (if tap_count (tapping_key s) = 0 then (False, r, settle_as_hold pr s)
     else if IS_NOEVENT r then (True, r, s)
     else if IS_TAPPING_RECORD r s \<and> \<not> ev_pressed r
     then let (r1, s1) = process_keyp pr (with_tap_of (tapping_key s) r) s in (True, r1, s1\<lparr>tapping_key := no_record\<rparr>)
     else if is_tap_record env r (keyboard s) \<and> ev_pressed r then tapping_restarts env pr r s
     else process_and_done pr r s)"

definition tapping_released :: "'e tap_env_scheme \<Rightarrow> ('l::len, 'z) processor \<Rightarrow> keyrecord_t \<Rightarrow> ('l, 'z) tp
    \<Rightarrow> bool \<times> keyrecord_t \<times> ('l, 'z) tp" where
  "tapping_released env pr r s =
    (if \<not> WITHIN_TAPPING_TERM env r s then (False, r, s\<lparr>tapping_key := no_record\<rparr>)
     else if IS_NOEVENT r then (True, r, s)
     else if ev_pressed r
     then if IS_TAPPING_RECORD r s
       then if WITHIN_QUICK_TAP_TERM env r s \<and> \<not> tap_interrupted (tapping_key s) \<and> tap_count (tapping_key s) > 0
         then let r1 = with_tap_of (tapping_key s) r;
                  r2 = (if tap_count r1 < 15 then r1\<lparr>tap_count := tap_count r1 + 1\<rparr> else r1);
                  (r3, s1) = process_keyp pr r2 s
              in (True, r3, s1\<lparr>tapping_key := r3\<rparr>)
         else (True, r, s\<lparr>tapping_key := r\<rparr>)
       else if is_tap_record env r (keyboard s) then tapping_starts env pr r s
       else process_and_done pr r (s\<lparr>tapping_key := (tapping_key s)\<lparr>tap_interrupted := True\<rparr>\<rparr>)
     else process_and_done pr r s)"

definition process_tapping :: "'e tap_env_scheme \<Rightarrow> ('l::len, 'z) processor \<Rightarrow> keyrecord_t \<Rightarrow> ('l, 'z) tp
    \<Rightarrow> bool \<times> keyrecord_t \<times> ('l, 'z) tp" where
  "process_tapping env pr r s =
    (if IS_NOEVENT (tapping_key s) then tapping_idle env pr r s
     else if ev_pressed (tapping_key s)
     then if WITHIN_TAPPING_TERM env r s
       then if IS_NOEVENT r then (True, r, s)
         else if tap_count (tapping_key s) = 0 then tapping_unsettled env pr r s
         else tapping_settled env pr r s
       else tapping_timed_out env pr r s
     else tapping_released env pr r s)"

section \<open>Events\<close>

text \<open>The loop over the waiting records; the ring has at most seven of them, so fuel for eight rounds is enough.\<close>

fun process_waiting :: "nat \<Rightarrow> 'e tap_env_scheme \<Rightarrow> ('l::len, 'z) processor \<Rightarrow> ('l, 'z) tp \<Rightarrow> ('l, 'z) tp option" where
  "process_waiting 0 env pr s = None"
| "process_waiting (Suc fuel) env pr s =
    (if waiting_buffer_tail s = waiting_buffer_head s then Some s
     else let i = waiting_buffer_tail s; (consumed, r, s1) = process_tapping env pr (waiting_buffer s ! i) s;
              s2 = s1\<lparr>waiting_buffer := (waiting_buffer s1)[i := r]\<rparr>
          in if consumed then process_waiting fuel env pr (waiting_buffer_pop s2) else Some s2)"

definition enqueue_or_clear :: "'e tap_env_scheme \<Rightarrow> keyrecord_t \<Rightarrow> ('l::len, 'z) tp \<Rightarrow> ('l, 'z) tp" where
  "enqueue_or_clear env r s =
    (let (enqueued, s1) = waiting_buffer_enq r s
     in if enqueued then s1
        else (waiting_buffer_clear (s1\<lparr>keyboard := clear_keyboard env (keyboard s1)\<rparr>))\<lparr>tapping_key := no_record\<rparr>)"

definition action_tapping_process :: "'e tap_env_scheme \<Rightarrow> ('l::len, 'z) processor \<Rightarrow> keyrecord_t \<Rightarrow> ('l, 'z) tp
    \<Rightarrow> ('l, 'z) tp option" where
  "action_tapping_process env pr r s =
    (let (consumed, r1, s1) = process_tapping env pr r s
     in process_waiting WAITING_BUFFER_SIZE env pr (if consumed then s1 else enqueue_or_clear env r1 s1))"

text \<open>What \<open>action_exec\<close> does before the record reaches the tapping code.\<close>

definition retro_tap_event :: "'e act_env_scheme \<Rightarrow> keyrecord_t \<Rightarrow> ('l::len, 'z) ks \<Rightarrow> ('l, 'z) ks" where
  "retro_tap_event env e k =
    (if IS_NOEVENT e then k
     else let kc = fst (get_event_keycode env e False k)
          in if ev_pressed e then k\<lparr>retro_tap_primed := False, retro_tap_curr_key := kc\<rparr>
             else if retro_tap_curr_key k = kc then k\<lparr>retro_tap_primed := True\<rparr> else k)"

definition oneshot_timeouts :: "'e kbd_env_scheme \<Rightarrow> ('l::len, 'z) kb \<Rightarrow> ('l, 'z) kb" where
  "oneshot_timeouts env k =
    (if oneshot_enable (keymap_config k) \<and> QS_oneshot_timeout env > 0
     then let k1 = (if has_oneshot_layer_timed_out env k then clear_oneshot_layer_state ONESHOT_OTHER_KEY_PRESSED k else k)
          in if has_oneshot_mods_timed_out env k1 then clear_oneshot_mods k1 else k1
     else k)"

definition action_exec :: "'e tap_env_scheme \<Rightarrow> ('l::len, 'z) hook \<Rightarrow> ('l, 'z) processor \<Rightarrow> keyrecord_t \<Rightarrow> ('l, 'z) tp
    \<Rightarrow> ('l, 'z) tp option" where
  "action_exec env pre pr e s =
    (let k1 = retro_tap_event env e (keyboard s);
         k2 = (if ev_pressed e then clear_weak_mods k1 else k1);
         r = e\<lparr>tap_interrupted := False, tap_count := 0, rec_keycode := 0\<rparr>;
         k3 = oneshot_timeouts env k2
     in if IS_NOEVENT r then action_tapping_process env pr r (s\<lparr>keyboard := k3\<rparr>)
        else let (go, r1, k4) = pre r k3
          in if go then action_tapping_process env pr r1 (s\<lparr>keyboard := k4\<rparr>) else Some (s\<lparr>keyboard := k4\<rparr>))"

end
