(* ===== verification/Tapping_Queue.thy ===== *)
theory Tapping_Queue
  imports Tapping "HOL-Library.Multiset"
begin

unbundle bit_operations_syntax

text \<open>
  The ring of waiting records is a queue of at most seven records: the laws are an interface, which the
  ring of \<open>action_tapping.c\<close> implements.
\<close>

section \<open>The interface\<close>

locale waiting_queue =
  fixes ok :: "'s \<Rightarrow> bool"
    and items :: "'s \<Rightarrow> 'a list"
    and stored :: "'a \<Rightarrow> bool"
    and put :: "'a \<Rightarrow> 's \<Rightarrow> bool \<times> 's"
    and pop :: "'s \<Rightarrow> 's"
    and bound :: nat
  assumes put_skips: "\<not> stored x \<Longrightarrow> put x s = (True, s)"
    and put_accepts: "ok s \<Longrightarrow> stored x \<Longrightarrow> fst (put x s) \<longleftrightarrow> length (items s) < bound"
    and put_items: "ok s \<Longrightarrow> stored x \<Longrightarrow> fst (put x s) \<Longrightarrow> items (snd (put x s)) = items s @ [x]"
    and put_full: "ok s \<Longrightarrow> \<not> fst (put x s) \<Longrightarrow> snd (put x s) = s"
    and put_ok: "ok s \<Longrightarrow> ok (snd (put x s))"
    and pop_items: "ok s \<Longrightarrow> items s \<noteq> [] \<Longrightarrow> items (pop s) = tl (items s)"
    and pop_ok: "ok s \<Longrightarrow> ok (pop s)"
    and items_bounded: "ok s \<Longrightarrow> length (items s) \<le> bound"
begin

lemma put_mset:
  assumes "ok s" "fst (put x s)"
  shows "mset (items (snd (put x s))) = mset (items s) + (if stored x then {#x#} else {#})"
  using assms put_items [of s x] put_skips [of x s] by (cases "stored x") simp_all

lemma puts_append:
  assumes "ok s" "\<forall>x \<in> set xs. stored x" "length (items s) + length xs \<le> bound"
  shows "items (fold (\<lambda>x s. snd (put x s)) xs s) = items s @ xs"
  using assms
proof (induction xs arbitrary: s)
  case (Cons x xs)
  then have "fst (put x s)" by (simp add: put_accepts)
  with Cons show ?case by (simp add: put_items put_ok)
qed simp

lemma pops_drop:
  assumes "ok s" "n \<le> length (items s)"
  shows "items ((pop ^^ n) s) = drop n (items s) \<and> ok ((pop ^^ n) s)"
  using assms
proof (induction n)
  case (Suc n)
  then have IH: "items ((pop ^^ n) s) = drop n (items s)" "ok ((pop ^^ n) s)" by simp_all
  moreover have "drop n (items s) \<noteq> []" using Suc.prems(2) by simp
  ultimately show ?case by (simp add: pop_items pop_ok drop_Suc tl_drop)
qed simp

end

section \<open>The ring\<close>

definition ring_ok :: "'k tapping \<Rightarrow> bool" where
  "ring_ok s \<longleftrightarrow> length (waiting_buffer s) = WAITING_BUFFER_SIZE \<and>
    waiting_buffer_head s < WAITING_BUFFER_SIZE \<and> waiting_buffer_tail s < WAITING_BUFFER_SIZE"

definition waiting :: "'k tapping \<Rightarrow> keyrecord_t list" where
  "waiting s = map (\<lambda>i. waiting_buffer s ! i) (waiting_slots s)"

lemma nth_update: "xs[i := x] ! j = (if i = j \<and> j < length xs then x else xs ! j)"
  by (cases "i = j"; cases "j < length xs") (simp_all add: list_update_beyond)

lemma ring_length:
  assumes "ring_ok s"
  shows "length (waiting_slots s) = (if waiting_buffer_tail s \<le> waiting_buffer_head s
    then waiting_buffer_head s - waiting_buffer_tail s
    else waiting_buffer_head s + WAITING_BUFFER_SIZE - waiting_buffer_tail s)"
  using assms by (auto simp: ring_ok_def waiting_slots_def WAITING_BUFFER_SIZE_def mod_if)

lemma mod_ring: "x < 2 * WAITING_BUFFER_SIZE \<Longrightarrow>
    x mod WAITING_BUFFER_SIZE = (if x < WAITING_BUFFER_SIZE then x else x - WAITING_BUFFER_SIZE)"
  by (simp add: WAITING_BUFFER_SIZE_def mod_if)

lemma slots_in_ring:
  assumes "ring_ok s" "i \<in> set (waiting_slots s)"
  shows "i < WAITING_BUFFER_SIZE \<and> i \<noteq> waiting_buffer_head s"
proof -
  define h t where "h = waiting_buffer_head s" and "t = waiting_buffer_tail s"
  obtain k where k: "k < (h + WAITING_BUFFER_SIZE - t) mod WAITING_BUFFER_SIZE" "i = (t + k) mod WAITING_BUFFER_SIZE"
    using assms(2) by (auto simp: waiting_slots_def h_def t_def)
  have bounds: "h < WAITING_BUFFER_SIZE" "t < WAITING_BUFFER_SIZE"
    using assms(1) by (simp_all add: ring_ok_def h_def t_def)
  then have "k < (if t \<le> h then h - t else h + WAITING_BUFFER_SIZE - t)"
    using k(1) mod_ring [of "h + WAITING_BUFFER_SIZE - t"] by (auto split: if_split_asm)
  then show ?thesis
    using k(2) bounds mod_ring [of "t + k"] by (simp add: h_def [symmetric] split: if_split_asm)
qed

lemma distinct_slots: "ring_ok s \<Longrightarrow> distinct (waiting_slots s)"
proof -
  assume ok: "ring_ok s"
  define t n where "t = waiting_buffer_tail s"
    and "n = (waiting_buffer_head s + WAITING_BUFFER_SIZE - t) mod WAITING_BUFFER_SIZE"
  have "t < WAITING_BUFFER_SIZE" "n < WAITING_BUFFER_SIZE"
    using ok by (simp_all add: ring_ok_def t_def n_def WAITING_BUFFER_SIZE_def)
  moreover have "a = b" if "a < WAITING_BUFFER_SIZE" "b < WAITING_BUFFER_SIZE" "t < WAITING_BUFFER_SIZE"
    "(t + a) mod WAITING_BUFFER_SIZE = (t + b) mod WAITING_BUFFER_SIZE" for a b
    using that mod_ring [of "t + a"] mod_ring [of "t + b"] by (simp split: if_split_asm)
  ultimately have "inj_on (\<lambda>k. (t + k) mod WAITING_BUFFER_SIZE) {0..<n}"
    by (intro inj_onI) (meson atLeastLessThan_iff order.strict_trans)
  then show ?thesis by (simp add: waiting_slots_def distinct_map t_def [symmetric] n_def [symmetric])
qed

lemma upt_first: "0 < n \<Longrightarrow> [0..<n] = 0 # map Suc [0..<n - 1]"
  by (cases n) (simp_all add: upt_conv_Cons map_Suc_upt del: upt_Suc)

lemma slots_pop:
  assumes "ring_ok s" "waiting_buffer_tail s \<noteq> waiting_buffer_head s"
  shows "waiting_slots s = waiting_buffer_tail s # waiting_slots (waiting_buffer_pop s)"
proof -
  define h t n where "h = waiting_buffer_head s" and "t = waiting_buffer_tail s" and "n = (h + 8 - t) mod 8"
  have n: "0 < n" "(h + 8 - Suc t mod 8) mod 8 = n - 1"
    using assms by (auto simp: ring_ok_def WAITING_BUFFER_SIZE_def h_def t_def n_def mod_if)
  have "map (\<lambda>k. (t + k) mod 8) [0..<n] = t # map (\<lambda>k. (Suc t mod 8 + k) mod 8) [0..<n - 1]"
    using assms by (simp add: upt_first [OF n(1)] ring_ok_def WAITING_BUFFER_SIZE_def t_def mod_simps comp_def)
  then show ?thesis
    using n(2) by (simp add: waiting_slots_def waiting_buffer_pop_def WAITING_BUFFER_SIZE_def
        h_def [symmetric] t_def [symmetric] n_def [symmetric])
qed

lemma slots_push:
  assumes "ring_ok s" "(waiting_buffer_head s + 1) mod WAITING_BUFFER_SIZE \<noteq> waiting_buffer_tail s"
  shows "waiting_slots (s\<lparr>waiting_buffer := b, waiting_buffer_head := (waiting_buffer_head s + 1) mod WAITING_BUFFER_SIZE\<rparr>)
    = waiting_slots s @ [waiting_buffer_head s]"
proof -
  define h t n where "h = waiting_buffer_head s" and "t = waiting_buffer_tail s" and "n = (h + 8 - t) mod 8"
  have "(Suc h mod 8 + 8 - t) mod 8 = Suc n" "(t + n) mod 8 = h"
    using assms by (auto simp: ring_ok_def WAITING_BUFFER_SIZE_def h_def t_def n_def mod_if split: if_splits)
  then show ?thesis
    by (simp add: waiting_slots_def WAITING_BUFFER_SIZE_def h_def [symmetric] t_def [symmetric] n_def [symmetric])
qed

lemma waiting_empty: "ring_ok s \<Longrightarrow> waiting s = [] \<longleftrightarrow> waiting_buffer_tail s = waiting_buffer_head s"
  using ring_length [of s] by (auto simp: waiting_def ring_ok_def split: if_splits)

lemma waiting_front:
  assumes "ring_ok s" "waiting_buffer_tail s \<noteq> waiting_buffer_head s"
  shows "waiting s = waiting_buffer s ! waiting_buffer_tail s # waiting (waiting_buffer_pop s)"
  using slots_pop [OF assms] by (simp add: waiting_def waiting_buffer_pop_def)

lemma waiting_enq:
  assumes "ring_ok s" "\<not> IS_NOEVENT r" "fst (waiting_buffer_enq r s)"
  shows "waiting (snd (waiting_buffer_enq r s)) = waiting s @ [r]"
proof -
  have "(waiting_buffer_head s + 1) mod WAITING_BUFFER_SIZE \<noteq> waiting_buffer_tail s"
    using assms(2,3) by (simp add: waiting_buffer_enq_def split: if_splits)
  moreover have "(waiting_buffer s)[waiting_buffer_head s := r] ! i = waiting_buffer s ! i"
    if "i \<in> set (waiting_slots s)" for i
    using slots_in_ring [OF assms(1) that] by simp
  ultimately show ?thesis
    using slots_push [OF assms(1)] assms by (simp add: waiting_def waiting_buffer_enq_def ring_ok_def)
qed

lemma enq_accepts:
  assumes "ring_ok s" "\<not> IS_NOEVENT r"
  shows "fst (waiting_buffer_enq r s) \<longleftrightarrow> length (waiting s) < 7"
  using assms ring_length [OF assms(1)]
  by (auto simp: waiting_buffer_enq_def waiting_def ring_ok_def WAITING_BUFFER_SIZE_def mod_if)

interpretation ring: waiting_queue ring_ok waiting "\<lambda>r. \<not> IS_NOEVENT r" waiting_buffer_enq waiting_buffer_pop 7
proof
  fix r :: keyrecord_t and s :: "'k tapping"
  show "\<not> \<not> IS_NOEVENT r \<Longrightarrow> waiting_buffer_enq r s = (True, s)" by (simp add: waiting_buffer_enq_def)
  assume ok: "ring_ok s"
  show "\<not> IS_NOEVENT r \<Longrightarrow> fst (waiting_buffer_enq r s) \<longleftrightarrow> length (waiting s) < 7" by (rule enq_accepts [OF ok])
  show "\<not> IS_NOEVENT r \<Longrightarrow> fst (waiting_buffer_enq r s) \<Longrightarrow> waiting (snd (waiting_buffer_enq r s)) = waiting s @ [r]"
    by (rule waiting_enq [OF ok])
  show "\<not> fst (waiting_buffer_enq r s) \<Longrightarrow> snd (waiting_buffer_enq r s) = s"
    by (auto simp: waiting_buffer_enq_def split: if_splits)
  show "ring_ok (snd (waiting_buffer_enq r s))" "ring_ok (waiting_buffer_pop s)"
    using ok by (auto simp: waiting_buffer_enq_def waiting_buffer_pop_def ring_ok_def WAITING_BUFFER_SIZE_def)
  show "waiting s \<noteq> [] \<Longrightarrow> waiting (waiting_buffer_pop s) = tl (waiting s)"
    using waiting_front [OF ok] waiting_empty [OF ok] by simp
  show "length (waiting s) \<le> 7"
    using ok ring_length [OF ok] by (auto simp: waiting_def ring_ok_def WAITING_BUFFER_SIZE_def)
qed

end
