(* ===== verification/Tapping_Bounds.thy ===== *)
theory Tapping_Bounds
  imports Tapping_Queue
begin

unbundle bit_operations_syntax

text \<open>
  The tapping code keeps its bounds for every behaviour of \<open>process_record\<close>: the ring indices stay below 8,
  the loop over the waiting records ends, and the tap counts fit the four bits of the C bit field.
\<close>

definition taps_fit :: "keyrecord_t \<Rightarrow> bool" where
  "taps_fit r \<longleftrightarrow> tap_count r \<le> 15"

definition counts_kept :: "('l::len, 'z) processor \<Rightarrow> bool" where
  "counts_kept pr \<longleftrightarrow> (\<forall>r k. taps_fit r \<longrightarrow> taps_fit (fst (pr r k)))"

definition tapping_bounded :: "'k tapping \<Rightarrow> bool" where
  "tapping_bounded s \<longleftrightarrow> ring_ok s \<and> taps_fit (tapping_key s) \<and> list_all taps_fit (waiting_buffer s)"

text \<open>What an operation on the state leaves alone, and the bounds it keeps.\<close>

definition bounded_step :: "'k tapping \<Rightarrow> 'k tapping \<Rightarrow> bool" where
  "bounded_step s s' \<longleftrightarrow> waiting_buffer_head s' = waiting_buffer_head s \<and> waiting_buffer_tail s' = waiting_buffer_tail s \<and>
    length (waiting_buffer s') = length (waiting_buffer s) \<and> (tapping_bounded s \<longrightarrow> tapping_bounded s')"

definition bounded_result :: "'k tapping \<Rightarrow> bool \<times> keyrecord_t \<times> 'k tapping \<Rightarrow> bool" where
  "bounded_result s res \<longleftrightarrow> (case res of (_, r, s') \<Rightarrow> taps_fit r \<and> bounded_step s s')"

lemma ring_ok_updates [simp]:
  "ring_ok (s\<lparr>tapping_key := t\<rparr>) = ring_ok s" "ring_ok (s\<lparr>keyboard := k\<rparr>) = ring_ok s"
  "ring_ok (s\<lparr>waiting_buffer := (waiting_buffer s)[i := r]\<rparr>) = ring_ok s"
  by (simp_all add: ring_ok_def)

lemma bounded_updates [simp]:
  "tapping_bounded (s\<lparr>keyboard := k\<rparr>) = tapping_bounded s"
  "taps_fit t \<Longrightarrow> tapping_bounded s \<Longrightarrow> tapping_bounded (s\<lparr>tapping_key := t\<rparr>)"
  by (simp_all add: tapping_bounded_def)

lemma bounded_step_updates [simp]:
  "bounded_step s s" "bounded_step s (s'\<lparr>keyboard := k\<rparr>) = bounded_step s s'"
  "taps_fit t \<Longrightarrow> bounded_step s s' \<Longrightarrow> bounded_step s (s'\<lparr>tapping_key := t\<rparr>)"
  by (auto simp: bounded_step_def)

lemma bounded_step_trans: "bounded_step s s1 \<Longrightarrow> bounded_step s1 s2 \<Longrightarrow> bounded_step s s2"
  by (simp add: bounded_step_def)

lemma bounded_result_step: "bounded_step s s1 \<Longrightarrow> bounded_result s1 res \<Longrightarrow> bounded_result s res"
  by (auto simp: bounded_result_def intro: bounded_step_trans)

lemma taps_fit_updates [simp]:
  "taps_fit (r\<lparr>tap_count := 1\<rparr>)" "taps_fit (r\<lparr>tap_interrupted := b\<rparr>) = taps_fit r" "taps_fit no_record"
  "taps_fit (with_tap_of t r) = taps_fit t" "taps_fit (r\<lparr>ev_time := x, ev_pressed := p\<rparr>) = taps_fit r"
  "taps_fit (r\<lparr>tap_interrupted := b, tap_count := n\<rparr>) \<longleftrightarrow> n \<le> 15"
  by (simp_all add: taps_fit_def no_record_def with_tap_of_def)

lemma next_tap_fits: "n < 15 \<Longrightarrow> n + 1 \<le> (15 :: u8)"
  by (metis inc_le)

lemma keyp_bounded:
  assumes "counts_kept pr" "taps_fit r" "process_keyp pr r s = (r1, s1)"
  shows "taps_fit r1" "bounded_step s s1" "tapping_key s1 = tapping_key s"
proof -
  have "taps_fit (fst (pr r (keyboard s)))" using assms(1,2) by (simp add: counts_kept_def)
  then show "taps_fit r1" "bounded_step s s1" "tapping_key s1 = tapping_key s"
    using assms(3) by (auto simp: process_keyp_def split: prod.splits)
qed

lemma tapping_key_bounded:
  assumes "counts_kept pr" "taps_fit (tapping_key s)"
  shows "taps_fit (tapping_key (process_tapping_key pr s))" "bounded_step s (process_tapping_key pr s)"
proof -
  have "taps_fit (fst (pr (tapping_key s) (keyboard s)))" using assms by (simp add: counts_kept_def)
  then show "taps_fit (tapping_key (process_tapping_key pr s))" "bounded_step s (process_tapping_key pr s)"
    by (auto simp: process_tapping_key_def split: prod.splits)
qed

lemma settle_bounded:
  assumes "counts_kept pr" "taps_fit (tapping_key s)"
  shows "bounded_step s (settle_as_hold pr s)"
  using tapping_key_bounded(2) [OF assms] by (simp add: settle_as_hold_def)

lemma mark_tapped_bounded:
  "bounded_step s (s\<lparr>tapping_key := (tapping_key s)\<lparr>tap_count := 1\<rparr>,
    waiting_buffer := (waiting_buffer s)[i := (waiting_buffer s ! i)\<lparr>tap_count := 1\<rparr>]\<rparr>)"
  by (auto simp: bounded_step_def tapping_bounded_def ring_ok_def list_all_length nth_update)

lemma scan_bounded:
  assumes "counts_kept pr"
  shows "bounded_step s (waiting_buffer_scan_tap env pr s)"
proof -
  have "bounded_step s (process_tapping_key pr (s\<lparr>tapping_key := (tapping_key s)\<lparr>tap_count := 1\<rparr>,
    waiting_buffer := (waiting_buffer s)[i := (waiting_buffer s ! i)\<lparr>tap_count := 1\<rparr>]\<rparr>))" for i
    by (rule bounded_step_trans [OF mark_tapped_bounded tapping_key_bounded(2) [OF assms]]) simp
  then show ?thesis by (simp add: waiting_buffer_scan_tap_def split: option.split)
qed

lemma done_bounded:
  assumes "counts_kept pr" "taps_fit r"
  shows "bounded_result s (process_and_done pr r s)"
  using keyp_bounded [OF assms] by (auto simp: process_and_done_def bounded_result_def split: prod.split)

lemma starts_bounded:
  assumes "counts_kept pr" "taps_fit r"
  shows "bounded_result s (tapping_starts env pr r s)"
proof -
  have "bounded_step s (s\<lparr>tapping_key := r\<rparr>)" using assms(2) by simp
  then show ?thesis
    using bounded_step_trans [OF _ scan_bounded [OF assms(1), of _ env]] assms(2)
    by (simp add: tapping_starts_def bounded_result_def)
qed

lemma idle_bounded:
  assumes "counts_kept pr" "taps_fit r"
  shows "bounded_result s (tapping_idle env pr r s)"
  using done_bounded [OF assms, of s] starts_bounded [OF assms, of s env] assms(2)
  by (simp add: tapping_idle_def bounded_result_def)

lemma unsettled_bounded:
  assumes "counts_kept pr" "taps_fit r" "taps_fit (tapping_key s)"
  shows "bounded_result s (tapping_unsettled env pr r s)"
proof -
  define s1 where "s1 = s\<lparr>tapping_key := (tapping_key s)\<lparr>tap_count := 1\<rparr>\<rparr>"
  define s2 where "s2 = s\<lparr>tapping_key := (tapping_key s)\<lparr>tap_interrupted := True\<rparr>\<rparr>"
  have steps: "bounded_step s s1" "bounded_step s s2" and fit: "taps_fit (tapping_key s1)" "taps_fit (tapping_key s2)"
    using assms(3) by (simp_all add: s1_def s2_def)
  have "bounded_step s (process_tapping_key pr s1)" "bounded_step s (settle_as_hold pr s2)"
    using steps bounded_step_trans tapping_key_bounded(2) [OF assms(1) fit(1)] settle_bounded [OF assms(1) fit(2)] by blast+
  then show ?thesis
    using assms(2) steps(2) tapping_key_bounded(1) [OF assms(1) fit(1)] settle_bounded [OF assms(1,3)]
      done_bounded [OF assms(1,2), of s]
    by (simp add: tapping_unsettled_def Let_def bounded_result_def s1_def [symmetric] s2_def [symmetric] taps_fit_def)
qed

lemma restarts_bounded:
  assumes "counts_kept pr" "taps_fit r" "taps_fit (tapping_key s)"
  shows "bounded_result s (tapping_restarts env pr r s)"
proof -
  define s1 where "s1 = snd (process_keyp pr ((tapping_key s)\<lparr>ev_time := ev_time r, ev_pressed := False\<rparr>) s)"
  have "bounded_step s s1"
    using keyp_bounded(2) [OF assms(1)] assms(3) by (metis prod.collapse s1_def taps_fit_updates(5))
  then show ?thesis
    using starts_bounded [OF assms(1,2), of s env] bounded_result_step [OF _ starts_bounded [OF assms(1,2), of s1 env]]
    by (simp add: tapping_restarts_def s1_def [symmetric])
qed

lemma tap_release_bounded:
  assumes "counts_kept pr" "taps_fit (tapping_key s)" "process_keyp pr (with_tap_of (tapping_key s) r) s = (r1, s1)"
  shows "bounded_result s (True, r1, s1\<lparr>tapping_key := r1\<rparr>)" "bounded_result s (True, r1, s1\<lparr>tapping_key := no_record\<rparr>)"
  using keyp_bounded(1,2) [OF assms(1) _ assms(3)] assms(2) by (simp_all add: bounded_result_def)

lemma released_bounded:
  assumes "counts_kept pr" "taps_fit r" "taps_fit (tapping_key s)"
  shows "bounded_result s (tapping_released env pr r s)"
proof -
  define r2 where "r2 = (let r1 = with_tap_of (tapping_key s) r
    in if tap_count r1 < 15 then r1\<lparr>tap_count := tap_count r1 + 1\<rparr> else r1)"
  obtain r3 s1 where p: "process_keyp pr r2 s = (r3, s1)" by fastforce
  have "taps_fit r2"
    using assms(3) next_tap_fits by (auto simp: r2_def Let_def taps_fit_def with_tap_of_def)
  then have sequential: "bounded_result s (True, r3, s1\<lparr>tapping_key := r3\<rparr>)"
    using keyp_bounded(1,2) [OF assms(1) _ p] by (simp add: bounded_result_def)
  define s2 where "s2 = s\<lparr>tapping_key := (tapping_key s)\<lparr>tap_interrupted := True\<rparr>\<rparr>"
  have "bounded_step s s2" using assms(3) by (simp add: s2_def)
  then have interrupted: "bounded_result s (process_and_done pr r s2)"
    by (rule bounded_result_step [OF _ done_bounded [OF assms(1,2)]])
  have eq: "tapping_released env pr r s =
    (if \<not> WITHIN_TAPPING_TERM env r s then (False, r, s\<lparr>tapping_key := no_record\<rparr>)
     else if IS_NOEVENT r then (True, r, s)
     else if ev_pressed r
     then if IS_TAPPING_RECORD r s
       then if WITHIN_QUICK_TAP_TERM env r s \<and> \<not> tap_interrupted (tapping_key s) \<and> tap_count (tapping_key s) > 0
         then (True, r3, s1\<lparr>tapping_key := r3\<rparr>) else (True, r, s\<lparr>tapping_key := r\<rparr>)
       else if is_tap_record env r (keyboard s) then tapping_starts env pr r s else process_and_done pr r s2
     else process_and_done pr r s)"
    unfolding tapping_released_def Let_def p [unfolded r2_def Let_def] s2_def by simp
  show ?thesis unfolding eq
    using sequential interrupted done_bounded [OF assms(1,2), of s] starts_bounded [OF assms(1,2), of s env] assms(2)
    by (simp add: bounded_result_def)
qed

lemma process_tapping_bounded:
  assumes "counts_kept pr" "taps_fit r" "taps_fit (tapping_key s)"
  shows "bounded_result s (process_tapping env pr r s)"
proof -
  note restarts = restarts_bounded [OF assms, of env] and finish = done_bounded [OF assms(1,2), of s]
    and up = tap_release_bounded [OF assms(1,3), of r]
  have settled: "bounded_result s (tapping_settled env pr r s)"
    using restarts finish up by (auto simp: tapping_settled_def split: prod.split)
  have "bounded_result s (False, r, settle_as_hold pr s)" "bounded_result s (True, r, s)"
    using settle_bounded [OF assms(1,3)] assms(2) by (simp_all add: bounded_result_def)
  then have "bounded_result s (tapping_timed_out env pr r s)"
    using restarts finish up by (auto simp: tapping_timed_out_def split: prod.split)
  moreover have "bounded_result s (True, r, s)" using assms(2) by (simp add: bounded_result_def)
  ultimately show ?thesis
    using settled idle_bounded [OF assms(1,2), of s env] unsettled_bounded [OF assms, of env] released_bounded [OF assms, of env]
    by (simp add: process_tapping_def)
qed

section \<open>Runs\<close>

lemma pop_bounded: "tapping_bounded s \<Longrightarrow> tapping_bounded (waiting_buffer_pop s)"
  using ring.pop_ok [of s] by (simp add: tapping_bounded_def waiting_buffer_pop_def ring_ok_def)

lemma store_bounded: "tapping_bounded s \<Longrightarrow> taps_fit r \<Longrightarrow>
    tapping_bounded (s\<lparr>waiting_buffer := (waiting_buffer s)[i := r]\<rparr>)"
  by (auto simp: tapping_bounded_def ring_ok_def list_all_length nth_update)

lemma waiting_length:
  assumes "waiting_buffer_head s = waiting_buffer_head s'" "waiting_buffer_tail s = waiting_buffer_tail s'"
  shows "length (waiting s) = length (waiting s')"
  using assms by (simp add: waiting_def waiting_slots_def)

lemma process_waiting_returns:
  assumes "counts_kept pr"
  shows "tapping_bounded s \<Longrightarrow> length (waiting s) < fuel \<Longrightarrow>
    \<exists>s'. process_waiting fuel env pr s = Some s' \<and> tapping_bounded s'"
proof (induction fuel arbitrary: s)
  case (Suc fuel)
  show ?case
  proof (cases "waiting_buffer_tail s = waiting_buffer_head s")
    case False
    define i where "i = waiting_buffer_tail s"
    obtain consumed r s1 where p: "process_tapping env pr (waiting_buffer s ! i) s = (consumed, r, s1)"
      by (metis prod_cases3)
    have ok: "ring_ok s" "taps_fit (waiting_buffer s ! i)" "taps_fit (tapping_key s)"
      using Suc.prems(1) by (auto simp: tapping_bounded_def list_all_length ring_ok_def i_def)
    have "bounded_result s (consumed, r, s1)"
      using process_tapping_bounded [OF assms ok(2,3), of env] by (simp add: p)
    then have same: "waiting_buffer_head s1 = waiting_buffer_head s" "waiting_buffer_tail s1 = waiting_buffer_tail s"
      and s1: "tapping_bounded s1" and r: "taps_fit r"
      using Suc.prems(1) by (simp_all add: bounded_result_def bounded_step_def)
    define s2 where "s2 = s1\<lparr>waiting_buffer := (waiting_buffer s1)[i := r]\<rparr>"
    have s2: "tapping_bounded s2" unfolding s2_def by (rule store_bounded [OF s1 r])
    have "length (waiting (waiting_buffer_pop s2)) = length (waiting (waiting_buffer_pop s))"
      by (rule waiting_length) (simp_all add: s2_def waiting_buffer_pop_def same)
    then have "length (waiting (waiting_buffer_pop s2)) < fuel"
      using Suc.prems(2) waiting_front [OF ok(1) False] by simp
    then show ?thesis
      using Suc.IH [OF pop_bounded [OF s2]] s2 False by (simp add: p i_def [symmetric] s2_def [symmetric])
  qed (use Suc.prems in simp)
qed simp

lemma enqueue_bounded:
  assumes "tapping_bounded s" "taps_fit r"
  shows "tapping_bounded (enqueue_or_clear env r s)"
proof -
  have "tapping_bounded (snd (waiting_buffer_enq r s))"
    using ring.put_ok [of s r] store_bounded [OF assms] assms(1)
    by (auto simp: waiting_buffer_enq_def tapping_bounded_def ring_ok_def WAITING_BUFFER_SIZE_def)
  then show ?thesis
    by (auto simp: enqueue_or_clear_def tapping_bounded_def waiting_buffer_clear_def ring_ok_def
        WAITING_BUFFER_SIZE_def split: prod.split)
qed

lemma action_tapping_process_bounded:
  assumes "counts_kept pr" "tapping_bounded s" "taps_fit r"
  shows "\<exists>s'. action_tapping_process env pr r s = Some s' \<and> tapping_bounded s'"
proof -
  obtain consumed r1 s1 where p: "process_tapping env pr r s = (consumed, r1, s1)" by (metis prod_cases3)
  have "taps_fit (tapping_key s)" using assms(2) by (simp add: tapping_bounded_def)
  then have "bounded_result s (consumed, r1, s1)"
    using process_tapping_bounded [OF assms(1,3), of s env] by (simp add: p)
  then have "tapping_bounded s1" "taps_fit r1" using assms(2) by (simp_all add: bounded_result_def bounded_step_def)
  then have ok: "tapping_bounded (if consumed then s1 else enqueue_or_clear env r1 s1)"
    by (simp add: enqueue_bounded)
  then have "length (waiting (if consumed then s1 else enqueue_or_clear env r1 s1)) < WAITING_BUFFER_SIZE"
    using ring.items_bounded by (fastforce simp: tapping_bounded_def WAITING_BUFFER_SIZE_def)
  then show ?thesis
    using process_waiting_returns [OF assms(1) ok, of WAITING_BUFFER_SIZE env]
    by (simp add: action_tapping_process_def p)
qed

text \<open>A run: every event with the settings, the feature pipeline and the \<open>process_record\<close> of its moment.\<close>

fun exec_run :: "('e tap_env_scheme \<times> ('l::len, 'z) hook \<times> ('l, 'z) processor \<times> keyrecord_t) list \<Rightarrow> ('l, 'z) tp
    \<Rightarrow> ('l, 'z) tp option" where
  "exec_run [] s = Some s"
| "exec_run ((env, pre, pr, e) # es) s =
    (case action_exec env pre pr e s of None \<Rightarrow> None | Some s1 \<Rightarrow> exec_run es s1)"

definition tapping_start :: "'k \<Rightarrow> 'k tapping" where
  "tapping_start k = \<lparr>tapping_key = no_record, waiting_buffer = replicate WAITING_BUFFER_SIZE no_record,
    waiting_buffer_head = 0, waiting_buffer_tail = 0, keyboard = k\<rparr>"

lemma tapping_start_bounded: "tapping_bounded (tapping_start k)"
  by (simp add: tapping_bounded_def tapping_start_def ring_ok_def WAITING_BUFFER_SIZE_def list_all_length)

definition pre_keeps_counts :: "('l::len, 'z) hook \<Rightarrow> bool" where
  "pre_keeps_counts pre \<longleftrightarrow> (\<forall>r k. taps_fit r \<longrightarrow> taps_fit (fst (snd (pre r k))))"

lemma action_exec_bounded:
  assumes "counts_kept pr" "pre_keeps_counts pre" "tapping_bounded s"
  shows "\<exists>s'. action_exec env pre pr e s = Some s' \<and> tapping_bounded s'"
proof -
  define r where "r = e\<lparr>tap_interrupted := False, tap_count := 0, rec_keycode := 0\<rparr>"
  define k where "k = oneshot_timeouts env ((if ev_pressed e then clear_weak_mods else id) (retro_tap_event env e (keyboard s)))"
  have r: "taps_fit r" by (simp add: r_def taps_fit_def)
  obtain go r1 k1 where q: "pre r k = (go, r1, k1)" by (metis prod_cases3)
  have "taps_fit r1" using assms(2) r q unfolding pre_keeps_counts_def by (metis fst_conv snd_conv)
  then have run: "\<exists>s'. action_tapping_process env pr r1 (s\<lparr>keyboard := k1\<rparr>) = Some s' \<and> tapping_bounded s'"
    "\<exists>s'. action_tapping_process env pr r (s\<lparr>keyboard := k\<rparr>) = Some s' \<and> tapping_bounded s'"
    using assms(3) r by (auto intro!: action_tapping_process_bounded [OF assms(1)])
  have eq: "action_exec env pre pr e s = (if IS_NOEVENT r then action_tapping_process env pr r (s\<lparr>keyboard := k\<rparr>)
      else let (go, r1, k4) = pre r k
        in if go then action_tapping_process env pr r1 (s\<lparr>keyboard := k4\<rparr>) else Some (s\<lparr>keyboard := k4\<rparr>))"
    by (simp add: action_exec_def Let_def r_def k_def)
  show ?thesis using run assms(3) unfolding eq by (simp add: q)
qed

end
