(* ===== verification/Tapping_Events.thy ===== *)
theory Tapping_Events
  imports Tapping_Bounds Action_More
begin

unbundle bit_operations_syntax

text \<open>
  Bookkeeping of the tapping code: every event it receives is handed to \<open>process_record\<close> once, or still
  waits in \<open>tapping_key\<close> or in the ring. The records handed over are logged in the extension field of the
  keyboard state.
\<close>

section \<open>The books\<close>

definition logged :: "('l::len, keyrecord_t list) processor \<Rightarrow> ('l, keyrecord_t list) processor" where
  "logged pr r k = (let (r1, k1) = pr r k in (r1, act.more_update (\<lambda>log. log @ [r]) k1))"

text \<open>\<open>process_record\<close> may clear the pressed flag of its record (at the end of a one-shot layer).\<close>

definition keeps_record :: "('l::len, 'z) processor \<Rightarrow> bool" where
  "keeps_record pr \<longleftrightarrow> (\<forall>r k. fst (pr r k) = r \<or> fst (pr r k) = r\<lparr>ev_pressed := False\<rparr>) \<and>
    (\<forall>r k. act.more (snd (pr r k)) = act.more k)"

text \<open>A record without its tap state, and the three places where an event can be.\<close>

definition bare :: "keyrecord_t \<Rightarrow> keyrecord_t" where
  "bare r = r\<lparr>tap_interrupted := False, tap_count := 0\<rparr>"

definition handed :: "('l::len, keyrecord_t list) tp \<Rightarrow> keyrecord_t list" where
  "handed s = act.more (keyboard s)"

definition undecided :: "'k tapping \<Rightarrow> keyrecord_t list" where
  "undecided s = (let t = tapping_key s in if \<not> IS_NOEVENT t \<and> ev_pressed t \<and> tap_count t = 0 then [t] else [])"

definition books :: "('l::len, keyrecord_t list) tp \<Rightarrow> keyrecord_t multiset" where
  "books s = image_mset bare (mset (handed s @ undecided s))"

definition accounted :: "('l::len, keyrecord_t list) tp \<Rightarrow> keyrecord_t multiset" where
  "accounted s = books s + image_mset bare (mset (waiting s))"

text \<open>Waiting records are events, and presses have no taps yet.\<close>

definition fresh_record :: "keyrecord_t \<Rightarrow> bool" where
  "fresh_record r \<longleftrightarrow> \<not> IS_NOEVENT r \<and> (ev_pressed r \<longrightarrow> tap_count r = 0)"

definition tapping_ok :: "'k tapping \<Rightarrow> bool" where
  "tapping_ok s \<longleftrightarrow> ring_ok s \<and> (\<forall>r \<in> set (waiting s). fresh_record r)"

definition same_ring :: "'k tapping \<Rightarrow> 'k tapping \<Rightarrow> bool" where
  "same_ring s s' \<longleftrightarrow> waiting_buffer_head s' = waiting_buffer_head s \<and> waiting_buffer_tail s' = waiting_buffer_tail s \<and>
    length (waiting_buffer s') = length (waiting_buffer s) \<and> map bare (waiting s') = map bare (waiting s) \<and>
    (tapping_ok s \<longrightarrow> tapping_ok s')"

lemma same_ring_refl [simp]: "same_ring s s"
  by (simp add: same_ring_def)

lemma same_ring_trans: "same_ring s s1 \<Longrightarrow> same_ring s1 s2 \<Longrightarrow> same_ring s s2"
  by (simp add: same_ring_def)

lemma ring_field_updates [simp]:
  "waiting (s\<lparr>tapping_key := t\<rparr>) = waiting s" "waiting (s\<lparr>keyboard := k\<rparr>) = waiting s"
  "tapping_ok (s\<lparr>tapping_key := t\<rparr>) = tapping_ok s" "tapping_ok (s\<lparr>keyboard := k\<rparr>) = tapping_ok s"
  "same_ring s (s'\<lparr>tapping_key := t\<rparr>) = same_ring s s'" "same_ring s (s'\<lparr>keyboard := k\<rparr>) = same_ring s s'"
  "same_ring (s\<lparr>tapping_key := t\<rparr>) s' = same_ring s s'"
  by (simp_all add: waiting_def waiting_slots_def tapping_ok_def ring_ok_def same_ring_def)

lemma bare_updates [simp]:
  "bare (r\<lparr>tap_count := n\<rparr>) = bare r" "bare (r\<lparr>tap_interrupted := b\<rparr>) = bare r" "bare (with_tap_of t r) = bare r"
  "ev_pressed (bare r) = ev_pressed r" "ev_type (bare r) = ev_type r"
  by (simp_all add: bare_def with_tap_of_def)

lemma no_record_undecided [simp]: "undecided (s\<lparr>tapping_key := no_record\<rparr>) = []"
  by (simp add: undecided_def no_record_def IS_NOEVENT_def)

lemma handed_update [simp]: "handed (s\<lparr>tapping_key := t\<rparr>) = handed s"
  by (simp add: handed_def)

section \<open>Records handed over\<close>

lemma process_keyp_logs:
  assumes "keeps_record pr" "process_keyp (logged pr) r s = (r1, s1)"
  shows "handed s1 = handed s @ [r]" "tapping_key s1 = tapping_key s" "same_ring s s1"
    "r1 = r \<or> r1 = r\<lparr>ev_pressed := False\<rparr>"
proof -
  obtain r2 k2 where p: "pr r (keyboard s) = (r2, k2)" by fastforce
  then have "act.more k2 = act.more (keyboard s)" "r2 = r \<or> r2 = r\<lparr>ev_pressed := False\<rparr>"
    using assms(1) unfolding keeps_record_def by (metis fst_conv snd_conv)+
  then show "handed s1 = handed s @ [r]" "tapping_key s1 = tapping_key s" "same_ring s s1"
    "r1 = r \<or> r1 = r\<lparr>ev_pressed := False\<rparr>"
    using assms(2) p by (auto simp: process_keyp_def logged_def handed_def)
qed

lemma process_tapping_key_logs:
  assumes "keeps_record pr" "process_tapping_key (logged pr) s = s1"
  shows "handed s1 = handed s @ [tapping_key s]" "same_ring s s1"
    "tapping_key s1 = tapping_key s \<or> tapping_key s1 = (tapping_key s)\<lparr>ev_pressed := False\<rparr>"
proof -
  obtain r2 k2 where p: "pr (tapping_key s) (keyboard s) = (r2, k2)" by fastforce
  then have "act.more k2 = act.more (keyboard s)" "r2 = tapping_key s \<or> r2 = (tapping_key s)\<lparr>ev_pressed := False\<rparr>"
    using assms(1) unfolding keeps_record_def by (metis fst_conv snd_conv)+
  then show "handed s1 = handed s @ [tapping_key s]" "same_ring s s1"
    "tapping_key s1 = tapping_key s \<or> tapping_key s1 = (tapping_key s)\<lparr>ev_pressed := False\<rparr>"
    using assms(2) p by (auto simp: process_tapping_key_def logged_def handed_def)
qed

text \<open>What one call of \<open>process_tapping\<close> does to the books: a consumed event is entered, and synthetic
  releases may come in.\<close>

definition balanced :: "keyrecord_t \<Rightarrow> ('l::len, keyrecord_t list) tp \<Rightarrow> bool \<times> keyrecord_t \<times> ('l, keyrecord_t list) tp \<Rightarrow> bool" where
  "balanced r s res \<longleftrightarrow> (case res of (consumed, r', s') \<Rightarrow>
     same_ring s s' \<and> (\<not> consumed \<longrightarrow> bare r' = bare r \<and> (ev_pressed r \<longrightarrow> tap_count r' = tap_count r)) \<and>
     (\<exists>X. (\<forall>x \<in># X. \<not> ev_pressed x) \<and>
       books s' = books s + (if consumed \<and> \<not> IS_NOEVENT r then {#bare r#} else {#}) + X))"

lemma balancedI:
  assumes "same_ring s s'" "\<not> consumed \<Longrightarrow> bare r' = bare r \<and> (ev_pressed r \<longrightarrow> tap_count r' = tap_count r)"
    "books s' = books s + (if consumed \<and> \<not> IS_NOEVENT r then {#bare r#} else {#}) + X" "\<forall>x \<in># X. \<not> ev_pressed x"
  shows "balanced r s (consumed, r', s')"
  using assms by (auto simp: balanced_def)

lemmas balanced_plain = balancedI [where X = "{#}", simplified]

lemma done_balanced:
  assumes "keeps_record pr" "\<not> IS_NOEVENT r"
  shows "balanced r s (process_and_done (logged pr) r s)"
proof -
  obtain r1 s1 where p: "process_keyp (logged pr) r s = (r1, s1)" by fastforce
  have "books s1 = books s + {#bare r#}"
    using process_keyp_logs(1,2) [OF assms(1) p] by (simp add: books_def undecided_def)
  then show ?thesis using assms(2) process_keyp_logs(3) [OF assms(1) p]
    by (auto simp: process_and_done_def p intro!: balanced_plain)
qed

lemma settle_books:
  assumes "keeps_record pr" "undecided s = [tapping_key s]"
  shows "books (settle_as_hold (logged pr) s) = books s" "same_ring s (settle_as_hold (logged pr) s)"
  using process_tapping_key_logs(1,2) [OF assms(1) refl, of s] assms(2)
  by (simp_all add: settle_as_hold_def books_def)

lemma found: "find P xs = Some x \<Longrightarrow> P x"
  by (auto simp: find_Some_iff)

lemma mark_tapped_ring:
  assumes "\<not> ev_pressed (waiting_buffer s ! i)"
  shows "same_ring s (s\<lparr>tapping_key := t, waiting_buffer := (waiting_buffer s)[i := (waiting_buffer s ! i)\<lparr>tap_count := n\<rparr>]\<rparr>)"
proof -
  have w: "waiting (s\<lparr>tapping_key := t, waiting_buffer := (waiting_buffer s)[i := (waiting_buffer s ! i)\<lparr>tap_count := n\<rparr>]\<rparr>) =
      map (\<lambda>j. if i = j \<and> j < length (waiting_buffer s) then (waiting_buffer s ! i)\<lparr>tap_count := n\<rparr> else waiting_buffer s ! j)
        (waiting_slots s)"
    by (simp add: waiting_def waiting_slots_def nth_update)
  show ?thesis using assms unfolding same_ring_def w tapping_ok_def
    by (auto simp: waiting_def ring_ok_def fresh_record_def IS_NOEVENT_def)
qed

lemma scan_books:
  assumes "keeps_record pr" "\<not> IS_NOEVENT (tapping_key s)"
  shows "books (waiting_buffer_scan_tap env (logged pr) s) = books s \<and>
    same_ring s (waiting_buffer_scan_tap env (logged pr) s)"
proof (cases "waiting_buffer_scan_tap env (logged pr) s = s")
  case False
  then obtain i where i: "\<not> ev_pressed (waiting_buffer s ! i)"
    and open_key: "tap_count (tapping_key s) = 0" "ev_pressed (tapping_key s)"
    and scan: "waiting_buffer_scan_tap env (logged pr) s = process_tapping_key (logged pr)
      (s\<lparr>tapping_key := (tapping_key s)\<lparr>tap_count := 1\<rparr>,
         waiting_buffer := (waiting_buffer s)[i := (waiting_buffer s ! i)\<lparr>tap_count := 1\<rparr>]\<rparr>)"
    by (auto simp: waiting_buffer_scan_tap_def Let_def word_gt_0 dest: found split: if_splits option.splits)
  define s1 where "s1 = s\<lparr>tapping_key := (tapping_key s)\<lparr>tap_count := 1\<rparr>,
    waiting_buffer := (waiting_buffer s)[i := (waiting_buffer s ! i)\<lparr>tap_count := 1\<rparr>]\<rparr>"
  have ring: "same_ring s s1" unfolding s1_def by (rule mark_tapped_ring [OF i])
  define s2 where "s2 = process_tapping_key (logged pr) s1"
  have t: "tapping_key s1 = (tapping_key s)\<lparr>tap_count := 1\<rparr>" by (simp add: s1_def)
  have "undecided s2 = []" "undecided s = [tapping_key s]"
    using process_tapping_key_logs(3) [OF assms(1) s2_def [symmetric]] assms(2) open_key
    by (auto simp: undecided_def Let_def t)
  moreover have "handed s1 = handed s" by (simp add: s1_def handed_def)
  ultimately have "books s2 = books s"
    using process_tapping_key_logs(1) [OF assms(1) s2_def [symmetric]] by (simp add: books_def t)
  then show ?thesis
    using same_ring_trans [OF ring process_tapping_key_logs(2) [OF assms(1) s2_def [symmetric]]]
    by (simp add: scan s1_def [symmetric] s2_def [symmetric])
qed simp

lemma starts_balanced:
  assumes "keeps_record pr" "fresh_record r" "ev_pressed r" "undecided s = []"
  shows "balanced r s (tapping_starts env (logged pr) r s)"
proof -
  have ev: "\<not> IS_NOEVENT (tapping_key (s\<lparr>tapping_key := r\<rparr>))" using assms(2) by (simp add: fresh_record_def)
  have "books (s\<lparr>tapping_key := r\<rparr>) = books s + {#bare r#}"
    using assms(2-4) by (simp add: books_def fresh_record_def undecided_def)
  then show ?thesis
    using scan_books [OF assms(1) ev, of env] assms(2)
    by (auto simp: tapping_starts_def fresh_record_def intro!: balanced_plain)
qed

lemma idle_balanced:
  assumes "keeps_record pr" "IS_NOEVENT r \<or> fresh_record r" "IS_NOEVENT (tapping_key s)"
  shows "balanced r s (tapping_idle env (logged pr) r s)"
proof (cases "IS_NOEVENT r")
  case True
  then show ?thesis by (auto simp: tapping_idle_def intro: balanced_plain)
next
  case False
  have "undecided s = []" using assms(3) by (simp add: undecided_def)
  with False assms show ?thesis
    by (auto simp: tapping_idle_def intro: starts_balanced done_balanced)
qed

lemma unsettled_balanced:
  assumes "keeps_record pr" "fresh_record r" "undecided s = [tapping_key s]"
  shows "balanced r s (tapping_unsettled env (logged pr) r s)"
proof -
  have open_key: "\<not> IS_NOEVENT (tapping_key s)" "ev_pressed (tapping_key s)" "tap_count (tapping_key s) = 0"
    using assms(3) by (auto simp: undecided_def Let_def split: if_splits)
  define s0 where "s0 = s\<lparr>tapping_key := (tapping_key s)\<lparr>tap_count := 1\<rparr>\<rparr>"
  define s1 where "s1 = process_tapping_key (logged pr) s0"
  note l = process_tapping_key_logs [OF assms(1) s1_def [symmetric]]
  have "undecided s1 = []" using l(3) by (auto simp: undecided_def s0_def Let_def)
  then have "books s1 = books s" using l(1) assms(3) by (simp add: books_def s0_def)
  then have first: "balanced r s (False, r\<lparr>tap_interrupted := b, tap_count := n\<rparr>, s1)" if "\<not> ev_pressed r" for b n
    using l(2) that by (auto simp: s0_def intro!: balanced_plain)
  have "undecided (s\<lparr>tapping_key := (tapping_key s)\<lparr>tap_interrupted := True\<rparr>\<rparr>) =
      [(tapping_key s)\<lparr>tap_interrupted := True\<rparr>]"
    using open_key by (simp add: undecided_def IS_NOEVENT_def)
  then have other: "balanced r s (False, r, if b then settle_as_hold (logged pr) s2 else s2)"
    if "s2 = s\<lparr>tapping_key := (tapping_key s)\<lparr>tap_interrupted := True\<rparr>\<rparr>" for s2 b
    using settle_books [OF assms(1), of s2] assms(3) that
    by (auto simp: books_def handed_def intro!: balanced_plain)
  have hold: "balanced r s (False, r, settle_as_hold (logged pr) s)"
    using settle_books [OF assms(1,3)] by (simp add: balanced_plain)
  show ?thesis
    using first other hold done_balanced [OF assms(1)] assms(2) balanced_plain [of s s False r r]
    by (auto simp: tapping_unsettled_def Let_def fresh_record_def s0_def [symmetric] s1_def [symmetric])
qed

lemma restarts_balanced:
  assumes "keeps_record pr" "fresh_record r" "ev_pressed r" "undecided s = []"
  shows "balanced r s (tapping_restarts env (logged pr) r s)"
proof (cases "tap_count (tapping_key s) > 1")
  case True
  define up where "up = (tapping_key s)\<lparr>ev_time := ev_time r, ev_pressed := False\<rparr>"
  obtain r1 s1 where p: "process_keyp (logged pr) up s = (r1, s1)" by fastforce
  note l = process_keyp_logs [OF assms(1) p]
  have "undecided s1 = []" using assms(4) l(2) by (simp add: undecided_def)
  then have b: "balanced r s1 (tapping_starts env (logged pr) r s1)"
    by (rule starts_balanced [OF assms(1-3)])
  have books: "books s1 = books s + {#bare up#}" using l(1,2) by (simp add: books_def undecided_def)
  have "\<not> ev_pressed (bare up)" by (simp add: up_def)
  then show ?thesis
    using b l(3) True unfolding balanced_def tapping_restarts_def books up_def [symmetric] Let_def p
    by (auto simp: p split: prod.splits intro: same_ring_trans)
next
  case False
  then show ?thesis by (simp add: tapping_restarts_def starts_balanced [OF assms])
qed

text \<open>The release of the tapping key after taps; the key stays remembered or is forgotten.\<close>

lemma tap_release_balanced:
  assumes "keeps_record pr" "fresh_record r" "\<not> ev_pressed r" "undecided s = []"
    and p: "process_keyp (logged pr) (with_tap_of (tapping_key s) r) s = (r1, s1)"
  shows "balanced r s (True, r1, s1\<lparr>tapping_key := r1\<rparr>)" "balanced r s (True, r1, s1\<lparr>tapping_key := no_record\<rparr>)"
proof -
  note l = process_keyp_logs [OF assms(1) p]
  have "undecided (s1\<lparr>tapping_key := r1\<rparr>) = []" using l(4) assms(3) by (auto simp: undecided_def with_tap_of_def)
  then show "balanced r s (True, r1, s1\<lparr>tapping_key := r1\<rparr>)" "balanced r s (True, r1, s1\<lparr>tapping_key := no_record\<rparr>)"
    using l(1,3) assms(2,4) by (auto simp: books_def fresh_record_def intro!: balanced_plain)
qed

lemma settled_balanced:
  assumes "keeps_record pr" "fresh_record r" "undecided s = []"
  shows "balanced r s (tapping_settled env (logged pr) r s)"
  using assms
  by (auto simp: tapping_settled_def fresh_record_def intro: tap_release_balanced restarts_balanced done_balanced
      split: prod.split)

lemma timed_out_balanced:
  assumes "keeps_record pr" "IS_NOEVENT r \<or> fresh_record r" "\<not> IS_NOEVENT (tapping_key s)" "ev_pressed (tapping_key s)"
  shows "balanced r s (tapping_timed_out env (logged pr) r s)"
proof (cases "tap_count (tapping_key s) = 0")
  case True
  then have "undecided s = [tapping_key s]" using assms(3,4) by (simp add: undecided_def)
  then show ?thesis using True settle_books [OF assms(1)] by (auto simp: tapping_timed_out_def intro!: balanced_plain)
next
  case False
  then have "undecided s = []" by (simp add: undecided_def)
  then show ?thesis using False assms(1,2)
    by (auto simp: tapping_timed_out_def fresh_record_def split: prod.split
        intro: balanced_plain tap_release_balanced restarts_balanced done_balanced)
qed

lemma sequential_tap_balanced:
  assumes "keeps_record pr" "fresh_record r" "ev_pressed r" "undecided s = []"
    "bare r2 = bare r" "tap_count r2 \<noteq> 0" "process_keyp (logged pr) r2 s = (r3, s1)"
  shows "balanced r s (True, r3, s1\<lparr>tapping_key := r3\<rparr>)"
proof -
  note l = process_keyp_logs [OF assms(1,7)]
  have "undecided (s1\<lparr>tapping_key := r3\<rparr>) = []" using l(4) assms(6) by (auto simp: undecided_def)
  then show ?thesis using l(1,3) assms(2,4,5) by (auto simp: books_def fresh_record_def intro!: balanced_plain)
qed

lemma next_tap_count: "n < 15 \<Longrightarrow> n + 1 \<noteq> (0 :: u8)"
proof
  assume "n < 15" "n + 1 = 0"
  then have "n = - 1" by (simp add: eq_neg_iff_add_eq_0)
  with \<open>n < 15\<close> show False by simp
qed

lemma released_balanced:
  assumes "keeps_record pr" "IS_NOEVENT r \<or> fresh_record r" "\<not> ev_pressed (tapping_key s)"
  shows "balanced r s (tapping_released env (logged pr) r s)"
proof -
  have idle: "undecided s = []" using assms(3) by (simp add: undecided_def)
  have reset: "balanced r s (False, r, s\<lparr>tapping_key := no_record\<rparr>)"
    using idle by (auto simp: books_def intro!: balanced_plain)
  have again: "balanced r s (True, r, s\<lparr>tapping_key := r\<rparr>)" if "ev_pressed r" "fresh_record r"
    using idle that by (auto simp: books_def fresh_record_def undecided_def intro!: balanced_plain)
  have other: "balanced r s (process_and_done (logged pr) r (s\<lparr>tapping_key := (tapping_key s)\<lparr>tap_interrupted := True\<rparr>\<rparr>))"
    if "\<not> IS_NOEVENT r"
    using done_balanced [OF assms(1) that, of "s\<lparr>tapping_key := (tapping_key s)\<lparr>tap_interrupted := True\<rparr>\<rparr>"] assms(3)
    by (simp add: balanced_def books_def undecided_def idle [unfolded undecided_def])
  define r2 where "r2 = (let r1 = with_tap_of (tapping_key s) r
    in if tap_count r1 < 15 then r1\<lparr>tap_count := tap_count r1 + 1\<rparr> else r1)"
  obtain r3 s1 where p: "process_keyp (logged pr) r2 s = (r3, s1)" by fastforce
  have "tap_count r2 \<noteq> 0" if "tap_count (tapping_key s) > 0"
    using that next_tap_count by (auto simp: r2_def Let_def with_tap_of_def word_gt_0)
  then have sequential: "balanced r s (True, r3, s1\<lparr>tapping_key := r3\<rparr>)"
    if "tap_count (tapping_key s) > 0" "fresh_record r" "ev_pressed r"
    using that by (intro sequential_tap_balanced [OF assms(1) _ _ idle _ _ p]) (auto simp: r2_def Let_def)
  show ?thesis
    using assms(1,2) idle reset again other sequential
    unfolding tapping_released_def r2_def [symmetric] Let_def
    by (auto simp: p fresh_record_def intro: balanced_plain starts_balanced done_balanced simp flip: r2_def [unfolded Let_def])
qed

lemma process_tapping_balanced:
  assumes "keeps_record pr" "IS_NOEVENT r \<or> fresh_record r"
  shows "balanced r s (process_tapping env (logged pr) r s)"
proof -
  have "balanced r s (tapping_unsettled env (logged pr) r s)"
    if "fresh_record r" "\<not> IS_NOEVENT (tapping_key s)" "ev_pressed (tapping_key s)" "tap_count (tapping_key s) = 0"
    by (rule unsettled_balanced [OF assms(1) that(1)]) (simp add: undecided_def that)
  moreover have "balanced r s (tapping_settled env (logged pr) r s)"
    if "fresh_record r" "tap_count (tapping_key s) \<noteq> 0"
    by (rule settled_balanced [OF assms(1) that(1)]) (simp add: undecided_def that)
  ultimately show ?thesis using assms
    by (auto simp: process_tapping_def intro: balanced_plain idle_balanced timed_out_balanced released_balanced)
qed

section \<open>The loop over the waiting records\<close>

text \<open>The front record is processed in its slot.\<close>

lemma store_front:
  assumes "tapping_ok s" "waiting_buffer_tail s \<noteq> waiting_buffer_head s"
  shows "waiting (s\<lparr>waiting_buffer := (waiting_buffer s)[waiting_buffer_tail s := r]\<rparr>) = r # waiting (waiting_buffer_pop s)"
proof -
  have ok: "ring_ok s" using assms(1) by (simp add: tapping_ok_def)
  have slots: "waiting_slots s = waiting_buffer_tail s # waiting_slots (waiting_buffer_pop s)"
    by (rule slots_pop [OF ok assms(2)])
  then have "waiting_buffer_tail s \<notin> set (waiting_slots (waiting_buffer_pop s))"
    using distinct_slots [OF ok] by simp
  then have "map (\<lambda>j. (waiting_buffer s)[waiting_buffer_tail s := r] ! j) (waiting_slots (waiting_buffer_pop s)) =
      map (\<lambda>j. waiting_buffer s ! j) (waiting_slots (waiting_buffer_pop s))"
    by (auto simp: nth_update)
  moreover have "waiting_slots (s\<lparr>waiting_buffer := b\<rparr>) = waiting_slots s" for b by (simp add: waiting_slots_def)
  ultimately show ?thesis
    using ok by (simp add: waiting_def slots ring_ok_def waiting_buffer_pop_def)
qed

lemma pop_of_store: "waiting (waiting_buffer_pop (s\<lparr>waiting_buffer := (waiting_buffer s)[waiting_buffer_tail s := r]\<rparr>)) =
    waiting (waiting_buffer_pop s)" if "tapping_ok s" "waiting_buffer_tail s \<noteq> waiting_buffer_head s"
  using store_front [OF that, of r] waiting_front [of "s\<lparr>waiting_buffer := (waiting_buffer s)[waiting_buffer_tail s := r]\<rparr>"] that
  by (simp add: tapping_ok_def)

lemma books_of_ring [simp]:
  "books (s\<lparr>waiting_buffer := b\<rparr>) = books s" "books (waiting_buffer_pop s) = books s"
  by (simp_all add: books_def handed_def undecided_def waiting_buffer_pop_def)

lemma bare_fresh: "bare r' = bare r \<Longrightarrow> ev_pressed r \<longrightarrow> tap_count r' = tap_count r \<Longrightarrow> fresh_record r \<Longrightarrow> fresh_record r'"
  by (metis bare_updates(4,5) fresh_record_def IS_NOEVENT_def)

definition releases :: "keyrecord_t multiset \<Rightarrow> bool" where
  "releases X \<longleftrightarrow> (\<forall>x \<in># X. \<not> ev_pressed x)"

lemma releases_add [intro]: "releases X \<Longrightarrow> releases Y \<Longrightarrow> releases (X + Y)"
  by (auto simp: releases_def)

lemma process_waiting_accounts:
  assumes "keeps_record pr"
  shows "tapping_ok s \<Longrightarrow> process_waiting fuel env (logged pr) s = Some s' \<Longrightarrow>
    tapping_ok s' \<and> (\<exists>X. releases X \<and> accounted s' = accounted s + X)"
proof (induction fuel arbitrary: s)
  case (Suc fuel)
  show ?case
  proof (cases "waiting_buffer_tail s = waiting_buffer_head s")
    case True
    then show ?thesis using Suc.prems by (auto simp: releases_def intro!: exI [of _ "{#}"])
  next
    case False
    define i f where "i = waiting_buffer_tail s" and "f = waiting_buffer s ! i"
    obtain consumed r s1 where p: "process_tapping env (logged pr) f s = (consumed, r, s1)" by (metis prod_cases3)
    have front: "waiting s = f # waiting (waiting_buffer_pop s)"
      using waiting_front [of s] Suc.prems(1) False by (simp add: tapping_ok_def f_def i_def)
    then have f: "fresh_record f" using Suc.prems(1) by (simp add: tapping_ok_def)
    have "balanced f s (consumed, r, s1)"
      using process_tapping_balanced [OF assms, of f s env] f by (simp add: p)
    then obtain X where X: "releases X" "books s1 = books s + (if consumed then {#bare f#} else {#}) + X"
      and same: "same_ring s s1" and r: "\<not> consumed \<longrightarrow> bare r = bare f \<and> (ev_pressed f \<longrightarrow> tap_count r = tap_count f)"
      using f by (auto simp: balanced_def releases_def fresh_record_def)
    have ok: "tapping_ok s1" and ring: "waiting_buffer_tail s1 = i" "waiting_buffer_tail s1 \<noteq> waiting_buffer_head s1"
      using same Suc.prems(1) False by (simp_all add: same_ring_def i_def)
    define s2 where "s2 = s1\<lparr>waiting_buffer := (waiting_buffer s1)[i := r]\<rparr>"
    have rest: "waiting s1 = waiting_buffer s1 ! i # waiting (waiting_buffer_pop s1)"
      "waiting s2 = r # waiting (waiting_buffer_pop s1)" "waiting (waiting_buffer_pop s2) = waiting (waiting_buffer_pop s1)"
      using store_front [OF ok ring(2)] pop_of_store [OF ok ring(2)] waiting_front [of s1] ok ring
      by (simp_all add: s2_def tapping_ok_def)
    have bares: "map bare (waiting (waiting_buffer_pop s1)) = map bare (waiting (waiting_buffer_pop s))"
      using same front rest(1) by (simp add: same_ring_def)
    have ring2: "ring_ok s2" using ok by (simp add: s2_def tapping_ok_def)
    show ?thesis
    proof (cases consumed)
      case True
      have "tapping_ok (waiting_buffer_pop s2)"
        using ring.pop_ok [OF ring2] ok rest by (simp add: tapping_ok_def)
      moreover have "process_waiting fuel env (logged pr) (waiting_buffer_pop s2) = Some s'"
        using Suc.prems(2) False True p by (simp add: f_def i_def s2_def)
      ultimately obtain Y where "tapping_ok s'" "releases Y" "accounted s' = accounted (waiting_buffer_pop s2) + Y"
        using Suc.IH by blast
      moreover have "accounted (waiting_buffer_pop s2) = accounted s + X"
        using True X(2) front rest(3) arg_cong [OF bares, of mset] by (simp add: accounted_def s2_def)
      ultimately show ?thesis using releases_add [OF X(1)] by (metis add.assoc)
    next
      case no: False
      have "s' = s2" using Suc.prems(2) False no p by (simp add: f_def i_def s2_def)
      moreover have "fresh_record r" using bare_fresh r no f by blast
      moreover have "accounted s2 = accounted s + X"
        using no r X(2) front rest(2) arg_cong [OF bares, of mset] by (simp add: accounted_def s2_def)
      ultimately show ?thesis
        using X(1) ring2 rest ok by (auto simp: tapping_ok_def)
    qed
  qed
qed simp

end
