(* ===== verification/Tapping_Run.thy ===== *)
theory Tapping_Run
  imports Tapping_Events
begin

unbundle bit_operations_syntax

text \<open>
  Runs of the tapping code: its bounds, the conservation of events, and the decision between tap and hold for
  a single key, with \<open>process_record\<close> of \<open>Action\<close> as a processor.
\<close>

section \<open>The processor of the model\<close>

text \<open>\<open>process_record\<close> with fuel for its one recursive call, so that \<open>None\<close> does not occur.\<close>

definition processor_of :: "'e act_env_scheme \<Rightarrow> ('l::len, 'z) hook \<Rightarrow> (keyrecord_t \<Rightarrow> ('l, 'z) ks \<Rightarrow> ('l, 'z) ks)
    \<Rightarrow> ('l, 'z) processor" where
  "processor_of env quantum post r k = (case process_record 2 env quantum post r k of Some x \<Rightarrow> x | None \<Rightarrow> (r, k))"

lemma processor_is_process_record:
  assumes "hook_keeps quantum"
  shows "process_record 2 env quantum post r k = Some (processor_of env quantum post r k)"
proof -
  have "keeps_release quantum" using assms by (simp add: keeps_release_def hook_keeps_def)
  then show ?thesis using process_record_total [of quantum env post r k] by (auto simp: processor_of_def)
qed

lemma processor_keeps_record:
  assumes "hook_keeps quantum" "\<forall>r s. act.more (post r s) = act.more s"
  shows "keeps_record (processor_of env quantum post)"
  using process_record_keeps [OF assms, of 2 env] processor_is_process_record [OF assms(1), of env post]
  by (metis keeps_record_def prod.collapse)

lemma keeps_record_counts: "keeps_record pr \<Longrightarrow> counts_kept pr"
  by (metis counts_kept_def keeps_record_def keyrecord_t.select_convs(6) keyrecord_t.surjective
      keyrecord_t.update_convs(4) taps_fit_def)

lemma plain_hook_keeps_all: "hook_keeps plain_hook" "pre_keeps_counts plain_hook"
  by (simp_all add: hook_keeps_def pre_keeps_counts_def plain_hook_def)

abbreviation plain_processor :: "('l::len, 'z) processor" where
  "plain_processor \<equiv> processor_of plain_env plain_hook (\<lambda>r s. s)"

lemma plain_processor_keeps: "keeps_record plain_processor"
  by (rule processor_keeps_record [OF plain_hook_keeps_all(1)]) simp

text \<open>The settings of the witnesses: a term of 200 ms for every key.\<close>

definition plain_tap_env :: tap_env where
  "plain_tap_env = act_env.extend plain_env \<lparr>tapping_term_at = (\<lambda>_ _. 200), quick_tap_term_at = (\<lambda>_ _. 200),
    permissive_hold_at = (\<lambda>_ _. False), hold_on_other_key_press_at = (\<lambda>_ _. False)\<rparr>"

section \<open>Bounds\<close>

text \<open>C24: for every sequence of events and every behaviour of the features and of \<open>process_record\<close> that keeps
  the tap count of a record in its four bits, \<open>action_exec\<close> returns, the indices of the ring of waiting records
  stay inside it, and no tap count exceeds 15.\<close>

theorem tapping_stays_in_bounds:
  assumes "\<forall>(env, pre, pr, e) \<in> set es. pre_keeps_counts pre \<and> counts_kept pr"
  shows "\<exists>s. exec_run es (tapping_start k) = Some s \<and>
    waiting_buffer_head s < WAITING_BUFFER_SIZE \<and> waiting_buffer_tail s < WAITING_BUFFER_SIZE \<and>
    length (waiting_buffer s) = WAITING_BUFFER_SIZE \<and>
    (\<forall>r \<in> insert (tapping_key s) (set (waiting_buffer s)). tap_count r \<le> 15)"
proof -
  have run: "tapping_bounded s0 \<Longrightarrow> \<exists>s. exec_run es s0 = Some s \<and> tapping_bounded s" for s0 :: "('b, 'c) tp"
    using assms
  proof (induction es arbitrary: s0)
    case (Cons x es)
    obtain env pre pr e where x: "x = (env, pre, pr, e)" by (metis prod_cases4)
    obtain s1 where "action_exec env pre pr e s0 = Some s1" "tapping_bounded s1"
      using action_exec_bounded [OF _ _ Cons.prems(1), of pr pre env e] Cons.prems(2) by (auto simp: x)
    then show ?case using Cons.IH [of s1] Cons.prems(2) by (simp add: x)
  qed simp
  obtain s where "exec_run es (tapping_start k) = Some s" "tapping_bounded s"
    using run [OF tapping_start_bounded [of k]] by blast
  then show ?thesis by (auto simp: tapping_bounded_def ring_ok_def list_all_iff taps_fit_def)
qed

theorem tapping_stays_in_bounds_witness:
  "\<exists>s. exec_run [(plain_tap_env, plain_hook, plain_processor, key_record 0 True),
      (plain_tap_env, plain_hook, plain_processor, key_record 0 False)] (tapping_start (kbd_start 0 fresh_layers)) = Some s \<and>
    waiting_buffer_head s < WAITING_BUFFER_SIZE"
proof -
  have "\<exists>s. exec_run [(plain_tap_env, plain_hook, plain_processor, key_record 0 True),
      (plain_tap_env, plain_hook, plain_processor, key_record 0 False)] (tapping_start (kbd_start 0 fresh_layers)) = Some s \<and>
    waiting_buffer_head s < WAITING_BUFFER_SIZE \<and> waiting_buffer_tail s < WAITING_BUFFER_SIZE \<and>
    length (waiting_buffer s) = WAITING_BUFFER_SIZE \<and>
    (\<forall>r \<in> insert (tapping_key s) (set (waiting_buffer s)). tap_count r \<le> 15)"
    by (rule tapping_stays_in_bounds)
      (simp add: plain_hook_keeps_all(2) keeps_record_counts [OF plain_processor_keeps])
  then show ?thesis by blast
qed

section \<open>No event is lost\<close>

text \<open>A record that finds the ring full makes the code drop everything.\<close>

definition overflows :: "'e tap_env_scheme \<Rightarrow> ('l::len, 'z) processor \<Rightarrow> keyrecord_t \<Rightarrow> ('l, 'z) tp \<Rightarrow> bool" where
  "overflows env pr r s = (let (consumed, r1, s1) = process_tapping env pr r s
     in \<not> consumed \<and> \<not> fst (waiting_buffer_enq r1 s1))"

inductive tapping_run ::
    "('e tap_env_scheme \<times> ('l::len, keyrecord_t list) processor \<times> keyrecord_t) list
      \<Rightarrow> ('l, keyrecord_t list) tp \<Rightarrow> ('l, keyrecord_t list) tp \<Rightarrow> bool" where
  run_nil: "tapping_run [] s s"
| run_snoc: "tapping_run es s s1 \<Longrightarrow> \<not> overflows env (logged pr) r s1 \<Longrightarrow>
    action_tapping_process env (logged pr) r s1 = Some s2 \<Longrightarrow> tapping_run (es @ [(env, pr, r)]) s s2"

definition received :: "('a \<times> 'b \<times> keyrecord_t) list \<Rightarrow> keyrecord_t multiset" where
  "received es = image_mset bare (mset (filter (\<lambda>r. \<not> IS_NOEVENT r) (map (\<lambda>(_, _, r). r) es)))"

lemma action_tapping_process_accounts:
  assumes "keeps_record pr" "IS_NOEVENT r \<or> fresh_record r" "tapping_ok s" "\<not> overflows env (logged pr) r s"
    "action_tapping_process env (logged pr) r s = Some s'"
  shows "tapping_ok s' \<and> (\<exists>X. releases X \<and> accounted s' = accounted s + (if IS_NOEVENT r then {#} else {#bare r#}) + X)"
proof -
  obtain consumed r1 s1 where p: "process_tapping env (logged pr) r s = (consumed, r1, s1)" by (metis prod_cases3)
  define s2 where "s2 = (if consumed then s1 else enqueue_or_clear env r1 s1)"
  have "balanced r s (consumed, r1, s1)"
    using process_tapping_balanced [OF assms(1,2), of s env] by (simp add: p)
  then obtain X where X: "releases X" "books s1 = books s + (if consumed \<and> \<not> IS_NOEVENT r then {#bare r#} else {#}) + X"
    and same: "same_ring s s1" and r1: "\<not> consumed \<Longrightarrow> bare r1 = bare r \<and> (ev_pressed r \<longrightarrow> tap_count r1 = tap_count r)"
    by (auto simp: balanced_def releases_def)
  have s1: "tapping_ok s1" "mset (map bare (waiting s1)) = mset (map bare (waiting s))"
    using same assms(3) by (simp_all add: same_ring_def del: mset_map)
  have "tapping_ok s2 \<and> accounted s2 = accounted s + (if IS_NOEVENT r then {#} else {#bare r#}) + X"
  proof (cases consumed)
    case True
    then show ?thesis using s1 X(2) by (simp add: s2_def accounted_def)
  next
    case False
    have enq: "fst (waiting_buffer_enq r1 s1)" using assms(4) False by (simp add: overflows_def p)
    then have s2: "s2 = snd (waiting_buffer_enq r1 s1)"
      using False by (cases "waiting_buffer_enq r1 s1") (simp add: s2_def enqueue_or_clear_def)
    have ring1: "ring_ok s1" using s1(1) by (simp add: tapping_ok_def)
    have event: "IS_NOEVENT r1 = IS_NOEVENT r" using r1 [OF False] by (metis IS_NOEVENT_def bare_updates(5))
    have "fresh_record r1" if "\<not> IS_NOEVENT r1" using r1 [OF False] assms(2) that event bare_fresh by blast
    then have "tapping_ok s2"
      using ring.put_ok [OF ring1, of r1] ring.put_items [OF ring1 _ enq] ring.put_skips [of r1 s1] s1(1)
      by (cases "IS_NOEVENT r1") (auto simp: s2 tapping_ok_def)
    moreover have "books s2 = books s1"
      by (simp add: s2 waiting_buffer_enq_def books_def handed_def undecided_def)
    ultimately show ?thesis
      using ring.put_mset [OF ring1 enq] s1(2) X(2) r1 [OF False] False event by (simp add: s2 accounted_def)
  qed
  moreover have "process_waiting WAITING_BUFFER_SIZE env (logged pr) s2 = Some s'"
    using assms(5) by (simp add: action_tapping_process_def p s2_def)
  ultimately obtain Y where "tapping_ok s'" "releases Y"
    "accounted s' = accounted s + (if IS_NOEVENT r then {#} else {#bare r#}) + X + Y"
    using process_waiting_accounts [OF assms(1)] by metis
  then show ?thesis using releases_add [OF X(1)] by (metis add.assoc)
qed

lemma tapping_run_accounts:
  assumes "tapping_run es s s'" "tapping_ok s" "\<forall>(env, pr, r) \<in> set es. keeps_record pr \<and> (IS_NOEVENT r \<or> fresh_record r)"
  shows "tapping_ok s' \<and> (\<exists>X. releases X \<and> accounted s' = accounted s + received es + X)"
  using assms
proof (induction rule: tapping_run.induct)
  case (run_nil s)
  then show ?case by (auto simp: received_def releases_def intro!: exI [of _ "{#}"])
next
  case (run_snoc es s s1 env pr r s2)
  then obtain X where X: "tapping_ok s1" "releases X" "accounted s1 = accounted s + received es + X" by auto
  obtain Y where "tapping_ok s2" "releases Y"
    "accounted s2 = accounted s1 + (if IS_NOEVENT r then {#} else {#bare r#}) + Y"
    using action_tapping_process_accounts [OF _ _ X(1) run_snoc.hyps(2,3)] run_snoc.prems by auto
  moreover have "received (es @ [(env, pr, r)]) = received es + (if IS_NOEVENT r then {#} else {#bare r#})"
    by (simp add: received_def)
  ultimately have "accounted s2 = accounted s + received (es @ [(env, pr, r)]) + (X + Y)"
    using X(3) by simp
  then show ?case using \<open>tapping_ok s2\<close> releases_add [OF X(2) \<open>releases Y\<close>] by blast
qed

lemma waiting_start: "waiting (tapping_start k) = []"
  by (simp add: waiting_def waiting_slots_def tapping_start_def)

lemma tapping_start_ok: "tapping_ok (tapping_start k)" "undecided (tapping_start k) = []"
  using tapping_start_bounded [of k]
  by (simp_all add: tapping_ok_def waiting_start tapping_bounded_def)
    (simp add: tapping_start_def undecided_def no_record_def IS_NOEVENT_def)

text \<open>C22: in every run without an overflow of the ring, whatever the settings and whatever \<open>process_record\<close> does,
  the events received are, up to their tap state, exactly the records handed to \<open>process_record\<close>, the key whose
  tap or hold is open and the records that wait, save for additional releases: no key event is lost, no press
  is processed twice, and at most seven records wait.\<close>

theorem no_key_event_is_lost:
  assumes "tapping_run es (tapping_start k) s" "act.more k = []"
    "\<forall>(env, pr, r) \<in> set es. keeps_record pr \<and> (IS_NOEVENT r \<or> fresh_record r)"
  shows "length (waiting s) \<le> 7 \<and> (\<exists>X. (\<forall>x \<in># X. \<not> ev_pressed x) \<and>
    image_mset bare (mset (handed s @ undecided s @ waiting s)) = received es + X)"
proof -
  have "accounted (tapping_start k) = {#}"
    using tapping_start_ok(2) [of k] waiting_start [of k] assms(2) by (simp add: accounted_def books_def handed_def tapping_start_def)
  then show ?thesis
    using tapping_run_accounts [OF assms(1) tapping_start_ok(1) assms(3)] ring.items_bounded [of s]
    by (auto simp: accounted_def books_def releases_def tapping_ok_def ac_simps)
qed

section \<open>Keys that are not tap keys\<close>

text \<open>An empty ring, and a record that goes through it.\<close>

definition ring_empty :: "'k tapping \<Rightarrow> bool" where
  "ring_empty s \<longleftrightarrow> ring_ok s \<and> waiting_buffer_tail s = waiting_buffer_head s"

lemma process_waiting_empty: "ring_empty s \<Longrightarrow> process_waiting WAITING_BUFFER_SIZE env pr s = Some s"
  by (simp add: ring_empty_def WAITING_BUFFER_SIZE_def eval_nat_numeral)

lemma process_waiting_unfold: "0 < fuel \<Longrightarrow> process_waiting fuel env pr s =
    (if waiting_buffer_tail s = waiting_buffer_head s then Some s
     else let i = waiting_buffer_tail s; (consumed, r, s1) = process_tapping env pr (waiting_buffer s ! i) s;
              s2 = s1\<lparr>waiting_buffer := (waiting_buffer s1)[i := r]\<rparr>
          in if consumed then process_waiting (fuel - 1) env pr (waiting_buffer_pop s2) else Some s2)"
  using process_waiting.simps(2) [of "fuel - 1" env pr s] by (simp only: Suc_pred' [symmetric])

lemma ring_empty_updates [simp]:
  "ring_empty (s\<lparr>tapping_key := t\<rparr>) = ring_empty s" "ring_empty (s\<lparr>keyboard := k\<rparr>) = ring_empty s"
  by (simp_all add: ring_empty_def)

lemma ring_empty_start: "ring_empty (tapping_start k)"
  using tapping_start_bounded [of k] by (simp add: ring_empty_def tapping_bounded_def) (simp add: tapping_start_def)

lemma consumed_at_once:
  assumes "process_tapping env pr r s = (True, r', s')" "ring_empty s'"
  shows "action_tapping_process env pr r s = Some s'"
  using assms by (simp add: action_tapping_process_def process_waiting_empty)

lemma plain_key_passes:
  assumes "IS_NOEVENT (tapping_key s)" "ring_empty s" "\<not> (ev_pressed r \<and> is_tap_record env r (keyboard s))"
    "\<not> IS_NOEVENT r"
  shows "process_tapping env pr r s = (True, fst (pr r (keyboard s)), s\<lparr>keyboard := snd (pr r (keyboard s))\<rparr>) \<and>
    action_tapping_process env pr r s = Some (s\<lparr>keyboard := snd (pr r (keyboard s))\<rparr>)"
proof -
  have p: "process_tapping env pr r s = (True, fst (pr r (keyboard s)), s\<lparr>keyboard := snd (pr r (keyboard s))\<rparr>)"
    using assms(1,3,4) by (auto simp: process_tapping_def tapping_idle_def process_and_done_def process_keyp_def split: prod.split)
  then show ?thesis using consumed_at_once [OF p] assms(2) by simp
qed

text \<open>The press and the release of the basic keycode 4, given by the records themselves.\<close>

definition letter :: "bool \<Rightarrow> keyrecord_t" where
  "letter pressed = (key_record 0 pressed)\<lparr>rec_keycode := 4\<rparr>"

lemma letter_facts:
  "\<not> IS_NOEVENT (letter p)" "ev_pressed (letter p) = p" "fresh_record (letter p)"
  by (simp_all add: letter_def key_record_def IS_NOEVENT_def fresh_record_def)

lemma plain_actions: "\<not> is_tap_action (action_for_keycode 0 4)" "is_tap_action (action_for_keycode 0 0x2204)"
  by code_simp+

lemma letter_is_no_tap_key: "\<not> is_tap_record plain_tap_env (letter True) (kbd_start 0 fresh_layers)"
  by (simp add: is_tap_record_def letter_facts) (simp add: letter_def key_record_def kbd_start_def plain_actions)

definition logging_processor :: "(8, keyrecord_t list) processor" where
  "logging_processor = plain_processor"

lemma logging_processor_keeps: "keeps_record logging_processor"
  unfolding logging_processor_def by (rule plain_processor_keeps)

theorem no_key_event_is_lost_witness:
  "\<exists>s X. tapping_run [(plain_tap_env, logging_processor, letter True), (plain_tap_env, logging_processor, letter False)]
      (tapping_start (act.extend (kbd_start 0 fresh_layers) [])) s \<and>
    image_mset bare (mset (handed s @ undecided s @ waiting s)) =
      {#bare (letter True), bare (letter False)#} + X"
proof -
  define s0 where "s0 = tapping_start (act.extend (kbd_start 0 fresh_layers) ([] :: keyrecord_t list))"
  have k0: "keymap_config (keyboard s0) = 0" "act.more (keyboard s0) = []"
    by (simp_all add: s0_def tapping_start_def act.defs kbd_start_def)
  have idle0: "IS_NOEVENT (tapping_key s0)" "ring_empty s0"
    unfolding s0_def by (simp_all only: ring_empty_start) (simp add: tapping_start_def no_record_def IS_NOEVENT_def)
  have "\<not> (ev_pressed (letter True) \<and> is_tap_record plain_tap_env (letter True) (keyboard s0))"
    by (simp add: is_tap_record_def letter_facts) (simp add: letter_def key_record_def k0 plain_actions)
  note step1 = plain_key_passes [OF idle0 this, of "logged logging_processor"]
  define s1 where "s1 = s0\<lparr>keyboard := snd (logged logging_processor (letter True) (keyboard s0))\<rparr>"
  have idle1: "IS_NOEVENT (tapping_key s1)" "ring_empty s1" using idle0 by (simp_all add: s1_def)
  have "\<not> (ev_pressed (letter False) \<and> is_tap_record plain_tap_env (letter False) (keyboard s1))"
    by (simp add: letter_facts)
  note step2 = plain_key_passes [OF idle1 this, of "logged logging_processor"]
  have "tapping_run [(plain_tap_env, logging_processor, letter True)] s0 s1"
    using run_snoc [OF run_nil, of plain_tap_env logging_processor "letter True" s0 s1] step1
    by (simp add: letter_facts overflows_def s1_def)
  then obtain s2 where run: "tapping_run [(plain_tap_env, logging_processor, letter True),
      (plain_tap_env, logging_processor, letter False)] s0 s2"
    using run_snoc [of _ s0 s1 plain_tap_env logging_processor "letter False"] step2
    by (fastforce simp: letter_facts overflows_def)
  have more: "act.more (act.extend (kbd_start 0 fresh_layers) ([] :: keyrecord_t list)) = []"
    by (simp add: act.defs kbd_start_def)
  have "\<forall>(env, pr, r) \<in> set [(plain_tap_env, logging_processor, letter True),
      (plain_tap_env, logging_processor, letter False)]. keeps_record pr \<and> (IS_NOEVENT r \<or> fresh_record r)"
    by (simp add: logging_processor_keeps letter_facts)
  then obtain X where "image_mset bare (mset (handed s2 @ undecided s2 @ waiting s2)) =
      received [(plain_tap_env, logging_processor, letter True), (plain_tap_env, logging_processor, letter False)] + X"
    using no_key_event_is_lost [OF run [unfolded s0_def] more] by blast
  then show ?thesis using run unfolding s0_def [symmetric]
    by (auto simp: received_def letter_facts)
qed

section \<open>Tap or hold\<close>

definition tick :: "u16 \<Rightarrow> keyrecord_t" where
  "tick t = no_record\<lparr>ev_time := t\<rparr>"

fun tapping_events :: "'e tap_env_scheme \<Rightarrow> ('l::len, 'z) processor \<Rightarrow> keyrecord_t list \<Rightarrow> ('l, 'z) tp \<Rightarrow> ('l, 'z) tp option" where
  "tapping_events env pr [] s = Some s"
| "tapping_events env pr (r # rs) s =
    (case action_tapping_process env pr r s of None \<Rightarrow> None | Some s1 \<Rightarrow> tapping_events env pr rs s1)"

text \<open>A record that cannot be consumed at once waits and is processed from the ring in the same call.\<close>

lemma processed_from_ring:
  assumes "process_tapping env pr r s = (False, r1, s1)" "ring_empty s1" "\<not> IS_NOEVENT r1"
    and q: "process_tapping env pr r1 (snd (waiting_buffer_enq r1 s1)) = (True, r2, (snd (waiting_buffer_enq r1 s1))\<lparr>tapping_key := t, keyboard := k\<rparr>)"
  shows "\<exists>s2. action_tapping_process env pr r s = Some s2 \<and> ring_empty s2 \<and> tapping_key s2 = t \<and> keyboard s2 = k"
proof -
  define h where "h = waiting_buffer_head s1"
  have ring: "waiting_buffer_tail s1 = h" "h < 8" "length (waiting_buffer s1) = 8" "Suc h mod 8 \<noteq> h"
    using assms(2) by (auto simp: ring_empty_def ring_ok_def WAITING_BUFFER_SIZE_def h_def mod_if)
  then have e: "waiting_buffer_enq r1 s1 =
      (True, s1\<lparr>waiting_buffer := (waiting_buffer s1)[h := r1], waiting_buffer_head := Suc h mod 8\<rparr>)"
    using assms(3) by (simp add: waiting_buffer_enq_def WAITING_BUFFER_SIZE_def h_def)
  have "process_waiting WAITING_BUFFER_SIZE env pr (snd (waiting_buffer_enq r1 s1)) =
      process_waiting (WAITING_BUFFER_SIZE - 1) env pr (waiting_buffer_pop ((snd (waiting_buffer_enq r1 s1))\<lparr>tapping_key := t, keyboard := k,
        waiting_buffer := ((waiting_buffer s1)[h := r1])[h := r2]\<rparr>))"
    using ring q by (subst process_waiting_unfold) (simp_all add: WAITING_BUFFER_SIZE_def e del: list_update_overwrite)
  also have "\<dots> = Some (waiting_buffer_pop ((snd (waiting_buffer_enq r1 s1))\<lparr>tapping_key := t, keyboard := k,
        waiting_buffer := ((waiting_buffer s1)[h := r1])[h := r2]\<rparr>))"
    using ring by (subst process_waiting_unfold) (simp_all add: e waiting_buffer_pop_def WAITING_BUFFER_SIZE_def)
  finally show ?thesis
    using ring assms(1) by (simp add: action_tapping_process_def enqueue_or_clear_def e waiting_buffer_pop_def
        ring_empty_def ring_ok_def) (simp add: WAITING_BUFFER_SIZE_def)
qed

text \<open>A tap key \<open>p\<close> is down and undecided, nothing else waits; the term is \<open>T\<close> for every key.\<close>

definition open_tap :: "keyrecord_t \<Rightarrow> ('l::len, 'z) ks \<Rightarrow> ('l, 'z) tp \<Rightarrow> bool" where
  "open_tap p k s \<longleftrightarrow> tapping_key s = p \<and> keyboard s = k \<and> ring_empty s"

definition in_term :: "u16 \<Rightarrow> keyrecord_t \<Rightarrow> u16 \<Rightarrow> bool" where
  "in_term T p t \<longleftrightarrow> TIMER_DIFF_16 t (ev_time p) < T"

definition untapped_press :: "keyrecord_t \<Rightarrow> bool" where
  "untapped_press p \<longleftrightarrow> \<not> IS_NOEVENT p \<and> ev_pressed p \<and> tap_count p = 0"

definition release_of :: "keyrecord_t \<Rightarrow> keyrecord_t \<Rightarrow> bool" where
  "release_of p q \<longleftrightarrow> \<not> IS_NOEVENT q \<and> \<not> ev_pressed q \<and> ev_key q = ev_key p \<and> rec_keycode q = rec_keycode p"

lemma tick_facts: "IS_NOEVENT (tick t)" "ev_time (tick t) = t" "\<not> ev_pressed (tick t)"
  by (simp_all add: tick_def no_record_def IS_NOEVENT_def)

lemma within_term:
  assumes "\<forall>kc r. tapping_term_at env kc r = T" "ev_time (tapping_key s) = ev_time p"
  shows "WITHIN_TAPPING_TERM env r s \<longleftrightarrow> in_term T p (ev_time r)"
  using assms by (simp add: WITHIN_TAPPING_TERM_def in_term_def)

lemma no_record_is_idle: "IS_NOEVENT no_record"
  by (simp add: no_record_def IS_NOEVENT_def)

lemma same_tapping_key: "tapping_key s = t \<Longrightarrow> s\<lparr>tapping_key := t, keyboard := k\<rparr> = s\<lparr>keyboard := k\<rparr>"
  by (cases s) simp

text \<open>The press.\<close>

lemma press_opens:
  assumes "untapped_press p" "is_tap_record env p (keyboard s)" "IS_NOEVENT (tapping_key s)" "ring_empty s"
  shows "\<exists>s1. action_tapping_process env pr p s = Some s1 \<and> open_tap p (keyboard s) s1"
proof -
  have "waiting_slots (s\<lparr>tapping_key := p\<rparr>) = []" using assms(4) by (simp add: waiting_slots_def ring_empty_def)
  then have "process_tapping env pr p s = (True, p, s\<lparr>tapping_key := p\<rparr>)"
    using assms by (simp add: process_tapping_def tapping_idle_def untapped_press_def tapping_starts_def
        waiting_buffer_scan_tap_def)
  then show ?thesis using consumed_at_once [of env pr p s] assms(4) by (simp add: open_tap_def)
qed

text \<open>A tick before the end of the term changes nothing, the first one after it settles the key as held.\<close>

lemma tick_keeps_open:
  assumes "untapped_press p" "\<forall>kc r. tapping_term_at env kc r = T" "open_tap p k s" "in_term T p t"
  shows "action_tapping_process env pr (tick t) s = Some s"
proof -
  have "process_tapping env pr (tick t) s = (True, tick t, s)"
    using assms(1,3,4) within_term [OF assms(2), of s p "tick t"]
    by (simp add: process_tapping_def open_tap_def untapped_press_def tick_facts)
  then show ?thesis by (rule consumed_at_once) (use assms(3) in \<open>simp add: open_tap_def\<close>)
qed

lemma tick_settles:
  assumes "untapped_press p" "\<forall>kc r. tapping_term_at env kc r = T" "open_tap p k s" "\<not> in_term T p t"
  shows "\<exists>s1. action_tapping_process env pr (tick t) s = Some s1 \<and> open_tap no_record (snd (pr p k)) s1"
proof -
  define s1 where "s1 = settle_as_hold pr s"
  have s1: "open_tap no_record (snd (pr p k)) s1"
    using assms(3) by (simp add: s1_def settle_as_hold_def process_tapping_key_def open_tap_def split: prod.split)
  have "process_tapping env pr (tick t) s = (False, tick t, s1)"
    using assms(1,3,4) within_term [OF assms(2), of s p "tick t"]
    by (simp add: process_tapping_def open_tap_def untapped_press_def tick_facts tapping_timed_out_def s1_def)
  then have "action_tapping_process env pr (tick t) s = Some s1"
    using process_waiting_empty [of s1 env pr] s1
    by (simp add: action_tapping_process_def enqueue_or_clear_def waiting_buffer_enq_def tick_facts open_tap_def)
  then show ?thesis using s1 by blast
qed

lemma tick_when_idle: "open_tap no_record k s \<Longrightarrow> action_tapping_process env pr (tick t) s = Some s"
  by (rule consumed_at_once)
    (simp_all add: process_tapping_def open_tap_def no_record_is_idle tapping_idle_def tick_facts)

text \<open>The release.\<close>

lemma release_taps:
  assumes "untapped_press p" "release_of p q" "\<forall>kc r. tapping_term_at env kc r = T" "open_tap p k s"
    "in_term T p (ev_time q)" "\<forall>r k. fst (pr r k) = r"
  shows "\<exists>s1. action_tapping_process env pr q s = Some s1 \<and>
    keyboard s1 = snd (pr (with_tap_of (p\<lparr>tap_count := 1\<rparr>) q) (snd (pr (p\<lparr>tap_count := 1\<rparr>) k)))"
proof -
  define p1 q1 where "p1 = p\<lparr>tap_count := 1\<rparr>" and "q1 = with_tap_of p1 q"
  define s1 where "s1 = s\<lparr>tapping_key := p1, keyboard := snd (pr p1 k)\<rparr>"
  have first: "process_tapping env pr q s = (False, q1, s1)"
    using assms(1,2,4,5) within_term [OF assms(3), of s p q] assms(6)
    by (simp add: process_tapping_def open_tap_def untapped_press_def release_of_def tapping_unsettled_def
        IS_TAPPING_RECORD_def process_tapping_key_def p1_def [symmetric] s1_def q1_def with_tap_of_def Let_def case_prod_beta)
  define s2 where "s2 = snd (waiting_buffer_enq q1 s1)"
  have s2: "tapping_key s2 = p1" "keyboard s2 = snd (pr p1 k)" "ev_time q1 = ev_time q" "\<not> IS_NOEVENT q1"
    "\<not> ev_pressed q1" "with_tap_of p1 q1 = q1"
    using assms(2) by (simp_all add: s2_def waiting_buffer_enq_def s1_def q1_def with_tap_of_def release_of_def IS_NOEVENT_def)
  have "IS_TAPPING_RECORD q1 s2"
    using assms(2) by (simp add: IS_TAPPING_RECORD_def s2 q1_def with_tap_of_def p1_def release_of_def)
  moreover have "\<not> IS_NOEVENT p1" "ev_pressed p1" "tap_count p1 = 1" "ev_time p1 = ev_time p"
    using assms(1) by (simp_all add: p1_def untapped_press_def IS_NOEVENT_def)
  ultimately have "process_tapping env pr q1 s2 = (True, q1, s2\<lparr>tapping_key := q1, keyboard := snd (pr q1 (snd (pr p1 k)))\<rparr>)"
    using assms(5,6) within_term [OF assms(3), of s2 p q1]
    by (simp add: process_tapping_def s2 tapping_settled_def process_keyp_def case_prod_beta)
  then show ?thesis
    using processed_from_ring [OF first] assms(4) s2(4) by (fastforce simp: s2_def s1_def open_tap_def p1_def q1_def)
qed

lemma release_after_hold:
  assumes "untapped_press p" "release_of p q" "\<forall>kc r. tapping_term_at env kc r = T" "open_tap p k s"
    "\<not> in_term T p (ev_time q)" "\<forall>r k. fst (pr r k) = r"
  shows "\<exists>s1. action_tapping_process env pr q s = Some s1 \<and> keyboard s1 = snd (pr q (snd (pr p k)))"
proof -
  define s1 where "s1 = settle_as_hold pr s"
  have s1: "tapping_key s1 = no_record" "keyboard s1 = snd (pr p k)" "ring_empty s1"
    using assms(4) by (simp_all add: s1_def settle_as_hold_def process_tapping_key_def open_tap_def split: prod.split)
  have first: "process_tapping env pr q s = (False, q, s1)"
    using assms(1,2,4,5) within_term [OF assms(3), of s p q]
    by (simp add: process_tapping_def open_tap_def untapped_press_def release_of_def tapping_timed_out_def s1_def)
  define s2 where "s2 = snd (waiting_buffer_enq q s1)"
  have "tapping_key s2 = no_record" "keyboard s2 = snd (pr p k)"
    using s1 by (simp_all add: s2_def waiting_buffer_enq_def)
  then have "process_tapping env pr q s2 = (True, q, s2\<lparr>tapping_key := no_record, keyboard := snd (pr q (snd (pr p k)))\<rparr>)"
    using assms(2) assms(6)
    by (simp add: process_tapping_def no_record_is_idle tapping_idle_def release_of_def process_and_done_def process_keyp_def
        case_prod_beta same_tapping_key)
  then show ?thesis
    using processed_from_ring [OF first s1(3)] assms(2) by (fastforce simp: s2_def release_of_def)
qed

lemma ticks_in_term:
  assumes "untapped_press p" "\<forall>kc r. tapping_term_at env kc r = T" "open_tap p k s" "\<forall>t \<in> set ts. in_term T p t"
  shows "tapping_events env pr (map tick ts @ rs) s = tapping_events env pr rs s"
  using assms(4) by (induction ts) (simp_all add: tick_keeps_open [OF assms(1-3)])

lemma ticks_when_idle:
  "open_tap no_record k s \<Longrightarrow> tapping_events env pr (map tick ts @ rs) s = tapping_events env pr rs s"
  by (induction ts) (simp_all add: tick_when_idle)

lemma ticks_past_term:
  assumes "untapped_press p" "\<forall>kc r. tapping_term_at env kc r = T" "open_tap p k s" "\<not> (\<forall>t \<in> set ts. in_term T p t)"
  shows "\<exists>s1. tapping_events env pr (map tick ts @ rs) s = tapping_events env pr rs s1 \<and>
    open_tap no_record (snd (pr p k)) s1"
  using assms(4)
proof (induction ts)
  case (Cons t ts)
  show ?case
  proof (cases "in_term T p t")
    case True
    then show ?thesis using Cons tick_keeps_open [OF assms(1-3) True] by simp
  next
    case False
    then obtain s1 where "action_tapping_process env pr (tick t) s = Some s1" "open_tap no_record (snd (pr p k)) s1"
      using tick_settles [OF assms(1-3)] by blast
    then show ?thesis using ticks_when_idle [of "snd (pr p k)" s1 env pr ts rs] by auto
  qed
qed simp

text \<open>C23: a tap key pressed and released while no other key event comes, with any ticks in between: if the ticks
  and the release come within the tapping term, the key is processed as tapped once (its press and its release
  with tap count 1), otherwise as held (with tap count 0); the times are those of the 16-bit timer.\<close>

theorem tap_or_hold:
  assumes "untapped_press p" "is_tap_record env p (keyboard s)" "IS_NOEVENT (tapping_key s)" "ring_empty s"
    "release_of p q" "\<forall>kc r. tapping_term_at env kc r = T" "\<forall>r k. fst (pr r k) = r"
  shows "\<exists>s'. tapping_events env pr (p # map tick ts @ [q]) s = Some s' \<and> keyboard s' =
    (if \<forall>t \<in> set (ts @ [ev_time q]). TIMER_DIFF_16 t (ev_time p) < T
     then snd (pr (with_tap_of (p\<lparr>tap_count := 1\<rparr>) q) (snd (pr (p\<lparr>tap_count := 1\<rparr>) (keyboard s))))
     else snd (pr q (snd (pr p (keyboard s)))))"
proof -
  obtain s1 where s1: "action_tapping_process env pr p s = Some s1" "open_tap p (keyboard s) s1"
    using press_opens [OF assms(1-4)] by blast
  show ?thesis
  proof (cases "\<forall>t \<in> set ts. in_term T p t")
    case True
    have "tapping_events env pr (p # map tick ts @ [q]) s = tapping_events env pr [q] s1"
      using s1 ticks_in_term [OF assms(1,6) s1(2) True] by simp
    then show ?thesis
      using True release_taps [OF assms(1,5,6) s1(2) _ assms(7)] release_after_hold [OF assms(1,5,6) s1(2) _ assms(7)]
      by (cases "in_term T p (ev_time q)") (auto simp: in_term_def)
  next
    case False
    then obtain s2 where s2: "tapping_events env pr (p # map tick ts @ [q]) s = tapping_events env pr [q] s2"
      "open_tap no_record (snd (pr p (keyboard s))) s2"
      using s1 ticks_past_term [OF assms(1,6) s1(2) False, of pr "[q]"] by auto
    then have "action_tapping_process env pr q s2 = Some (s2\<lparr>keyboard := snd (pr q (keyboard s2))\<rparr>)"
      using plain_key_passes [of s2 q env pr] assms(5) by (simp add: open_tap_def release_of_def no_record_is_idle)
    then show ?thesis using False s2 by (auto simp: in_term_def open_tap_def)
  qed
qed

text \<open>A mod-tap key, released after 50 ms.\<close>

definition mod_tap :: "bool \<Rightarrow> u16 \<Rightarrow> keyrecord_t" where
  "mod_tap pressed t = (key_record 0 pressed)\<lparr>ev_time := t, rec_keycode := 0x2204\<rparr>"

theorem tap_or_hold_witness:
  "\<exists>s'. tapping_events plain_tap_env (\<lambda>r k. (r, k\<lparr>sent := sent k @ [Consumer (of_nat (unat (tap_count r)))]\<rparr>))
      [mod_tap True 1000, tick 1010, tick 1020, mod_tap False 1050] (tapping_start (kbd_start 0 fresh_layers)) = Some s' \<and>
    sent (keyboard s') = [Consumer 1, Consumer 1]"
proof -
  define pr :: "(8, unit) processor" where "pr = (\<lambda>r k. (r, k\<lparr>sent := sent k @ [Consumer (of_nat (unat (tap_count r)))]\<rparr>))"
  define s where "s = tapping_start (kbd_start 0 fresh_layers :: (8, unit) ks)"
  have "untapped_press (mod_tap True 1000)" "is_tap_record plain_tap_env (mod_tap True 1000) (keyboard s)"
    "IS_NOEVENT (tapping_key s)" "release_of (mod_tap True 1000) (mod_tap False 1050)"
    by (simp_all add: is_tap_record_def mod_tap_def key_record_def kbd_start_def plain_actions IS_NOEVENT_def
        untapped_press_def release_of_def s_def tapping_start_def no_record_def)
  moreover have "ring_empty s" by (simp add: s_def ring_empty_start)
  moreover have "\<forall>kc r. tapping_term_at plain_tap_env kc r = 200" "\<forall>r k. fst (pr r k) = r"
    by (simp_all add: plain_tap_env_def act_env.defs pr_def)
  ultimately obtain s' where ev: "tapping_events plain_tap_env pr (mod_tap True 1000 # map tick [1010, 1020] @ [mod_tap False 1050])
      s = Some s'" and k: "keyboard s' =
    (if \<forall>t \<in> set ([1010, 1020] @ [ev_time (mod_tap False 1050)]). TIMER_DIFF_16 t (ev_time (mod_tap True 1000)) < 200
     then snd (pr (with_tap_of ((mod_tap True 1000)\<lparr>tap_count := 1\<rparr>) (mod_tap False 1050))
       (snd (pr ((mod_tap True 1000)\<lparr>tap_count := 1\<rparr>) (keyboard s))))
     else snd (pr (mod_tap False 1050) (snd (pr (mod_tap True 1000) (keyboard s)))))"
    using tap_or_hold [of "mod_tap True 1000" plain_tap_env s "mod_tap False 1050" 200 pr "[1010, 1020]"] by blast
  have "sent (keyboard s') = [Consumer 1, Consumer 1]"
    unfolding k by (simp add: pr_def mod_tap_def TIMER_DIFF_16_def with_tap_of_def) (simp add: s_def tapping_start_def kbd_start_def)
  then show ?thesis using ev by (auto simp: pr_def s_def)
qed

end
