(* ===== verification/Deferred_Exec.thy ===== *)
theory Deferred_Exec
  imports Qmk_Prelude
begin

text \<open>
  Deferred execution (\<open>quantum/deferred_exec.c\<close>): a table of callbacks with trigger times, identified by
  8-bit tokens. A callback with its argument is a value of type \<open>'c\<close> (\<open>None\<close> is the null pointer); what it
  does is the argument \<open>call\<close>, which may use the table itself. The time is the 32-bit millisecond timer.
\<close>

section \<open>Tokens\<close>

definition INVALID_DEFERRED_TOKEN :: u8 where
  "INVALID_DEFERRED_TOKEN = 0"

record 'c deferred_executor_t =
  dx_token :: u8
  trigger_time :: u32
  dx_callback :: "'c option"

definition no_executor :: "'c deferred_executor_t" where
  "no_executor = \<lparr>dx_token = INVALID_DEFERRED_TOKEN, trigger_time = 0, dx_callback = None\<rparr>"

text \<open>The static counter of tokens and the table that is worked on.\<close>

record 'c deferred =
  current_token :: u8
  executors :: "'c deferred_executor_t list"

definition token_can_be_used :: "'c deferred_executor_t list \<Rightarrow> u8 \<Rightarrow> bool" where
  "token_can_be_used table token \<longleftrightarrow>
    token \<noteq> INVALID_DEFERRED_TOKEN \<and> \<not> list_ex (\<lambda>entry. dx_token entry = token) table"

text \<open>The search loop; it comes back to its first token at the latest. The result is the last token tried and
  whether it can be used.\<close>

lemma next_distance:
  assumes "token + 1 \<noteq> (first :: u8)"
  shows "unat (first - (token + 1)) = Suc (unat (first - (token + 1 + 1)))"
proof -
  define d where "d = first - (token + 1)"
  have "d \<noteq> 0" using assms by (auto simp: d_def)
  then have "unat d = Suc (unat (d - 1))" by (metis Suc_pred' unat_minus_one unat_gt_0)
  moreover have "first - (token + 1 + 1) = d - 1" by (simp add: d_def algebra_simps)
  ultimately show ?thesis by (simp only: d_def)
qed

function next_token :: "'c deferred_executor_t list \<Rightarrow> u8 \<Rightarrow> u8 \<Rightarrow> u8 \<times> bool" where
  "next_token table first token =
    (if token_can_be_used table token then (token, True)
     else if token + 1 = first then (token + 1, False)
     else next_token table first (token + 1))"
  by pat_completeness auto
termination
  by (relation "measure (\<lambda>(_, first, token). unat (first - (token + 1)))")
    (simp, simp only: in_measure prod.case next_distance lessI not_False_eq_True)

declare next_token.simps [simp del]

definition allocate_token :: "'c deferred \<Rightarrow> u8 \<times> 'c deferred" where
  "allocate_token s =
    (let first = current_token s + 1; (token, found) = next_token (executors s) first first
     in (if found then token else INVALID_DEFERRED_TOKEN, s\<lparr>current_token := token\<rparr>))"

section \<open>The operations\<close>

text \<open>The index of the first entry with a token, as the loops find it.\<close>

definition find_entry :: "u8 \<Rightarrow> 'c deferred \<Rightarrow> nat option" where
  "find_entry token s = find (\<lambda>i. dx_token (executors s ! i) = token) [0..<length (executors s)]"

definition defer_exec_advanced :: "u32 \<Rightarrow> u32 \<Rightarrow> 'c option \<Rightarrow> 'c deferred \<Rightarrow> u8 \<times> 'c deferred" where
  "defer_exec_advanced now delay_ms callback s =
    (if length (executors s) = 0 \<or> delay_ms = 0 \<or> callback = None then (INVALID_DEFERRED_TOKEN, s)
     else case find_entry INVALID_DEFERRED_TOKEN s of
       None \<Rightarrow> (INVALID_DEFERRED_TOKEN, s)
     | Some i \<Rightarrow>
       let (token, s1) = allocate_token s
       in if token = INVALID_DEFERRED_TOKEN then (INVALID_DEFERRED_TOKEN, s1)
          else (current_token s1, s1\<lparr>executors := (executors s1)[i :=
            \<lparr>dx_token = current_token s1, trigger_time = now + delay_ms, dx_callback = callback\<rparr>]\<rparr>))"

definition extend_deferred_exec_advanced :: "u32 \<Rightarrow> u8 \<Rightarrow> u32 \<Rightarrow> 'c deferred \<Rightarrow> bool \<times> 'c deferred" where
  "extend_deferred_exec_advanced now token delay_ms s =
    (if length (executors s) = 0 \<or> delay_ms = 0 \<or> token = INVALID_DEFERRED_TOKEN then (False, s)
     else case find_entry token s of
       None \<Rightarrow> (False, s)
     | Some i \<Rightarrow> (True, s\<lparr>executors := (executors s)[i := (executors s ! i)\<lparr>trigger_time := now + delay_ms\<rparr>]\<rparr>))"

definition cancel_deferred_exec_advanced :: "u8 \<Rightarrow> 'c deferred \<Rightarrow> bool \<times> 'c deferred" where
  "cancel_deferred_exec_advanced token s =
    (if length (executors s) = 0 \<or> token = INVALID_DEFERRED_TOKEN then (False, s)
     else case find_entry token s of
       None \<Rightarrow> (False, s)
     | Some i \<Rightarrow> (True, s\<lparr>executors := (executors s)[i := no_executor]\<rparr>))"

section \<open>The task\<close>

text \<open>\<open>((int32_t)TIMER_DIFF_32(trigger_time, now)) <= 0\<close>.\<close>

definition is_due :: "u32 \<Rightarrow> 'c deferred_executor_t \<Rightarrow> bool" where
  "is_due now entry \<longleftrightarrow> sint (trigger_time entry - now) \<le> 0"

type_synonym 'c deferred_call = "'c option \<Rightarrow> u32 \<Rightarrow> 'c deferred \<Rightarrow> u32 \<times> 'c deferred"

definition run_entry :: "'c deferred_call \<Rightarrow> u32 \<Rightarrow> nat \<Rightarrow> 'c deferred \<Rightarrow> 'c deferred" where
  "run_entry call now i s =
    (let entry = executors s ! i
     in if dx_token entry \<noteq> INVALID_DEFERRED_TOKEN \<and> is_due now entry
        then let (delay_ms, s1) = call (dx_callback entry) (trigger_time entry) s; entry1 = executors s1 ! i
          in if dx_token entry1 \<noteq> dx_token entry then s1
             else if delay_ms > 0
             then s1\<lparr>executors := (executors s1)[i := entry1\<lparr>trigger_time := trigger_time entry1 + delay_ms\<rparr>]\<rparr>
             else s1\<lparr>executors := (executors s1)[i := no_executor]\<rparr>
        else s)"

definition deferred_exec_advanced_task :: "'c deferred_call \<Rightarrow> u32 \<Rightarrow> u32 \<Rightarrow> 'c deferred \<Rightarrow> u32 \<times> 'c deferred" where
  "deferred_exec_advanced_task call now last_execution_time s =
    (if sint (now - last_execution_time) > 0
     then (now, fold (run_entry call now) [0..<length (executors s)] s)
     else (last_execution_time, s))"

definition MAX_DEFERRED_EXECUTORS :: nat where
  "MAX_DEFERRED_EXECUTORS = 8"

definition basic_executors :: "'c deferred" where
  "basic_executors = \<lparr>current_token = 0, executors = replicate MAX_DEFERRED_EXECUTORS no_executor\<rparr>"

section \<open>Tokens are unique\<close>

definition tokens :: "'c deferred \<Rightarrow> u8 list" where
  "tokens s = filter (\<lambda>t. t \<noteq> INVALID_DEFERRED_TOKEN) (map dx_token (executors s))"

lemma token_usable_iff: "token_can_be_used (executors s) t \<longleftrightarrow> t \<noteq> 0 \<and> t \<notin> set (tokens s)"
  by (auto simp: token_can_be_used_def tokens_def INVALID_DEFERRED_TOKEN_def list_ex_iff)

text \<open>The search finds a usable token, or has tried all from \<open>token\<close> up to the first.\<close>

lemma next_token_spec:
  "next_token table first token = (t, found) \<Longrightarrow>
    (found \<longrightarrow> token_can_be_used table t) \<and>
    (\<not> found \<longrightarrow> (\<forall>k \<le> unat (first - (token + 1)). \<not> token_can_be_used table (token + of_nat k)))"
proof (induction table first token rule: next_token.induct)
  case (1 table first token)
  show ?case
  proof (cases "token_can_be_used table token \<or> token + 1 = first")
    case True
    then show ?thesis using 1(2) by (subst (asm) next_token.simps) (auto split: if_splits)
  next
    case False
    then have rec: "next_token table first (token + 1) = (t, found)"
      using 1(2) by (subst (asm) next_token.simps) (simp split: if_splits)
    have d: "unat (first - (token + 1)) = Suc (unat (first - (token + 1 + 1)))"
      using False by (intro next_distance) simp
    have IH: "(found \<longrightarrow> token_can_be_used table t) \<and>
        (\<not> found \<longrightarrow> (\<forall>k \<le> unat (first - (token + 1 + 1)). \<not> token_can_be_used table (token + 1 + of_nat k)))"
      using 1(1) False rec by blast
    have "\<not> token_can_be_used table (token + of_nat k)"
      if "\<not> found" "k \<le> unat (first - (token + 1))" for k
      using IH False that unfolding d by (cases k) (auto simp: add.assoc)
    then show ?thesis using IH by blast
  qed
qed

text \<open>At most 254 tokens are in use when a slot is free, so the search finds one.\<close>

lemma tokens_bound: "length (tokens s) \<le> length (executors s)"
  unfolding tokens_def by (metis length_filter_le length_map)

lemma next_token_found:
  assumes "length (tokens s) < 255" "next_token (executors s) first first = (t, found)"
  shows found
proof (rule ccontr)
  assume "\<not> found"
  moreover have "unat (first - (first + 1)) = 255"
    by (simp add: algebra_simps unsigned_minus_1_eq_mask mask_eq_exp_minus_1)
  ultimately have none: "\<not> token_can_be_used (executors s) (first + of_nat k)" if "k \<le> 255" for k
    using next_token_spec [OF assms(2)] that by simp
  have "x \<in> set (tokens s)" if "x \<noteq> 0" for x
  proof -
    have "x = first + of_nat (unat (x - first))" by (simp add: algebra_simps)
    moreover have "unat (x - first) \<le> 255" using unat_u8 [of "x - first"] by simp
    ultimately show ?thesis using none [of "unat (x - first)"] that by (auto simp: token_usable_iff)
  qed
  then have "UNIV - {0 :: u8} \<subseteq> set (tokens s)" by auto
  then have "card (UNIV - {0 :: u8}) \<le> length (tokens s)"
    by (meson List.finite_set card_length card_mono order_trans)
  then show False using assms(1) by (simp add: card_Diff_singleton card_word)
qed

lemma find_entry_Some:
  "find_entry t s = Some i \<Longrightarrow> i < length (executors s) \<and> dx_token (executors s ! i) = t"
  by (auto simp: find_entry_def find_Some_iff)

lemma find_entry_None: "find_entry t s = None \<Longrightarrow> t \<noteq> 0 \<Longrightarrow> t \<notin> set (tokens s)"
  by (auto simp: find_entry_def find_None_iff tokens_def in_set_conv_nth)

text \<open>Replacing the entry \<open>i\<close> of the table by one with token \<open>t\<close>.\<close>

lemma tokens_update:
  assumes "distinct (tokens s)" "i < length (executors s)" "dx_token e = 0 \<or> dx_token e = dx_token (executors s ! i) \<or>
    dx_token e \<notin> set (tokens s)"
  shows "distinct (tokens (s\<lparr>executors := (executors s)[i := e]\<rparr>))"
proof -
  define pre post where "pre = map dx_token (take i (executors s))" and "post = map dx_token (drop (Suc i) (executors s))"
  have "map dx_token (executors s) = pre @ dx_token (executors s ! i) # post"
    unfolding pre_def post_def
    by (subst id_take_nth_drop [OF assms(2)]) (simp only: map_append list.map)
  moreover have "map dx_token ((executors s)[i := e]) = pre @ dx_token e # post"
    using assms(2) by (simp add: pre_def post_def upd_conv_take_nth_drop)
  ultimately show ?thesis using assms(1,3) by (auto simp: tokens_def INVALID_DEFERRED_TOKEN_def split: if_split_asm)
qed

lemma tokens_counter [simp]: "tokens (s\<lparr>current_token := t\<rparr>) = tokens s"
  by (simp add: tokens_def)

lemma free_slot_tokens:
  assumes "i < length (executors s)" "dx_token (executors s ! i) = 0"
  shows "length (tokens s) < length (executors s)"
proof -
  have "dx_token (executors s ! i) \<in> set (map dx_token (executors s))" using assms(1) by simp
  then show ?thesis using assms(2) unfolding tokens_def INVALID_DEFERRED_TOKEN_def
    by (metis (mono_tags, lifting) length_filter_less length_map)
qed

lemma defer_spec:
  assumes "length (executors s) \<le> 255" "0 < length (executors s)" "delay_ms \<noteq> 0" "callback \<noteq> None"
    "defer_exec_advanced now delay_ms callback s = (t, s')"
  shows "(t = 0 \<longleftrightarrow> (\<forall>e \<in> set (executors s). dx_token e \<noteq> 0)) \<and>
    (t = 0 \<longrightarrow> s' = s) \<and>
    (t \<noteq> 0 \<longrightarrow> t \<notin> set (tokens s) \<and> (\<exists>i < length (executors s). dx_token (executors s ! i) = 0 \<and>
      executors s' = (executors s)[i := \<lparr>dx_token = t, trigger_time = now + delay_ms, dx_callback = callback\<rparr>]))"
proof (cases "find_entry INVALID_DEFERRED_TOKEN s")
  case None
  then have "t = 0 \<and> s' = s" using assms(5) by (auto simp: defer_exec_advanced_def INVALID_DEFERRED_TOKEN_def split: if_splits)
  moreover have "\<forall>e \<in> set (executors s). dx_token e \<noteq> 0"
    using None by (auto simp: find_entry_def find_None_iff in_set_conv_nth INVALID_DEFERRED_TOKEN_def)
  ultimately show ?thesis by blast
next
  case (Some i)
  have i: "i < length (executors s)" "dx_token (executors s ! i) = 0"
    using find_entry_Some [OF Some] by (simp_all add: INVALID_DEFERRED_TOKEN_def)
  obtain token found where search: "next_token (executors s) (current_token s + 1) (current_token s + 1) = (token, found)"
    by fastforce
  have found using next_token_found [OF _ search] free_slot_tokens [OF i] assms(1) by simp
  then have a: "allocate_token s = (token, s\<lparr>current_token := token\<rparr>)"
    and fresh: "token \<noteq> 0" "token \<notin> set (tokens s)"
    using next_token_spec [OF search] by (simp_all add: allocate_token_def search token_usable_iff)
  then have "t = token" "executors s' =
      (executors s)[i := \<lparr>dx_token = token, trigger_time = now + delay_ms, dx_callback = callback\<rparr>]"
    using assms(2-5) Some by (auto simp: defer_exec_advanced_def INVALID_DEFERRED_TOKEN_def Let_def)
  then show ?thesis using fresh i by auto
qed

section \<open>Runs\<close>

datatype 'c deferred_op = Defer u32 u32 "'c option" | Extend u32 u8 u32 | Cancel u8 | Task "'c deferred_call" u32 u32

primrec deferred_step :: "'c deferred_op \<Rightarrow> 'c deferred \<Rightarrow> 'c deferred" where
  "deferred_step (Defer now delay callback) s = snd (defer_exec_advanced now delay callback s)"
| "deferred_step (Extend now token delay) s = snd (extend_deferred_exec_advanced now token delay s)"
| "deferred_step (Cancel token) s = snd (cancel_deferred_exec_advanced token s)"
| "deferred_step (Task call now last_time) s = snd (deferred_exec_advanced_task call now last_time s)"

definition deferred_ok :: "nat \<Rightarrow> 'c deferred \<Rightarrow> bool" where
  "deferred_ok n s \<longleftrightarrow> length (executors s) = n \<and> distinct (tokens s)"

text \<open>Callbacks may use the table; what they do to it keeps the invariant, as the operations do.\<close>

primrec op_tame :: "nat \<Rightarrow> 'c deferred_op \<Rightarrow> bool" where
  "op_tame n (Defer now delay callback) = True"
| "op_tame n (Extend now token delay) = True"
| "op_tame n (Cancel token) = True"
| "op_tame n (Task call now last_time) = (\<forall>c t s. deferred_ok n s \<longrightarrow> deferred_ok n (snd (call c t s)))"

lemma update_ok:
  assumes "deferred_ok n s" "i < n" "dx_token e = 0 \<or> dx_token e = dx_token (executors s ! i) \<or> dx_token e \<notin> set (tokens s)"
  shows "deferred_ok n (s\<lparr>executors := (executors s)[i := e]\<rparr>)"
  using assms tokens_update [of s i e] by (simp add: deferred_ok_def)

lemma defer_ok:
  assumes "deferred_ok n s"
  shows "deferred_ok n (snd (defer_exec_advanced now delay callback s))"
proof (cases "find_entry INVALID_DEFERRED_TOKEN s")
  case (Some i)
  obtain token found where search: "next_token (executors s) (current_token s + 1) (current_token s + 1) = (token, found)"
    by fastforce
  define s1 where "s1 = s\<lparr>current_token := token\<rparr>"
  have s1: "deferred_ok n s1" "i < n" using assms find_entry_Some [OF Some] by (simp_all add: s1_def deferred_ok_def)
  have "deferred_ok n (s1\<lparr>executors := (executors s1)[i := \<lparr>dx_token = token, trigger_time = x, dx_callback = c\<rparr>]\<rparr>)"
    if found for x c
    using s1 next_token_spec [OF search] that by (intro update_ok) (auto simp: s1_def token_usable_iff)
  then show ?thesis using assms s1(1) Some
    by (auto simp: defer_exec_advanced_def allocate_token_def search Let_def s1_def [symmetric])
      (simp_all add: s1_def INVALID_DEFERRED_TOKEN_def)
qed (use assms in \<open>simp add: defer_exec_advanced_def\<close>)

lemma extend_cancel_ok:
  assumes "deferred_ok n s"
  shows "deferred_ok n (snd (extend_deferred_exec_advanced now token delay s))"
    "deferred_ok n (snd (cancel_deferred_exec_advanced token s))"
proof -
  have "deferred_ok n (s\<lparr>executors := (executors s)[i := e]\<rparr>)"
    if "find_entry token s = Some i" "dx_token e = 0 \<or> dx_token e = token" for i e
    using assms find_entry_Some [OF that(1)] that(2) by (intro update_ok) (auto simp: deferred_ok_def)
  then show "deferred_ok n (snd (extend_deferred_exec_advanced now token delay s))"
    "deferred_ok n (snd (cancel_deferred_exec_advanced token s))"
    using assms find_entry_Some [of token s]
    by (auto simp: extend_deferred_exec_advanced_def cancel_deferred_exec_advanced_def no_executor_def
        INVALID_DEFERRED_TOKEN_def split: option.split)
qed

lemma run_entry_ok:
  assumes "deferred_ok n s" "i < n" "\<forall>c t s. deferred_ok n s \<longrightarrow> deferred_ok n (snd (call c t s))"
  shows "deferred_ok n (run_entry call now i s)"
proof -
  define e where "e = executors s ! i"
  obtain delay s1 where c: "call (dx_callback e) (trigger_time e) s = (delay, s1)" by fastforce
  have "deferred_ok n s1" using assms(1,3) c by (metis snd_conv)
  then have "deferred_ok n s1" "deferred_ok n (s1\<lparr>executors := (executors s1)[i := no_executor]\<rparr>)"
    "deferred_ok n (s1\<lparr>executors := (executors s1)[i := (executors s1 ! i)\<lparr>trigger_time := x\<rparr>]\<rparr>)" for x
    using assms(2) by (auto intro!: update_ok simp: no_executor_def INVALID_DEFERRED_TOKEN_def)
  then show ?thesis using assms(1) by (simp add: run_entry_def Let_def e_def [symmetric] c)
qed

lemma deferred_task_ok:
  assumes "deferred_ok n s" "\<forall>c t s. deferred_ok n s \<longrightarrow> deferred_ok n (snd (call c t s))"
  shows "deferred_ok n (snd (deferred_exec_advanced_task call now last_time s))"
proof -
  have "\<forall>i \<in> set is. i < n \<Longrightarrow> deferred_ok n s \<Longrightarrow> deferred_ok n (fold (run_entry call now) is s)" for "is" s
    by (induction "is" arbitrary: s) (simp_all add: run_entry_ok assms(2))
  from this [of "[0..<length (executors s)]" s] show ?thesis
    using assms(1) by (simp add: deferred_exec_advanced_task_def deferred_ok_def)
qed

lemma step_ok: "deferred_ok n s \<Longrightarrow> op_tame n op \<Longrightarrow> deferred_ok n (deferred_step op s)"
  by (cases op) (simp_all add: defer_ok extend_cancel_ok deferred_task_ok)

lemma deferred_run_ok: "deferred_ok n s \<Longrightarrow> list_all (op_tame n) ops \<Longrightarrow> deferred_ok n (fold deferred_step ops s)"
  by (induction ops arbitrary: s) (simp_all add: step_ok)

lemma basic_executors_ok: "deferred_ok MAX_DEFERRED_EXECUTORS basic_executors"
  by (simp add: deferred_ok_def basic_executors_def tokens_def no_executor_def INVALID_DEFERRED_TOKEN_def filter_replicate)

text \<open>C34: in every run of the operations and the task on the table of the basic API, with callbacks that keep the
  tokens distinct, a valid request is refused exactly when the table is full; otherwise it gets a token that no
  other entry has, takes a free slot and leaves the other entries alone, and cancelling by that token removes
  exactly the new entry again.\<close>

theorem deferred_token_identifies_its_entry:
  assumes "list_all (op_tame MAX_DEFERRED_EXECUTORS) ops" "s = fold deferred_step ops basic_executors"
    "delay_ms \<noteq> 0" "callback \<noteq> None" "defer_exec_advanced now delay_ms callback s = (t, s1)"
  shows "if \<forall>e \<in> set (executors s). dx_token e \<noteq> 0 then t = 0 \<and> s1 = s
    else t \<noteq> 0 \<and> t \<notin> dx_token ` set (executors s) \<and>
      (\<exists>i < length (executors s). dx_token (executors s ! i) = 0 \<and>
        executors s1 = (executors s)[i := \<lparr>dx_token = t, trigger_time = now + delay_ms, dx_callback = callback\<rparr>] \<and>
        cancel_deferred_exec_advanced t s1 = (True, s1\<lparr>executors := (executors s)[i := no_executor]\<rparr>))"
proof -
  have ok: "length (executors s) = 8"
    using deferred_run_ok [OF basic_executors_ok assms(1)] assms(2) by (simp add: deferred_ok_def MAX_DEFERRED_EXECUTORS_def)
  note spec = defer_spec [OF _ _ assms(3-5)]
  show ?thesis
  proof (cases "\<forall>e \<in> set (executors s). dx_token e \<noteq> 0")
    case True
    then show ?thesis using spec ok by auto
  next
    case False
    then obtain i where t: "t \<noteq> 0" "t \<notin> set (tokens s)" "i < length (executors s)" "dx_token (executors s ! i) = 0"
      and s1: "executors s1 = (executors s)[i := \<lparr>dx_token = t, trigger_time = now + delay_ms, dx_callback = callback\<rparr>]"
      using spec ok by auto
    have others: "dx_token (executors s ! j) \<noteq> t" if "j < length (executors s)" for j
    proof -
      have "dx_token (executors s ! j) \<in> dx_token ` set (executors s)" using that by simp
      then show ?thesis using t(1,2) by (auto simp: tokens_def INVALID_DEFERRED_TOKEN_def)
    qed
    then have "\<forall>j < i. dx_token (executors s ! j) \<noteq> t" using t(3) by simp
    then have "find_entry t s1 = Some i"
      using t(3) by (auto simp: find_entry_def s1 find_Some_iff nth_list_update intro!: exI [of _ i])
    then have "cancel_deferred_exec_advanced t s1 = (True, s1\<lparr>executors := (executors s)[i := no_executor]\<rparr>)"
      using t ok by (simp add: cancel_deferred_exec_advanced_def s1 INVALID_DEFERRED_TOKEN_def flip: length_greater_0_conv)
    moreover have "t \<notin> dx_token ` set (executors s)"
      using t(1,2) by (auto simp: tokens_def INVALID_DEFERRED_TOKEN_def)
    ultimately show ?thesis using False t s1 by auto
  qed
qed

theorem deferred_token_identifies_its_entry_witness:
  "\<exists>s1. defer_exec_advanced 100 50 (Some ()) basic_executors = (1, s1) \<and>
    cancel_deferred_exec_advanced 1 s1 = (True, s1\<lparr>executors := replicate 8 no_executor\<rparr>)"
proof -
  obtain t s1 where d: "defer_exec_advanced 100 50 (Some ()) basic_executors = (t, s1)" by fastforce
  have "fst (defer_exec_advanced 100 50 (Some ()) basic_executors) = 1" by code_simp
  then have "t = 1" by (simp add: d)
  moreover have "\<not> (\<forall>e \<in> set (executors (basic_executors :: unit deferred)). dx_token e \<noteq> 0)"
    by (simp add: basic_executors_def MAX_DEFERRED_EXECUTORS_def no_executor_def INVALID_DEFERRED_TOKEN_def)
  moreover have "(replicate 8 no_executor)[i := no_executor] = (replicate 8 no_executor :: unit deferred_executor_t list)" for i
    by (cases "i < 8") (simp_all add: list_update_same_conv list_update_beyond)
  ultimately show ?thesis
    using deferred_token_identifies_its_entry [of "[]" basic_executors 50 "Some ()" 100 t s1] d
    by (auto simp: basic_executors_def MAX_DEFERRED_EXECUTORS_def)
qed

section \<open>Time\<close>

lemma sign_bit: "bit (w :: u32) 31 \<longleftrightarrow> 2 ^ 31 \<le> unat w"
proof -
  have "unat w < 2 * 2 ^ 31" using unsigned_less [of w] by simp
  then have "unat w div 2 ^ 31 = (if 2 ^ 31 \<le> unat w then 1 else 0)"
    by (auto simp: div_nat_eqI)
  moreover have "bit w 31 \<longleftrightarrow> bit (unat w) 31" by (simp add: bit_unsigned_iff)
  ultimately show ?thesis by (simp add: bit_iff_odd)
qed

lemma sint_le_0_iff: "sint (w :: u32) \<le> 0 \<longleftrightarrow> w = 0 \<or> 2 ^ 31 \<le> unat w"
proof (cases "bit w 31")
  case True
  then have "sint w < 0" by (simp add: sint_uint signed_take_bit_negative_iff bit_uint_iff)
  then show ?thesis using True by (simp add: sign_bit)
next
  case False
  then have "unat w < 2 ^ 31" by (simp add: sign_bit)
  then have "uint w < 2 ^ 31" by (metis int_ops(3) of_nat_less_iff of_nat_numeral of_nat_power uint_nat)
  then have "sint w = uint w"
    using False by (simp add: sint_uint signed_take_bit_eq_if_positive bit_uint_iff take_bit_eq_mod)
  moreover have "uint w \<le> 0 \<longleftrightarrow> w = 0" 
    using uint_ge_0 [of w] uint_0_iff [of w] by linarith
  ultimately show ?thesis using False by (simp add: sign_bit)
qed

text \<open>An entry queued at time \<open>t0\<close> with a delay below \<open>2\<^sup>3\<^sup>1\<close> ms is due exactly from \<open>delay\<close> ms after \<open>t0\<close> on, also
  across the wrap of the timer, as long as fewer than \<open>2\<^sup>3\<^sup>1\<close> ms have passed; an entry with a longer delay is due
  at once.\<close>

lemma deferred_entry_is_due:
  assumes "unat (now - t0) < 2 ^ 31" "trigger_time entry = t0 + delay_ms"
  shows "(unat delay_ms < 2 ^ 31 \<longrightarrow> (is_due now entry \<longleftrightarrow> delay_ms \<le> now - t0)) \<and>
    (unat delay_ms \<ge> 2 ^ 31 \<longrightarrow> is_due t0 entry)"
proof -
  define e where "e = now - t0"
  have w: "trigger_time entry - now = delay_ms - e" using assms(2) by (simp add: e_def algebra_simps)
  have "is_due now entry \<longleftrightarrow> delay_ms \<le> e" if "unat delay_ms < 2 ^ 31"
  proof (cases "delay_ms \<le> e")
    case True
    have "unat (delay_ms - e) \<ge> 2 ^ 31" if "delay_ms \<noteq> e"
    proof -
      have "unat delay_ms < unat e" using True that by (simp add: word_less_nat_alt [symmetric])
      then show ?thesis using assms(1) by (simp add: e_def [symmetric] unat_sub_if')
    qed
    then show ?thesis using True by (auto simp: is_due_def w sint_le_0_iff)
  next
    case False
    then have "unat (delay_ms - e) = unat delay_ms - unat e" by (simp add: unat_sub_if' word_le_nat_alt)
    then show ?thesis using False that by (auto simp: is_due_def w sint_le_0_iff)
  qed
  moreover have "is_due t0 entry" if "unat delay_ms \<ge> 2 ^ 31"
    using that assms(2) by (simp add: is_due_def sint_le_0_iff)
  ultimately show ?thesis by (simp add: e_def)
qed

lemma deferred_entry_is_due_witness:
  "is_due 40 \<lparr>dx_token = 1, trigger_time = 0xFFFFFFF0 + 50, dx_callback = Some ()\<rparr> \<and>
    \<not> is_due 30 \<lparr>dx_token = 1, trigger_time = 0xFFFFFFF0 + 50, dx_callback = Some ()\<rparr>"
  using deferred_entry_is_due [of 40 "0xFFFFFFF0" "\<lparr>dx_token = 1, trigger_time = 0xFFFFFFF0 + 50, dx_callback = Some ()\<rparr>" 50]
    deferred_entry_is_due [of 30 "0xFFFFFFF0" "\<lparr>dx_token = 1, trigger_time = 0xFFFFFFF0 + 50, dx_callback = Some ()\<rparr>" 50]
  by simp

end
