(* ===== verification/Secure.thy ===== *)
theory Secure
  imports Keymap_Common Action_Codes
begin

text \<open>
  The secure feature (\<open>quantum/secure.c\<close>, \<open>process_secure.c\<close>): a key sequence unlocks the keyboard, time-outs
  lock it again. The sequence and the time-outs (\<open>0\<close> for a disabled one) are the build's configuration.
  The calls of \<open>secure_hook\<close> are collected in \<open>hook_calls\<close>; what they do to the keyboard is
  \<open>secure_hook_quantum\<close>, the hooks of keyboards and users are the weak defaults.
  \<open>SECURE_DISABLE_KEYCODES\<close> is not defined.
\<close>

section \<open>State and operations\<close>

datatype secure_status_t = SECURE_LOCKED | SECURE_PENDING | SECURE_UNLOCKED

record secure =
  secure_status :: secure_status_t
  unlock_time :: u32
  idle_time :: u32
  offset :: nat
  hook_calls :: "secure_status_t list"

record secure_config =
  SECURE_UNLOCK_SEQUENCE :: "(u8 \<times> u8) list"
  SECURE_UNLOCK_TIMEOUT :: u32
  SECURE_IDLE_TIMEOUT :: u32

definition secure_hook :: "secure \<Rightarrow> secure" where
  "secure_hook s = s\<lparr>hook_calls := hook_calls s @ [secure_status s]\<rparr>"

definition secure_hook_quantum :: "'e code_env_scheme \<Rightarrow> secure_status_t \<Rightarrow> ('l::len, 'z) kb \<Rightarrow> ('l, 'z) kb" where
  "secure_hook_quantum env status k =
    (if status = SECURE_PENDING then on_layers layer_clear (clear_keyboard env k) else k)"

definition secure_lock :: "secure \<Rightarrow> secure" where
  "secure_lock s = secure_hook (s\<lparr>secure_status := SECURE_LOCKED\<rparr>)"

definition secure_unlock :: "u32 \<Rightarrow> secure \<Rightarrow> secure" where
  "secure_unlock now s = secure_hook (s\<lparr>secure_status := SECURE_UNLOCKED, idle_time := now\<rparr>)"

definition secure_request_unlock :: "u32 \<Rightarrow> secure \<Rightarrow> secure" where
  "secure_request_unlock now s =
    secure_hook (if secure_status s = SECURE_LOCKED then s\<lparr>secure_status := SECURE_PENDING, unlock_time := now\<rparr> else s)"

text \<open>The fields besides the trace of the hooks.\<close>

lemma secure_hook_fields [simp]:
  "secure_status (secure_hook s) = secure_status s" "unlock_time (secure_hook s) = unlock_time s"
  "idle_time (secure_hook s) = idle_time s" "offset (secure_hook s) = offset s"
  by (simp_all add: secure_hook_def)

definition secure_activity_event :: "u32 \<Rightarrow> secure \<Rightarrow> secure" where
  "secure_activity_event now s = (if secure_status s = SECURE_UNLOCKED then s\<lparr>idle_time := now\<rparr> else s)"

definition secure_keypress_event :: "secure_config \<Rightarrow> u32 \<Rightarrow> u8 \<Rightarrow> u8 \<Rightarrow> secure \<Rightarrow> secure" where
  "secure_keypress_event C now row col s =
    (if SECURE_UNLOCK_SEQUENCE C ! offset s = (row, col)
     then let s1 = s\<lparr>offset := offset s + 1\<rparr>
       in if offset s1 = length (SECURE_UNLOCK_SEQUENCE C) then secure_unlock now (s1\<lparr>offset := 0\<rparr>) else s1
     else secure_lock (s\<lparr>offset := 0\<rparr>))"

definition secure_task :: "secure_config \<Rightarrow> u32 \<Rightarrow> secure \<Rightarrow> secure" where
  "secure_task C now s =
    (let s1 = (if SECURE_UNLOCK_TIMEOUT C \<noteq> 0 \<and> secure_status s = SECURE_PENDING \<and>
                  now - unlock_time s \<ge> SECURE_UNLOCK_TIMEOUT C then secure_lock s else s)
     in if SECURE_IDLE_TIMEOUT C \<noteq> 0 \<and> secure_status s1 = SECURE_UNLOCKED \<and>
           now - idle_time s1 \<ge> SECURE_IDLE_TIMEOUT C then secure_lock s1 else s1)"

definition preprocess_secure :: "secure_config \<Rightarrow> u32 \<Rightarrow> u8 \<Rightarrow> u8 \<Rightarrow> bool \<Rightarrow> secure \<Rightarrow> bool \<times> secure" where
  "preprocess_secure C now row col pressed s =
    (if secure_status s = SECURE_PENDING
     then (False, if pressed then secure_keypress_event C now row col s else s)
     else (True, s))"

definition QK_SECURE_LOCK :: u16 where "QK_SECURE_LOCK = 0x7C60"
definition QK_SECURE_UNLOCK :: u16 where "QK_SECURE_UNLOCK = 0x7C61"
definition QK_SECURE_TOGGLE :: u16 where "QK_SECURE_TOGGLE = 0x7C62"
definition QK_SECURE_REQUEST :: u16 where "QK_SECURE_REQUEST = 0x7C63"

definition process_secure :: "u32 \<Rightarrow> u16 \<Rightarrow> bool \<Rightarrow> secure \<Rightarrow> bool \<times> secure" where
  "process_secure now keycode pressed s =
    (if pressed then (True, s)
     else if keycode = QK_SECURE_LOCK then (False, secure_lock s)
     else if keycode = QK_SECURE_UNLOCK then (False, secure_unlock now s)
     else if keycode = QK_SECURE_TOGGLE
     then (False, if secure_status s = SECURE_LOCKED then secure_unlock now s else secure_lock s)
     else if keycode = QK_SECURE_REQUEST then (False, secure_request_unlock now s)
     else (True, s))"

definition secure_start :: secure where
  "secure_start = \<lparr>secure_status = SECURE_LOCKED, unlock_time = 0, idle_time = 0, offset = 0, hook_calls = []\<rparr>"

section \<open>Runs\<close>

text \<open>A key event goes through \<open>preprocess_secure\<close> and, when that lets it pass, through \<open>process_secure\<close>.\<close>

datatype secure_event = Secure_Key u8 u8 u16 bool | Secure_Task | Secure_Request | Secure_Activity

primrec secure_step :: "secure_config \<Rightarrow> u32 \<Rightarrow> secure_event \<Rightarrow> secure \<Rightarrow> secure" where
  "secure_step C now (Secure_Key row col kc pressed) s =
    (let (go, s1) = preprocess_secure C now row col pressed s
     in if go then snd (process_secure now kc pressed s1) else s1)"
| "secure_step C now Secure_Task s = secure_task C now s"
| "secure_step C now Secure_Request s = secure_request_unlock now s"
| "secure_step C now Secure_Activity s = secure_activity_event now s"

inductive secure_run :: "secure_config \<Rightarrow> secure \<Rightarrow> (u8 \<times> u8) list \<Rightarrow> secure \<Rightarrow> bool" for C s0 where
  start: "secure_run C s0 [] s0"
| entered: "secure_run C s0 ks s \<Longrightarrow> secure_status s = SECURE_PENDING \<Longrightarrow>
    secure_run C s0 (ks @ [(row, col)]) (secure_step C now (Secure_Key row col kc True) s)"
| released: "secure_run C s0 ks s \<Longrightarrow> kc \<noteq> QK_SECURE_UNLOCK \<Longrightarrow> kc \<noteq> QK_SECURE_TOGGLE \<Longrightarrow>
    secure_run C s0 ks (secure_step C now (Secure_Key row col kc False) s)"
| pressed: "secure_run C s0 ks s \<Longrightarrow> secure_status s \<noteq> SECURE_PENDING \<Longrightarrow>
    secure_run C s0 ks (secure_step C now (Secure_Key row col kc True) s)"
| other: "secure_run C s0 ks s \<Longrightarrow> \<not> (\<exists>row col kc p. ev = Secure_Key row col kc p) \<Longrightarrow>
    secure_run C s0 ks (secure_step C now ev s)"

text \<open>The keys that count are the last ones entered, as many as \<open>offset\<close> says; the keyboard is unlocked only
  when the whole sequence has been entered.\<close>

definition ends_with :: "'a list \<Rightarrow> 'a list \<Rightarrow> bool" where
  "ends_with ks xs \<longleftrightarrow> (\<exists>pre. ks = pre @ xs)"

definition sequence_entered :: "secure_config \<Rightarrow> (u8 \<times> u8) list \<Rightarrow> bool" where
  "sequence_entered C ks \<longleftrightarrow> (\<exists>pre post. ks = pre @ SECURE_UNLOCK_SEQUENCE C @ post)"

definition secure_ok :: "secure_config \<Rightarrow> (u8 \<times> u8) list \<Rightarrow> secure \<Rightarrow> bool" where
  "secure_ok C ks s \<longleftrightarrow> offset s < length (SECURE_UNLOCK_SEQUENCE C) \<and>
    ends_with ks (take (offset s) (SECURE_UNLOCK_SEQUENCE C)) \<and>
    (secure_status s = SECURE_UNLOCKED \<longrightarrow> sequence_entered C ks)"

lemma ends_with_Nil [simp]: "ends_with ks []"
  by (simp add: ends_with_def)

lemma ends_with_snoc: "ends_with ks xs \<Longrightarrow> ends_with (ks @ [k]) (xs @ [k])"
  by (auto simp: ends_with_def)

lemma entered_all: "ends_with ks (SECURE_UNLOCK_SEQUENCE C) \<Longrightarrow> sequence_entered C ks"
  unfolding ends_with_def sequence_entered_def by (metis append_Nil2)

lemma keypress_ok:
  assumes "secure_ok C ks s" "secure_status s = SECURE_PENDING"
  shows "secure_ok C (ks @ [(row, col)]) (secure_keypress_event C now row col s)"
proof (cases "SECURE_UNLOCK_SEQUENCE C ! offset s = (row, col)")
  case True
  define q where "q = SECURE_UNLOCK_SEQUENCE C"
  have o: "offset s < length q" "ends_with ks (take (offset s) q)" using assms(1) by (simp_all add: secure_ok_def q_def)
  have e: "ends_with (ks @ [(row, col)]) (take (Suc (offset s)) q)"
    using ends_with_snoc [OF o(2), of "(row, col)"] True o(1) by (simp add: take_Suc_conv_app_nth q_def)
  show ?thesis
  proof (cases "Suc (offset s) = length q")
    case all: True
    then have "sequence_entered C (ks @ [(row, col)])" using entered_all e by (simp add: q_def)
    then show ?thesis using True all o(1)
      by (auto simp: secure_keypress_event_def secure_ok_def secure_unlock_def q_def)
  next
    case False
    then show ?thesis using True e o(1) assms(2) by (simp add: secure_keypress_event_def secure_ok_def q_def)
  qed
next
  case False
  have "0 < length (SECURE_UNLOCK_SEQUENCE C)" using assms(1) by (auto simp: secure_ok_def)
  then show ?thesis using False by (simp add: secure_keypress_event_def secure_ok_def secure_lock_def)
qed

lemma lock_ok: "secure_ok C ks s \<Longrightarrow> secure_ok C ks (secure_lock s)"
  by (simp add: secure_ok_def secure_lock_def)

lemma secure_run_ok: "secure_run C s0 ks s \<Longrightarrow> secure_ok C [] s0 \<Longrightarrow> secure_ok C ks s"
proof (induction rule: secure_run.induct)
  case (entered ks s row col now kc)
  then show ?case using keypress_ok by (simp add: preprocess_secure_def)
next
  case (released ks s kc now row col)
  then have ok: "secure_ok C ks s" by simp
  then have "secure_ok C ks (secure_lock s)" "secure_ok C ks (secure_request_unlock now s)"
    by (rule lock_ok) (use ok in \<open>auto simp: secure_request_unlock_def secure_ok_def\<close>)
  then show ?case using released by (auto simp: preprocess_secure_def process_secure_def)
next
  case (pressed ks s now row col kc)
  then show ?case by (auto simp: preprocess_secure_def process_secure_def)
next
  case (other ks s ev now)
  then have ok: "secure_ok C ks s" by simp
  then have "secure_ok C ks (secure_request_unlock now s)" "secure_ok C ks (secure_activity_event now s)"
    "secure_ok C ks (secure_task C now s)"
    by (auto simp: secure_task_def Let_def lock_ok secure_request_unlock_def secure_activity_event_def)
      (auto simp: secure_ok_def)
  then show ?case using other.hyps(2) by (cases ev) auto
qed simp


text \<open>A time-out locks the keyboard but keeps the position in the sequence: the keys of two requests add up.\<close>

definition two_keys_config :: secure_config where
  "two_keys_config = \<lparr>SECURE_UNLOCK_SEQUENCE = [(0, 0), (1, 1)], SECURE_UNLOCK_TIMEOUT = 5000, SECURE_IDLE_TIMEOUT = 60000\<rparr>"

definition interrupted_unlock :: "(u32 \<times> secure_event) list" where
  "interrupted_unlock = [(0, Secure_Request), (10, Secure_Key 0 0 4 True), (6000, Secure_Task),
    (70000, Secure_Request), (70010, Secure_Key 1 1 5 True)]"

lemma secure_timeout_keeps_position:
  "map (\<lambda>n. secure_status (fold (\<lambda>(t, ev). secure_step two_keys_config t ev) (take n interrupted_unlock) secure_start)) [3, 5]
    = [SECURE_LOCKED, SECURE_UNLOCKED]"
  by code_simp


end
