(* ===== verification/Layer_Lock.thy ===== *)
theory Layer_Lock
  imports Action_More Action_Props Bitwise
begin

unbundle bit_operations_syntax

text \<open>
  Layer lock (\<open>quantum/layer_lock.c\<close>, \<open>process_layer_lock.c\<close>): layers that stay on until they are unlocked. An
  idle time-out of 0 is a build without one. \<open>get_highest_layer\<close> is \<open>biton\<close> of the width of the layer state,
  the argument \<open>highest\<close>; the hooks are the weak defaults.
\<close>

section \<open>State and operations\<close>

record 'w lls = "'w act" +
  locked_layers :: 'w
  layer_lock_timer :: u32

type_synonym ('l, 'z) ll = "('l word, 'z) lls_scheme"

record ll_env = act_env +
  timer_read32 :: u32
  LAYER_LOCK_IDLE_TIMEOUT :: u32

definition is_layer_locked :: "nat \<Rightarrow> ('l::len, 'z) ll \<Rightarrow> bool" where
  "is_layer_locked layer s \<longleftrightarrow> locked_layers s AND layer_mask layer \<noteq> 0"

definition layer_lock_activity_trigger :: "'e ll_env_scheme \<Rightarrow> ('l::len, 'z) ll \<Rightarrow> ('l, 'z) ll" where
  "layer_lock_activity_trigger env s =
    (if LAYER_LOCK_IDLE_TIMEOUT env > 0 then s\<lparr>layer_lock_timer := timer_read32 env\<rparr> else s)"

definition layer_lock_invert :: "'e ll_env_scheme \<Rightarrow> nat \<Rightarrow> ('l::len, 'z) ll \<Rightarrow> ('l, 'z) ll" where
  "layer_lock_invert env layer s =
    (let mask = layer_mask layer;
         s1 = (if locked_layers s AND mask = 0
           then let s0 = (if layer = unat (get_oneshot_layer s) then reset_oneshot_layer s else s)
                in layer_lock_activity_trigger env (on_layers (layer_on layer) s0)
           else on_layers (layer_off layer) s)
     in s1\<lparr>locked_layers := locked_layers s1 XOR mask\<rparr>)"

definition layer_lock_on :: "'e ll_env_scheme \<Rightarrow> nat \<Rightarrow> ('l::len, 'z) ll \<Rightarrow> ('l, 'z) ll" where
  "layer_lock_on env layer s = (if \<not> is_layer_locked layer s then layer_lock_invert env layer s else s)"

definition layer_lock_off :: "'e ll_env_scheme \<Rightarrow> nat \<Rightarrow> ('l::len, 'z) ll \<Rightarrow> ('l, 'z) ll" where
  "layer_lock_off env layer s = (if is_layer_locked layer s then layer_lock_invert env layer s else s)"

definition layer_lock_all_off :: "('l::len, 'z) ll \<Rightarrow> ('l, 'z) ll" where
  "layer_lock_all_off s = (on_layers (layer_and (NOT (locked_layers s))) s)\<lparr>locked_layers := 0\<rparr>"

definition layer_lock_timeout_task :: "'e ll_env_scheme \<Rightarrow> ('l::len, 'z) ll \<Rightarrow> ('l, 'z) ll" where
  "layer_lock_timeout_task env s =
    (if LAYER_LOCK_IDLE_TIMEOUT env > 0 \<and> locked_layers s \<noteq> 0 \<and>
        timer_read32 env - layer_lock_timer s > LAYER_LOCK_IDLE_TIMEOUT env
     then (layer_lock_all_off s)\<lparr>layer_lock_timer := timer_read32 env\<rparr> else s)"

section \<open>The keycodes\<close>

definition QK_LAYER_LOCK :: u16 where "QK_LAYER_LOCK = 0x7C7B"

definition handle_mo_or_tt :: "'e ll_env_scheme \<Rightarrow> nat \<Rightarrow> bool \<Rightarrow> ('l::len, 'z) ll \<Rightarrow> bool \<times> ('l, 'z) ll" where
  "handle_mo_or_tt env layer pressed s =
    (if is_layer_locked layer s then (False, if pressed then layer_lock_invert env layer s else s) else (True, s))"

definition process_layer_lock :: "'e ll_env_scheme \<Rightarrow> ('l::len word \<Rightarrow> u8) \<Rightarrow> u16 \<Rightarrow> keyrecord_t \<Rightarrow> ('l, 'z) ll
    \<Rightarrow> bool \<times> ('l, 'z) ll" where
  "process_layer_lock env highest keycode r s =
    (let s1 = layer_lock_activity_trigger env s; state = layer_state (layers s1);
         s2 = (if locked_layers s1 AND NOT state \<noteq> 0 then s1\<lparr>locked_layers := locked_layers s1 AND state\<rparr> else s1)
     in if keycode = QK_LAYER_LOCK
        then (False, if ev_pressed r then layer_lock_invert env (unat (highest (layer_state (layers s2)))) s2 else s2)
        else if in_range keycode 0x5220 0x523F \<or> in_range keycode 0x52C0 0x52DF
        then handle_mo_or_tt env (unat (keycode AND 0x1F)) (ev_pressed r) s2
        else if in_range keycode 0x5000 0x51FF
        then let layer = unat (drop_bit 5 keycode AND 0xF)
          in if is_layer_locked layer s2
             then (False, if ev_pressed r then layer_lock_invert env layer s2
                          else send_keyboard_report env (clear_mods s2))
             else (True, s2)
        else if in_range keycode 0x4000 0x4FFF
        then (\<not> (tap_count r = 0 \<and> \<not> ev_pressed r \<and> is_layer_locked (unat (drop_bit 8 keycode AND 0xF)) s2), s2)
        else (True, s2))"

section \<open>Locked layers are on\<close>

definition locks_on :: "('l::len, 'z) ll \<Rightarrow> bool" where
  "locks_on s \<longleftrightarrow> locked_layers s AND NOT (layer_state (layers s)) = 0"

lemma locked_bit: "is_layer_locked layer s \<longleftrightarrow> bit (locked_layers s) layer"
  by (simp add: is_layer_locked_def and_layer_mask)

lemma locks_on_bits: "locks_on s \<longleftrightarrow> (\<forall>n. bit (locked_layers s) n \<longrightarrow> bit (layer_state (layers s)) n)"
proof
  assume "locks_on s"
  then have "\<not> bit (locked_layers s AND NOT (layer_state (layers s))) n" for n by (simp add: locks_on_def)
  then show "\<forall>n. bit (locked_layers s) n \<longrightarrow> bit (layer_state (layers s)) n"
    by (metis bit_and_iff bit_imp_possible_bit bit_not_iff)
qed (auto simp: locks_on_def intro!: bit_eqI simp: bit_simps)

lemma lock_fields [simp]:
  "locked_layers (on_layers f s) = locked_layers s" "layers (on_layers f s) = f (layers s)"
  "locked_layers (reset_oneshot_layer s) = locked_layers s" "layers (reset_oneshot_layer s) = layers s"
  "locked_layers (layer_lock_activity_trigger env s) = locked_layers s"
  "layers (layer_lock_activity_trigger env s) = layers s"
  by (simp_all add: on_layers_def reset_oneshot_layer_def layer_lock_activity_trigger_def)

lemma invert_view:
  "locked_layers (layer_lock_invert env layer s) = locked_layers s XOR layer_mask layer"
  "layer_state (layers (layer_lock_invert env layer s)) =
    (if bit (locked_layers s) layer then layer_state (layers s) AND NOT (layer_mask layer)
     else layer_state (layers s) OR layer_mask layer)"
  using and_layer_mask [of "locked_layers s" layer]
  by (auto simp: layer_lock_invert_def Let_def layer_on_def layer_off_def layer_state_set_def)

lemma invert_keeps_locks: "locks_on s \<Longrightarrow> locks_on (layer_lock_invert env layer s)"
  by (auto simp: locks_on_bits invert_view bit_simps bit_layer_mask dest: bit_imp_le_length)

lemma locked_of_more: "act.more s' = act.more s \<Longrightarrow> locked_layers s' = locked_layers (s :: ('l::len, 'z) ll)"
  by (cases s; cases s') simp

lemma send_keeps_locks: "locks_on (send_keyboard_report env (clear_mods s)) = locks_on s"
  using locked_of_more [OF act_more_of_kbd, of "send_keyboard_report env (clear_mods s)" s]
  by (simp add: locks_on_def send_simps more_simps) (simp add: clear_mods_def)

text \<open>The state in which the keycode is handled.\<close>

definition locks_cleaned :: "'e ll_env_scheme \<Rightarrow> ('l::len, 'z) ll \<Rightarrow> ('l, 'z) ll" where
  "locks_cleaned env s = (let s1 = layer_lock_activity_trigger env s; state = layer_state (layers s1)
    in if locked_layers s1 AND NOT state \<noteq> 0 then s1\<lparr>locked_layers := locked_layers s1 AND state\<rparr> else s1)"

lemma cleaned_locks_on: "locks_on (locks_cleaned env s)"
proof (cases "locked_layers s AND NOT (layer_state (layers s)) = 0")
  case False
  then show ?thesis by (simp add: locks_cleaned_def Let_def locks_on_bits bit_simps)
qed (simp add: locks_cleaned_def locks_on_def)

lemma cleaned_same: "locks_on s \<Longrightarrow> locked_layers (locks_cleaned env s) = locked_layers s"
  by (simp add: locks_cleaned_def Let_def locks_on_def)

lemma process_keeps_locks: "locks_on (snd (process_layer_lock env highest keycode r s))"
  unfolding process_layer_lock_def Let_def locks_cleaned_def [unfolded Let_def, symmetric]
  by (simp add: cleaned_locks_on invert_keeps_locks send_keeps_locks handle_mo_or_tt_def)


text \<open>Layer 1 is locked and on; its key MO(1) is pressed.\<close>

definition locked_example :: "8 word lls" where
  "locked_example = act.extend (on_layers (layer_on 1) (kbd_start 0 fresh_layers)) \<lparr>locked_layers = 2, layer_lock_timer = 0\<rparr>"

definition lock_env :: ll_env where
  "lock_env = act_env.extend plain_env \<lparr>timer_read32 = 0, LAYER_LOCK_IDLE_TIMEOUT = 0\<rparr>"


end
