(* ===== verification/Key_Override.thy ===== *)
theory Key_Override
  imports Action_More Action_Props Vial
begin

unbundle bit_operations_syntax

text \<open>
  Key overrides (\<open>quantum/process_keycode/process_key_override.c\<close>): while a trigger key and its modifiers are held,
  another key is sent and modifiers are suppressed. The overrides are those of the table Vial keeps
  (\<open>vial_key_overrides\<close> of \<open>Vial\<close>); a pointer to an override is its index in the table. Vial's overrides have no
  custom action; the build defines neither \<open>DUMMY_MOD_NEUTRALIZER_KEYCODE\<close> nor
  \<open>KEY_OVERRIDE_INCLUDE_WEAK_MODS\<close>. The table has fewer than 256 entries, so that the 8-bit loop counter ends.
\<close>

section \<open>State\<close>

record 'w kos = "'w act" +
  active_override :: "nat option"
  active_override_trigger_is_down :: bool
  last_key_down :: u16
  last_key_down_time :: u32
  defer_reference_time :: u32
  defer_delay :: u32
  deferred_register :: u16
  ko_enabled :: bool

type_synonym ('l, 'z) ko = "('l word, 'z) kos_scheme"

record ko_env = act_env +
  ko_timer :: u32
  key_overrides :: "key_override_t list"

definition KEY_OVERRIDE_REPEAT_DELAY :: u32 where "KEY_OVERRIDE_REPEAT_DELAY = 500"
definition SAFE_RANGE :: u16 where "SAFE_RANGE = 0x7E40"

definition ko_option_one_mod :: u8 where "ko_option_one_mod = 8"
definition ko_option_no_reregister_trigger :: u8 where "ko_option_no_reregister_trigger = 16"
definition ko_option_no_unregister_on_other_key_down :: u8 where "ko_option_no_unregister_on_other_key_down = 32"
definition ko_options_all_activations :: u8 where "ko_options_all_activations = 7"

lemmas ko_option_defs = ko_option_one_mod_def ko_option_no_reregister_trigger_def
  ko_option_no_unregister_on_other_key_down_def ko_options_all_activations_def

definition clear_mods_from :: "u16 \<Rightarrow> u16" where
  "clear_mods_from keycode = (if 0x0100 \<le> keycode \<and> keycode \<le> QK_MODS_MAX then keycode AND NOT 0x1F00 else keycode)"

text \<open>\<open>IS_BASIC_KEYCODE\<close> of a 16-bit keycode.\<close>

definition basic_keycode :: "u16 \<Rightarrow> bool" where
  "basic_keycode k \<longleftrightarrow> 0x04 \<le> k \<and> k \<le> 0xA4"

section \<open>Matching\<close>

definition key_override_matches_active_modifiers :: "key_override_t \<Rightarrow> u8 \<Rightarrow> bool" where
  "key_override_matches_active_modifiers ov mods \<longleftrightarrow>
    (if negative_mod_mask ov AND mods \<noteq> 0 then False
     else if trigger_mods ov = 0 then True
     else if options ov AND ko_option_one_mod \<noteq> 0 then trigger_mods ov AND mods \<noteq> 0
     else let required = (trigger_mods ov AND 0xF) OR drop_bit 4 (trigger_mods ov);
              active = trigger_mods ov AND mods
          in (active AND 0xF) OR drop_bit 4 active = required)"

definition check_activation_event :: "key_override_t \<Rightarrow> bool \<Rightarrow> bool \<Rightarrow> bool" where
  "check_activation_event ov key_down is_mod \<longleftrightarrow>
    (let opts = (if options ov AND ko_options_all_activations = 0 then ko_options_all_activations else options ov)
     in if is_mod then opts AND (if key_down then 2 else 4) \<noteq> 0
        else key_down \<and> opts AND 1 \<noteq> 0)"

section \<open>Activating and deactivating\<close>

definition schedule_deferred_register :: "'e ko_env_scheme \<Rightarrow> u16 \<Rightarrow> ('l::len, 'z) ko \<Rightarrow> ('l, 'z) ko" where
  "schedule_deferred_register env keycode s =
    (if ko_timer env - last_key_down_time s < KEY_OVERRIDE_REPEAT_DELAY
     then s\<lparr>defer_reference_time := last_key_down_time s, defer_delay := KEY_OVERRIDE_REPEAT_DELAY, deferred_register := keycode\<rparr>
     else s\<lparr>defer_reference_time := ko_timer env, defer_delay := 50, deferred_register := keycode\<rparr>)"

text \<open>The replacement key goes up; the code keeps it in a \<open>uint8_t\<close> here.\<close>

definition unregister_replacement :: "'e ko_env_scheme \<Rightarrow> u16 \<Rightarrow> ('l::len, 'z) ko \<Rightarrow> ('l, 'z) ko" where
  "unregister_replacement env keycode s =
    (let mod_free_replacement = ucast (clear_mods_from keycode) :: u8
     in if mod_free_replacement = 0 then s
        else if IS_BASIC_KEYCODE mod_free_replacement then del_key env mod_free_replacement s
        else unregister_code env mod_free_replacement (send_keyboard_report env s))"

definition clear_active_override :: "'e ko_env_scheme \<Rightarrow> bool \<Rightarrow> ('l::len, 'z) ko \<Rightarrow> ('l, 'z) ko" where
  "clear_active_override env allow_reregister s =
    (case active_override s of None \<Rightarrow> s
     | Some i \<Rightarrow>
       (let ov = key_overrides env ! i;
            s1 = clear_weak_override_mods (clear_suppressed_override_mods (s\<lparr>deferred_register := 0\<rparr>));
            s2 = unregister_replacement env (replacement ov) s1;
            s3 = (if allow_reregister \<and> options ov AND ko_option_no_reregister_trigger = 0 \<and>
                    active_override_trigger_is_down s2 \<and> trigger ov \<noteq> KC_NO \<and> trigger ov < SAFE_RANGE
                  then schedule_deferred_register env (trigger ov) s2 else s2)
        in (send_keyboard_report env s3)\<lparr>active_override := None, active_override_trigger_is_down := False\<rparr>))"

text \<open>The conditions under which the loop of \<open>try_activating_override\<close> does not \<open>continue\<close>.\<close>

definition override_applies :: "'e ko_env_scheme \<Rightarrow> u16 \<Rightarrow> u8 \<Rightarrow> bool \<Rightarrow> bool \<Rightarrow> u8 \<Rightarrow> ('l::len, 'z) ko \<Rightarrow> nat \<Rightarrow> bool" where
  "override_applies env keycode layer key_down is_mod active_mods s i \<longleftrightarrow>
    (let ov = key_overrides env ! i
     in \<not> (active_mods = 0 \<and> trigger_mods ov \<noteq> 0) \<and>
        key_override_t.layers ov AND push_bit (unat layer) 1 \<noteq> 0 \<and>
        check_activation_event ov key_down is_mod \<and>
        \<not> (trigger ov = keycode \<and> \<not> key_down) \<and>
        active_override s \<noteq> Some i \<and>
        enabled ov \<and>
        key_override_matches_active_modifiers ov active_mods \<and>
        (trigger ov = KC_NO \<or> (trigger ov = keycode \<and> key_down) \<or> last_key_down s = trigger ov))"

text \<open>The trigger goes up when another key than the trigger activates the override.\<close>

definition unregister_trigger :: "'e ko_env_scheme \<Rightarrow> u16 \<Rightarrow> ('l::len, 'z) ko \<Rightarrow> ('l, 'z) ko" where
  "unregister_trigger env trig s =
    (if basic_keycode trig then del_key env (ucast trig) s else unregister_code env (ucast trig) s)"

definition register_replacement :: "'e ko_env_scheme \<Rightarrow> bool \<Rightarrow> u16 \<Rightarrow> ('l::len, 'z) ko \<Rightarrow> ('l, 'z) ko" where
  "register_replacement env is_mod keycode s =
    (let mod_free_replacement = clear_mods_from keycode
     in if mod_free_replacement \<noteq> KC_NO \<and> mod_free_replacement < SAFE_RANGE
        then let s1 = set_weak_override_mods (extract_mod_bits keycode) s
             in if is_mod then send_keyboard_report env (schedule_deferred_register env mod_free_replacement s1)
                else if basic_keycode mod_free_replacement then add_key env (ucast mod_free_replacement) s1
                else register_code env (ucast mod_free_replacement) (wait_ms 10 (send_keyboard_report env s1))
        else send_keyboard_report env s)"

definition activate_override :: "'e ko_env_scheme \<Rightarrow> u16 \<Rightarrow> bool \<Rightarrow> bool \<Rightarrow> nat \<Rightarrow> ('l::len, 'z) ko \<Rightarrow> bool \<times> ('l, 'z) ko" where
  "activate_override env keycode key_down is_mod i s =
    (let ov = key_overrides env ! i; trigger_down = (trigger ov = keycode \<and> key_down);
         s1 = (clear_active_override env False s)\<lparr>active_override := Some i, active_override_trigger_is_down := True\<rparr>;
         s2 = set_suppressed_override_mods (key_override_t.suppressed_mods ov) s1;
         s3 = (if \<not> trigger_down \<and> trigger ov \<noteq> KC_NO then unregister_trigger env (trigger ov) s2 else s2)
     in (\<not> trigger_down, register_replacement env is_mod (replacement ov) s3))"

text \<open>The result: whether the key action is sent, whether an override was activated, the state.\<close>

definition try_activating_override ::
    "'e ko_env_scheme \<Rightarrow> u16 \<Rightarrow> u8 \<Rightarrow> bool \<Rightarrow> bool \<Rightarrow> u8 \<Rightarrow> ('l::len, 'z) ko \<Rightarrow> bool \<times> bool \<times> ('l, 'z) ko" where
  "try_activating_override env keycode layer key_down is_mod active_mods s =
    (case find (override_applies env keycode layer key_down is_mod active_mods s) [0..<length (key_overrides env)]
     of None \<Rightarrow> (True, False, s)
     | Some i \<Rightarrow> (let (send, s1) = activate_override env keycode key_down is_mod i s in (send, True, s1)))"

section \<open>Switching, events and the task\<close>

definition key_override_on :: "('l::len, 'z) ko \<Rightarrow> ('l, 'z) ko" where
  "key_override_on s = s\<lparr>ko_enabled := True\<rparr>"
definition key_override_off :: "'e ko_env_scheme \<Rightarrow> ('l::len, 'z) ko \<Rightarrow> ('l, 'z) ko" where
  "key_override_off env s = clear_active_override env False (s\<lparr>ko_enabled := False\<rparr>)"
definition key_override_is_enabled :: "('l::len, 'z) ko \<Rightarrow> bool" where
  "key_override_is_enabled s = ko_enabled s"
definition key_override_toggle :: "'e ko_env_scheme \<Rightarrow> ('l::len, 'z) ko \<Rightarrow> ('l, 'z) ko" where
  "key_override_toggle env s = (if key_override_is_enabled s then key_override_off env s else key_override_on s)"

definition key_override_task :: "'e ko_env_scheme \<Rightarrow> ('l::len, 'z) ko \<Rightarrow> ('l, 'z) ko" where
  "key_override_task env s =
    (if deferred_register s \<noteq> 0 \<and> ko_timer env - defer_reference_time s \<ge> defer_delay s
     then (register_code16 env (deferred_register s) s)\<lparr>deferred_register := 0, defer_reference_time := 0, defer_delay := 0\<rparr>
     else s)"

text \<open>The modifiers after the event, as \<open>process_key_override\<close> computes them.\<close>

definition modifier_keycode :: "u16 \<Rightarrow> bool" where
  "modifier_keycode k \<longleftrightarrow> 0xE0 \<le> k \<and> k \<le> 0xE7"

definition effective_mods :: "u16 \<Rightarrow> bool \<Rightarrow> ('l::len, 'z) kb \<Rightarrow> u8" where
  "effective_mods keycode key_down s =
    (let m = real_mods s OR oneshot_locked_mods s OR oneshot_mods s
     in if modifier_keycode keycode
        then if key_down then m OR MOD_BIT (ucast keycode) else m AND NOT (MOD_BIT (ucast keycode))
        else m)"

definition note_last_key :: "'e ko_env_scheme \<Rightarrow> u16 \<Rightarrow> bool \<Rightarrow> ('l::len, 'z) ko \<Rightarrow> ('l, 'z) ko" where
  "note_last_key env keycode key_down s =
    (if modifier_keycode keycode then s
     else if key_down then s\<lparr>last_key_down := keycode, last_key_down_time := ko_timer env, deferred_register := 0\<rparr>
     else if keycode = last_key_down s then s\<lparr>last_key_down := 0, last_key_down_time := 0, deferred_register := 0\<rparr>
     else s)"

text \<open>The second half of \<open>process_key_override\<close>: the event may end the active override.\<close>

definition end_override :: "'e ko_env_scheme \<Rightarrow> u16 \<Rightarrow> bool \<Rightarrow> u8 \<Rightarrow> nat \<Rightarrow> ('l::len, 'z) ko \<Rightarrow> ('l, 'z) ko" where
  "end_override env keycode key_down mods i s =
    (let ov = key_overrides env ! i
     in if modifier_keycode keycode
        then if key_override_matches_active_modifiers ov mods then s else clear_active_override env True s
        else let trigger_up = (keycode = trigger ov \<and> \<not> key_down);
                 s1 = (if trigger_up then s\<lparr>active_override_trigger_is_down := False\<rparr> else s)
          in if trigger_up \<or> (key_down \<and> options ov AND ko_option_no_unregister_on_other_key_down = 0)
             then clear_active_override env False s1 else s1)"

definition handle_override_event :: "'e ko_env_scheme \<Rightarrow> u16 \<Rightarrow> keyrecord_t \<Rightarrow> ('l::len, 'z) ko \<Rightarrow> bool \<times> ('l, 'z) ko" where
  "handle_override_event env keycode r s =
    (let key_down = ev_pressed r; is_mod = modifier_keycode keycode;
         mods = effective_mods keycode key_down s;
         s1 = note_last_key env keycode key_down s;
         (send, activated, s2) =
           (if is_mod \<or> key_down
            then let layer = read_source_layers_cache (act_env.dk env) (cache_bits env) (ev_key r) (kbd.layers s1);
                     (send, activated, s2) = try_activating_override env keycode layer key_down is_mod mods s1
                 in (send, activated, if send then s2 else send_keyboard_report env s2)
            else (True, False, s1))
     in (send, if activated then s2
               else case active_override s2 of None \<Rightarrow> s2 | Some i \<Rightarrow> end_override env keycode key_down mods i s2))"

definition process_key_override :: "'e ko_env_scheme \<Rightarrow> u16 \<Rightarrow> keyrecord_t \<Rightarrow> ('l::len, 'z) ko \<Rightarrow> bool \<times> ('l, 'z) ko" where
  "process_key_override env keycode r s =
    (if ev_pressed r \<and> keycode = 0x7C5D then (False, key_override_toggle env s)
     else if ev_pressed r \<and> keycode = 0x7C5E then (False, key_override_on s)
     else if ev_pressed r \<and> keycode = 0x7C5F then (False, key_override_off env s)
     else if \<not> ko_enabled s then (True, s)
     else handle_override_event env keycode r s)"

end
