(* ===== verification/Key_Override_Run.thy ===== *)
theory Key_Override_Run
  imports Key_Override Action_Oneshot
begin

unbundle bit_operations_syntax

text \<open>
  Key overrides in every run: which modifiers are suppressed, when an override stays active, and what it does
  to the key that triggers it.
\<close>

section \<open>What the operations leave alone\<close>

definition override_mods :: "('l::len, 'z) kb \<Rightarrow> u8 \<times> u8" where
  "override_mods s = (kbd.suppressed_mods s, weak_override_mods s)"

named_theorems override_simps \<open>keyboard operations leave the override modifiers alone\<close>

lemma override_mods_basic [override_simps]:
  "override_mods (add_key env k s) = override_mods s" "override_mods (del_key env k s) = override_mods s"
  "override_mods (add_mods m s) = override_mods s" "override_mods (del_mods m s) = override_mods s"
  "override_mods (add_weak_mods m s) = override_mods s" "override_mods (del_weak_mods m s) = override_mods s"
  "override_mods (emit x s) = override_mods s" "override_mods (wait_ms d s) = override_mods s"
  "override_mods (register_mouse c p s) = override_mods s" "override_mods (clear_oneshot_mods s) = override_mods s"
  by (simp_all add: add_key_def del_key_def add_mods_def del_mods_def add_weak_mods_def del_weak_mods_def
      emit_def wait_ms_def register_mouse_def clear_oneshot_mods_def override_mods_def)

lemma override_mods_get [override_simps]: "override_mods (snd (get_mods_for_report env s)) = override_mods s"
  by (simp add: get_mods_for_report_def Let_def override_simps)

lemma override_mods_send [override_simps]: "override_mods (send_keyboard_report env s) = override_mods s"
  using override_mods_get [of env s]
  by (auto simp: send_keyboard_report_def send_6kro_report_def send_nkro_report_def Let_def override_mods_def split: prod.split)

lemma override_mods_locking [override_simps]: "override_mods (tap_locking_key env k d s) = override_mods s"
  by (cases d) (simp_all add: tap_locking_key_def Let_def override_simps)

lemma override_mods_codes [override_simps]:
  "override_mods (register_code env c s) = override_mods s" "override_mods (unregister_code env c s) = override_mods s"
  "override_mods (register_mods env m s) = override_mods s" "override_mods (register_weak_mods env m s) = override_mods s"
  by (simp_all add: register_code_def unregister_code_def register_mods_def register_weak_mods_def Let_def override_simps)

lemma override_mods_code16 [override_simps]: "override_mods (register_code16 env c s) = override_mods s"
  by (simp add: register_code16_def override_simps)

text \<open>The variables of the feature.\<close>

definition ko_vars :: "('l::len, 'z) ko \<Rightarrow> nat option \<times> bool" where
  "ko_vars s = (active_override s, ko_enabled s)"

lemma ko_vars_of_more: "kbd.more s' = kbd.more s \<Longrightarrow> ko_vars s' = ko_vars s"
  by (cases s; cases s') (simp add: ko_vars_def)

lemmas ko_vars_keeps = more_simps [THEN ko_vars_of_more]

lemma fields_of_views:
  "active_override s = fst (ko_vars s)" "ko_enabled s = snd (ko_vars s)"
  "kbd.suppressed_mods s = fst (override_mods s)" "weak_override_mods s = snd (override_mods s)"
  by (simp_all add: ko_vars_def override_mods_def)

section \<open>The views after each operation\<close>

named_theorems view_simps \<open>the views after the operations of the feature\<close>

lemma view_schedule [view_simps]:
  "ko_vars (schedule_deferred_register env k s) = ko_vars s"
  "override_mods (schedule_deferred_register env k s) = override_mods s"
  by (simp_all add: schedule_deferred_register_def ko_vars_def override_mods_def)

lemma view_unregister [view_simps]:
  "ko_vars (unregister_replacement env k s) = ko_vars s" "override_mods (unregister_replacement env k s) = override_mods s"
  "ko_vars (unregister_trigger env k s) = ko_vars s" "override_mods (unregister_trigger env k s) = override_mods s"
  by (simp_all add: unregister_replacement_def unregister_trigger_def Let_def ko_vars_keeps override_simps)

lemma view_updates [simp]:
  "ko_vars (s\<lparr>active_override := a, active_override_trigger_is_down := d\<rparr>) = (a, snd (ko_vars s))"
  "override_mods (s\<lparr>active_override := a, active_override_trigger_is_down := d\<rparr>) = override_mods s"
  "ko_vars (s\<lparr>deferred_register := k\<rparr>) = ko_vars s" "override_mods (s\<lparr>deferred_register := k\<rparr>) = override_mods s"
  "ko_vars (clear_weak_override_mods s) = ko_vars s" "ko_vars (clear_suppressed_override_mods s) = ko_vars s"
  "override_mods (clear_weak_override_mods (clear_suppressed_override_mods s)) = (0, 0)"
  by (simp_all add: clear_weak_override_mods_def clear_suppressed_override_mods_def ko_vars_def override_mods_def)

lemma view_clear [view_simps]:
  "ko_vars (clear_active_override env b s) = (None, snd (ko_vars s))"
  "override_mods (clear_active_override env b s) =
    (if active_override s = None then override_mods s else (0, 0))"
proof -
  have None: "active_override s = None \<Longrightarrow> ko_vars s = (None, snd (ko_vars s))" by (simp add: ko_vars_def)
  show "ko_vars (clear_active_override env b s) = (None, snd (ko_vars s))"
    using None by (cases "active_override s")
      (simp_all add: clear_active_override_def Let_def view_simps ko_vars_keeps if_distrib [of ko_vars])
  show "override_mods (clear_active_override env b s) = (if active_override s = None then override_mods s else (0, 0))"
    by (cases "active_override s")
      (simp_all add: clear_active_override_def Let_def view_simps override_simps if_distrib [of override_mods])
qed

lemma clear_active: "active_override (clear_active_override env b s) = None"
  by (simp add: fields_of_views view_simps)

text \<open>The weak modifiers an override asks for: those of its replacement, when it is registered at all.\<close>

definition registers :: "u16 \<Rightarrow> bool" where
  "registers keycode \<longleftrightarrow> clear_mods_from keycode \<noteq> KC_NO \<and> clear_mods_from keycode < SAFE_RANGE"

lemma view_register [view_simps]:
  "ko_vars (register_replacement env is_mod k s) = ko_vars s"
  "override_mods (register_replacement env is_mod k s) =
    (kbd.suppressed_mods s, if registers k then extract_mod_bits k else weak_override_mods s)"
proof -
  have w: "ko_vars (set_weak_override_mods m s) = ko_vars s"
    "override_mods (set_weak_override_mods m s) = (kbd.suppressed_mods s, m)" for m
    by (simp_all add: set_weak_override_mods_def ko_vars_def override_mods_def)
  show "ko_vars (register_replacement env is_mod k s) = ko_vars s"
    by (simp add: register_replacement_def Let_def ko_vars_keeps view_simps w)
  show "override_mods (register_replacement env is_mod k s) =
    (kbd.suppressed_mods s, if registers k then extract_mod_bits k else weak_override_mods s)"
    by (simp add: register_replacement_def Let_def override_simps view_simps w registers_def) (simp add: override_mods_def)
qed

section \<open>The modifiers belong to the active override\<close>

definition mods_of_override :: "key_override_t list \<Rightarrow> nat option \<Rightarrow> u8 \<times> u8" where
  "mods_of_override T a = (case a of None \<Rightarrow> (0, 0) | Some i \<Rightarrow>
    (key_override_t.suppressed_mods (T ! i),
     if registers (replacement (T ! i)) then extract_mod_bits (replacement (T ! i)) else 0))"

definition ko_ok :: "key_override_t list \<Rightarrow> ('l::len, 'z) ko \<Rightarrow> bool" where
  "ko_ok T s \<longleftrightarrow> override_mods s = mods_of_override T (fst (ko_vars s)) \<and>
    (\<forall>i. fst (ko_vars s) = Some i \<longrightarrow> i < length T) \<and> (\<not> snd (ko_vars s) \<longrightarrow> fst (ko_vars s) = None)"

lemma clear_ok: "ko_ok T s \<Longrightarrow> ko_ok T (clear_active_override env b s)"
  by (simp add: ko_ok_def view_simps mods_of_override_def fields_of_views(1))

lemma view_activate:
  assumes "override_mods s = mods_of_override T (active_override s)" "key_overrides env = T"
  shows "ko_vars (snd (activate_override env k d m i s)) = (Some i, snd (ko_vars s))"
    "override_mods (snd (activate_override env k d m i s)) = mods_of_override T (Some i)"
proof -
  have set: "ko_vars (set_suppressed_override_mods x s) = ko_vars s"
    "override_mods (set_suppressed_override_mods x s) = (x, snd (override_mods s))" for x and s :: "('a, 'b) ko"
    by (simp_all add: set_suppressed_override_mods_def ko_vars_def override_mods_def)
  have "override_mods (clear_active_override env False s) = (0, 0)"
    using assms(1) by (simp add: view_simps mods_of_override_def)
  then show "ko_vars (snd (activate_override env k d m i s)) = (Some i, snd (ko_vars s))"
    "override_mods (snd (activate_override env k d m i s)) = mods_of_override T (Some i)"
    using assms(2) by (simp_all add: activate_override_def Let_def view_simps set fields_of_views(3,4)
        if_distrib [of override_mods] if_distrib [of ko_vars] mods_of_override_def)
qed

lemma found_index: "find P [0..<n] = Some i \<Longrightarrow> i < n \<and> P i"
  by (auto simp: find_Some_iff)

lemma note_view [view_simps]:
  "ko_vars (note_last_key env k d s) = ko_vars s" "override_mods (note_last_key env k d s) = override_mods s"
  by (simp_all add: note_last_key_def ko_vars_def override_mods_def)

lemma try_ok:
  assumes "ko_ok T s" "key_overrides env = T" "snd (ko_vars s)"
    "try_activating_override env k layer d m mods s = (send, act, s')"
  shows "ko_ok T s' \<and> snd (ko_vars s')"
proof (cases "find (override_applies env k layer d m mods s) [0..<length (key_overrides env)]")
  case (Some i)
  obtain s1 where "activate_override env k d m i s = (send, s1)" "s' = s1"
    using assms(4) Some by (auto simp: try_activating_override_def split: prod.splits)
  moreover have "override_mods s = mods_of_override T (active_override s)"
    using assms(1) by (simp add: ko_ok_def fields_of_views)
  ultimately show ?thesis
    using view_activate [of s T env k d m i] found_index [OF Some] assms(2,3) by (simp add: ko_ok_def)
qed (use assms in \<open>simp add: try_activating_override_def\<close>)

lemma ko_ok_send: "ko_ok T (send_keyboard_report env s) = ko_ok T s"
  by (simp add: ko_ok_def ko_vars_keeps override_simps)

lemma end_ok: "ko_ok T s \<Longrightarrow> ko_ok T (end_override env k d mods i s)"
proof -
  assume ok: "ko_ok T s"
  have "ko_ok T (s\<lparr>active_override_trigger_is_down := b\<rparr>)" for b
    using ok by (simp add: ko_ok_def ko_vars_def override_mods_def)
  then show ?thesis using ok by (simp add: end_override_def Let_def clear_ok)
qed

text \<open>The two ways through \<open>handle_override_event\<close>.\<close>

definition after_event :: "'e ko_env_scheme \<Rightarrow> u16 \<Rightarrow> bool \<Rightarrow> u8 \<Rightarrow> ('l::len, 'z) ko \<Rightarrow> ('l, 'z) ko" where
  "after_event env k d mods s = (case active_override s of None \<Rightarrow> s | Some i \<Rightarrow> end_override env k d mods i s)"

definition event_layer :: "'e ko_env_scheme \<Rightarrow> keyrecord_t \<Rightarrow> ('l::len, 'z) ko \<Rightarrow> u8" where
  "event_layer env r s = read_source_layers_cache (act_env.dk env) (cache_bits env) (ev_key r) (kbd.layers s)"

lemma handle_event_tried:
  assumes "modifier_keycode k \<or> ev_pressed r" "s1 = note_last_key env k (ev_pressed r) s"
    "try_activating_override env k (event_layer env r s1) (ev_pressed r) (modifier_keycode k)
      (effective_mods k (ev_pressed r) s) s1 = (send, act, s2)"
  shows "handle_override_event env k r s =
    (send, let s3 = (if send then s2 else send_keyboard_report env s2)
           in if act then s3 else after_event env k (ev_pressed r) (effective_mods k (ev_pressed r) s) s3)"
  using assms(1,3) unfolding handle_override_event_def Let_def assms(2) [symmetric] event_layer_def [symmetric]
    after_event_def [symmetric] by simp

lemma handle_event_up:
  "\<not> modifier_keycode k \<Longrightarrow> \<not> ev_pressed r \<Longrightarrow>
    handle_override_event env k r s =
      (True, after_event env k (ev_pressed r) (effective_mods k (ev_pressed r) s) (note_last_key env k (ev_pressed r) s))"
  unfolding handle_override_event_def Let_def after_event_def by (simp split: option.split)

lemma after_ok: "ko_ok T s \<Longrightarrow> ko_ok T (after_event env k d mods s)"
  by (simp add: after_event_def end_ok split: option.split)

lemma event_ok:
  assumes "ko_ok T s" "key_overrides env = T" "ko_enabled s"
  shows "ko_ok T (snd (handle_override_event env k r s))"
proof -
  define s1 where "s1 = note_last_key env k (ev_pressed r) s"
  have s1: "ko_ok T s1" "snd (ko_vars s1)"
    using assms by (simp_all add: s1_def ko_ok_def view_simps) (simp add: ko_vars_def)
  show ?thesis
  proof (cases "modifier_keycode k \<or> ev_pressed r")
    case True
    obtain send act s2 where t: "try_activating_override env k (event_layer env r s1) (ev_pressed r) (modifier_keycode k)
      (effective_mods k (ev_pressed r) s) s1 = (send, act, s2)" by (metis prod_cases3)
    have "ko_ok T (if send then s2 else send_keyboard_report env s2)"
      using try_ok [OF s1(1) assms(2) s1(2) t] by (simp add: ko_ok_send)
    then show ?thesis by (simp add: handle_event_tried [OF True s1_def t] Let_def after_ok)
  next
    case False
    then show ?thesis using s1(1) by (simp add: handle_event_up after_ok s1_def)
  qed
qed

lemma ko_process_ok:
  assumes "ko_ok T s" "key_overrides env = T"
  shows "ko_ok T (snd (process_key_override env k r s))"
proof -
  have "ko_ok T (key_override_on s)"
    using assms(1) by (simp add: ko_ok_def key_override_on_def ko_vars_def override_mods_def)
  moreover have "ko_ok T (key_override_off env s)"
    using assms(1) by (simp add: ko_ok_def key_override_off_def view_simps mods_of_override_def)
      (simp add: ko_vars_def override_mods_def)
  ultimately show ?thesis
    using assms event_ok [OF assms] by (simp add: process_key_override_def key_override_toggle_def)
qed

lemma ko_ok_deferred:
  "ko_ok T (s\<lparr>deferred_register := a, defer_reference_time := b, defer_delay := c\<rparr>) = ko_ok T s"
  by (simp add: ko_ok_def ko_vars_def override_mods_def)

lemma ko_task_ok:
  assumes "ko_ok T s"
  shows "ko_ok T (key_override_task env s)"
proof -
  have "ko_ok T (register_code16 env (deferred_register s) s)"
    using assms unfolding ko_ok_def ko_vars_of_more [OF more_code16(1)] override_mods_code16 .
  then show ?thesis using assms by (simp only: key_override_task_def ko_ok_deferred split: if_split) simp
qed

text \<open>
  A run of the feature with a fixed table: events, ticks of the task, and whatever else happens on the keyboard
  that leaves the active override, the switch of the feature and the override modifiers as they are.
\<close>

inductive ko_run :: "key_override_t list \<Rightarrow> ('l::len, 'z) ko \<Rightarrow> ('l, 'z) ko \<Rightarrow> bool" for T s0 where
  start: "ko_run T s0 s0"
| event: "ko_run T s0 s \<Longrightarrow> key_overrides env = T \<Longrightarrow> ko_run T s0 (snd (process_key_override (env :: ko_env) k r s))"
| tick: "ko_run T s0 s \<Longrightarrow> key_overrides env = T \<Longrightarrow> ko_run T s0 (key_override_task (env :: ko_env) s)"
| other: "ko_run T s0 s \<Longrightarrow> ko_vars s' = ko_vars s \<Longrightarrow> override_mods s' = override_mods s \<Longrightarrow> ko_run T s0 s'"

lemma ko_run_ok: "ko_run T s0 s \<Longrightarrow> ko_ok T s0 \<Longrightarrow> ko_ok T s"
  by (induction rule: ko_run.induct) (simp_all add: ko_process_ok ko_task_ok, simp add: ko_ok_def)

text \<open>C26: in every run the modifiers kept from the host and the modifiers added are those of the active override,
  and none when no override is active: nothing an override did to the modifiers outlives it.\<close>

theorem override_modifiers_end_with_it:
  assumes "ko_run T s0 s" "active_override s0 = None" "kbd.suppressed_mods s0 = 0" "weak_override_mods s0 = 0"
  shows "case active_override s of
      None \<Rightarrow> kbd.suppressed_mods s = 0 \<and> weak_override_mods s = 0
    | Some i \<Rightarrow> ko_enabled s \<and> i < length T \<and> kbd.suppressed_mods s = key_override_t.suppressed_mods (T ! i) \<and>
        weak_override_mods s = (if registers (replacement (T ! i)) then extract_mod_bits (replacement (T ! i)) else 0)"
proof -
  have "ko_ok T s0" using assms(2-4) by (simp add: ko_ok_def ko_vars_def override_mods_def mods_of_override_def)
  then have "ko_ok T s" by (rule ko_run_ok [OF assms(1)])
  then show ?thesis
    by (auto simp: ko_ok_def ko_vars_def override_mods_def mods_of_override_def split: option.splits)
qed

section \<open>When an override stays active\<close>

definition event_keeps :: "key_override_t \<Rightarrow> u16 \<Rightarrow> bool \<Rightarrow> u8 \<Rightarrow> bool" where
  "event_keeps ov k d mods \<longleftrightarrow>
    (if modifier_keycode k then key_override_matches_active_modifiers ov mods
     else if d then options ov AND ko_option_no_unregister_on_other_key_down \<noteq> 0
     else trigger ov \<noteq> k)"

lemma end_active:
  assumes "active_override (end_override env k d mods i s) = Some j"
  shows "active_override s = Some j \<and>
    event_keeps (key_overrides env ! i) k d mods"
  using assms by (auto simp: end_override_def event_keeps_def Let_def clear_active split: if_splits)

lemma after_active:
  assumes "active_override (after_event env k d mods s) = Some i"
  shows "active_override s = Some i \<and>
    event_keeps (key_overrides env ! i) k d mods"
proof (cases "active_override s")
  case (Some j)
  then have e: "active_override (end_override env k d mods j s) = Some i" using assms by (simp add: after_event_def)
  then show ?thesis using end_active [OF e] Some by auto
qed (use assms in \<open>simp add: after_event_def\<close>)

lemma activate_active: "active_override (snd (activate_override env k d m i s)) = Some i"
  by (simp add: activate_override_def Let_def fields_of_views view_simps if_distrib [of ko_vars])
    (simp add: ko_vars_def set_suppressed_override_mods_def)

lemma try_result:
  assumes "try_activating_override env k layer d m mods s = (send, act, s')"
  shows "if act then \<exists>i. active_override s' = Some i \<and> override_applies env k layer d m mods s i
    else send \<and> s' = s"
proof (cases "find (override_applies env k layer d m mods s) [0..<length (key_overrides env)]")
  case (Some i)
  then show ?thesis using assms activate_active [of env k d m i s] found_index [OF Some]
    by (auto simp: try_activating_override_def split: prod.splits)
qed (use assms in \<open>simp add: try_activating_override_def\<close>)


section \<open>Press and release of the trigger\<close>

text \<open>The state in which the report of an activated override is sent, up to the replacement key.\<close>

definition overridden :: "'e ko_env_scheme \<Rightarrow> u16 \<Rightarrow> nat \<Rightarrow> ('l::len, 'z) ko \<Rightarrow> ('l, 'z) ko" where
  "overridden env k i s = s\<lparr>last_key_down := k, last_key_down_time := ko_timer env, deferred_register := 0,
     active_override := Some i, active_override_trigger_is_down := True,
     kbd.suppressed_mods := key_override_t.suppressed_mods (key_overrides env ! i),
     weak_override_mods := extract_mod_bits (replacement (key_overrides env ! i))\<rparr>"

definition replacement_key :: "key_override_t \<Rightarrow> u8 option" where
  "replacement_key ov = (let k = clear_mods_from (replacement ov) in if basic_keycode k then Some (ucast k) else None)"

lemma basic_key_facts:
  assumes "basic_keycode k"
  shows "\<not> modifier_keycode k" "k \<noteq> KC_NO" "k < SAFE_RANGE" "k \<notin> {0x7C5D, 0x7C5E, 0x7C5F}"
    "IS_BASIC_KEYCODE (ucast k)" "(ucast k :: u8) \<noteq> 0" "0 < unat (ucast k :: u8)" "unat (ucast k :: u8) < 240"
proof -
  have u: "unat (ucast k :: u8) = unat k" "4 \<le> unat k" "unat k \<le> 0xA4"
    using assms by (auto simp: basic_keycode_def word_le_nat_alt unsigned_ucast_eq take_bit_nat_def)
  show "\<not> modifier_keycode k" "k \<noteq> KC_NO" "k < SAFE_RANGE" "k \<notin> {0x7C5D, 0x7C5E, 0x7C5F}"
    "IS_BASIC_KEYCODE (ucast k)" "(ucast k :: u8) \<noteq> 0" "0 < unat (ucast k :: u8)" "unat (ucast k :: u8) < 240"
    using u by (auto simp: modifier_keycode_def KC_NO_def SAFE_RANGE_def IS_BASIC_KEYCODE_def word_le_nat_alt word_less_nat_alt)
qed

lemma press_activates:
  assumes "active_override s = None" "ko_enabled s" "ev_pressed r" "basic_keycode k"
    "i < length (key_overrides env)" "trigger (key_overrides env ! i) = k"
    "override_applies env k (event_layer env r s) True False (effective_mods k True s) (note_last_key env k True s) i"
    "\<forall>j < i. \<not> override_applies env k (event_layer env r s) True False (effective_mods k True s) (note_last_key env k True s) j"
    "replacement_key (key_overrides env ! i) = Some key"
  shows "process_key_override env k r s = (False, send_keyboard_report env (add_key env key (overridden env k i s)))"
proof -
  define s1 where "s1 = note_last_key env k True s"
  note k = basic_key_facts [OF assms(4)]
  have s1: "s1 = s\<lparr>last_key_down := k, last_key_down_time := ko_timer env, deferred_register := 0\<rparr>"
    using k(1) by (simp add: s1_def note_last_key_def)
  have f: "find (override_applies env k (event_layer env r s) True False (effective_mods k True s) s1)
      [0..<length (key_overrides env)] = Some i"
    using assms(5,7,8) by (auto simp: find_Some_iff s1_def intro!: exI [of _ i])
  have rep: "basic_keycode (clear_mods_from (replacement (key_overrides env ! i)))"
    "ucast (clear_mods_from (replacement (key_overrides env ! i))) = key"
    using assms(9) by (auto simp: replacement_key_def Let_def split: if_splits)
  have layer: "event_layer env r s1 = event_layer env r s" by (simp add: event_layer_def s1)
  have "activate_override env k True False i s1 = (False, add_key env key (overridden env k i s))"
    using assms(1,6) basic_key_facts(2,3) [OF rep(1)] rep
    by (simp add: activate_override_def clear_active_override_def register_replacement_def overridden_def s1 Let_def
        set_suppressed_override_mods_def set_weak_override_mods_def)
  then have "try_activating_override env k (event_layer env r s1) (ev_pressed r) (modifier_keycode k)
      (effective_mods k (ev_pressed r) s) s1 = (False, True, add_key env key (overridden env k i s))"
    using f k(1) assms(3) by (simp add: try_activating_override_def layer)
  from handle_event_tried [OF _ _ this] show ?thesis
    using assms(2,3) k(4) by (simp add: process_key_override_def s1_def)
qed

lemma release_deactivates:
  assumes "active_override s = Some i" "ko_enabled s" "\<not> ev_pressed r" "basic_keycode k" "last_key_down s = k"
    "trigger (key_overrides env ! i) = k" "replacement_key (key_overrides env ! i) = Some key"
  shows "process_key_override env k r s =
    (True, (send_keyboard_report env (del_key env key (s\<lparr>last_key_down := 0, last_key_down_time := 0, active_override_trigger_is_down := False,
        deferred_register := 0, kbd.suppressed_mods := 0, weak_override_mods := 0\<rparr>)))
      \<lparr>active_override := None, active_override_trigger_is_down := False\<rparr>)"
proof -
  note k = basic_key_facts [OF assms(4)]
  have rep: "basic_keycode (clear_mods_from (replacement (key_overrides env ! i)))"
    "ucast (clear_mods_from (replacement (key_overrides env ! i))) = key"
    using assms(7) by (auto simp: replacement_key_def Let_def split: if_splits)
  have "process_key_override env k r s = handle_override_event env k r s"
    using assms(2,3) by (simp add: process_key_override_def)
  also have "\<dots> = (True, after_event env k (ev_pressed r) (effective_mods k (ev_pressed r) s) (note_last_key env k (ev_pressed r) s))"
    by (rule handle_event_up) (use k assms(3) in simp_all)
  also have "\<dots> = (True, clear_active_override env False (s\<lparr>last_key_down := 0, last_key_down_time := 0, deferred_register := 0,
      active_override_trigger_is_down := False\<rparr>))"
    using k(1) assms(1,3,5,6) by (simp add: after_event_def note_last_key_def end_override_def)
  finally show ?thesis
    using assms(1) basic_key_facts(5,6) [OF rep(1)] rep(2)
    by (simp add: clear_active_override_def unregister_replacement_def Let_def
        clear_weak_override_mods_def clear_suppressed_override_mods_def)
qed

lemma last_mods_sent:
  assumes "oneshot_mods s = 0"
  shows "last_mods env (send_keyboard_report env s) =
      ((real_mods s OR weak_mods s) AND NOT (kbd.suppressed_mods s)) OR weak_override_mods s"
    "oneshot_mods (send_keyboard_report env s) = 0"
proof -
  define m where "m = ((real_mods s OR weak_mods s) AND NOT (kbd.suppressed_mods s)) OR weak_override_mods s"
  have g: "get_mods_for_report env s = (m, s)" using assms by (simp add: get_mods_for_report_def Let_def m_def)
  show "last_mods env (send_keyboard_report env s) =
      ((real_mods s OR weak_mods s) AND NOT (kbd.suppressed_mods s)) OR weak_override_mods s"
    "oneshot_mods (send_keyboard_report env s) = 0"
    unfolding m_def [symmetric]
    by (cases "nkro_active env s"; auto simp: send_keyboard_report_def send_6kro_report_def send_nkro_report_def g
        assms last_mods_def nkro_active_def Let_def dest: arg_cong [of _ _ nkro_mods] arg_cong [of _ _ kb_mods])+
qed

lemma last_key_of_more: "kbd.more s' = kbd.more s \<Longrightarrow> last_key_down s' = last_key_down (s :: ('l::len, 'z) ko)"
  by (cases s; cases s') simp

lemma unswitched:
  "down env (s\<lparr>active_override := a, active_override_trigger_is_down := d\<rparr>) = down env s"
  "last_mods env (s\<lparr>active_override := a, active_override_trigger_is_down := d\<rparr>) = last_mods env s"
  by (simp_all add: down_def last_mods_def nkro_active_def)

lemma overridden_views:
  "kbd_ok (overridden env k i s) = kbd_ok s" "down env' (overridden env k i s) = down env' s"
  "nkro_active env' (overridden env k i s) = nkro_active env' s"
  by (simp_all add: overridden_def kbd_ok_def down_def nkro_active_def)

text \<open>C25: an enabled override replaces its trigger: its press is not passed on, the report gets the replacement key
  instead and the modifiers without the suppressed ones and with those of the replacement; the release takes the
  replacement key back and restores the modifiers.\<close>

theorem override_replaces_the_trigger:
  assumes "kbd_ok s" "oneshot_mods s = 0" "active_override s = None" "ko_enabled s" "ev_pressed r" "basic_keycode k"
    "i < length (key_overrides env)" "trigger (key_overrides env ! i) = k"
    "override_applies env k (event_layer env r s) True False (effective_mods k True s) (note_last_key env k True s) i"
    "\<forall>j < i. \<not> override_applies env k (event_layer env r s) True False (effective_mods k True s) (note_last_key env k True s) j"
    "replacement_key (key_overrides env ! i) = Some key"
    "nkro_active env s \<or> card (insert key (down env s)) \<le> 6"
  shows "let ov = key_overrides env ! i; mods = real_mods s OR weak_mods s;
      (go, s') = process_key_override env k r s; (go', s'') = process_key_override env k (r\<lparr>ev_pressed := False\<rparr>) s' in
    \<not> go \<and> down env s' = insert key (down env s) \<and>
    last_mods env s' = (mods AND NOT (key_override_t.suppressed_mods ov)) OR extract_mod_bits (replacement ov) \<and>
    go' \<and> active_override s'' = None \<and> down env s'' = down env s - {key} \<and> last_mods env s'' = mods"
proof -
  define s1 where "s1 = add_key env key (overridden env k i s)"
  define s' where "s' = send_keyboard_report env s1"
  have key: "0 < unat key" "unat key < 240"
    using assms(11) basic_key_facts(7,8) by (auto simp: replacement_key_def Let_def split: if_splits)
  have s1: "oneshot_mods s1 = 0" "real_mods s1 = real_mods s" "weak_mods s1 = weak_mods s" "ko_enabled s1"
    "kbd.suppressed_mods s1 = key_override_t.suppressed_mods (key_overrides env ! i)"
    "weak_override_mods s1 = extract_mod_bits (replacement (key_overrides env ! i))" "last_key_down s1 = k"
    "active_override s1 = Some i"
    using assms(2,4) by (simp_all add: s1_def add_key_def overridden_def)
  have ok1: "kbd_ok s1" using assms(1) by (simp add: s1_def kbd_ok_intros overridden_views)
  have d1: "down env s1 = insert key (down env s)"
    using down_key_ops(2) [of "overridden env k i s" key env] key assms(1,12) by (simp add: s1_def overridden_views)
  have fields: "active_override s' = Some i" "ko_enabled s'" "last_key_down s' = k"
    using s1(4,7,8) last_key_of_more [OF more_send, of env s1] ko_vars_of_more [OF more_send, of env s1]
    by (simp_all add: s'_def ko_vars_def)
  define s2 where "s2 = s'\<lparr>last_key_down := 0, last_key_down_time := 0, active_override_trigger_is_down := False,
    deferred_register := 0, kbd.suppressed_mods := 0, weak_override_mods := 0\<rparr>"
  have s2: "kbd_ok s2" "down env s2 = insert key (down env s)" "oneshot_mods s2 = 0"
    "real_mods s2 = real_mods s" "weak_mods s2 = weak_mods s"
    "kbd.suppressed_mods s2 = 0" "weak_override_mods s2 = 0"
    using ok1 d1 s1 last_mods_sent(2) [OF s1(1)] kbd_ok_send [OF ok1, of env] down_send [of env env s1]
    by (simp_all add: s2_def s'_def send_simps kbd_ok_def down_def nkro_active_def)
  have press: "process_key_override env k r s = (False, s')"
    unfolding s'_def s1_def by (rule press_activates) (use assms in simp_all)
  have release: "process_key_override env k (r\<lparr>ev_pressed := False\<rparr>) s' =
    (True, (send_keyboard_report env (del_key env key s2))
      \<lparr>active_override := None, active_override_trigger_is_down := False\<rparr>)"
    unfolding s2_def by (rule release_deactivates) (use assms fields in simp_all)
  have "down env (del_key env key s2) = down env s - {key}"
    using down_key_ops(1) [OF s2(1) key] s2(2) by auto
  moreover have "down env s' = insert key (down env s)" by (simp add: s'_def d1 down_send)
  ultimately show ?thesis
    using s1 s2 last_mods_sent(1) [OF s1(1), of env] last_mods_sent(1) [of "del_key env key s2" env]
    by (simp add: press release Let_def del_key_def s'_def [symmetric] unswitched down_send)
qed

text \<open>Shift and backspace is delete; left shift is held.\<close>

definition delete_override :: key_override_t where
  "delete_override = \<lparr>trigger = 0x2A, trigger_mods = 0x22, layers = 0xFFFFFFFF, negative_mod_mask = 0, suppressed_mods = 0x22,
     replacement = 0x4C, options = 7, enabled = True\<rparr>"

definition override_env :: ko_env where
  "override_env = act_env.extend plain_env \<lparr>ko_timer = 0, key_overrides = [delete_override]\<rparr>"

definition shift_held :: "8 word kos" where
  "shift_held = act.extend (kbd_start 0 fresh_layers\<lparr>real_mods := 2\<rparr>)
    \<lparr>active_override = None, active_override_trigger_is_down = False, last_key_down = 0, last_key_down_time = 0,
     defer_reference_time = 0, defer_delay = 0, deferred_register = 0, ko_enabled = True\<rparr>"

lemma override_table: "key_overrides override_env = [delete_override]"
  by (simp add: override_env_def act_env.defs)

lemma delete_facts:
  "trigger delete_override = 0x2A" "replacement_key delete_override = Some 0x4C" "basic_keycode 0x2A"
  "key_override_t.suppressed_mods delete_override = 0x22" "extract_mod_bits (replacement delete_override) = 0"
  by code_simp+

lemma delete_applies:
  "override_applies override_env 0x2A (event_layer override_env (key_record 0 True) shift_held) True False
    (effective_mods 0x2A True shift_held) (note_last_key override_env 0x2A True shift_held) 0"
  by code_simp

lemma shift_held_facts:
  "kbd_ok shift_held" "oneshot_mods shift_held = 0" "active_override shift_held = None" "ko_enabled shift_held"
  "ev_pressed (key_record 0 True)" "basic_keycode 0x2A" "0 < length (key_overrides override_env)"
  "trigger (key_overrides override_env ! 0) = 0x2A" "replacement_key (key_overrides override_env ! 0) = Some 0x4C"
  "down override_env shift_held = {}" "real_mods shift_held = 2" "weak_mods shift_held = 0"
  "key_override_t.suppressed_mods (key_overrides override_env ! 0) = 0x22"
  "kbd.suppressed_mods shift_held = 0" "weak_override_mods shift_held = 0"
  using kbd_start_ok [of 0 fresh_layers]
  by (simp_all add: override_table delete_facts)
    (simp_all add: shift_held_def act.defs kbd_start_def kbd_ok_def key_record_def down_def empty_reports_ok)

theorem override_replaces_the_trigger_witness:
  "down override_env (snd (process_key_override override_env 0x2A (key_record 0 True) shift_held)) = {0x4C} \<and>
    last_mods override_env (snd (process_key_override override_env 0x2A (key_record 0 True) shift_held)) = 0"
proof -
  note f = shift_held_facts
  show ?thesis
    using override_replaces_the_trigger [of shift_held "key_record 0 True" "0x2A" 0 override_env "0x4C",
      OF f(1-8) delete_applies _ f(9)] f(10-13)
    by (simp add: Let_def case_prod_beta override_table delete_facts)
qed

theorem override_modifiers_end_with_it_witness:
  "kbd.suppressed_mods (snd (process_key_override override_env 0x2A (key_record 0 True) shift_held)) = 0x22"
proof -
  note f = shift_held_facts
  define s where "s = snd (process_key_override override_env 0x2A (key_record 0 True) shift_held)"
  have "ko_run [delete_override] shift_held s"
    unfolding s_def by (intro ko_run.intros) (rule override_table)
  moreover have "active_override s = Some 0"
    using press_activates [OF f(3-8) delete_applies _ f(9)] ko_vars_of_more [OF more_send] ko_vars_of_more [OF more_basic(1)]
    by (simp add: s_def fields_of_views ko_vars_keeps) (simp add: ko_vars_def overridden_def)
  ultimately show ?thesis
    using override_modifiers_end_with_it [of "[delete_override]" shift_held s] f(3,14,15)
    by (simp add: s_def [symmetric] delete_facts)
qed


section \<open>Replacements that are never registered\<close>

text \<open>A replacement from \<open>SAFE_RANGE\<close> on is never pressed, but when the override ends the key of its low byte
  is taken out of the report, a key that may be held for itself.\<close>

lemma override_end_releases_a_foreign_key:
  assumes "kbd_ok s" "active_override s = Some i" "SAFE_RANGE \<le> replacement (key_overrides env ! i)"
    "IS_BASIC_KEYCODE (ucast (replacement (key_overrides env ! i)))"
  shows "\<not> registers (replacement (key_overrides env ! i)) \<and>
    down env (clear_active_override env False s) = down env s - {ucast (replacement (key_overrides env ! i))}"
proof -
  define k where "k = replacement (key_overrides env ! i)"
  define key :: u8 where "key = ucast k"
  have c: "clear_mods_from k = k" using assms(3) by (auto simp: clear_mods_from_def k_def SAFE_RANGE_def QK_MODS_MAX_def
        word_le_nat_alt)
  have key: "0 < unat key" "unat key < 240" "key \<noteq> 0"
    using assms(4) by (auto simp: k_def key_def IS_BASIC_KEYCODE_def word_le_nat_alt)
  define s1 where "s1 = clear_weak_override_mods (clear_suppressed_override_mods (s\<lparr>deferred_register := 0\<rparr>))"
  have s1: "kbd_ok s1" "down env s1 = down env s"
    using assms(1) by (simp_all add: s1_def clear_weak_override_mods_def clear_suppressed_override_mods_def kbd_ok_def
        down_def nkro_active_def)
  have "clear_active_override env False s = (send_keyboard_report env (del_key env key s1))
      \<lparr>active_override := None, active_override_trigger_is_down := False\<rparr>"
    using assms(2,4) key(3) by (simp add: clear_active_override_def unregister_replacement_def Let_def c
        flip: s1_def k_def key_def)
  then show ?thesis
    using assms(3) c down_key_ops(1) [OF s1(1) key(1,2)] s1(2)
    by (auto simp: unswitched down_send registers_def simp flip: k_def key_def)
qed

text \<open>F11 (0x44) is held while an override with the custom keycode 0x7E44 is active.\<close>

definition custom_env :: ko_env where
  "custom_env = act_env.extend plain_env \<lparr>ko_timer = 0, key_overrides = [delete_override\<lparr>replacement := 0x7E44\<rparr>]\<rparr>"

definition f11_held :: "8 word kos" where
  "f11_held = add_key custom_env 0x44 (shift_held\<lparr>active_override := Some 0\<rparr>)"

lemma override_end_releases_a_foreign_key_witness:
  "0x44 \<in> down custom_env f11_held \<and> 0x44 \<notin> down custom_env (clear_active_override custom_env False f11_held)"
proof -
  have ok: "kbd_ok (shift_held\<lparr>active_override := Some 0\<rparr>)" and
    d: "down custom_env (shift_held\<lparr>active_override := Some 0\<rparr>) = {}"
    using shift_held_facts(1,10) by (simp_all add: kbd_ok_def down_def shift_held_def act.defs kbd_start_def empty_reports_ok)
  have table: "key_overrides custom_env ! 0 = delete_override\<lparr>replacement := 0x7E44\<rparr>"
    by (simp add: custom_env_def act_env.defs)
  have "down custom_env f11_held = {0x44}"
    using down_key_ops(2) [OF ok, of "0x44" custom_env] d by (simp add: f11_held_def)
  moreover have "kbd_ok f11_held" "active_override f11_held = Some 0"
    using ok by (simp_all add: f11_held_def kbd_ok_intros) (simp add: add_key_def)
  ultimately show ?thesis
    using override_end_releases_a_foreign_key [of f11_held 0 custom_env]
    by (simp add: table SAFE_RANGE_def IS_BASIC_KEYCODE_def)
qed

end
