(* ===== verification/Combo.thy ===== *)
theory Combo
  imports Tapping Vial
begin

unbundle bit_operations_syntax

text \<open>
  Combos (\<open>quantum/process_keycode/process_combo.c\<close>): several keys pressed together send one keycode. The build is
  Vial's: the combos are those of the table \<open>key_combos\<close> that \<open>Vial\<close> loads, \<open>COMBO_TERM_PER_COMBO\<close> is defined
  (the term is the setting \<open>combo_term\<close>), the other \<open>COMBO_...\<close> switches are not, \<open>TAP_CODE_DELAY\<close> is 0 and
  \<open>CAPS_WORD_ENABLE\<close> and \<open>AUTO_SHIFT_ENABLE\<close> are not both on. \<open>combo_ref_from_layer\<close> is the weak default, so the keycode is not
  looked up again. Combos run before the tap-hold code, to which they pass on what they release: the calls
  they make are collected in \<open>combo_calls\<close> and done by \<open>perform_calls\<close>. These calls do not come back to the
  combo code, so \<open>key_buffer_next\<close> is 0 whenever \<open>dump_key_buffer\<close> starts and is left out.
\<close>

section \<open>State\<close>

definition COMBO_KEY_BUFFER_LENGTH :: nat where "COMBO_KEY_BUFFER_LENGTH = 8"
definition COMBO_BUFFER_LENGTH :: nat where "COMBO_BUFFER_LENGTH = 4"

text \<open>The part of \<open>combo_t\<close> that changes while keys are pressed.\<close>

record combo_flags =
  combo_disabled :: bool
  combo_active :: bool
  combo_state :: u8

text \<open>A queued press; a combo index of -1 is \<open>None\<close>.\<close>

record queued_record_t =
  queued_record :: keyrecord_t
  queued_combo :: "nat option"
  queued_keycode :: u16

datatype combo_call = Tapping_Process keyrecord_t | Process_Combo_Event nat bool | Clear_Weak_Mods

record combos =
  combo_timer :: u16
  b_combo_enable :: bool
  longest_term :: u16
  key_buffer :: "queued_record_t list"
  combo_buffer :: "nat list"
  combo_buffer_read :: nat
  combo_buffer_write :: nat
  flags :: "combo_flags list"
  combo_calls :: "combo_call list"

record combo_env =
  combo_clock :: u16
  QS_combo_term :: u16
  combo_table :: "combo_t list"

definition fresh_flags :: combo_flags where
  "fresh_flags = \<lparr>combo_disabled = False, combo_active = False, combo_state = 0\<rparr>"

definition combos_start :: "nat \<Rightarrow> combos" where
  "combos_start n = \<lparr>combo_timer = 0, b_combo_enable = True, longest_term = 0, key_buffer = [],
     combo_buffer = replicate COMBO_BUFFER_LENGTH 0, combo_buffer_read = 0, combo_buffer_write = 0,
     flags = replicate n fresh_flags, combo_calls = []\<rparr>"

definition call :: "combo_call \<Rightarrow> combos \<Rightarrow> combos" where
  "call c s = s\<lparr>combo_calls := combo_calls s @ [c]\<rparr>"

definition set_flags :: "nat \<Rightarrow> (combo_flags \<Rightarrow> combo_flags) \<Rightarrow> combos \<Rightarrow> combos" where
  "set_flags i f s = s\<lparr>flags := (flags s)[i := f (flags s ! i)]\<rparr>"

definition ACTIVATE_COMBO :: "nat \<Rightarrow> combos \<Rightarrow> combos" where
  "ACTIVATE_COMBO i = set_flags i (combo_active_update (\<lambda>_. True))"
definition DEACTIVATE_COMBO :: "nat \<Rightarrow> combos \<Rightarrow> combos" where
  "DEACTIVATE_COMBO i = set_flags i (combo_active_update (\<lambda>_. False))"
definition DISABLE_COMBO :: "nat \<Rightarrow> combos \<Rightarrow> combos" where
  "DISABLE_COMBO i = set_flags i (combo_disabled_update (\<lambda>_. True))"
definition KEY_STATE_DOWN :: "nat \<Rightarrow> nat \<Rightarrow> combos \<Rightarrow> combos" where
  "KEY_STATE_DOWN i key_index = set_flags i (combo_state_update (\<lambda>st. st OR push_bit key_index 1))"
definition KEY_STATE_UP :: "nat \<Rightarrow> nat \<Rightarrow> combos \<Rightarrow> combos" where
  "KEY_STATE_UP i key_index = set_flags i (combo_state_update (\<lambda>st. st AND NOT (push_bit key_index 1)))"

definition ALL_COMBO_KEYS_ARE_DOWN :: "u8 \<Rightarrow> nat \<Rightarrow> bool" where
  "ALL_COMBO_KEYS_ARE_DOWN st key_count \<longleftrightarrow> 2 ^ key_count - 1 = unat st"
definition ONLY_ONE_KEY_IS_DOWN :: "u8 \<Rightarrow> bool" where
  "ONLY_ONE_KEY_IS_DOWN st \<longleftrightarrow> st AND (st - 1) = 0"
definition KEY_NOT_YET_RELEASED :: "u8 \<Rightarrow> nat \<Rightarrow> bool" where
  "KEY_NOT_YET_RELEASED st key_index \<longleftrightarrow> st AND push_bit key_index 1 \<noteq> 0"

definition INCREMENT_MOD :: "nat \<Rightarrow> nat" where
  "INCREMENT_MOD i = (i + 1) mod COMBO_BUFFER_LENGTH"

text \<open>The indices a loop from \<open>combo_buffer_read\<close> up to \<open>combo_buffer_write\<close> visits.\<close>

definition buffer_indices :: "combos \<Rightarrow> nat list" where
  "buffer_indices s = map (\<lambda>k. (combo_buffer_read s + k) mod COMBO_BUFFER_LENGTH)
    [0..<(combo_buffer_write s + COMBO_BUFFER_LENGTH - combo_buffer_read s) mod COMBO_BUFFER_LENGTH]"

text \<open>\<open>_find_key_index_and_count\<close> from a position on: the key index found so far and the number of keys.\<close>

fun find_key :: "u16 list \<Rightarrow> u16 \<Rightarrow> nat option \<Rightarrow> nat \<Rightarrow> nat option \<times> nat" where
  "find_key [] keycode index count = (index, count)"
| "find_key (key # keys) keycode index count =
    (if key = 0 then (index, count)
     else find_key keys keycode (if keycode = key then Some count else index) (count + 1))"

definition find_key_index_and_count :: "u16 list \<Rightarrow> u16 \<Rightarrow> nat option \<times> nat" where
  "find_key_index_and_count keys keycode = find_key keys keycode None 0"

section \<open>Releasing what was queued\<close>

definition combo_record :: "combo_env \<Rightarrow> u16 \<Rightarrow> keyrecord_t" where
  "combo_record env keycode = \<lparr>ev_key = \<lparr>krow = 0, kcol = 0\<rparr>, ev_time = combo_clock env, ev_type = COMBO_EVENT,
     ev_pressed = False, tap_interrupted = False, tap_count = 0, rec_keycode = keycode\<rparr>"

definition release_combo :: "combo_env \<Rightarrow> nat \<Rightarrow> combos \<Rightarrow> combos" where
  "release_combo env i s =
    (let keycode = combo_keycode (combo_table env ! i)
     in DEACTIVATE_COMBO i (call (if keycode \<noteq> 0 then Tapping_Process (combo_record env keycode)
                                  else Process_Combo_Event i False) s))"

definition clear_combos :: "combos \<Rightarrow> combos" where
  "clear_combos s = s\<lparr>longest_term := 0,
     flags := map (\<lambda>f. if combo_active f then f else f\<lparr>combo_disabled := False, combo_state := 0\<rparr>) (flags s)\<rparr>"

definition dump_record :: "queued_record_t \<Rightarrow> combos \<Rightarrow> combos" where
  "dump_record q s =
    (if IS_NOEVENT (queued_record q) then s
     else call Clear_Weak_Mods
       (case queued_combo q of
          Some i \<Rightarrow> if rec_keycode (queued_record q) = 0 then call (Process_Combo_Event i True) s
                   else call (Tapping_Process (queued_record q)) s
        | None \<Rightarrow> call (Tapping_Process (queued_record q)) s))"

definition dump_key_buffer :: "combos \<Rightarrow> combos" where
  "dump_key_buffer s = (fold dump_record (key_buffer s) s)\<lparr>key_buffer := []\<rparr>"

text \<open>The loop stops at the first entry of the combo.\<close>

fun drop_from :: "nat \<Rightarrow> nat list \<Rightarrow> combos \<Rightarrow> combos" where
  "drop_from combo_index [] s = s"
| "drop_from combo_index (i # is) s =
    (if combo_buffer s ! i = combo_index
     then let s1 = DISABLE_COMBO combo_index s
          in if i = combo_buffer_read s1 then s1\<lparr>combo_buffer_read := INCREMENT_MOD (combo_buffer_read s1)\<rparr> else s1
     else drop_from combo_index is s)"

definition drop_combo_from_buffer :: "nat \<Rightarrow> combos \<Rightarrow> combos" where
  "drop_combo_from_buffer combo_index s = drop_from combo_index (buffer_indices s) s"

text \<open>The loop of \<open>apply_combo\<close> over the queued presses: those of the combo become ticks, the last one becomes the
  event of the combo. The result says whether the combo was completed.\<close>

fun apply_to_buffer :: "combo_t \<Rightarrow> nat \<Rightarrow> u8 \<Rightarrow> queued_record_t list \<Rightarrow> queued_record_t list \<times> bool" where
  "apply_to_buffer c i st [] = ([], False)"
| "apply_to_buffer c i st (q # qs) =
    (case find_key_index_and_count (combo_keys c) (queued_keycode q) of
       (None, key_count) \<Rightarrow> (let (qs1, done) = apply_to_buffer c i st qs in (q # qs1, done))
     | (Some key_index, key_count) \<Rightarrow>
         let st1 = st OR push_bit key_index 1
         in if ALL_COMBO_KEYS_ARE_DOWN st1 key_count
            then (q\<lparr>queued_record := (queued_record q)\<lparr>rec_keycode := combo_keycode c, ev_type := COMBO_EVENT,
                      ev_key := \<lparr>krow = 0, kcol = 0\<rparr>\<rparr>, queued_combo := Some i\<rparr> # qs, True)
            else let (qs1, done) = apply_to_buffer c i st1 qs
                 in (q\<lparr>queued_record := (queued_record q)\<lparr>ev_type := TICK_EVENT\<rparr>\<rparr> # qs1, done))"

definition apply_combo :: "combo_env \<Rightarrow> nat \<Rightarrow> combos \<Rightarrow> combos" where
  "apply_combo env i s =
    (if combo_disabled (flags s ! i) then s
     else let (qs, done) = apply_to_buffer (combo_table env ! i) i 0 (key_buffer s);
              s1 = s\<lparr>key_buffer := qs\<rparr>
          in drop_combo_from_buffer i (if done then ACTIVATE_COMBO i s1 else s1))"

definition apply_combos :: "combo_env \<Rightarrow> combos \<Rightarrow> combos" where
  "apply_combos env s =
    clear_combos (dump_key_buffer (fold (\<lambda>i s. apply_combo env (combo_buffer s ! i) s) (buffer_indices s) s))"

section \<open>Pressing and releasing keys of a combo\<close>

text \<open>The combo of the two that is dropped when they share a key.\<close>

definition overlaps :: "combo_env \<Rightarrow> nat \<Rightarrow> nat \<Rightarrow> nat option" where
  "overlaps env i j =
    (let keys1 = takeWhile (\<lambda>k. k \<noteq> 0) (combo_keys (combo_table env ! i));
         keys2 = takeWhile (\<lambda>k. k \<noteq> 0) (combo_keys (combo_table env ! j))
     in if \<not> list_ex (\<lambda>k. k \<in> set keys2) keys1 then None
        else if length keys2 < length keys1 then Some j else Some i)"

text \<open>The loop over the combos that are ready; the result says whether the combo itself is dropped.\<close>

fun drop_overlaps :: "combo_env \<Rightarrow> nat \<Rightarrow> nat list \<Rightarrow> combos \<Rightarrow> bool \<times> combos" where
  "drop_overlaps env combo_index [] s = (False, s)"
| "drop_overlaps env combo_index (i # is) s =
    (let buffered = combo_buffer s ! i
     in case overlaps env buffered combo_index of
          None \<Rightarrow> drop_overlaps env combo_index is s
        | Some dropped \<Rightarrow>
            let s1 = DISABLE_COMBO dropped s
            in if dropped = combo_index then (True, s1)
               else if i = combo_buffer_read s1 \<and> dropped = buffered
               then drop_overlaps env combo_index is (s1\<lparr>combo_buffer_read := INCREMENT_MOD (combo_buffer_read s1)\<rparr>)
               else drop_overlaps env combo_index is s1)"

definition ready_combo :: "combo_env \<Rightarrow> nat \<Rightarrow> combos \<Rightarrow> combos" where
  "ready_combo env i s =
    (let (dropped, s1) = drop_overlaps env i (buffer_indices s) s
     in if dropped then s1
        else s1\<lparr>combo_buffer := (combo_buffer s1)[combo_buffer_write s1 := i],
               combo_buffer_write := INCREMENT_MOD (combo_buffer_write s1)\<rparr>)"

definition combo_key_down :: "combo_env \<Rightarrow> nat \<Rightarrow> nat \<Rightarrow> nat \<Rightarrow> combos \<Rightarrow> combos" where
  "combo_key_down env i key_index key_count s =
    (let time = QS_combo_term env;
         s1 = (if combo_active (flags s ! i) then s
               else (KEY_STATE_DOWN i key_index s)\<lparr>longest_term := max (longest_term s) time\<rparr>)
     in if ALL_COMBO_KEYS_ARE_DOWN (combo_state (flags s1 ! i)) key_count
        then if combo_timer s1 \<noteq> 0 \<and> combo_clock env - combo_timer s1 > time then DISABLE_COMBO i s1
             else ready_combo env i s1
        else s1)"

text \<open>The result says whether the key is part of the combo.\<close>

definition combo_key_up :: "combo_env \<Rightarrow> nat \<Rightarrow> nat \<Rightarrow> nat \<Rightarrow> bool \<Rightarrow> combos \<Rightarrow> bool \<times> combos" where
  "combo_key_up env i key_index key_count key_is_part_of_combo s =
    (let f = flags s ! i; st = combo_state f;
         (part, s1) =
           (if \<not> combo_active f \<and> ALL_COMBO_KEYS_ARE_DOWN st key_count
            then if combo_disabled f then (False, drop_combo_from_buffer i s) else (key_is_part_of_combo, s)
            else if combo_active f \<and> ONLY_ONE_KEY_IS_DOWN st \<and> KEY_NOT_YET_RELEASED st key_index
            then (True, release_combo env i s)
            else if combo_active f \<and> KEY_NOT_YET_RELEASED st key_index then (True, s)
            else (False, s))
     in (part, KEY_STATE_UP i key_index s1))"

definition process_single_combo :: "combo_env \<Rightarrow> nat \<Rightarrow> u16 \<Rightarrow> keyrecord_t \<Rightarrow> combos \<Rightarrow> bool \<times> combos" where
  "process_single_combo env i keycode r s =
    (case find_key_index_and_count (combo_keys (combo_table env ! i)) keycode of
       (None, key_count) \<Rightarrow> (False, s)
     | (Some key_index, key_count) \<Rightarrow>
         let key_is_part_of_combo = (\<not> combo_disabled (flags s ! i) \<and> b_combo_enable s)
         in if ev_pressed r \<and> key_is_part_of_combo then (True, combo_key_down env i key_index key_count s)
            else combo_key_up env i key_index key_count key_is_part_of_combo s)"

section \<open>Events, the task and the switches\<close>

definition combo_enable :: "combos \<Rightarrow> combos" where
  "combo_enable s = s\<lparr>b_combo_enable := True\<rparr>"
definition combo_disable :: "combos \<Rightarrow> combos" where
  "combo_disable s = dump_key_buffer (clear_combos
    (s\<lparr>combo_timer := 0, b_combo_enable := False, combo_buffer_read := combo_buffer_write s\<rparr>))"
definition combo_toggle :: "combos \<Rightarrow> combos" where
  "combo_toggle s = (if b_combo_enable s then combo_disable s else combo_enable s)"

fun process_combos :: "combo_env \<Rightarrow> u16 \<Rightarrow> keyrecord_t \<Rightarrow> nat list \<Rightarrow> combos \<Rightarrow> bool \<times> combos" where
  "process_combos env keycode r [] s = (False, s)"
| "process_combos env keycode r (i # is) s =
    (let (hit, s1) = process_single_combo env i keycode r s; (rest, s2) = process_combos env keycode r is s1
     in (hit \<or> rest, s2))"

definition queue_press :: "combo_env \<Rightarrow> u16 \<Rightarrow> keyrecord_t \<Rightarrow> combos \<Rightarrow> combos" where
  "queue_press env keycode r s =
    (let s1 = s\<lparr>combo_timer := combo_clock env\<rparr>
     in if length (key_buffer s1) < COMBO_KEY_BUFFER_LENGTH
        then s1\<lparr>key_buffer := key_buffer s1 @ [\<lparr>queued_record = r, queued_combo = None, queued_keycode = keycode\<rparr>]\<rparr>
        else s1)"

definition flush_combos :: "combo_env \<Rightarrow> combos \<Rightarrow> combos" where
  "flush_combos env s =
    (if combo_buffer_read s \<noteq> combo_buffer_write s then apply_combos env s
     else clear_combos ((dump_key_buffer s)\<lparr>combo_timer := 0\<rparr>))"

text \<open>The result says whether the record is passed on.\<close>

definition process_combo :: "combo_env \<Rightarrow> u16 \<Rightarrow> keyrecord_t \<Rightarrow> combos \<Rightarrow> bool \<times> combos" where
  "process_combo env keycode r s =
    (if keycode = 0x7C50 \<and> ev_pressed r then (True, combo_enable s)
     else if keycode = 0x7C51 \<and> ev_pressed r then (True, combo_disable s)
     else if keycode = 0x7C52 \<and> ev_pressed r then (True, combo_toggle s)
     else let (is_combo_key, s1) = process_combos env keycode r [0..<length (combo_table env)] s
       in (\<not> is_combo_key, if ev_pressed r \<and> is_combo_key then queue_press env keycode r s1 else flush_combos env s1))"

definition combo_task :: "combo_env \<Rightarrow> combos \<Rightarrow> combos" where
  "combo_task env s =
    (if b_combo_enable s \<and> combo_timer s \<noteq> 0 \<and> combo_clock env - combo_timer s > longest_term s
     then if combo_buffer_read s \<noteq> combo_buffer_write s
       then (apply_combos env s)\<lparr>longest_term := 0, combo_timer := 0\<rparr>
       else clear_combos ((dump_key_buffer s)\<lparr>combo_timer := 0\<rparr>)
     else s)"

text \<open>\<open>reload_combo\<close> of \<open>quantum/vial.c\<close> zeroes the combos, their flags included.\<close>

definition reload_combo_flags :: "nat \<Rightarrow> combos \<Rightarrow> combos" where
  "reload_combo_flags n s = s\<lparr>flags := replicate n fresh_flags\<rparr>"

section \<open>The calls\<close>

text \<open>What the collected calls do to the keyboard; \<open>process_combo_event\<close> is the weak default, which does nothing.\<close>

definition perform_call :: "'e tap_env_scheme \<Rightarrow> ('l::len, 'z) processor \<Rightarrow> combo_call \<Rightarrow> ('l, 'z) tp \<Rightarrow> ('l, 'z) tp option" where
  "perform_call env pr c k =
    (case c of Tapping_Process r \<Rightarrow> action_tapping_process env pr r k
     | Process_Combo_Event i pressed \<Rightarrow> Some k
     | Clear_Weak_Mods \<Rightarrow> Some (k\<lparr>keyboard := clear_weak_mods (keyboard k)\<rparr>))"

fun perform_calls :: "'e tap_env_scheme \<Rightarrow> ('l::len, 'z) processor \<Rightarrow> combo_call list \<Rightarrow> ('l, 'z) tp \<Rightarrow> ('l, 'z) tp option" where
  "perform_calls env pr [] k = Some k"
| "perform_calls env pr (c # cs) k = Option.bind (perform_call env pr c k) (perform_calls env pr cs)"

end
