(* ===== verification/Combo_Ok.thy ===== *)
theory Combo_Ok
  imports Combo
begin

unbundle bit_operations_syntax

text \<open>Combos: every access stays inside the buffers and the table, in every run of events and ticks.\<close>

section \<open>The bounds\<close>

definition combo_ok :: "nat \<Rightarrow> combos \<Rightarrow> bool" where
  "combo_ok n s \<longleftrightarrow> length (flags s) = n \<and> length (combo_buffer s) = COMBO_BUFFER_LENGTH \<and>
    combo_buffer_read s < COMBO_BUFFER_LENGTH \<and> combo_buffer_write s < COMBO_BUFFER_LENGTH \<and>
    (\<forall>i \<in> set (combo_buffer s). i < n) \<and> length (key_buffer s) \<le> COMBO_KEY_BUFFER_LENGTH"

named_theorems combo_ok_intros \<open>operations that keep the bounds\<close>

lemma increment_bound [simp]: "INCREMENT_MOD i < COMBO_BUFFER_LENGTH"
  by (simp add: INCREMENT_MOD_def COMBO_BUFFER_LENGTH_def)

lemma combo_ok_updates [simp]:
  "combo_ok n (s\<lparr>longest_term := a\<rparr>) = combo_ok n s" "combo_ok n (s\<lparr>combo_timer := a\<rparr>) = combo_ok n s"
  "combo_ok n (s\<lparr>b_combo_enable := b\<rparr>) = combo_ok n s" "combo_ok n (s\<lparr>combo_calls := c\<rparr>) = combo_ok n s"
  "combo_ok n (call x s) = combo_ok n s" "combo_ok n (set_flags i f s) = combo_ok n s"
  by (simp_all add: combo_ok_def call_def set_flags_def)

lemma combo_ok_flag_ops [simp]:
  "combo_ok n (ACTIVATE_COMBO i s) = combo_ok n s" "combo_ok n (DEACTIVATE_COMBO i s) = combo_ok n s"
  "combo_ok n (DISABLE_COMBO i s) = combo_ok n s" "combo_ok n (KEY_STATE_DOWN i k s) = combo_ok n s"
  "combo_ok n (KEY_STATE_UP i k s) = combo_ok n s"
  by (simp_all add: ACTIVATE_COMBO_def DEACTIVATE_COMBO_def DISABLE_COMBO_def KEY_STATE_DOWN_def KEY_STATE_UP_def)

lemma combo_ok_read [combo_ok_intros]: "combo_ok n s \<Longrightarrow> combo_ok n (s\<lparr>combo_buffer_read := INCREMENT_MOD i\<rparr>)"
  by (simp add: combo_ok_def)

lemma combo_ok_clear [combo_ok_intros]: "combo_ok n s \<Longrightarrow> combo_ok n (clear_combos s)"
  by (simp add: combo_ok_def clear_combos_def)

lemma combo_ok_release [combo_ok_intros]: "combo_ok n s \<Longrightarrow> combo_ok n (release_combo env i s)"
  by (simp add: release_combo_def Let_def)

lemma combo_ok_dump_record: "combo_ok n (dump_record q s) = combo_ok n s"
  by (simp add: dump_record_def split: option.split)

lemma combo_ok_dump_records: "combo_ok n (fold dump_record qs s) = combo_ok n s"
  by (induction qs arbitrary: s) (simp_all add: combo_ok_dump_record)

lemma combo_ok_dump [combo_ok_intros]: "combo_ok n s \<Longrightarrow> combo_ok n (dump_key_buffer s)"
  using combo_ok_dump_records [of n "key_buffer s" s] by (simp add: dump_key_buffer_def combo_ok_def)

lemma combo_ok_drop_from: "combo_ok n s \<Longrightarrow> combo_ok n (drop_from c is s)"
  by (induction c "is" s rule: drop_from.induct) (auto simp: Let_def intro: combo_ok_intros)

lemma combo_ok_drop [combo_ok_intros]: "combo_ok n s \<Longrightarrow> combo_ok n (drop_combo_from_buffer c s)"
  by (simp add: drop_combo_from_buffer_def combo_ok_drop_from)

lemma apply_to_buffer_length: "length (fst (apply_to_buffer c i st qs)) = length qs"
  by (induction c i st qs rule: apply_to_buffer.induct)
    (auto simp: Let_def split: option.split prod.split)

lemma combo_ok_apply [combo_ok_intros]: "combo_ok n s \<Longrightarrow> combo_ok n (apply_combo env i s)"
proof -
  assume ok: "combo_ok n s"
  obtain qs fin where a: "apply_to_buffer (combo_table env ! i) i 0 (key_buffer s) = (qs, fin)" by fastforce
  have "length qs = length (key_buffer s)"
    using apply_to_buffer_length [of "combo_table env ! i" i 0 "key_buffer s"] by (simp add: a)
  then have "combo_ok n (s\<lparr>key_buffer := qs\<rparr>)" using ok by (simp add: combo_ok_def)
  then show ?thesis using ok by (simp add: apply_combo_def a Let_def combo_ok_drop)
qed

lemma combo_ok_apply_all [combo_ok_intros]: "combo_ok n s \<Longrightarrow> combo_ok n (apply_combos env s)"
proof -
  have "combo_ok n s \<Longrightarrow> combo_ok n (fold (\<lambda>i s. apply_combo env (combo_buffer s ! i) s) is s)" for "is" s
    by (induction "is" arbitrary: s) (simp_all add: combo_ok_apply)
  then show "combo_ok n s \<Longrightarrow> ?thesis" by (simp add: apply_combos_def combo_ok_intros)
qed

section \<open>Events\<close>

lemma combo_ok_drop_overlaps: "combo_ok n s \<Longrightarrow> combo_ok n (snd (drop_overlaps env c is s))"
proof (induction "is" arbitrary: s)
  case (Cons i "is")
  show ?case
  proof (cases "overlaps env (combo_buffer s ! i) c")
    case None
    then show ?thesis using Cons by simp
  next
    case (Some d)
    define s1 where "s1 = DISABLE_COMBO d s"
    have "combo_ok n s1" using Cons.prems by (simp add: s1_def)
    then show ?thesis using Cons.IH [of s1] Cons.IH [OF combo_ok_read, of s1 "combo_buffer_read s1"]
      unfolding drop_overlaps.simps Let_def Some option.case s1_def [symmetric] by (simp split del: if_split split: if_split)
  qed
qed simp

lemma combo_ok_ready [combo_ok_intros]:
  assumes "combo_ok n s" "i < n"
  shows "combo_ok n (ready_combo env i s)"
proof -
  obtain dropped s1 where d: "drop_overlaps env i (buffer_indices s) s = (dropped, s1)" by fastforce
  have "combo_ok n s1" using combo_ok_drop_overlaps [OF assms(1), of env i "buffer_indices s"] by (simp add: d)
  moreover from this have "combo_ok n (s1\<lparr>combo_buffer := (combo_buffer s1)[w := i], combo_buffer_write := INCREMENT_MOD w\<rparr>)" for w
    using assms(2) set_update_subset_insert [of "combo_buffer s1" w i] by (auto simp: combo_ok_def)
  ultimately show ?thesis by (simp add: ready_combo_def d)
qed

lemma combo_ok_down [combo_ok_intros]:
  "combo_ok n s \<Longrightarrow> i < n \<Longrightarrow> combo_ok n (combo_key_down env i k c s)"
  unfolding combo_key_down_def Let_def by (simp add: combo_ok_ready)

lemma combo_ok_up [combo_ok_intros]: "combo_ok n s \<Longrightarrow> combo_ok n (snd (combo_key_up env i k c p s))"
  by (simp add: combo_key_up_def Let_def combo_ok_intros)

lemma combo_ok_single: "combo_ok n s \<Longrightarrow> i < n \<Longrightarrow> combo_ok n (snd (process_single_combo env i kc r s))"
  by (simp add: process_single_combo_def Let_def combo_ok_down combo_ok_up split: option.split prod.split)

lemma combo_ok_all: "combo_ok n s \<Longrightarrow> \<forall>i \<in> set is. i < n \<Longrightarrow> combo_ok n (snd (process_combos env kc r is s))"
proof (induction "is" arbitrary: s)
  case (Cons i "is")
  obtain hit s1 where p: "process_single_combo env i kc r s = (hit, s1)" by fastforce
  obtain rest s2 where q: "process_combos env kc r is s1 = (rest, s2)" by fastforce
  have "combo_ok n s1" using combo_ok_single [of n s i env kc r] Cons.prems p by simp
  then show ?case using Cons.IH [of s1] Cons.prems(2) by (simp add: p q)
qed simp

lemma combo_ok_queue: "combo_ok n s \<Longrightarrow> combo_ok n (queue_press env kc r s)"
  by (simp add: queue_press_def Let_def) (auto simp: combo_ok_def)

lemma combo_ok_flush: "combo_ok n s \<Longrightarrow> combo_ok n (flush_combos env s)"
  by (simp add: flush_combos_def combo_ok_intros)

lemma combo_ok_disable: "combo_ok n s \<Longrightarrow> combo_ok n (combo_disable s)"
proof -
  assume "combo_ok n s"
  then have "combo_ok n (s\<lparr>combo_timer := 0, b_combo_enable := False, combo_buffer_read := combo_buffer_write s\<rparr>)"
    by (simp add: combo_ok_def)
  then show ?thesis by (simp add: combo_disable_def combo_ok_intros)
qed

lemma combo_ok_process:
  assumes "combo_ok n s" "length (combo_table env) = n"
  shows "combo_ok n (snd (process_combo env kc r s))"
proof -
  obtain hit s1 where p: "process_combos env kc r [0..<length (combo_table env)] s = (hit, s1)" by fastforce
  have "combo_ok n s1" using combo_ok_all [of n s "[0..<length (combo_table env)]" env kc r] assms p by simp
  then show ?thesis using assms(1)
    by (simp add: process_combo_def p combo_ok_queue combo_ok_flush combo_ok_disable combo_enable_def combo_toggle_def)
qed

text \<open>An event, a tick or the loading of a new table.\<close>

datatype combo_op = Combo_Key combo_env u16 keyrecord_t | Combo_Tick combo_env | Combo_Reload

primrec combo_step :: "nat \<Rightarrow> combo_op \<Rightarrow> combos \<Rightarrow> combos" where
  "combo_step n (Combo_Key env kc r) s = snd (process_combo env kc r s)"
| "combo_step n (Combo_Tick env) s = combo_task env s"
| "combo_step n Combo_Reload s = reload_combo_flags n s"

primrec op_fits :: "nat \<Rightarrow> combo_op \<Rightarrow> bool" where
  "op_fits n (Combo_Key env kc r) \<longleftrightarrow> length (combo_table env) = n"
| "op_fits n (Combo_Tick env) \<longleftrightarrow> length (combo_table env) = n"
| "op_fits n Combo_Reload \<longleftrightarrow> True"

lemma combo_ok_step: "combo_ok n s \<Longrightarrow> op_fits n op \<Longrightarrow> combo_ok n (combo_step n op s)"
  by (cases op) (simp_all add: combo_ok_process combo_task_def combo_ok_intros reload_combo_flags_def, simp add: combo_ok_def)

lemma combo_ok_start: "0 < n \<Longrightarrow> combo_ok n (combos_start n)"
  by (simp add: combo_ok_def combos_start_def COMBO_BUFFER_LENGTH_def COMBO_KEY_BUFFER_LENGTH_def)

lemma combo_ok_run: "combo_ok n s \<Longrightarrow> list_all (op_fits n) ops \<Longrightarrow> combo_ok n (fold (combo_step n) ops s)"
  by (induction ops arbitrary: s) (simp_all add: combo_ok_step)

text \<open>C31: in every run of key events, ticks and reloads of a table of \<open>n\<close> combos no more than eight presses are
  queued, the indices of the ring of ready combos stay inside it and its entries are combos of the table.\<close>

theorem combo_buffers_stay_in_bounds:
  assumes "0 < n" "list_all (op_fits n) ops" "s = fold (combo_step n) ops (combos_start n)"
  shows "length (key_buffer s) \<le> 8 \<and> length (combo_buffer s) = 4 \<and> combo_buffer_read s < 4 \<and> combo_buffer_write s < 4 \<and>
    (\<forall>i \<in> set (combo_buffer s). i < n) \<and> length (flags s) = n"
  using combo_ok_run [OF combo_ok_start [OF assms(1)] assms(2)]
  by (simp add: assms(3) combo_ok_def COMBO_BUFFER_LENGTH_def COMBO_KEY_BUFFER_LENGTH_def)

text \<open>The keys 4 and 5 together are 0x29.\<close>

definition escape_env :: "u16 \<Rightarrow> combo_env" where
  "escape_env t = \<lparr>combo_clock = t, QS_combo_term = 50,
    combo_table = [\<lparr>combo_keys = [4, 5, 0, 0, 0], combo_keycode = 0x29\<rparr>]\<rparr>"

definition combo_key :: "nat \<Rightarrow> bool \<Rightarrow> keyrecord_t" where
  "combo_key col pressed = \<lparr>ev_key = \<lparr>krow = 0, kcol = col\<rparr>, ev_time = 0, ev_type = KEY_EVENT,
    ev_pressed = pressed, tap_interrupted = False, tap_count = 0, rec_keycode = 0\<rparr>"

theorem combo_buffers_stay_in_bounds_witness:
  "length (key_buffer (combo_step 1 (Combo_Key (escape_env 10) 4 (combo_key 0 True)) (combos_start 1))) \<le> 8"
  using combo_buffers_stay_in_bounds [of 1 "[Combo_Key (escape_env 10) 4 (combo_key 0 True)]"]
  by (simp add: escape_env_def)

end
