(* ===== verification/Combo_Chord.thy ===== *)
theory Combo_Chord
  imports Combo_Ok Bitwise
begin

unbundle bit_operations_syntax

text \<open>
  What a combo does: its keys pressed together within the term are its keycode, and some of them followed by
  another key are the keys themselves. The other combos of the table share no key with it.
\<close>

section \<open>Finding a key\<close>

definition keys_of_combo :: "combo_t \<Rightarrow> u16 list" where
  "keys_of_combo c = takeWhile (\<lambda>k. k \<noteq> 0) (combo_keys c)"

lemma find_key_absent:
  "kc \<notin> set (takeWhile (\<lambda>k. k \<noteq> 0) ks) \<Longrightarrow> find_key ks kc idx n = (idx, n + length (takeWhile (\<lambda>k. k \<noteq> 0) ks))"
  by (induction ks kc idx n rule: find_key.induct) auto

lemma find_key_present:
  "distinct (takeWhile (\<lambda>k. k \<noteq> 0) ks) \<Longrightarrow> i < length (takeWhile (\<lambda>k. k \<noteq> 0) ks) \<Longrightarrow>
    find_key ks (takeWhile (\<lambda>k. k \<noteq> 0) ks ! i) idx n = (Some (n + i), n + length (takeWhile (\<lambda>k. k \<noteq> 0) ks))"
proof (induction ks arbitrary: i idx n)
  case (Cons k ks)
  show ?case
  proof (cases i)
    case 0
    then show ?thesis using Cons.prems find_key_absent [of k ks "Some n" "Suc n"] by (auto split: if_splits)
  next
    case (Suc j)
    then show ?thesis using Cons.prems Cons.IH [of j] by (auto split: if_splits)
  qed
qed simp

lemma find_combo_key:
  assumes "distinct (keys_of_combo c)"
  shows "i < length (keys_of_combo c) \<Longrightarrow>
      find_key_index_and_count (combo_keys c) (keys_of_combo c ! i) = (Some i, length (keys_of_combo c))"
    "kc \<notin> set (keys_of_combo c) \<Longrightarrow> find_key_index_and_count (combo_keys c) kc = (None, length (keys_of_combo c))"
  using find_key_present [of "combo_keys c" i None 0] find_key_absent [of kc "combo_keys c" None 0] assms
  by (simp_all add: find_key_index_and_count_def keys_of_combo_def)

section \<open>The state of the keys as a set of positions\<close>

lemma bits_of_down: "i < 8 \<Longrightarrow> bits_of ((st :: u8) OR push_bit i 1) = insert i (bits_of st)"
  by (auto simp: bits_of_def bit_simps)

lemma bits_of_up: "i < 8 \<Longrightarrow> bits_of ((st :: u8) AND NOT (push_bit i 1)) = bits_of st - {i}"
  by (auto simp: bits_of_def bit_simps dest: bit_imp_le_length)

lemma not_released_iff: "i < 8 \<Longrightarrow> KEY_NOT_YET_RELEASED st i \<longleftrightarrow> i \<in> bits_of st"
  using and_layer_mask [of st i] by (simp add: KEY_NOT_YET_RELEASED_def bits_of_def layer_mask_def)

lemma only_one_iff: "ONLY_ONE_KEY_IS_DOWN st \<longleftrightarrow> card (bits_of st) \<le> 1"
proof (cases "st = 0")
  case False
  have "st AND (st - 1) = 0 \<longleftrightarrow> card (bits_of (st AND (st - 1))) = 0" by (simp add: card_eq_0_iff)
  with card_clear_lowest [OF False] show ?thesis unfolding ONLY_ONE_KEY_IS_DOWN_def by linarith
qed (simp add: ONLY_ONE_KEY_IS_DOWN_def bits_of_def)

lemma all_down_iff:
  assumes "n \<le> 8"
  shows "ALL_COMBO_KEYS_ARE_DOWN st n \<longleftrightarrow> bits_of st = {..<n}"
proof -
  have "unat (mask n :: u8) = mask n"
    by (rule bit_eqI) (use assms in \<open>auto simp: bit_unsigned_iff bit_mask_iff\<close>)
  then have "unat (mask n :: u8) = 2 ^ n - 1" by (simp add: mask_eq_exp_minus_1)
  then have "ALL_COMBO_KEYS_ARE_DOWN st n \<longleftrightarrow> st = mask n"
    unfolding ALL_COMBO_KEYS_ARE_DOWN_def by (metis word_eq_iff_unsigned)
  also have "\<dots> \<longleftrightarrow> bits_of st = {..<n}"
    using assms bit_imp_le_length [of st] by (fastforce simp: bits_of_def bit_eq_iff bit_mask_iff set_eq_iff)
  finally show ?thesis .
qed

section \<open>Only the combo with the key is concerned\<close>

definition key_of_others :: "combo_env \<Rightarrow> nat \<Rightarrow> u16 \<Rightarrow> bool" where
  "key_of_others env idx kc \<longleftrightarrow>
    (\<exists>j < length (combo_table env). j \<noteq> idx \<and> kc \<in> set (keys_of_combo (combo_table env ! j)))"

lemma process_other:
  "kc \<notin> set (keys_of_combo (combo_table env ! j)) \<Longrightarrow> process_single_combo env j kc r s = (False, s)"
  using find_key_absent [of kc "combo_keys (combo_table env ! j)" None 0]
  by (simp add: process_single_combo_def find_key_index_and_count_def keys_of_combo_def)

lemma process_combos_single:
  assumes "\<forall>j \<in> set is. j \<noteq> idx \<longrightarrow> kc \<notin> set (keys_of_combo (combo_table env ! j))" "distinct is"
  shows "process_combos env kc r is s = (if idx \<in> set is then process_single_combo env idx kc r s else (False, s))"
  using assms
proof (induction "is" arbitrary: s)
  case (Cons j "is")
  then show ?case by (cases "j = idx") (auto simp: process_other split: prod.split)
qed simp

lemma process_combos_all:
  assumes "\<not> key_of_others env idx kc" "idx < length (combo_table env)"
  shows "process_combos env kc r [0..<length (combo_table env)] s = process_single_combo env idx kc r s"
  by (subst process_combos_single [of _ idx]) (use assms in \<open>auto simp: key_of_others_def\<close>)

section \<open>Pressing the keys\<close>

text \<open>Nothing is pressed or queued.\<close>

definition combos_idle :: "combo_env \<Rightarrow> combos \<Rightarrow> bool" where
  "combos_idle env s \<longleftrightarrow> combo_timer s = 0 \<and> b_combo_enable s \<and> longest_term s = 0 \<and> key_buffer s = [] \<and>
    length (combo_buffer s) = COMBO_BUFFER_LENGTH \<and> combo_buffer_read s = combo_buffer_write s \<and>
    combo_buffer_write s < COMBO_BUFFER_LENGTH \<and> flags s = replicate (length (combo_table env)) fresh_flags"

text \<open>A combo whose keys are distinct, no more than eight, and in no other combo; the switches are no keys of it.\<close>

definition own_combo :: "combo_env \<Rightarrow> nat \<Rightarrow> bool" where
  "own_combo env idx \<longleftrightarrow> idx < length (combo_table env) \<and>
    distinct (keys_of_combo (combo_table env ! idx)) \<and> length (keys_of_combo (combo_table env ! idx)) \<le> 8 \<and>
    (\<forall>kc \<in> set (keys_of_combo (combo_table env ! idx)). \<not> key_of_others env idx kc \<and> kc \<notin> {0x7C50, 0x7C51, 0x7C52})"

text \<open>An event: the position of the key in the combo, the record and the time it is processed.\<close>

type_synonym combo_event = "nat \<times> keyrecord_t \<times> u16"

definition chord_step :: "combo_env \<Rightarrow> nat \<Rightarrow> combo_event \<Rightarrow> combos \<Rightarrow> bool \<times> combos" where
  "chord_step env idx = (\<lambda>(i, r, t). process_combo (env\<lparr>combo_clock := t\<rparr>) (keys_of_combo (combo_table env ! idx) ! i) r)"

text \<open>The results and the state after a sequence of events.\<close>

fun chord_run :: "combo_env \<Rightarrow> nat \<Rightarrow> combo_event list \<Rightarrow> combos \<Rightarrow> bool list \<times> combos" where
  "chord_run env idx [] s = ([], s)"
| "chord_run env idx (e # es) s =
    (let (go, s1) = chord_step env idx e s; (gos, s2) = chord_run env idx es s1 in (go # gos, s2))"

definition queued :: "combo_env \<Rightarrow> nat \<Rightarrow> combo_event \<Rightarrow> queued_record_t" where
  "queued env idx = (\<lambda>(i, r, t). \<lparr>queued_record = r, queued_combo = None,
    queued_keycode = keys_of_combo (combo_table env ! idx) ! i\<rparr>)"

text \<open>The state after some presses, with the pressed positions as the bits of \<open>st\<close>.\<close>

definition pressed_state :: "combo_env \<Rightarrow> nat \<Rightarrow> combo_event list \<Rightarrow> u8 \<Rightarrow> combos \<Rightarrow> combos" where
  "pressed_state env idx es st s = s\<lparr>combo_timer := (if es = [] then 0 else snd (snd (last es))),
     longest_term := (if es = [] then 0 else QS_combo_term env), key_buffer := map (queued env idx) es,
     flags := (flags s)[idx := \<lparr>combo_disabled = False, combo_active = False, combo_state = st\<rparr>]\<rparr>"

lemma single_own:
  assumes "own_combo env idx" "i < length (keys_of_combo (combo_table env ! idx))"
  shows "process_single_combo (env\<lparr>combo_clock := t\<rparr>) idx (keys_of_combo (combo_table env ! idx) ! i) r s =
    (let part = (\<not> combo_disabled (flags s ! idx) \<and> b_combo_enable s); n = length (keys_of_combo (combo_table env ! idx))
     in if ev_pressed r \<and> part then (True, combo_key_down (env\<lparr>combo_clock := t\<rparr>) idx i n s)
        else combo_key_up (env\<lparr>combo_clock := t\<rparr>) idx i n part s)"
  using find_combo_key(1) [of "combo_table env ! idx" i] assms
  by (simp add: process_single_combo_def own_combo_def Let_def)

lemma process_own:
  assumes "own_combo env idx" "i < length (keys_of_combo (combo_table env ! idx))"
    "process_single_combo (env\<lparr>combo_clock := t\<rparr>) idx (keys_of_combo (combo_table env ! idx) ! i) r s = (hit, s1)"
  shows "chord_step env idx (i, r, t) s = (\<not> hit, if ev_pressed r \<and> hit
    then queue_press (env\<lparr>combo_clock := t\<rparr>) (keys_of_combo (combo_table env ! idx) ! i) r s1
    else flush_combos (env\<lparr>combo_clock := t\<rparr>) s1)"
proof -
  define kc where "kc = keys_of_combo (combo_table env ! idx) ! i"
  have "kc \<in> set (keys_of_combo (combo_table env ! idx))" using assms(2) by (simp add: kc_def)
  then have kc: "\<not> key_of_others env idx kc" "kc \<notin> {0x7C50, 0x7C51, 0x7C52}"
    using assms(1) by (auto simp: own_combo_def)
  have "\<not> key_of_others (env\<lparr>combo_clock := t\<rparr>) idx kc" using kc(1) by (simp add: key_of_others_def)
  from process_combos_all [OF this, of r s]
  have "process_combos (env\<lparr>combo_clock := t\<rparr>) kc r [0..<length (combo_table env)] s = (hit, s1)"
    using assms(1,3) by (simp add: own_combo_def kc_def)
  then show ?thesis using kc(2) by (simp add: chord_step_def process_combo_def kc_def)
qed

lemma flags_pressed [simp]:
  "idx < length (flags s) \<Longrightarrow> flags (pressed_state env idx es st s) ! idx =
    \<lparr>combo_disabled = False, combo_active = False, combo_state = st\<rparr>"
  "b_combo_enable (pressed_state env idx es st s) = b_combo_enable s"
  by (simp_all add: pressed_state_def)

lemma key_down_pressed:
  assumes "idx < length (flags s)"
  shows "(KEY_STATE_DOWN idx i (pressed_state env idx es st s))
      \<lparr>longest_term := max (longest_term (pressed_state env idx es st s)) (QS_combo_term env)\<rparr> =
    (pressed_state env idx es (st OR push_bit i 1) s)\<lparr>longest_term := QS_combo_term env\<rparr>"
  using assms by (simp add: KEY_STATE_DOWN_def set_flags_def pressed_state_def)

lemma down_pressed:
  assumes "idx < length (flags s)"
    "s1 = (pressed_state env idx es (st OR push_bit i 1) s)\<lparr>longest_term := QS_combo_term env\<rparr>"
  shows "combo_key_down (env\<lparr>combo_clock := t\<rparr>) idx i n (pressed_state env idx es st s) =
    (if ALL_COMBO_KEYS_ARE_DOWN (st OR push_bit i 1) n
     then if combo_timer s1 \<noteq> 0 \<and> t - combo_timer s1 > QS_combo_term env then DISABLE_COMBO idx s1
          else ready_combo (env\<lparr>combo_clock := t\<rparr>) idx s1
     else s1)"
proof -
  note down = key_down_pressed [OF assms(1), where i = i and env = env and es = es and st = st, folded assms(2)]
  have f: "combo_state (flags s1 ! idx) = st OR push_bit i 1" using assms(1) by (simp add: assms(2))
  have g: "flags s1 = flags (KEY_STATE_DOWN idx i (pressed_state env idx es st s))"
    using arg_cong [OF down, of flags] by simp
  show ?thesis using flags_pressed(1) [OF assms(1), of env es st] f
    by (simp add: combo_key_down_def Let_def down flip: g)
qed

lemma press_incomplete:
  assumes "own_combo env idx" "combos_idle env s" "i < length (keys_of_combo (combo_table env ! idx))" "ev_pressed r"
    "length es < 8" "insert i (bits_of st) \<noteq> {..<length (keys_of_combo (combo_table env ! idx))}"
  shows "chord_step env idx (i, r, t) (pressed_state env idx es st s) =
    (False, pressed_state env idx (es @ [(i, r, t)]) (st OR push_bit i 1) s)"
proof -
  define n where "n = length (keys_of_combo (combo_table env ! idx))"
  have idx: "idx < length (flags s)" "n \<le> 8" "i < 8"
    using assms(1-3) by (auto simp: own_combo_def combos_idle_def n_def)
  have "\<not> ALL_COMBO_KEYS_ARE_DOWN (st OR push_bit i 1) n"
    using all_down_iff [OF idx(2)] bits_of_down [OF idx(3)] assms(6) by (simp only: n_def not_False_eq_True)
  then have "combo_key_down (env\<lparr>combo_clock := t\<rparr>) idx i n (pressed_state env idx es st s) =
      (pressed_state env idx es (st OR push_bit i 1) s)\<lparr>longest_term := QS_combo_term env\<rparr>"
    by (simp only: down_pressed [OF idx(1) refl] if_False)
  then have "process_single_combo (env\<lparr>combo_clock := t\<rparr>) idx (keys_of_combo (combo_table env ! idx) ! i) r
      (pressed_state env idx es st s) = (True, (pressed_state env idx es (st OR push_bit i 1) s)\<lparr>longest_term := QS_combo_term env\<rparr>)"
    using single_own [OF assms(1,3)] idx(1) assms(2,4) by (simp add: combos_idle_def flip: n_def)
  from process_own [OF assms(1,3) this] show ?thesis
    using assms(4,5) by (simp add: queue_press_def pressed_state_def queued_def COMBO_KEY_BUFFER_LENGTH_def)
qed

text \<open>The last key makes the combo ready, if it comes within the term.\<close>

definition ready_state :: "nat \<Rightarrow> combos \<Rightarrow> combos" where
  "ready_state idx s = s\<lparr>combo_buffer := (combo_buffer s)[combo_buffer_write s := idx],
     combo_buffer_write := INCREMENT_MOD (combo_buffer_write s)\<rparr>"

lemma no_indices: "combo_buffer_read s = combo_buffer_write s \<Longrightarrow> buffer_indices s = []"
  by (simp add: buffer_indices_def COMBO_BUFFER_LENGTH_def)

lemma press_complete:
  assumes "own_combo env idx" "combos_idle env s" "i < length (keys_of_combo (combo_table env ! idx))" "ev_pressed r"
    "length es < 8" "insert i (bits_of st) = {..<length (keys_of_combo (combo_table env ! idx))}"
    "es = [] \<or> t - snd (snd (last es)) \<le> QS_combo_term env"
  shows "chord_step env idx (i, r, t) (pressed_state env idx es st s) =
    (False, ready_state idx (pressed_state env idx (es @ [(i, r, t)]) (st OR push_bit i 1) s))"
proof -
  define n where "n = length (keys_of_combo (combo_table env ! idx))"
  define s1 where "s1 = (pressed_state env idx es (st OR push_bit i 1) s)\<lparr>longest_term := QS_combo_term env\<rparr>"
  have idx: "idx < length (flags s)" "n \<le> 8" "i < 8"
    using assms(1-3) by (auto simp: own_combo_def combos_idle_def n_def)
  have all: "ALL_COMBO_KEYS_ARE_DOWN (st OR push_bit i 1) n"
    using all_down_iff [OF idx(2)] bits_of_down [OF idx(3)] assms(6) by (simp only: n_def)
  have timer: "\<not> (combo_timer s1 \<noteq> 0 \<and> t - combo_timer s1 > QS_combo_term env)"
    using assms(7) by (auto simp: s1_def pressed_state_def)
  have "buffer_indices s1 = []" using assms(2) by (simp add: no_indices s1_def pressed_state_def combos_idle_def)
  then have "ready_combo (env\<lparr>combo_clock := t\<rparr>) idx s1 = ready_state idx s1"
    by (simp add: ready_combo_def ready_state_def)
  then have "combo_key_down (env\<lparr>combo_clock := t\<rparr>) idx i n (pressed_state env idx es st s) = ready_state idx s1"
    using down_pressed [OF idx(1) s1_def] all timer by (simp only: if_True if_False)
  then have "process_single_combo (env\<lparr>combo_clock := t\<rparr>) idx (keys_of_combo (combo_table env ! idx) ! i) r
      (pressed_state env idx es st s) = (True, ready_state idx s1)"
    using single_own [OF assms(1,3)] idx(1) assms(2,4) by (simp add: combos_idle_def flip: n_def)
  from process_own [OF assms(1,3) this] show ?thesis
    using assms(4,5)
    by (simp add: queue_press_def ready_state_def s1_def pressed_state_def queued_def COMBO_KEY_BUFFER_LENGTH_def)
qed

lemma chord_run_append:
  "chord_run env idx (es @ es') s =
    (let (gos, s1) = chord_run env idx es s; (gos', s2) = chord_run env idx es' s1 in (gos @ gos', s2))"
  by (induction es arbitrary: s) (simp_all add: case_prod_beta Let_def)

lemma chord_run_snoc:
  assumes "chord_run env idx es s = (gos, s1)" "chord_step env idx e s1 = (go, s2)"
  shows "chord_run env idx (es @ [e]) s = (gos @ [go], s2)"
  using assms by (simp add: chord_run_append)

lemma pressed_nothing:
  "own_combo env idx \<Longrightarrow> combos_idle env s \<Longrightarrow> pressed_state env idx [] 0 s = s"
  by (simp add: pressed_state_def own_combo_def combos_idle_def fresh_flags_def [symmetric] list_update_same_conv)

lemma positions_fit:
  assumes "own_combo env idx" "set ps \<subset> {..<length (keys_of_combo (combo_table env ! idx))}" "distinct ps"
  shows "length ps < 8"
proof -
  have "length ps = card (set ps)" using assms(3) by (simp add: distinct_card)
  also have "\<dots> < length (keys_of_combo (combo_table env ! idx))"
    using psubset_card_mono [OF _ assms(2)] by simp
  also have "\<dots> \<le> 8" using assms(1) by (simp add: own_combo_def)
  finally show ?thesis .
qed

lemma press_some:
  assumes "own_combo env idx" "combos_idle env s"
    "set (map fst es) \<subset> {..<length (keys_of_combo (combo_table env ! idx))}" "distinct (map fst es)"
    "\<forall>e \<in> set es. ev_pressed (fst (snd e))"
  shows "\<exists>st. bits_of st = set (map fst es) \<and>
    chord_run env idx es s = (replicate (length es) False, pressed_state env idx es st s)"
  using assms(3-5)
proof (induction es rule: rev_induct)
  case Nil
  then show ?case using pressed_nothing [OF assms(1,2)] by (auto intro: exI [of _ 0])
next
  case (snoc e es)
  obtain i r t where e: "e = (i, r, t)" by (cases e)
  have sub: "set (map fst es) \<subset> {..<length (keys_of_combo (combo_table env ! idx))}"
    using snoc.prems(1) by auto
  obtain st where st: "bits_of st = set (map fst es)"
    "chord_run env idx es s = (replicate (length es) False, pressed_state env idx es st s)"
    using snoc.IH sub snoc.prems(2,3) by auto
  have i: "i < length (keys_of_combo (combo_table env ! idx))" "i < 8"
    using snoc.prems(1) assms(1) by (auto simp: e own_combo_def)
  have "chord_step env idx (i, r, t) (pressed_state env idx es st s) =
      (False, pressed_state env idx (es @ [(i, r, t)]) (st OR push_bit i 1) s)"
    using press_incomplete [OF assms(1,2) i(1), of r es st t] snoc.prems positions_fit [OF assms(1) sub] st(1)
    by (auto simp: e)
  note run = chord_run_snoc [OF st(2) this]
  have "bits_of (st OR push_bit i 1) = set (map fst (es @ [e]))" using st(1) bits_of_down [OF i(2), of st] by (simp only: e) simp
  then show ?case using run by (intro exI [of _ "st OR push_bit i 1"]) (simp add: e replicate_append_same)
qed

lemma press_all:
  assumes "own_combo env idx" "combos_idle env s"
    "set (map fst (es @ [e])) = {..<length (keys_of_combo (combo_table env ! idx))}" "distinct (map fst (es @ [e]))"
    "\<forall>e \<in> set (es @ [e]). ev_pressed (fst (snd e))"
    "es = [] \<or> snd (snd e) - snd (snd (last es)) \<le> QS_combo_term env"
  shows "\<exists>st. bits_of st = {..<length (keys_of_combo (combo_table env ! idx))} \<and>
    chord_run env idx (es @ [e]) s =
      (replicate (length (es @ [e])) False, ready_state idx (pressed_state env idx (es @ [e]) st s))"
proof -
  obtain i r t where e: "e = (i, r, t)" by (cases e)
  have sub: "set (map fst es) \<subset> {..<length (keys_of_combo (combo_table env ! idx))}"
    using assms(3,4) by (auto simp: e)
  obtain st where st: "bits_of st = set (map fst es)"
    "chord_run env idx es s = (replicate (length es) False, pressed_state env idx es st s)"
    using press_some [OF assms(1,2) sub] assms(4,5) by auto
  have "i \<in> set (map fst (es @ [e]))" by (simp add: e)
  then have i: "i < length (keys_of_combo (combo_table env ! idx))" by (simp only: assms(3) lessThan_iff)
  then have "i < 8" using assms(1) by (simp add: own_combo_def)
  note i = i this
  have all: "insert i (bits_of st) = {..<length (keys_of_combo (combo_table env ! idx))}"
    using assms(3) by (simp add: st(1) e)
  have "chord_step env idx (i, r, t) (pressed_state env idx es st s) =
      (False, ready_state idx (pressed_state env idx (es @ [(i, r, t)]) (st OR push_bit i 1) s))"
    using press_complete [OF assms(1,2) i(1) _ _ all, of r es t] positions_fit [OF assms(1) sub] assms(4-6)
    by (simp add: e)
  note run = chord_run_snoc [OF st(2) this]
  have "bits_of (st OR push_bit i 1) = {..<length (keys_of_combo (combo_table env ! idx))}"
    by (simp only: bits_of_down [OF i(2)] all)
  then show ?thesis using run by (intro exI [of _ "st OR push_bit i 1"]) (simp add: e replicate_append_same)
qed

section \<open>Firing\<close>

text \<open>The event of the combo that goes out for its last key.\<close>

definition combo_press :: "u16 \<Rightarrow> keyrecord_t \<Rightarrow> keyrecord_t" where
  "combo_press keycode r = r\<lparr>rec_keycode := keycode, ev_type := COMBO_EVENT, ev_key := \<lparr>krow = 0, kcol = 0\<rparr>\<rparr>"

lemma own_combo_keys:
  assumes "own_combo env idx" "c = combo_table env ! idx"
  shows "length (keys_of_combo c) \<le> 8" "distinct (keys_of_combo c)" "i < length (keys_of_combo c) \<Longrightarrow> i < 8"
  using assms by (simp_all add: own_combo_def)

lemma apply_to_queue:
  assumes "own_combo env idx" "c = combo_table env ! idx"
  shows "bits_of st \<inter> set (map fst (es @ [e])) = {} \<Longrightarrow> distinct (map fst (es @ [e])) \<Longrightarrow>
    bits_of st \<union> set (map fst (es @ [e])) = {..<length (keys_of_combo c)} \<Longrightarrow>
    apply_to_buffer c idx st (map (queued env idx) (es @ [e])) =
      (map (\<lambda>e. (queued env idx e)\<lparr>queued_record := (fst (snd e))\<lparr>ev_type := TICK_EVENT\<rparr>\<rparr>) es @
        [(queued env idx e)\<lparr>queued_record := combo_press (combo_keycode c) (fst (snd e)), queued_combo := Some idx\<rparr>], True)"
proof (induction es arbitrary: st)
  case Nil
  obtain i r t where e: "e = (i, r, t)" by (cases e)
  have bits: "insert i (bits_of st) = {..<length (keys_of_combo c)}" using Nil.prems(3) by (simp add: e)
  then have "i \<in> {..<length (keys_of_combo c)}" by blast
  then have i: "i < length (keys_of_combo c)" "length (keys_of_combo c) \<le> 8" "i < 8" "distinct (keys_of_combo c)"
    using own_combo_keys [OF assms] by (simp_all only: lessThan_iff)
  have "ALL_COMBO_KEYS_ARE_DOWN (st OR push_bit i 1) (length (keys_of_combo c))"
    by (simp only: all_down_iff [OF i(2)] bits_of_down [OF i(3)] bits)
  then show ?case using find_combo_key(1) [OF i(4,1)]
    by (simp add: e queued_def combo_press_def Let_def flip: assms(2))
next
  case (Cons e' es)
  obtain i r t where e: "e' = (i, r, t)" by (cases e')
  define P where "P = set (map fst (es @ [e]))"
  have ins: "set (map fst ((e' # es) @ [e])) = insert i P" by (simp add: e P_def)
  have "P \<noteq> {}" "i \<notin> P" using Cons.prems(2) by (simp_all add: e P_def)
  moreover have "bits_of st \<inter> P = {}" "i \<notin> bits_of st" using Cons.prems(1) unfolding ins by blast+
  moreover have "insert i (bits_of st) \<union> P = {..<length (keys_of_combo c)}" using Cons.prems(3) unfolding ins by blast
  ultimately have P: "P \<noteq> {}" "i \<notin> P" "bits_of st \<inter> P = {}" "i \<notin> bits_of st"
    "insert i (bits_of st) \<union> P = {..<length (keys_of_combo c)}" by blast+
  then have "i \<in> {..<length (keys_of_combo c)}" by blast
  then have i: "i < length (keys_of_combo c)" "length (keys_of_combo c) \<le> 8" "i < 8" "distinct (keys_of_combo c)"
    using own_combo_keys [OF assms] by (simp_all only: lessThan_iff)
  obtain j where j: "j \<in> P" using P(1) by blast
  then have "j \<notin> insert i (bits_of st)" using P(2,3) by blast
  moreover have "j \<in> {..<length (keys_of_combo c)}" using j by (simp only: P(5) [symmetric] Un_iff) simp
  ultimately have "insert i (bits_of st) \<noteq> {..<length (keys_of_combo c)}" by metis
  then have not_all: "\<not> ALL_COMBO_KEYS_ARE_DOWN (st OR push_bit i 1) (length (keys_of_combo c))"
    by (simp only: all_down_iff [OF i(2)] bits_of_down [OF i(3)] not_False_eq_True)
  have "apply_to_buffer c idx (st OR push_bit i 1) (map (queued env idx) (es @ [e])) =
      (map (\<lambda>e. (queued env idx e)\<lparr>queued_record := (fst (snd e))\<lparr>ev_type := TICK_EVENT\<rparr>\<rparr>) es @
        [(queued env idx e)\<lparr>queued_record := combo_press (combo_keycode c) (fst (snd e)), queued_combo := Some idx\<rparr>], True)"
  proof (rule Cons.IH)
    show "bits_of (st OR push_bit i 1) \<inter> set (map fst (es @ [e])) = {}"
      unfolding bits_of_down [OF i(3)] P_def [symmetric] using P(2,3) by blast
    show "distinct (map fst (es @ [e]))" using Cons.prems(2) by simp
    show "bits_of (st OR push_bit i 1) \<union> set (map fst (es @ [e])) = {..<length (keys_of_combo c)}"
      unfolding bits_of_down [OF i(3)] P_def [symmetric] by (rule P(5))
  qed
  then show ?case using find_combo_key(1) [OF i(4,1)] not_all
    by (simp add: e queued_def Let_def flip: assms(2))
qed

lemma dump_ticks:
  "fold dump_record (map (\<lambda>e. (queued env idx e)\<lparr>queued_record := (fst (snd e))\<lparr>ev_type := TICK_EVENT\<rparr>\<rparr>) es) s = s"
  by (induction es) (simp_all add: dump_record_def IS_NOEVENT_def)

lemma dump_combo:
  "kc \<noteq> 0 \<Longrightarrow> dump_record ((queued env idx e)\<lparr>queued_record := combo_press kc r, queued_combo := Some idx\<rparr>) s =
    s\<lparr>combo_calls := combo_calls s @ [Tapping_Process (combo_press kc r), Clear_Weak_Mods]\<rparr>"
  by (simp add: dump_record_def IS_NOEVENT_def combo_press_def call_def)

lemma one_index:
  assumes "w < COMBO_BUFFER_LENGTH" "combo_buffer_read s = w" "combo_buffer_write s = INCREMENT_MOD w"
  shows "buffer_indices s = [w]"
proof -
  have "(INCREMENT_MOD w + COMBO_BUFFER_LENGTH - w) mod COMBO_BUFFER_LENGTH = 1" "w mod COMBO_BUFFER_LENGTH = w"
  proof -
    have "w = 0 \<or> w = 1 \<or> w = 2 \<or> w = 3" using assms(1) unfolding COMBO_BUFFER_LENGTH_def by linarith
    then show "(INCREMENT_MOD w + COMBO_BUFFER_LENGTH - w) mod COMBO_BUFFER_LENGTH = 1" "w mod COMBO_BUFFER_LENGTH = w"
      by (elim disjE; simp add: INCREMENT_MOD_def COMBO_BUFFER_LENGTH_def)+
  qed
  then show ?thesis using assms(2,3) by (simp add: buffer_indices_def)
qed

text \<open>The state after the combo has fired: its keys are still down.\<close>

definition fired_state :: "nat \<Rightarrow> u8 \<Rightarrow> combo_call list \<Rightarrow> combos \<Rightarrow> combos" where
  "fired_state idx st calls s = s\<lparr>combo_timer := 0, longest_term := 0, key_buffer := [],
     combo_buffer := (combo_buffer s)[combo_buffer_write s := idx],
     combo_buffer_read := INCREMENT_MOD (combo_buffer_write s), combo_buffer_write := INCREMENT_MOD (combo_buffer_write s),
     flags := (flags s)[idx := \<lparr>combo_disabled = True, combo_active = True, combo_state = st\<rparr>],
     combo_calls := combo_calls s @ calls\<rparr>"

lemma clear_keeps_active:
  "combo_active f \<Longrightarrow> flags s = (replicate n fresh_flags)[idx := f] \<Longrightarrow> clear_combos s = s\<lparr>longest_term := 0\<rparr>"
  by (simp add: clear_combos_def map_update fresh_flags_def)

lemma apply_ready:
  assumes "own_combo env idx" "combos_idle env s" "bits_of st = {..<length (keys_of_combo (combo_table env ! idx))}"
    "set (map fst (es @ [e])) = {..<length (keys_of_combo (combo_table env ! idx))}" "distinct (map fst (es @ [e]))"
    "combo_keycode (combo_table env ! idx) = kc" "kc \<noteq> 0"
  shows "apply_combos (env\<lparr>combo_clock := t\<rparr>) (ready_state idx (pressed_state env idx (es @ [e]) st s)) =
    (fired_state idx st [Tapping_Process (combo_press kc (fst (snd e))), Clear_Weak_Mods] s)
      \<lparr>combo_timer := snd (snd e)\<rparr>"
proof -
  define w where "w = combo_buffer_write s"
  define R where "R = ready_state idx (pressed_state env idx (es @ [e]) st s)"
  have w: "w < COMBO_BUFFER_LENGTH" "length (combo_buffer s) = COMBO_BUFFER_LENGTH" "combo_buffer_read s = w"
    "idx < length (flags s)" "flags s = replicate (length (combo_table env)) fresh_flags"
    using assms(1,2) by (simp_all add: combos_idle_def own_combo_def w_def)
  have R: "combo_buffer_read R = w" "combo_buffer_write R = INCREMENT_MOD w" "combo_buffer R ! w = idx"
    using w by (simp_all add: R_def ready_state_def pressed_state_def w_def)
  define qs where "qs = map (\<lambda>e. (queued env idx e)\<lparr>queued_record := (fst (snd e))\<lparr>ev_type := TICK_EVENT\<rparr>\<rparr>) es @
    [(queued env idx e)\<lparr>queued_record := combo_press kc (fst (snd e)), queued_combo := Some idx\<rparr>]"
  have q: "apply_to_buffer (combo_table env ! idx) idx 0 (key_buffer R) = (qs, True)"
    using apply_to_queue [OF assms(1) refl, of 0 es e] assms(4-6) by (simp add: R_def ready_state_def pressed_state_def qs_def)
  define A where "A = R\<lparr>key_buffer := qs, flags := (flags s)[idx := \<lparr>combo_disabled = True, combo_active = True, combo_state = st\<rparr>],
    combo_buffer_read := INCREMENT_MOD w\<rparr>"
  have "flags R ! idx = \<lparr>combo_disabled = False, combo_active = False, combo_state = st\<rparr>"
    using w(4) by (simp add: R_def ready_state_def pressed_state_def)
  then have "apply_combo (env\<lparr>combo_clock := t\<rparr>) idx R = drop_combo_from_buffer idx (ACTIVATE_COMBO idx (R\<lparr>key_buffer := qs\<rparr>))"
    using q by (simp add: apply_combo_def)
  also have "\<dots> = drop_from idx [w] (ACTIVATE_COMBO idx (R\<lparr>key_buffer := qs\<rparr>))"
    using one_index [OF w(1), of "ACTIVATE_COMBO idx (R\<lparr>key_buffer := qs\<rparr>)"] R
    by (simp add: drop_combo_from_buffer_def ACTIVATE_COMBO_def set_flags_def)
  also have "\<dots> = A"
    using R w(4) by (simp add: A_def ACTIVATE_COMBO_def DISABLE_COMBO_def set_flags_def R_def ready_state_def pressed_state_def)
  finally have fold: "fold (\<lambda>i s. apply_combo (env\<lparr>combo_clock := t\<rparr>) (combo_buffer s ! i) s) (buffer_indices R) R = A"
    using one_index [OF w(1) R(1,2)] R(3) by simp
  have dump: "dump_key_buffer A = A\<lparr>key_buffer := [], combo_calls := combo_calls s @
      [Tapping_Process (combo_press kc (fst (snd e))), Clear_Weak_Mods]\<rparr>"
    using assms(7) by (simp add: dump_key_buffer_def A_def qs_def dump_ticks dump_combo R_def ready_state_def pressed_state_def)
  have clear: "clear_combos (dump_key_buffer A) = (dump_key_buffer A)\<lparr>longest_term := 0\<rparr>"
    by (rule clear_keeps_active [of "\<lparr>combo_disabled = True, combo_active = True, combo_state = st\<rparr>" _ "length (combo_table env)" idx])
      (simp, unfold dump, simp add: A_def w(5))
  show ?thesis
    unfolding apply_combos_def R_def [symmetric] fold clear unfolding dump
    by (cases s) (simp add: A_def R_def ready_state_def pressed_state_def fired_state_def w_def)
qed

text \<open>The task fires the combo once the term has passed since its last key.\<close>

lemma task_fires:
  assumes "own_combo env idx" "combos_idle env s" "bits_of st = {..<length (keys_of_combo (combo_table env ! idx))}"
    "set (map fst (es @ [e])) = {..<length (keys_of_combo (combo_table env ! idx))}" "distinct (map fst (es @ [e]))"
    "combo_keycode (combo_table env ! idx) = kc" "kc \<noteq> 0"
    "snd (snd e) \<noteq> 0" "t - snd (snd e) > QS_combo_term env"
  shows "combo_task (env\<lparr>combo_clock := t\<rparr>) (ready_state idx (pressed_state env idx (es @ [e]) st s)) =
    fired_state idx st [Tapping_Process (combo_press kc (fst (snd e))), Clear_Weak_Mods] s"
proof -
  define R where "R = ready_state idx (pressed_state env idx (es @ [e]) st s)"
  have "combo_buffer_write s \<noteq> INCREMENT_MOD (combo_buffer_write s)"
    using assms(2) by (auto simp: combos_idle_def INCREMENT_MOD_def COMBO_BUFFER_LENGTH_def mod_if split: if_splits)
  then have R: "b_combo_enable R" "combo_timer R = snd (snd e)" "longest_term R = QS_combo_term env"
    "combo_buffer_read R \<noteq> combo_buffer_write R"
    using assms(2) by (simp_all add: R_def ready_state_def pressed_state_def combos_idle_def)
  have "combo_task (env\<lparr>combo_clock := t\<rparr>) R = (apply_combos (env\<lparr>combo_clock := t\<rparr>) R)\<lparr>longest_term := 0, combo_timer := 0\<rparr>"
    using R assms(8,9) by (simp add: combo_task_def)
  then show ?thesis
    unfolding R_def apply_ready [OF assms(1-7)] by (cases s) (simp add: fired_state_def)
qed

section \<open>Releasing the keys\<close>

lemma fired_flags:
  assumes "own_combo env idx" "combos_idle env s"
  shows "flags (fired_state idx st calls s) ! idx = \<lparr>combo_disabled = True, combo_active = True, combo_state = st\<rparr>"
    "KEY_STATE_UP idx i (fired_state idx st calls s) = fired_state idx (st AND NOT (push_bit i 1)) calls s"
  using assms by (simp_all add: fired_state_def KEY_STATE_UP_def set_flags_def own_combo_def combos_idle_def)

lemma flush_fired:
  assumes "own_combo env idx" "combos_idle env s"
  shows "flush_combos env' (fired_state idx st calls s) = fired_state idx st calls s"
proof -
  define S where "S = fired_state idx st calls s"
  have S: "combo_buffer_read S = combo_buffer_write S" "key_buffer S = []" "combo_timer S = 0" "longest_term S = 0"
    "flags S = (replicate (length (combo_table env)) fresh_flags)[idx := \<lparr>combo_disabled = True, combo_active = True, combo_state = st\<rparr>]"
    using assms(2) by (simp_all add: S_def fired_state_def combos_idle_def)
  have same: "S\<lparr>key_buffer := [], combo_timer := 0\<rparr> = S" "S\<lparr>longest_term := 0\<rparr> = S"
    using S(2-4) by (cases S; simp)+
  have "clear_combos S = S\<lparr>longest_term := 0\<rparr>" by (rule clear_keeps_active [OF _ S(5)]) simp
  then show ?thesis using S(1,2) same unfolding S_def [symmetric] by (simp add: flush_combos_def dump_key_buffer_def)
qed

lemma release_one:
  assumes "own_combo env idx" "combos_idle env s" "i \<in> bits_of st" "i < length (keys_of_combo (combo_table env ! idx))"
    "\<not> ev_pressed r" "\<not> card (bits_of st) \<le> 1"
  shows "chord_step env idx (i, r, t) (fired_state idx st calls s) = (False, fired_state idx (st AND NOT (push_bit i 1)) calls s)"
proof -
  have i: "i < 8" by (rule own_combo_keys(3) [OF assms(1) refl assms(4)])
  have "process_single_combo (env\<lparr>combo_clock := t\<rparr>) idx (keys_of_combo (combo_table env ! idx) ! i) r
      (fired_state idx st calls s) = (True, fired_state idx (st AND NOT (push_bit i 1)) calls s)"
    using assms(3,5,6) not_released_iff [OF i, of st] only_one_iff [of st] fired_flags(2) [OF assms(1,2)]
    by (simp add: single_own [OF assms(1,4)] combo_key_up_def fired_flags(1) [OF assms(1,2)] Let_def)
  from process_own [OF assms(1,4) this] show ?thesis using assms(5) by (simp add: flush_fired [OF assms(1,2)])
qed

text \<open>All keys are up again: only the calls and the place in the ring have changed.\<close>

definition chord_done :: "nat \<Rightarrow> combo_call list \<Rightarrow> combos \<Rightarrow> combos" where
  "chord_done idx calls s = s\<lparr>combo_buffer := (combo_buffer s)[combo_buffer_write s := idx],
     combo_buffer_read := INCREMENT_MOD (combo_buffer_write s), combo_buffer_write := INCREMENT_MOD (combo_buffer_write s),
     combo_calls := combo_calls s @ calls\<rparr>"

lemma done_is_idle: "combos_idle env s \<Longrightarrow> combos_idle env (chord_done idx calls s)"
  by (simp add: combos_idle_def chord_done_def)

lemma flush_released:
  assumes "own_combo env idx" "combos_idle env s"
  shows "flush_combos env' (KEY_STATE_UP idx i (DEACTIVATE_COMBO idx (fired_state idx st calls s))) = chord_done idx calls s"
proof -
  define f where "f = \<lparr>combo_disabled = True, combo_active = False, combo_state = st AND NOT (push_bit i 1)\<rparr>"
  have "KEY_STATE_UP idx i (DEACTIVATE_COMBO idx (fired_state idx st calls s)) =
      (fired_state idx st calls s)\<lparr>flags := (flags s)[idx := f]\<rparr>"
    using assms by (simp add: KEY_STATE_UP_def DEACTIVATE_COMBO_def set_flags_def fired_state_def own_combo_def
        combos_idle_def f_def)
  moreover have "map (\<lambda>f. if combo_active f then f else f\<lparr>combo_disabled := False, combo_state := 0\<rparr>) ((flags s)[idx := f]) = flags s"
    using assms by (simp add: combos_idle_def own_combo_def map_update f_def fresh_flags_def list_update_same_conv)
  ultimately show ?thesis using assms(2)
    by (cases s) (simp add: flush_combos_def dump_key_buffer_def clear_combos_def fired_state_def chord_done_def combos_idle_def)
qed

lemma release_last:
  assumes "own_combo env idx" "combos_idle env s" "i \<in> bits_of st" "i < length (keys_of_combo (combo_table env ! idx))"
    "\<not> ev_pressed r" "card (bits_of st) \<le> 1" "combo_keycode (combo_table env ! idx) = kc" "kc \<noteq> 0"
  shows "chord_step env idx (i, r, t) (fired_state idx st calls s) =
    (False, chord_done idx (calls @ [Tapping_Process (combo_record (env\<lparr>combo_clock := t\<rparr>) kc)]) s)"
proof -
  have i: "i < 8" by (rule own_combo_keys(3) [OF assms(1) refl assms(4)])
  have "call c (fired_state idx st calls s) = fired_state idx st (calls @ [c]) s" for c
    by (simp add: call_def fired_state_def)
  then have "process_single_combo (env\<lparr>combo_clock := t\<rparr>) idx (keys_of_combo (combo_table env ! idx) ! i) r
      (fired_state idx st calls s) = (True, KEY_STATE_UP idx i (DEACTIVATE_COMBO idx
        (fired_state idx st (calls @ [Tapping_Process (combo_record (env\<lparr>combo_clock := t\<rparr>) kc)]) s)))"
    using assms(3,5-8) not_released_iff [OF i, of st] only_one_iff [of st]
    by (simp add: single_own [OF assms(1,4)] combo_key_up_def fired_flags(1) [OF assms(1,2)] Let_def release_combo_def)
  from process_own [OF assms(1,4) this] show ?thesis using assms(5) by (simp add: flush_released [OF assms(1,2)])
qed

lemma release_all:
  assumes "own_combo env idx" "combos_idle env s" "combo_keycode (combo_table env ! idx) = kc" "kc \<noteq> 0"
  shows "bits_of st = set (map fst rs) \<Longrightarrow> distinct (map fst rs) \<Longrightarrow> rs \<noteq> [] \<Longrightarrow>
    \<forall>e \<in> set rs. fst e < length (keys_of_combo (combo_table env ! idx)) \<and> \<not> ev_pressed (fst (snd e)) \<Longrightarrow>
    chord_run env idx rs (fired_state idx st calls s) = (replicate (length rs) False,
      chord_done idx (calls @ [Tapping_Process (combo_record (env\<lparr>combo_clock := snd (snd (last rs))\<rparr>) kc)]) s)"
proof (induction rs arbitrary: st)
  case (Cons e rs)
  obtain i r t where e: "e = (i, r, t)" by (cases e)
  have i: "i \<in> bits_of st" "i < length (keys_of_combo (combo_table env ! idx))" "\<not> ev_pressed r"
    using Cons.prems(1,4) by (simp_all add: e)
  have card: "card (bits_of st) = length (e # rs)"
    unfolding Cons.prems(1) by (simp only: distinct_card [OF Cons.prems(2)] length_map)
  show ?case
  proof (cases "rs = []")
    case True
    then show ?thesis using release_last [OF assms(1,2) i _ assms(3,4), of t calls] card by (simp add: e)
  next
    case False
    then have "\<not> card (bits_of st) \<le> 1" using card by (cases rs) simp_all
    note step = release_one [OF assms(1,2) i this, of t calls]
    have i8: "i < 8" by (rule own_combo_keys(3) [OF assms(1) refl i(2)])
    have "bits_of (st AND NOT (push_bit i 1)) = set (map fst rs)"
      unfolding bits_of_up [OF i8] Cons.prems(1) using Cons.prems(2) by (simp add: e)
    then show ?thesis using Cons.IH [of "st AND NOT (push_bit i 1)"] Cons.prems(2,4) False step by (simp add: e)
  qed
qed simp

end
