(* ===== verification/Combo_Run.thy ===== *)
theory Combo_Run
  imports Combo_Chord
begin

unbundle bit_operations_syntax

text \<open>
  Combos in use: a whole chord, an incomplete one, and a combo that is left behind in the ring of ready combos.
\<close>

section \<open>A whole chord\<close>

text \<open>C28: pressing the keys of a combo in any order, the last one within the term of the one before, passes none
  of them on; when the term has passed the combo's keycode goes out as one press, and it is released when the
  last of the keys comes up, in any order; then nothing is left pressed or queued.\<close>

theorem chord_sends_its_keycode:
  assumes "own_combo env idx" "combos_idle env s" "n = length (keys_of_combo (combo_table env ! idx))"
    "combo_keycode (combo_table env ! idx) = kc" "kc \<noteq> 0"
    "set (map fst (es @ [e])) = {..<n}" "distinct (map fst (es @ [e]))" "\<forall>e \<in> set (es @ [e]). ev_pressed (fst (snd e))"
    "es = [] \<or> snd (snd e) - snd (snd (last es)) \<le> QS_combo_term env" "snd (snd e) \<noteq> 0"
    "t - snd (snd e) > QS_combo_term env"
    "set (map fst rs) = {..<n}" "distinct (map fst rs)" "\<forall>e \<in> set rs. \<not> ev_pressed (fst (snd e))"
  shows "let (gos, s1) = chord_run env idx (es @ [e]) s; s2 = combo_task (env\<lparr>combo_clock := t\<rparr>) s1;
      (gos', s3) = chord_run env idx rs s2 in
    True \<notin> set gos \<union> set gos' \<and>
    combo_calls s2 = combo_calls s @ [Tapping_Process (combo_press kc (fst (snd e))), Clear_Weak_Mods] \<and>
    combo_calls s3 = combo_calls s2 @ [Tapping_Process (combo_record (env\<lparr>combo_clock := snd (snd (last rs))\<rparr>) kc)] \<and>
    combos_idle env s3"
proof -
  have n: "n = length (keys_of_combo (combo_table env ! idx))" by (rule assms(3))
  obtain st where st: "bits_of st = {..<n}" "chord_run env idx (es @ [e]) s =
      (replicate (length (es @ [e])) False, ready_state idx (pressed_state env idx (es @ [e]) st s))"
    using press_all [OF assms(1,2) assms(6) [unfolded n] assms(7,8,9)] n by auto
  define calls where "calls = [Tapping_Process (combo_press kc (fst (snd e))), Clear_Weak_Mods]"
  have fire: "combo_task (env\<lparr>combo_clock := t\<rparr>) (ready_state idx (pressed_state env idx (es @ [e]) st s)) =
      fired_state idx st calls s"
    unfolding calls_def
    by (rule task_fires [OF assms(1,2) st(1) [unfolded n] assms(6) [unfolded n] assms(7,4,5,10,11)])
  have "0 < n" using assms(6) by (cases n) auto
  then have rs: "rs \<noteq> []" "bits_of st = set (map fst rs)" using assms(12) st(1) by auto
  have "\<forall>e \<in> set rs. fst e < n \<and> \<not> ev_pressed (fst (snd e))"
    using assms(12,14) by (metis image_eqI lessThan_iff list.set_map)
  then have release: "chord_run env idx rs (fired_state idx st calls s) = (replicate (length rs) False,
      chord_done idx (calls @ [Tapping_Process (combo_record (env\<lparr>combo_clock := snd (snd (last rs))\<rparr>) kc)]) s)"
    using release_all [OF assms(1,2,4,5) rs(2) assms(13) rs(1)] n by simp
  have "combo_calls (fired_state idx st calls s) = combo_calls s @ calls" by (simp add: fired_state_def)
  moreover have "combo_calls (chord_done idx cs s) = combo_calls s @ cs" for cs by (simp add: chord_done_def)
  ultimately show ?thesis
    by (simp add: st(2) fire release done_is_idle [OF assms(2)] Let_def) (simp add: calls_def)
qed

section \<open>An incomplete chord\<close>

text \<open>The presses as they go out when no combo is applied.\<close>

definition plain_calls :: "combo_event list \<Rightarrow> combo_call list" where
  "plain_calls es = concat (map (\<lambda>e. [Tapping_Process (fst (snd e)), Clear_Weak_Mods]) es)"

lemma dump_plain:
  "\<forall>e \<in> set es. \<not> IS_NOEVENT (fst (snd e)) \<Longrightarrow>
    fold dump_record (map (queued env idx) es) s = s\<lparr>combo_calls := combo_calls s @ plain_calls es\<rparr>"
proof (induction es arbitrary: s)
  case (Cons e es)
  obtain i r t where e: "e = (i, r, t)" by (cases e)
  show ?case using Cons by (simp add: e queued_def dump_record_def call_def plain_calls_def)
qed (simp add: plain_calls_def)

text \<open>C29: pressing some but not all keys of a combo holds them back; the next event of a key of no combo sends
  them out as they were pressed, in their order, before it is itself passed on, and nothing is left queued.\<close>

theorem incomplete_chord_is_its_keys:
  assumes "own_combo env idx" "combos_idle env s"
    "set (map fst es) \<subset> {..<length (keys_of_combo (combo_table env ! idx))}" "distinct (map fst es)"
    "\<forall>e \<in> set es. ev_pressed (fst (snd e)) \<and> \<not> IS_NOEVENT (fst (snd e))"
    "\<forall>c \<in> set (combo_table env). kc \<notin> set (keys_of_combo c)" "kc \<notin> {0x7C50, 0x7C51, 0x7C52}"
  shows "let (gos, s1) = chord_run env idx es s; (go, s2) = process_combo (env\<lparr>combo_clock := t\<rparr>) kc r s1 in
    True \<notin> set gos \<and> combo_calls s1 = combo_calls s \<and>
    go \<and> combo_calls s2 = combo_calls s @ plain_calls es \<and> combos_idle env s2"
proof -
  obtain st where st: "chord_run env idx es s = (replicate (length es) False, pressed_state env idx es st s)"
    using press_some [OF assms(1-4)] assms(5) by auto
  define s1 where "s1 = pressed_state env idx es st s"
  define env' where "env' = env\<lparr>combo_clock := t\<rparr>"
  have table: "combo_table env' = combo_table env" by (simp add: env'_def)
  have none: "\<forall>j \<in> set [0..<length (combo_table env')]. kc \<notin> set (keys_of_combo (combo_table env' ! j))"
    using assms(6) by (simp add: table)
  have "process_combos env' kc r [0..<length (combo_table env')] s1 = (False, s1)"
    using process_combos_single [of "[0..<length (combo_table env')]" "length (combo_table env')" kc env' r s1] none by auto
  then have go: "process_combo env' kc r s1 = (True, flush_combos env' s1)" using assms(7) by (simp add: process_combo_def)
  have "map (\<lambda>f. if combo_active f then f else f\<lparr>combo_disabled := False, combo_state := 0\<rparr>) (flags s1) = flags s"
    using assms(1,2)
    by (simp add: s1_def pressed_state_def combos_idle_def own_combo_def map_update fresh_flags_def list_update_same_conv)
  moreover have "dump_key_buffer s1 = s1\<lparr>combo_calls := combo_calls s @ plain_calls es, key_buffer := []\<rparr>"
    using dump_plain [of es env idx s1] assms(5) by (simp add: dump_key_buffer_def s1_def pressed_state_def)
  moreover have "combo_buffer_read s1 = combo_buffer_write s1"
    using assms(2) by (simp add: s1_def pressed_state_def combos_idle_def)
  ultimately have "flush_combos env' s1 = s\<lparr>combo_calls := combo_calls s @ plain_calls es\<rparr>"
    using assms(2) by (cases s) (simp add: flush_combos_def clear_combos_def s1_def pressed_state_def combos_idle_def)
  moreover have "combos_idle env (s\<lparr>combo_calls := combo_calls s @ plain_calls es\<rparr>)"
    using assms(2) by (simp add: combos_idle_def)
  ultimately show ?thesis using go st by (simp add: s1_def env'_def pressed_state_def [of env idx es st s] Let_def)
qed

section \<open>The two keys 4 and 5\<close>

lemma escape_facts:
  "own_combo (escape_env 0) 0" "combos_idle (escape_env 0) (combos_start 1)"
  "keys_of_combo (combo_table (escape_env 0) ! 0) = [4, 5]" "combo_keycode (combo_table (escape_env 0) ! 0) = 0x29"
  by (simp_all add: own_combo_def combos_idle_def keys_of_combo_def key_of_others_def escape_env_def combos_start_def
      COMBO_BUFFER_LENGTH_def)

lemma escape_clock: "(escape_env 0)\<lparr>combo_clock := t\<rparr> = escape_env t"
  by (simp add: escape_env_def)

lemma start_calls: "combo_calls (combos_start n) = []"
  by (simp add: combos_start_def)

theorem chord_sends_its_keycode_witness:
  "combo_calls (snd (chord_run (escape_env 0) 0 [(1, combo_key 1 False, 110), (0, combo_key 0 False, 120)]
      (combo_task (escape_env 100)
        (snd (chord_run (escape_env 0) 0 [(0, combo_key 0 True, 10), (1, combo_key 1 True, 20)] (combos_start 1)))))) =
    [Tapping_Process (combo_press 0x29 (combo_key 1 True)), Clear_Weak_Mods,
     Tapping_Process (combo_record (escape_env 120) 0x29)]"
proof -
  let ?es = "[(0, combo_key 0 True, 10)] :: combo_event list"
  let ?e = "(1, combo_key 1 True, 20) :: combo_event"
  let ?rs = "[(1, combo_key 1 False, 110), (0, combo_key 0 False, 120)] :: combo_event list"
  have n: "2 = length (keys_of_combo (combo_table (escape_env 0) ! 0))" by (simp add: escape_facts(3))
  have kc: "(0x29 :: u16) \<noteq> 0" by simp
  have pressed: "set (map fst (?es @ [?e])) = {..<2}" "distinct (map fst (?es @ [?e]))"
    "\<forall>e \<in> set (?es @ [?e]). ev_pressed (fst (snd e))"
    by (auto simp: combo_key_def)
  have clocks: "?es = [] \<or> snd (snd ?e) - snd (snd (last ?es)) \<le> QS_combo_term (escape_env 0)" "snd (snd ?e) \<noteq> 0"
    "100 - snd (snd ?e) > QS_combo_term (escape_env 0)"
    by (simp_all add: escape_env_def)
  have released: "set (map fst ?rs) = {..<2}" "distinct (map fst ?rs)" "\<forall>e \<in> set ?rs. \<not> ev_pressed (fst (snd e))"
    by (auto simp: combo_key_def)
  show ?thesis
    using chord_sends_its_keycode [OF escape_facts(1,2) n escape_facts(4) kc pressed clocks released]
    by (simp only: Let_def case_prod_beta escape_clock start_calls append.simps fst_conv snd_conv last.simps
        list.simps if_False if_True simp_thms)
qed

theorem incomplete_chord_is_its_keys_witness:
  "combo_calls (snd (process_combo (escape_env 30) 6 (combo_key 2 True)
      (snd (chord_run (escape_env 0) 0 [(0, combo_key 0 True, 10)] (combos_start 1))))) =
    [Tapping_Process (combo_key 0 True), Clear_Weak_Mods]"
proof -
  let ?es = "[(0, combo_key 0 True, 10)] :: combo_event list"
  have some: "set (map fst ?es) \<subseteq> {..<length (keys_of_combo (combo_table (escape_env 0) ! 0))}"
    and less: "set (map fst ?es) \<noteq> {..<length (keys_of_combo (combo_table (escape_env 0) ! 0))}"
    by (auto simp: escape_facts(3))
  have keys: "distinct (map fst ?es)"
    "\<forall>e \<in> set ?es. ev_pressed (fst (snd e)) \<and> \<not> IS_NOEVENT (fst (snd e))"
    by (simp_all add: combo_key_def IS_NOEVENT_def)
  have other: "\<forall>c \<in> set (combo_table (escape_env 0)). 6 \<notin> set (keys_of_combo c)" "(6 :: u16) \<notin> {0x7C50, 0x7C51, 0x7C52}"
    by (simp_all add: escape_env_def keys_of_combo_def)
  have plain: "plain_calls ?es = [Tapping_Process (combo_key 0 True), Clear_Weak_Mods]"
    by (simp add: plain_calls_def)
  show ?thesis
    using incomplete_chord_is_its_keys [OF escape_facts(1,2) psubsetI [OF some less] keys other,
        where t = 30 and r = "combo_key 2 True"]
    by (simp only: Let_def case_prod_beta escape_clock start_calls plain append.simps simp_thms)
qed

section \<open>A combo that is left in the ring\<close>

text \<open>Three combos; the third has the keys of the second and one more.\<close>

definition three_combos :: "u16 \<Rightarrow> combo_env" where
  "three_combos t = \<lparr>combo_clock = t, QS_combo_term = 50, combo_table =
    [\<lparr>combo_keys = [4, 5, 0, 0, 0], combo_keycode = 0x68\<rparr>, \<lparr>combo_keys = [6, 7, 0, 0, 0], combo_keycode = 0x69\<rparr>,
     \<lparr>combo_keys = [6, 7, 8, 0, 0], combo_keycode = 0x6A\<rparr>]\<rparr>"

definition combo_typed :: "(nat \<times> bool \<times> u16) list \<Rightarrow> combos \<Rightarrow> combos" where
  "combo_typed = fold (\<lambda>(k, pressed, t) s. snd (process_combo (three_combos t) (of_nat k) (combo_key k pressed) s))"

definition all_pressed_and_released :: combos where
  "all_pressed_and_released =
    combo_typed [(4, False, 110), (5, False, 111), (6, False, 112), (7, False, 113), (8, False, 114)]
      (combo_task (three_combos 100)
        (combo_typed [(4, True, 10), (5, True, 11), (6, True, 12), (7, True, 13), (8, True, 14)] (combos_start 3)))"

definition key_6_tapped :: "combos \<Rightarrow> combos" where
  "key_6_tapped s = combo_typed [(6, True, 200), (6, False, 210)] s"


end
