(* ===== verification/Dynamic_Macro.thy ===== *)
theory Dynamic_Macro
  imports Action_More
begin

text \<open>
  Dynamic macros (\<open>quantum/process_keycode/process_dynamic_macro.c\<close>): two macros that are recorded at run time
  from the two ends of one buffer, in a build without \<open>DYNAMIC_MACRO_NO_NESTING\<close>, \<open>DYNAMIC_MACRO_DELAY\<close> and
  \<open>BACKLIGHT_ENABLE\<close>. A pointer into the buffer is the index of its element, an integer, since the pointers
  of the second macro may stand before the buffer. \<open>macro_hooks\<close> is the trace of the calls of the hooks, which
  are the weak defaults: they do nothing and accept every key. \<open>process_record\<close>, which playback calls, is an
  argument; it gets the stored record itself and may change it. The result \<open>None\<close> is an access outside the buffer or
  a call of \<open>process_record\<close> that does not return.
\<close>

section \<open>State\<close>

definition DYNAMIC_MACRO_SIZE :: int where "DYNAMIC_MACRO_SIZE = 128"

definition r_macro_buffer :: int where "r_macro_buffer = DYNAMIC_MACRO_SIZE - 1"

datatype macro_hook = Record_Start_Kb int | Play_Kb int | Record_Key_Kb int keyrecord_t | Record_End_Kb int

record dynamic_macros =
  macro_buffer :: "keyrecord_t list"
  macro_end :: int
  r_macro_end :: int
  macro_pointer :: int
  macro_id :: nat
  macro_hooks :: "macro_hook list"

record 'w dms = "'w act" +
  macros :: dynamic_macros

type_synonym ('l, 'z) dm = "('l word, 'z) dms_scheme"
type_synonym ('l, 'z) dm_processor = "keyrecord_t \<Rightarrow> ('l, 'z) dm \<Rightarrow> (keyrecord_t \<times> ('l, 'z) dm) option"

text \<open>The static initialisers; \<open>NULL\<close> stands at index 0, the pointer is not used while nothing is recorded.\<close>

definition macros_start :: "keyrecord_t \<Rightarrow> dynamic_macros" where
  "macros_start zero = \<lparr>macro_buffer = replicate (nat DYNAMIC_MACRO_SIZE) zero, macro_end = 0, r_macro_end = r_macro_buffer,
     macro_pointer = 0, macro_id = 0, macro_hooks = []\<rparr>"

definition hook_call :: "macro_hook \<Rightarrow> dynamic_macros \<Rightarrow> dynamic_macros" where
  "hook_call h m = m\<lparr>macro_hooks := macro_hooks m @ [h]\<rparr>"

definition in_buffer :: "int \<Rightarrow> bool" where
  "in_buffer p \<longleftrightarrow> 0 \<le> p \<and> p < DYNAMIC_MACRO_SIZE"

section \<open>Recording\<close>

definition dynamic_macro_record_start :: "'e act_env_scheme \<Rightarrow> int \<Rightarrow> int \<Rightarrow> ('l::len, 'z) dm \<Rightarrow> ('l, 'z) dm" where
  "dynamic_macro_record_start env start direction s =
    (let s1 = on_layers layer_clear (clear_keyboard env (s\<lparr>macros := hook_call (Record_Start_Kb direction) (macros s)\<rparr>))
     in s1\<lparr>macros := (macros s1)\<lparr>macro_pointer := start\<rparr>\<rparr>)"

definition dynamic_macro_record_key :: "int \<Rightarrow> int \<Rightarrow> int \<Rightarrow> keyrecord_t \<Rightarrow> dynamic_macros \<Rightarrow> dynamic_macros option" where
  "dynamic_macro_record_key start macro2_end direction r m =
    (let p = macro_pointer m
     in if \<not> ev_pressed r \<and> p = start then Some m
        else if p - direction \<noteq> macro2_end
        then if in_buffer p
          then Some (hook_call (Record_Key_Kb direction r)
                 (m\<lparr>macro_buffer := (macro_buffer m)[nat p := r], macro_pointer := p + direction\<rparr>))
          else None
        else Some (hook_call (Record_Key_Kb direction r) m))"

text \<open>The loop that drops trailing presses, over the number of records between the start and the pointer.\<close>

fun trim_presses :: "keyrecord_t list \<Rightarrow> int \<Rightarrow> nat \<Rightarrow> int \<Rightarrow> int" where
  "trim_presses buffer direction 0 p = p"
| "trim_presses buffer direction (Suc n) p =
    (if ev_pressed (buffer ! nat (p - direction)) then trim_presses buffer direction n (p - direction) else p)"

definition dynamic_macro_record_end :: "int \<Rightarrow> int \<Rightarrow> int \<Rightarrow> dynamic_macros \<Rightarrow> int \<times> dynamic_macros" where
  "dynamic_macro_record_end start p direction m =
    (trim_presses (macro_buffer m) direction (nat (direction * (p - start))) p, hook_call (Record_End_Kb direction) m)"

definition dynamic_macro_stop_recording :: "dynamic_macros \<Rightarrow> dynamic_macros" where
  "dynamic_macro_stop_recording m =
    (if macro_id m = 1
     then let (e, m1) = dynamic_macro_record_end 0 (macro_pointer m) 1 m in m1\<lparr>macro_end := e, macro_id := 0\<rparr>
     else if macro_id m = 2
     then let (e, m1) = dynamic_macro_record_end r_macro_buffer (macro_pointer m) (-1) m
          in m1\<lparr>r_macro_end := e, macro_id := 0\<rparr>
     else m\<lparr>macro_id := 0\<rparr>)"

section \<open>Playing\<close>

text \<open>The loop of \<open>dynamic_macro_play\<close> over the number of records; what \<open>process_record\<close> leaves in a record stays
  in the buffer.\<close>

fun play_loop :: "('l::len, 'z) dm_processor \<Rightarrow> int \<Rightarrow> nat \<Rightarrow> int \<Rightarrow> ('l, 'z) dm \<Rightarrow> ('l, 'z) dm option" where
  "play_loop pr direction 0 p s = Some s"
| "play_loop pr direction (Suc n) p s =
    (if in_buffer p
     then case pr (macro_buffer (macros s) ! nat p) s of
         None \<Rightarrow> None
       | Some (r, s1) \<Rightarrow> play_loop pr direction n (p + direction)
           (s1\<lparr>macros := (macros s1)\<lparr>macro_buffer := (macro_buffer (macros s1))[nat p := r]\<rparr>\<rparr>)
     else None)"

definition dynamic_macro_play :: "'e act_env_scheme \<Rightarrow> ('l::len, 'z) dm_processor \<Rightarrow> int \<Rightarrow> int \<Rightarrow> int \<Rightarrow> ('l, 'z) dm
    \<Rightarrow> ('l, 'z) dm option" where
  "dynamic_macro_play env pr start end direction s =
    (if direction * (end - start) < 0 then None
     else map_option (\<lambda>s1. let s2 = on_layers (layer_state_set (layer_state (layers s))) (clear_keyboard env s1)
                          in s2\<lparr>macros := hook_call (Play_Kb direction) (macros s2)\<rparr>)
       (play_loop pr direction (nat (direction * (end - start))) start
         (on_layers layer_clear (clear_keyboard env s))))"

section \<open>Key events\<close>

definition QK_DYNAMIC_MACRO_RECORD_START_1 :: u16 where "QK_DYNAMIC_MACRO_RECORD_START_1 = 0x7C53"
definition QK_DYNAMIC_MACRO_RECORD_START_2 :: u16 where "QK_DYNAMIC_MACRO_RECORD_START_2 = 0x7C54"
definition QK_DYNAMIC_MACRO_RECORD_STOP :: u16 where "QK_DYNAMIC_MACRO_RECORD_STOP = 0x7C55"
definition QK_DYNAMIC_MACRO_PLAY_1 :: u16 where "QK_DYNAMIC_MACRO_PLAY_1 = 0x7C56"
definition QK_DYNAMIC_MACRO_PLAY_2 :: u16 where "QK_DYNAMIC_MACRO_PLAY_2 = 0x7C57"

lemmas macro_key_defs = QK_DYNAMIC_MACRO_RECORD_START_1_def QK_DYNAMIC_MACRO_RECORD_START_2_def
  QK_DYNAMIC_MACRO_RECORD_STOP_def QK_DYNAMIC_MACRO_PLAY_1_def QK_DYNAMIC_MACRO_PLAY_2_def

definition set_macro_id :: "nat \<Rightarrow> ('l::len, 'z) dm \<Rightarrow> ('l, 'z) dm" where
  "set_macro_id i s = s\<lparr>macros := (macros s)\<lparr>macro_id := i\<rparr>\<rparr>"

definition record_macro_key :: "keyrecord_t \<Rightarrow> dynamic_macros \<Rightarrow> dynamic_macros option" where
  "record_macro_key r m =
    (if macro_id m = 1 then dynamic_macro_record_key 0 (r_macro_end m) 1 r m
     else if macro_id m = 2 then dynamic_macro_record_key r_macro_buffer (macro_end m) (-1) r m
     else Some m)"

definition process_dynamic_macro :: "'e act_env_scheme \<Rightarrow> ('l::len, 'z) dm_processor \<Rightarrow> u16 \<Rightarrow> keyrecord_t \<Rightarrow> ('l, 'z) dm
    \<Rightarrow> (bool \<times> ('l, 'z) dm) option" where
  "process_dynamic_macro env pr keycode r s =
    (if macro_id (macros s) = 0
     then if ev_pressed r then Some (True, s)
       else if keycode = QK_DYNAMIC_MACRO_RECORD_START_1
       then Some (False, set_macro_id 1 (dynamic_macro_record_start env 0 1 s))
       else if keycode = QK_DYNAMIC_MACRO_RECORD_START_2
       then Some (False, set_macro_id 2 (dynamic_macro_record_start env r_macro_buffer (-1) s))
       else if keycode = QK_DYNAMIC_MACRO_PLAY_1
       then map_option (Pair False) (dynamic_macro_play env pr 0 (macro_end (macros s)) 1 s)
       else if keycode = QK_DYNAMIC_MACRO_PLAY_2
       then map_option (Pair False) (dynamic_macro_play env pr r_macro_buffer (r_macro_end (macros s)) (-1) s)
       else Some (True, s)
     else if keycode = QK_DYNAMIC_MACRO_RECORD_START_1 \<or> keycode = QK_DYNAMIC_MACRO_RECORD_START_2 \<or>
        keycode = QK_DYNAMIC_MACRO_RECORD_STOP
     then Some (False, if ev_pressed r \<noteq> (keycode \<noteq> QK_DYNAMIC_MACRO_RECORD_STOP)
                       then s\<lparr>macros := dynamic_macro_stop_recording (macros s)\<rparr> else s)
     else map_option (\<lambda>m. (True, s\<lparr>macros := m\<rparr>)) (record_macro_key r (macros s)))"

text \<open>A run of key events, each with its keycode; \<open>rest\<close> is what the firmware does with an event that is passed on.\<close>

fun macro_run :: "'e act_env_scheme \<Rightarrow> ('l::len, 'z) dm_processor \<Rightarrow> (keyrecord_t \<Rightarrow> ('l, 'z) dm \<Rightarrow> ('l, 'z) dm) \<Rightarrow>
    (u16 \<times> keyrecord_t) list \<Rightarrow> ('l, 'z) dm \<Rightarrow> ('l, 'z) dm option" where
  "macro_run env pr rest [] s = Some s"
| "macro_run env pr rest ((keycode, r) # es) s =
    (case process_dynamic_macro env pr keycode r s of
       None \<Rightarrow> None
     | Some (go, s1) \<Rightarrow> macro_run env pr rest es (if go then rest r s1 else s1))"

end
