(* ===== verification/Dynamic_Macro_Run.thy ===== *)
theory Dynamic_Macro_Run
  imports Dynamic_Macro
begin

text \<open>
  Dynamic macros in use: the two macros never meet, a recording session leaves exactly the recorded records in
  its macro and the other macro alone, and playing hands them to \<open>process_record\<close> in their order.
\<close>

section \<open>The keyboard operations leave the macros alone\<close>

lemma macros_of_more: "act.more s' = act.more s \<Longrightarrow> macros s' = macros (s :: ('l::len, 'z) dm)"
  by (cases s; cases s') simp

lemma macros_keep [simp]:
  "macros (clear_keyboard env s) = macros (s :: ('l::len, 'z) dm)" "macros (on_layers f s) = macros (s :: ('l, 'z) dm)"
  by (rule macros_of_more, simp add: act_more_simps) (simp add: on_layers_def)

lemma set_macro_id_macros [simp]: "macros (set_macro_id i s) = (macros s)\<lparr>macro_id := i\<rparr>"
  by (simp add: set_macro_id_def)

lemma macros_start_view [simp]:
  "macros (dynamic_macro_record_start env p d s) = (hook_call (Record_Start_Kb d) (macros s))\<lparr>macro_pointer := p\<rparr>"
  by (simp add: dynamic_macro_record_start_def Let_def)

lemma hook_call_fields [simp]:
  "macro_buffer (hook_call h m) = macro_buffer m" "macro_end (hook_call h m) = macro_end m"
  "r_macro_end (hook_call h m) = r_macro_end m" "macro_pointer (hook_call h m) = macro_pointer m"
  "macro_id (hook_call h m) = macro_id m"
  by (simp_all add: hook_call_def)

section \<open>Both macros in their own direction\<close>

text \<open>Macro 1 runs along the buffer, macro 2 against it. Seen in its own direction, each starts at 0.\<close>

definition macro_dir :: "nat \<Rightarrow> int" where "macro_dir i = (if i = 1 then 1 else - 1)"
definition macro_first :: "nat \<Rightarrow> int" where "macro_first i = (if i = 1 then 0 else r_macro_buffer)"
definition macro_last :: "nat \<Rightarrow> dynamic_macros \<Rightarrow> int" where
  "macro_last i m = (if i = 1 then macro_end m else r_macro_end m)"
definition along :: "nat \<Rightarrow> 'a list \<Rightarrow> 'a list" where "along i xs = (if i = 1 then xs else rev xs)"
definition offset :: "nat \<Rightarrow> int \<Rightarrow> int" where "offset i p = (if i = 1 then p else r_macro_buffer - p)"
definition other :: "nat \<Rightarrow> nat" where "other i = (if i = 1 then 2 else 1)"

lemmas dir_defs = macro_dir_def macro_first_def macro_last_def along_def offset_def other_def r_macro_buffer_def
  DYNAMIC_MACRO_SIZE_def

text \<open>The records of a macro.\<close>

definition slot :: "nat \<Rightarrow> dynamic_macros \<Rightarrow> keyrecord_t list" where
  "slot i m = take (nat (offset i (macro_last i m))) (along i (macro_buffer m))"

definition macros_ok :: "dynamic_macros \<Rightarrow> bool" where
  "macros_ok m \<longleftrightarrow> length (macro_buffer m) = nat DYNAMIC_MACRO_SIZE \<and> macro_id m \<le> 2 \<and>
    0 \<le> macro_end m \<and> macro_end m \<le> r_macro_end m + 1 \<and> r_macro_end m < DYNAMIC_MACRO_SIZE \<and>
    (macro_id m = 1 \<longrightarrow> 0 \<le> macro_pointer m \<and> macro_pointer m \<le> r_macro_end m + 1) \<and>
    (macro_id m = 2 \<longrightarrow> macro_end m \<le> macro_pointer m + 1 \<and> macro_pointer m < DYNAMIC_MACRO_SIZE)"

lemma along_nth:
  "length buffer = nat DYNAMIC_MACRO_SIZE \<Longrightarrow> in_buffer p \<Longrightarrow> along i buffer ! nat (offset i p) = buffer ! nat p"
  by (auto simp: dir_defs in_buffer_def rev_nth nat_diff_distrib intro!: arg_cong [where f = "(!) buffer"])

lemma along_update:
  "length buffer = nat DYNAMIC_MACRO_SIZE \<Longrightarrow> in_buffer p \<Longrightarrow>
    along i (buffer[nat p := r]) = (along i buffer)[nat (offset i p) := r]"
  by (auto simp: dir_defs in_buffer_def rev_update nat_diff_distrib intro!: arg_cong [where f = "\<lambda>n. (rev buffer)[n := r]"])

lemma length_along [simp]: "length (along i xs) = length xs"
  by (simp add: along_def)

lemma offset_back: "offset i (p - macro_dir i) = offset i p - 1" "offset i (p + macro_dir i) = offset i p + 1"
  by (simp_all add: dir_defs)

lemma offset_in_buffer: "in_buffer p \<longleftrightarrow> 0 \<le> offset i p \<and> offset i p < DYNAMIC_MACRO_SIZE"
  by (auto simp: in_buffer_def dir_defs)

text \<open>What remains of a recording: without its trailing presses.\<close>

definition trimmed :: "keyrecord_t list \<Rightarrow> keyrecord_t list" where
  "trimmed rs = rev (dropWhile ev_pressed (rev rs))"

lemma trimmed_snoc: "trimmed (rs @ [r]) = (if ev_pressed r then trimmed rs else rs @ [r])"
  by (simp add: trimmed_def)

lemma trimmed_Nil [simp]: "trimmed [] = []"
  by (simp add: trimmed_def)

lemma trim_offset:
  assumes "length buffer = nat DYNAMIC_MACRO_SIZE"
  shows "offset i p = int n \<Longrightarrow> n \<le> nat DYNAMIC_MACRO_SIZE \<Longrightarrow>
    offset i (trim_presses buffer (macro_dir i) n p) = int (length (trimmed (take n (along i buffer))))"
proof (induction n arbitrary: p)
  case (Suc n)
  have prev: "offset i (p - macro_dir i) = int n" using Suc.prems(1) by (simp add: offset_back)
  then have "in_buffer (p - macro_dir i)"
    using Suc.prems(2) by (simp add: offset_in_buffer [of _ i] DYNAMIC_MACRO_SIZE_def)
  then have last: "along i buffer ! n = buffer ! nat (p - macro_dir i)"
    using along_nth [OF assms, of "p - macro_dir i" i] prev by simp
  have "take (Suc n) (along i buffer) = take n (along i buffer) @ [along i buffer ! n]"
    using Suc.prems(2) assms by (intro take_Suc_conv_app_nth) (simp add: DYNAMIC_MACRO_SIZE_def)
  then show ?case using Suc.prems Suc.IH [OF prev] assms
    by (simp add: trimmed_snoc last)
qed simp

lemma trimmed_prefix: "trimmed rs = take (length (trimmed rs)) rs"
proof -
  have "rs = trimmed rs @ rev (takeWhile ev_pressed (rev rs))"
    unfolding trimmed_def by (metis rev_append rev_rev_ident takeWhile_dropWhile_id)
  then show ?thesis by (metis append_eq_conv_conj)
qed

lemma length_trimmed: "length (trimmed rs) \<le> length rs"
  using length_dropWhile_le [of ev_pressed "rev rs"] by (simp add: trimmed_def)

section \<open>A recording\<close>

text \<open>Macro \<open>i\<close> is being recorded and holds \<open>rs\<close> so far.\<close>

definition recording :: "nat \<Rightarrow> keyrecord_t list \<Rightarrow> dynamic_macros \<Rightarrow> bool" where
  "recording i rs m \<longleftrightarrow> macros_ok m \<and> macro_id m = i \<and> offset i (macro_pointer m) = int (length rs) \<and>
    take (length rs) (along i (macro_buffer m)) = rs"

text \<open>The room that the other macro leaves.\<close>

definition room :: "nat \<Rightarrow> dynamic_macros \<Rightarrow> nat" where
  "room i m = nat DYNAMIC_MACRO_SIZE - length (slot (other i) m)"

definition record_step :: "nat \<Rightarrow> keyrecord_t list \<Rightarrow> keyrecord_t \<Rightarrow> keyrecord_t list" where
  "record_step n rs r = (if \<not> ev_pressed r \<and> rs = [] then rs else if length rs < n then rs @ [r] else rs)"

lemma record_step_take:
  "ds \<noteq> [] \<or> ev_pressed r \<Longrightarrow> record_step n (take n ds) r = take n (ds @ [r])"
  by (cases "length ds < n") (auto simp: record_step_def)

lemma record_steps: "foldl (record_step n) [] rs = take n (dropWhile (\<lambda>r. \<not> ev_pressed r) rs)"
proof (induction rs rule: rev_induct)
  case (snoc r rs)
  let ?ds = "dropWhile (\<lambda>r. \<not> ev_pressed r) rs"
  have "dropWhile (\<lambda>r. \<not> ev_pressed r) (rs @ [r]) = (if ?ds \<noteq> [] \<or> ev_pressed r then ?ds @ [r] else [])"
    by (simp add: dropWhile_append dropWhile_eq_Nil_conv)
  moreover have "record_step n (take n ?ds) r = []" if "?ds = []" "\<not> ev_pressed r"
    unfolding that(1) by (simp add: record_step_def that(2))
  ultimately show ?case using record_step_take [of ?ds r n] snoc by auto
qed simp

lemma slot_length:
  assumes "macros_ok m"
  shows "length (slot i m) = nat (offset i (macro_last i m))"
  using assms by (auto simp: slot_def macros_ok_def dir_defs)

lemma room_eq:
  assumes "macros_ok m"
  shows "int (room i m) = (if i = 1 then r_macro_end m + 1 else r_macro_buffer - macro_end m + 1)"
  unfolding room_def using slot_length [OF assms, of "other i"] assms
  by (auto simp: macros_ok_def dir_defs split: if_splits)

lemma hook_call_views [simp]:
  "macros_ok (hook_call h m) = macros_ok m" "slot i (hook_call h m) = slot i m" "room i (hook_call h m) = room i m"
  "recording i rs (hook_call h m) = recording i rs m"
  by (simp_all add: macros_ok_def slot_def macro_last_def room_def recording_def)

lemma recording_key:
  assumes "recording i rs m" "i = 1 \<or> i = 2"
  shows "\<exists>m'. record_macro_key r m = Some m' \<and> recording i (record_step (room i m) rs r) m' \<and>
    slot (other i) m' = slot (other i) m \<and> room i m' = room i m"
proof -
  let ?p = "macro_pointer m" and ?limit = "macro_last (other i) m"
  have ok: "macros_ok m" and id: "macro_id m = i" and off: "offset i ?p = int (length rs)"
    and rs: "take (length rs) (along i (macro_buffer m)) = rs"
    using assms(1) by (simp_all add: recording_def)
  have len: "length (macro_buffer m) = nat DYNAMIC_MACRO_SIZE" using ok by (simp add: macros_ok_def)
  have key: "record_macro_key r m = dynamic_macro_record_key (macro_first i) ?limit (macro_dir i) r m"
    using assms(2) id by (auto simp: record_macro_key_def dir_defs)
  have first: "?p = macro_first i \<longleftrightarrow> rs = []" using off by (auto simp: dir_defs)
  have room: "int (room i m) = (if i = 1 then r_macro_end m + 1 else r_macro_buffer - macro_end m + 1)"
    by (rule room_eq [OF ok])
  have full: "?p - macro_dir i \<noteq> ?limit \<longleftrightarrow> int (length rs) \<noteq> int (room i m)"
    unfolding off [symmetric] room using assms(2) by (auto simp: dir_defs)
  have "int (length rs) \<le> int (room i m)"
    unfolding off [symmetric] room using assms(2) ok id by (auto simp: dir_defs macros_ok_def)
  with full have full: "?p - macro_dir i \<noteq> ?limit \<longleftrightarrow> length rs < room i m" by auto
  consider (skip) "\<not> ev_pressed r" "rs = []" | (store) "ev_pressed r \<or> rs \<noteq> []" "length rs < room i m"
    | (no_room) "ev_pressed r \<or> rs \<noteq> []" "\<not> length rs < room i m"
    by blast
  then show ?thesis
  proof cases
    case skip
    then show ?thesis using assms(1) by (simp add: key dynamic_macro_record_key_def first record_step_def)
  next
    case no_room
    then have "record_macro_key r m = Some (hook_call (Record_Key_Kb (macro_dir i) r) m)"
      using full by (auto simp: key dynamic_macro_record_key_def first Let_def)
    moreover have "record_step (room i m) rs r = rs" using no_room by (auto simp: record_step_def)
    ultimately show ?thesis using assms(1) by simp
  next
    case store
    define m1 where "m1 = hook_call (Record_Key_Kb (macro_dir i) r)
      (m\<lparr>macro_buffer := (macro_buffer m)[nat ?p := r], macro_pointer := ?p + macro_dir i\<rparr>)"
    have size: "room i m \<le> nat DYNAMIC_MACRO_SIZE" by (simp add: room_def)
    then have buf: "in_buffer ?p" using store(2) off by (simp add: offset_in_buffer [of _ i] DYNAMIC_MACRO_SIZE_def)
    have "record_macro_key r m = Some m1"
      using store buf full by (auto simp: key dynamic_macro_record_key_def first m1_def Let_def)
    moreover have "take (length (rs @ [r])) (along i (macro_buffer m1)) = rs @ [r]"
    proof -
      have "along i (macro_buffer m1) = (along i (macro_buffer m))[length rs := r]"
        by (simp add: m1_def along_update [OF len buf] off)
      then show ?thesis using rs store(2) size len by (simp add: take_Suc_conv_app_nth)
    qed
    moreover have "offset i (macro_pointer m1) = int (length (rs @ [r]))"
      by (simp add: m1_def offset_back off)
    moreover have "slot (other i) m1 = slot (other i) m"
    proof -
      have "offset (other i) (macro_last (other i) m) = DYNAMIC_MACRO_SIZE - int (room i m)"
        unfolding room using assms(2) by (auto simp: dir_defs)
      moreover have "offset (other i) ?p = DYNAMIC_MACRO_SIZE - 1 - int (length rs)"
        unfolding off [symmetric] using assms(2) by (auto simp: dir_defs)
      ultimately have "nat (offset (other i) (macro_last (other i) m)) \<le> nat (offset (other i) ?p)"
        using store(2) by simp
      moreover have "along (other i) (macro_buffer m1) = (along (other i) (macro_buffer m))[nat (offset (other i) ?p) := r]"
        using along_update [OF len buf] by (simp add: m1_def)
      moreover have "macro_last (other i) m1 = macro_last (other i) m" by (simp add: m1_def macro_last_def)
      ultimately show ?thesis by (simp add: slot_def)
    qed
    moreover have "macros_ok m1"
    proof -
      have "int (length rs) + 1 \<le> int (room i m)" using store(2) by simp
      then have "offset i ?p + 1 \<le> (if i = 1 then r_macro_end m + 1 else r_macro_buffer - macro_end m + 1)"
        unfolding off room .
      then show ?thesis using ok id assms(2) by (auto simp: m1_def macros_ok_def dir_defs)
    qed
    ultimately show ?thesis using store id
      by (simp add: recording_def record_step_def room_def) (simp add: m1_def)
  qed
qed

text \<open>The hook is called for every recorded key, whether there was room for it or not.\<close>

lemma record_hook_on_every_key:
  assumes "record_macro_key r m = Some m'" "macro_id m = 1" "ev_pressed r"
  shows "macro_hooks m' = macro_hooks m @ [Record_Key_Kb 1 r]"
  using assms
  by (auto simp: record_macro_key_def dynamic_macro_record_key_def Let_def hook_call_def split: if_splits)

section \<open>A whole session\<close>

definition macro_control :: "u16 \<Rightarrow> bool" where
  "macro_control keycode \<longleftrightarrow> keycode \<in> {QK_DYNAMIC_MACRO_RECORD_START_1, QK_DYNAMIC_MACRO_RECORD_START_2,
    QK_DYNAMIC_MACRO_RECORD_STOP}"

definition start_key :: "nat \<Rightarrow> u16" where
  "start_key i = (if i = 1 then QK_DYNAMIC_MACRO_RECORD_START_1 else QK_DYNAMIC_MACRO_RECORD_START_2)"
definition play_key :: "nat \<Rightarrow> u16" where
  "play_key i = (if i = 1 then QK_DYNAMIC_MACRO_PLAY_1 else QK_DYNAMIC_MACRO_PLAY_2)"

lemma recording_events:
  assumes "i = 1 \<or> i = 2" "\<forall>r s. macros (rest r s) = macros s"
  shows "recording i rs (macros s) \<Longrightarrow> \<forall>(k, r) \<in> set es. \<not> macro_control k \<Longrightarrow>
    \<exists>s'. macro_run env pr rest (es @ es') s = macro_run env pr rest es' s' \<and>
      recording i (foldl (record_step (room i (macros s))) rs (map snd es)) (macros s') \<and>
      slot (other i) (macros s') = slot (other i) (macros s)"
proof (induction es arbitrary: rs s)
  case (Cons e es)
  obtain k r where e: "e = (k, r)" by (cases e)
  obtain m where m: "record_macro_key r (macros s) = Some m" "recording i (record_step (room i (macros s)) rs r) m"
    "slot (other i) m = slot (other i) (macros s)" "room i m = room i (macros s)"
    using recording_key [OF Cons.prems(1) assms(1)] by blast
  have "macro_id (macros s) \<noteq> 0" using Cons.prems(1) assms(1) by (auto simp: recording_def)
  moreover have "\<not> macro_control k" using Cons.prems(2) by (simp add: e)
  ultimately have "process_dynamic_macro env pr k r s = Some (True, s\<lparr>macros := m\<rparr>)"
    by (simp add: process_dynamic_macro_def macro_control_def m(1))
  then have step: "macro_run env pr rest ((e # es) @ es') s = macro_run env pr rest (es @ es') (rest r (s\<lparr>macros := m\<rparr>))"
    by (simp add: e)
  have macros: "macros (rest r (s\<lparr>macros := m\<rparr>)) = m" using assms(2) by simp
  obtain s' where "macro_run env pr rest (es @ es') (rest r (s\<lparr>macros := m\<rparr>)) = macro_run env pr rest es' s'"
    "recording i (foldl (record_step (room i m)) (record_step (room i (macros s)) rs r) (map snd es)) (macros s')"
    "slot (other i) (macros s') = slot (other i) m"
    using Cons.IH [of "record_step (room i (macros s)) rs r" "rest r (s\<lparr>macros := m\<rparr>)"] m(2) Cons.prems(2)
    unfolding macros by auto
  then show ?case unfolding step using m(3,4) by (intro exI [of _ s']) (simp add: e)
qed auto

lemma recording_starts:
  "macros_ok m \<Longrightarrow> i = 1 \<or> i = 2 \<Longrightarrow> recording i [] (m\<lparr>macro_pointer := macro_first i, macro_id := i\<rparr>)"
  by (auto simp: recording_def macros_ok_def dir_defs)

lemma stop_leaves_slot:
  assumes "recording i rs m" "i = 1 \<or> i = 2"
  shows "let m' = dynamic_macro_stop_recording m in
    slot i m' = trimmed rs \<and> slot (other i) m' = slot (other i) m \<and> macro_id m' = 0 \<and> macros_ok m'"
proof -
  let ?n = "length rs"
  have ok: "macros_ok m" and id: "macro_id m = i" and off: "offset i (macro_pointer m) = int ?n"
    and rs: "take ?n (along i (macro_buffer m)) = rs" and len: "length (macro_buffer m) = nat DYNAMIC_MACRO_SIZE"
    using assms(1) by (simp_all add: recording_def macros_ok_def)
  define e where "e = trim_presses (macro_buffer m) (macro_dir i) ?n (macro_pointer m)"
  have n: "?n \<le> nat DYNAMIC_MACRO_SIZE" using arg_cong [OF rs, of length] len by simp
  then have e: "offset i e = int (length (trimmed rs))"
    using trim_offset [OF len off] by (simp add: e_def rs)
  have m': "dynamic_macro_stop_recording m = (if i = 1 then \<lambda>m. m\<lparr>macro_end := e, macro_id := 0\<rparr>
      else (\<lambda>m. m\<lparr>r_macro_end := e, macro_id := 0\<rparr>)) (hook_call (Record_End_Kb (macro_dir i)) m)"
    using assms(2) id off by (auto simp: dynamic_macro_stop_recording_def dynamic_macro_record_end_def e_def dir_defs)
  have "take (length (trimmed rs)) (along i (macro_buffer m)) = trimmed rs"
    using trimmed_prefix [of rs] length_trimmed [of rs] rs by (metis min.absorb1 take_take)
  then have "slot i (dynamic_macro_stop_recording m) = trimmed rs"
    using assms(2) e by (auto simp: m' slot_def dir_defs)
  moreover have "macros_ok (dynamic_macro_stop_recording m)"
  proof -
    have "offset i e \<le> offset i (macro_pointer m)" "0 \<le> offset i e" using e off length_trimmed [of rs] by simp_all
    then show ?thesis using ok id assms(2) by (auto simp: m' macros_ok_def dir_defs)
  qed
  ultimately show ?thesis using assms(2) by (auto simp: m' Let_def slot_def macro_last_def other_def)
qed

section \<open>Playing\<close>

text \<open>Given records handed to \<open>process_record\<close> one after the other; what it leaves of each is stored at its place.\<close>

definition set_record :: "int \<Rightarrow> keyrecord_t \<Rightarrow> ('l::len, 'z) dm \<Rightarrow> ('l, 'z) dm" where
  "set_record p r s = s\<lparr>macros := (macros s)\<lparr>macro_buffer := (macro_buffer (macros s))[nat p := r]\<rparr>\<rparr>"

fun play_records :: "('l::len, 'z) dm_processor \<Rightarrow> int \<Rightarrow> int \<Rightarrow> keyrecord_t list \<Rightarrow> ('l, 'z) dm \<Rightarrow> ('l, 'z) dm option" where
  "play_records pr direction p [] s = Some s"
| "play_records pr direction p (r # rs) s =
    (case pr r s of None \<Rightarrow> None
     | Some (r', s1) \<Rightarrow> play_records pr direction (p + direction) rs (set_record p r' s1))"

text \<open>A \<open>process_record\<close> that leaves the macros alone.\<close>

definition leaves_macros :: "('l::len, 'z) dm_processor \<Rightarrow> bool" where
  "leaves_macros pr \<longleftrightarrow> (\<forall>r s r' s'. pr r s = Some (r', s') \<longrightarrow> macros s' = macros s)"

lemma process_record_leaves_macros:
  assumes "hook_keeps quantum" "\<forall>r s. act.more (post r s) = act.more s"
  shows "leaves_macros (process_record n env quantum post)"
  using process_record_keeps [OF assms] macros_of_more unfolding leaves_macros_def by blast

lemma play_loop_records:
  assumes "leaves_macros pr"
  shows "length (macro_buffer (macros s)) = nat DYNAMIC_MACRO_SIZE \<Longrightarrow> 0 \<le> offset i p \<Longrightarrow>
    offset i p + int n \<le> DYNAMIC_MACRO_SIZE \<Longrightarrow>
    play_loop pr (macro_dir i) n p s =
      play_records pr (macro_dir i) p (take n (drop (nat (offset i p)) (along i (macro_buffer (macros s))))) s"
proof (induction n arbitrary: p s)
  case (Suc n)
  let ?q = "nat (offset i p)"
  have buf: "in_buffer p" using Suc.prems by (simp add: offset_in_buffer [of _ i])
  have r: "along i (macro_buffer (macros s)) ! ?q = macro_buffer (macros s) ! nat p"
    by (rule along_nth [OF Suc.prems(1) buf])
  have "?q < length (along i (macro_buffer (macros s)))" using Suc.prems by simp
  then have drop: "drop ?q (along i (macro_buffer (macros s))) =
      macro_buffer (macros s) ! nat p # drop (Suc ?q) (along i (macro_buffer (macros s)))"
    by (metis Cons_nth_drop_Suc r)
  show ?case
  proof (cases "pr (macro_buffer (macros s) ! nat p) s")
    case (Some x)
    then obtain r' s1 where s1: "pr (macro_buffer (macros s) ! nat p) s = Some (r', s1)" "macros s1 = macros s"
      using assms unfolding leaves_macros_def by (metis surj_pair)
    let ?s2 = "set_record p r' s1"
    have next_q: "nat (offset i p + 1) = Suc ?q" using Suc.prems(2) by simp
    have buffer: "macro_buffer (macros ?s2) = (macro_buffer (macros s))[nat p := r']" by (simp add: set_record_def s1(2))
    have "play_loop pr (macro_dir i) (Suc n) p s = play_loop pr (macro_dir i) n (p + macro_dir i) ?s2"
      using buf s1(1) by (simp add: set_record_def)
    also have "\<dots> = play_records pr (macro_dir i) (p + macro_dir i)
        (take n (drop (Suc ?q) (along i (macro_buffer (macros ?s2))))) ?s2"
      using Suc.IH [of ?s2 "p + macro_dir i"] Suc.prems by (simp add: buffer offset_back next_q)
    also have "drop (Suc ?q) (along i (macro_buffer (macros ?s2))) = drop (Suc ?q) (along i (macro_buffer (macros s)))"
      by (simp add: buffer along_update [OF Suc.prems(1) buf])
    finally show ?thesis by (simp add: drop s1(1))
  qed (simp add: drop buf)
qed simp

text \<open>What playing macro \<open>i\<close> with the records \<open>rs\<close> is to do.\<close>

definition macro_played :: "'e act_env_scheme \<Rightarrow> ('l::len, 'z) dm_processor \<Rightarrow> nat \<Rightarrow> keyrecord_t list \<Rightarrow> ('l, 'z) dm
    \<Rightarrow> ('l, 'z) dm option" where
  "macro_played env pr i rs s =
    map_option (\<lambda>s1. let s2 = on_layers (layer_state_set (layer_state (layers s))) (clear_keyboard env s1)
        in s2\<lparr>macros := hook_call (Play_Kb (macro_dir i)) (macros s2)\<rparr>)
      (play_records pr (macro_dir i) (macro_first i) rs (on_layers layer_clear (clear_keyboard env s)))"

lemma play_is_records:
  assumes "leaves_macros pr" "macros_ok (macros s)" "macro_id (macros s) = 0" "\<not> ev_pressed r" "i = 1 \<or> i = 2"
  shows "process_dynamic_macro env pr (play_key i) r s = map_option (Pair False) (macro_played env pr i (slot i (macros s)) s)"
proof -
  let ?s = "on_layers layer_clear (clear_keyboard env s)" and ?n = "nat (offset i (macro_last i (macros s)))"
  have range: "0 \<le> offset i (macro_last i (macros s))" "offset i (macro_last i (macros s)) \<le> DYNAMIC_MACRO_SIZE"
    "length (macro_buffer (macros s)) = nat DYNAMIC_MACRO_SIZE"
    using assms(2) by (auto simp: macros_ok_def dir_defs)
  have start: "offset i (macro_first i) = 0" by (simp add: dir_defs)
  have "process_dynamic_macro env pr (play_key i) r s =
      map_option (Pair False) (dynamic_macro_play env pr (macro_first i) (macro_last i (macros s)) (macro_dir i) s)"
    using assms(3-5) by (auto simp: process_dynamic_macro_def play_key_def macro_key_defs dir_defs)
  moreover have "macro_dir i * (macro_last i (macros s) - macro_first i) = offset i (macro_last i (macros s))"
    by (simp add: dir_defs)
  moreover have "play_loop pr (macro_dir i) ?n (macro_first i) ?s =
      play_records pr (macro_dir i) (macro_first i) (slot i (macros s)) ?s"
    using play_loop_records [OF assms(1), of ?s i "macro_first i" ?n] range by (simp add: start slot_def)
  ultimately show ?thesis using range(1) by (simp add: dynamic_macro_play_def macro_played_def Let_def)
qed

text \<open>C35: a recording session, from the release of the start key to the press of the stop key, leaves in its
  macro the events between them without leading releases, as far as the other macro leaves room, and without
  trailing presses; the other macro is as before. From then on, playing it hands exactly these records to
  \<open>process_record\<close>, in their order, between clearing the keyboard and the layers and restoring the layers.\<close>

theorem macro_session_is_played_back:
  assumes "i = 1 \<or> i = 2" "macros_ok (macros s)" "macro_id (macros s) = 0" "\<forall>r s. macros (rest r s) = macros s"
    "\<forall>(k, r) \<in> set es. \<not> macro_control k" "\<not> ev_pressed r0" "ev_pressed r1" "\<not> ev_pressed r2" "leaves_macros pr"
    "rs = trimmed (take (nat DYNAMIC_MACRO_SIZE - length (slot (other i) (macros s)))
      (dropWhile (\<lambda>r. \<not> ev_pressed r) (map snd es)))"
  shows "\<exists>s'. macro_run env pr rest ((start_key i, r0) # es @ [(QK_DYNAMIC_MACRO_RECORD_STOP, r1)]) s = Some s' \<and>
    slot i (macros s') = rs \<and> slot (other i) (macros s') = slot (other i) (macros s) \<and> macros_ok (macros s') \<and>
    macro_id (macros s') = 0 \<and>
    (\<forall>t. macros t = macros s' \<longrightarrow>
      process_dynamic_macro env pr (play_key i) r2 t = map_option (Pair False) (macro_played env pr i rs t))"
proof -
  define m where "m = (hook_call (Record_Start_Kb (macro_dir i)) (macros s))\<lparr>macro_pointer := macro_first i, macro_id := i\<rparr>"
  obtain s1 where s1: "process_dynamic_macro env pr (start_key i) r0 s = Some (False, s1)" "macros s1 = m"
    using assms(1,3,6) by (auto simp: process_dynamic_macro_def start_key_def macro_key_defs dir_defs m_def)
  have other: "slot (other i) m = slot (other i) (macros s)" "room i m = room i (macros s)"
    by (simp_all add: m_def slot_def macro_last_def room_def)
  have "recording i [] (macros s1)"
    using recording_starts [OF _ assms(1), of "hook_call (Record_Start_Kb (macro_dir i)) (macros s)"] assms(2)
    by (simp add: s1(2) m_def)
  then obtain s2 where s2: "macro_run env pr rest (es @ [(QK_DYNAMIC_MACRO_RECORD_STOP, r1)]) s1 =
      macro_run env pr rest [(QK_DYNAMIC_MACRO_RECORD_STOP, r1)] s2"
    "recording i (foldl (record_step (room i m)) [] (map snd es)) (macros s2)" "slot (other i) (macros s2) = slot (other i) m"
    using recording_events [OF assms(1,4) _ assms(5)] unfolding s1(2) [symmetric] by blast
  define s' where "s' = s2\<lparr>macros := dynamic_macro_stop_recording (macros s2)\<rparr>"
  have "macro_id (macros s2) \<noteq> 0" using s2(2) assms(1) by (auto simp: recording_def)
  then have "process_dynamic_macro env pr QK_DYNAMIC_MACRO_RECORD_STOP r1 s2 = Some (False, s')"
    using assms(7) by (simp add: process_dynamic_macro_def s'_def)
  then have run: "macro_run env pr rest ((start_key i, r0) # es @ [(QK_DYNAMIC_MACRO_RECORD_STOP, r1)]) s = Some s'"
    by (simp add: s1(1) s2(1))
  have "foldl (record_step (room i m)) [] (map snd es) =
      take (nat DYNAMIC_MACRO_SIZE - length (slot (other i) (macros s))) (dropWhile (\<lambda>r. \<not> ev_pressed r) (map snd es))"
    unfolding record_steps other(2) by (simp add: room_def)
  then have stop: "slot i (macros s') = rs" "slot (other i) (macros s') = slot (other i) (macros s)"
      "macro_id (macros s') = 0" "macros_ok (macros s')"
    using stop_leaves_slot [OF s2(2) assms(1)] s2(3) other(1) by (simp_all add: s'_def Let_def assms(10))
  have "process_dynamic_macro env pr (play_key i) r2 t = map_option (Pair False) (macro_played env pr i rs t)"
    if "macros t = macros s'" for t
    using play_is_records [OF assms(9) _ _ assms(8) assms(1), of t env] stop by (simp add: that)
  then show ?thesis using run stop by blast
qed

section \<open>Every run stays inside the buffer\<close>

text \<open>A \<open>process_record\<close> that returns and keeps the bounds, whatever else it does: it may itself play or record.\<close>

definition keeps_bounds :: "('l::len, 'z) dm_processor \<Rightarrow> bool" where
  "keeps_bounds pr \<longleftrightarrow> (\<forall>r s. macros_ok (macros s) \<longrightarrow> (\<exists>r' s'. pr r s = Some (r', s') \<and> macros_ok (macros s')))"

lemma play_loop_ok:
  assumes "keeps_bounds pr" "i = 1 \<or> i = 2"
  shows "macros_ok (macros s) \<Longrightarrow> 0 \<le> offset i p \<Longrightarrow> offset i p + int n \<le> DYNAMIC_MACRO_SIZE \<Longrightarrow>
    \<exists>s'. play_loop pr (macro_dir i) n p s = Some s' \<and> macros_ok (macros s')"
proof (induction n arbitrary: p s)
  case (Suc n)
  have buf: "in_buffer p" using Suc.prems by (simp add: offset_in_buffer [of _ i])
  obtain r' s1 where s1: "pr (macro_buffer (macros s) ! nat p) s = Some (r', s1)" "macros_ok (macros s1)"
    using assms(1) Suc.prems(1) unfolding keeps_bounds_def by blast
  have "macros_ok (macros (set_record p r' s1))" using s1(2) by (simp add: set_record_def macros_ok_def)
  then show ?case using Suc.IH [of "set_record p r' s1" "p + macro_dir i"] Suc.prems(2,3) buf s1(1)
    by (simp add: offset_back set_record_def)
qed simp

lemma macro_play_ok:
  assumes "keeps_bounds pr" "macros_ok (macros s)" "i = 1 \<or> i = 2"
  shows "\<exists>s'. dynamic_macro_play env pr (macro_first i) (macro_last i (macros s)) (macro_dir i) s = Some s' \<and>
    macros_ok (macros s')"
proof -
  have range: "0 \<le> offset i (macro_last i (macros s))" "offset i (macro_last i (macros s)) \<le> DYNAMIC_MACRO_SIZE"
    using assms(2) by (auto simp: macros_ok_def dir_defs)
  have start: "offset i (macro_first i) = 0" by (simp add: dir_defs)
  have len: "macro_dir i * (macro_last i (macros s) - macro_first i) = offset i (macro_last i (macros s))"
    by (simp add: dir_defs)
  show ?thesis
    using play_loop_ok [OF assms(1,3), of "on_layers layer_clear (clear_keyboard env s)" "macro_first i"
        "nat (offset i (macro_last i (macros s)))"] range assms(2)
    by (auto simp: dynamic_macro_play_def len start Let_def)
qed

lemma ok_is_recording:
  assumes "macros_ok m" "macro_id m = i" "i = 1 \<or> i = 2"
  shows "recording i (take (nat (offset i (macro_pointer m))) (along i (macro_buffer m))) m"
proof -
  have "0 \<le> offset i (macro_pointer m)" "offset i (macro_pointer m) \<le> DYNAMIC_MACRO_SIZE"
    "length (macro_buffer m) = nat DYNAMIC_MACRO_SIZE"
    using assms by (auto simp: macros_ok_def dir_defs)
  then show ?thesis using assms(1,2) by (simp add: recording_def)
qed

lemma macro_process_ok:
  assumes "keeps_bounds pr" "macros_ok (macros s)"
  shows "\<exists>go s'. process_dynamic_macro env pr k r s = Some (go, s') \<and> macros_ok (macros s')"
proof (cases "macro_id (macros s) = 0")
  case True
  have starts: "macros_ok ((hook_call h (macros s))\<lparr>macro_pointer := macro_first i, macro_id := i\<rparr>)" if "i = 1 \<or> i = 2" for h i
    using recording_starts [OF _ that, of "hook_call h (macros s)"] assms(2) by (simp add: recording_def)
  obtain p1 p2 where "dynamic_macro_play env pr 0 (macro_end (macros s)) 1 s = Some p1" "macros_ok (macros p1)"
    "dynamic_macro_play env pr r_macro_buffer (r_macro_end (macros s)) (- 1) s = Some p2" "macros_ok (macros p2)"
    using macro_play_ok [OF assms, of 1 env] macro_play_ok [OF assms, of 2 env] by (auto simp: macro_first_def macro_last_def macro_dir_def)
  then show ?thesis using True assms(2) starts [of 1 "Record_Start_Kb 1"] starts [of 2 "Record_Start_Kb (- 1)"]
    by (simp add: process_dynamic_macro_def macro_first_def ex_bool_eq)
next
  case False
  define i where "i = macro_id (macros s)"
  have i: "i = 1 \<or> i = 2" using False assms(2) by (auto simp: i_def macros_ok_def)
  have rec: "recording i (take (nat (offset i (macro_pointer (macros s)))) (along i (macro_buffer (macros s)))) (macros s)"
    by (rule ok_is_recording [OF assms(2) i_def [symmetric] i])
  obtain m where "record_macro_key r (macros s) = Some m" "macros_ok m"
    using recording_key [OF rec i] by (auto simp: recording_def)
  moreover have "macros_ok (dynamic_macro_stop_recording (macros s))"
    using stop_leaves_slot [OF rec i] by (simp add: Let_def)
  ultimately show ?thesis using False assms(2) by (simp add: process_dynamic_macro_def ex_bool_eq)
qed

lemma macro_run_ok:
  assumes "keeps_bounds pr" "\<forall>r s. macros_ok (macros s) \<longrightarrow> macros_ok (macros (rest r s))"
  shows "macros_ok (macros s) \<Longrightarrow> \<exists>s'. macro_run env pr rest es s = Some s' \<and> macros_ok (macros s')"
proof (induction es arbitrary: s)
  case (Cons e es)
  obtain k r where e: "e = (k, r)" by (cases e)
  obtain go s1 where "process_dynamic_macro env pr k r s = Some (go, s1)" "macros_ok (macros s1)"
    using macro_process_ok [OF assms(1) Cons.prems] by blast
  then show ?case using Cons.IH [of "if go then rest r s1 else s1"] assms(2) by (simp add: e)
qed simp

lemma start_ok: "macros_ok (macros_start zero)"
  by (simp add: macros_ok_def macros_start_def r_macro_buffer_def DYNAMIC_MACRO_SIZE_def)

text \<open>C36: in every run of key events from power-on, in any order, no access leaves the macro buffer and the two
  macros never overlap, even while one of them is being recorded.\<close>

theorem macros_never_overlap:
  assumes "keeps_bounds pr" "\<forall>r s. macros_ok (macros s) \<longrightarrow> macros_ok (macros (rest r s))" "macros s = macros_start zero"
  shows "\<exists>s'. macro_run env pr rest es s = Some s' \<and> (let m = macros s' in
    length (macro_buffer m) = nat DYNAMIC_MACRO_SIZE \<and>
    length (slot 1 m) + length (slot 2 m) \<le> nat DYNAMIC_MACRO_SIZE \<and>
    macro_id m \<le> 2 \<and>
    (if macro_id m = 1 then 0 \<le> macro_pointer m \<and> macro_pointer m \<le> r_macro_end m + 1
     else if macro_id m = 2 then macro_end m - 1 \<le> macro_pointer m \<and> macro_pointer m < DYNAMIC_MACRO_SIZE else True))"
proof -
  obtain s' where s': "macro_run env pr rest es s = Some s'" "macros_ok (macros s')"
    using macro_run_ok [OF assms(1,2), of s env es] start_ok [of zero] assms(3) by auto
  have "length (slot 1 (macros s')) + length (slot 2 (macros s')) \<le> nat DYNAMIC_MACRO_SIZE"
    using s'(2) slot_length [OF s'(2), of 1] slot_length [OF s'(2), of 2] by (auto simp: macros_ok_def dir_defs)
  then show ?thesis using s' by (auto simp: macros_ok_def Let_def)
qed

section \<open>Two keys\<close>

definition macro_example :: "8 word dms" where
  "macro_example = act.extend (kbd_start 0x400 fresh_layers) \<lparr>macros = macros_start (key_record 0 False)\<rparr>"

definition macro_processor :: "(8, unit) dm_processor" where
  "macro_processor = process_record 2 plain_env plain_hook (\<lambda>r s. s)"

lemma plain_hook_leaves: "hook_keeps plain_hook"
  by (simp add: hook_keeps_def plain_hook_def)

lemma macro_processor_facts: "leaves_macros macro_processor" "keeps_bounds macro_processor"
proof -
  show leaves: "leaves_macros macro_processor"
    unfolding macro_processor_def by (rule process_record_leaves_macros [OF plain_hook_leaves]) simp
  show "keeps_bounds macro_processor"
    unfolding keeps_bounds_def
  proof (intro allI impI)
    fix r and s :: "8 word dms"
    assume "macros_ok (macros s)"
    moreover obtain r' s' where "macro_processor r s = Some (r', s')"
      unfolding macro_processor_def using process_record_total [OF plain_hook_keeps] by blast
    ultimately show "\<exists>r' s'. macro_processor r s = Some (r', s') \<and> macros_ok (macros s')"
      using leaves unfolding leaves_macros_def by metis
  qed
qed

lemma macro_example_macros: "macros macro_example = macros_start (key_record 0 False)"
  by (simp add: macro_example_def act.defs)

lemma slot_start: "slot i (macros_start zero) = []"
  by (simp add: slot_def macros_start_def dir_defs)

theorem macros_never_overlap_witness:
  "\<exists>s'. macro_run plain_env macro_processor (\<lambda>r s. s) [(0x7C53, key_record 1 False), (4, key_record 0 True)] macro_example =
      Some s' \<and> length (slot 1 (macros s')) + length (slot 2 (macros s')) \<le> 128"
proof -
  obtain s' where "macro_run plain_env macro_processor (\<lambda>r s. s) [(0x7C53, key_record 1 False), (4, key_record 0 True)]
      macro_example = Some s'" "length (slot 1 (macros s')) + length (slot 2 (macros s')) \<le> nat DYNAMIC_MACRO_SIZE"
    using macros_never_overlap [OF macro_processor_facts(2) _ macro_example_macros, of "\<lambda>r s. s" plain_env
        "[(0x7C53, key_record 1 False), (4, key_record 0 True)]"]
    by (auto simp: Let_def)
  then show ?thesis by (simp add: DYNAMIC_MACRO_SIZE_def)
qed

theorem macro_session_is_played_back_witness:
  "\<exists>s'. macro_run plain_env macro_processor (\<lambda>r s. s)
      ((0x7C54, key_record 1 False) # [(9, key_record 3 False), (4, key_record 0 True), (4, key_record 0 False), (0x5220, key_record 2 True)]
        @ [(0x7C55, key_record 1 True)]) macro_example = Some s' \<and>
    slot 2 (macros s') = [key_record 0 True, key_record 0 False] \<and>
    process_dynamic_macro plain_env macro_processor 0x7C57 (key_record 1 False) s' =
      map_option (Pair False) (macro_played plain_env macro_processor 2 [key_record 0 True, key_record 0 False] s')"
proof -
  let ?es = "[(9, key_record 3 False), (4, key_record 0 True), (4, key_record 0 False), (0x5220, key_record 2 True)]
    :: (u16 \<times> keyrecord_t) list"
  have keys: "\<forall>(k, r) \<in> set ?es. \<not> macro_control k" by (simp add: macro_control_def macro_key_defs)
  have pressed: "\<not> ev_pressed (key_record 1 False)" "ev_pressed (key_record 1 True)" by (simp_all add: key_record_def)
  have ok: "macros_ok (macros macro_example)" "macro_id (macros macro_example) = 0"
    by (simp_all add: macro_example_macros start_ok) (simp add: macros_start_def)
  have rs: "[key_record 0 True, key_record 0 False] =
      trimmed (take (nat DYNAMIC_MACRO_SIZE - length (slot (other 2) (macros macro_example)))
        (dropWhile (\<lambda>r. \<not> ev_pressed r) (map snd ?es)))"
    by (simp add: macro_example_macros slot_start DYNAMIC_MACRO_SIZE_def trimmed_def) (simp add: key_record_def)
  show ?thesis
    using macro_session_is_played_back [OF _ ok _ keys pressed(1,2,1) macro_processor_facts(1) rs, of "\<lambda>r s. s" plain_env]
    by (auto simp: start_key_def play_key_def macro_key_defs)
qed

section \<open>Playing changes a macro with a one-shot layer\<close>

text \<open>Key 1 is OSL(1), key 0 is A on every layer; the macro is a tap of OSL(1) and a tap of A.\<close>

definition osl_env :: act_env where
  "osl_env = plain_env\<lparr>keycode_at := (\<lambda>layer key. if kcol key = 0 then 4 else 0x5281)\<rparr>"

definition osl_processor :: "(8, unit) dm_processor" where
  "osl_processor = process_record 2 osl_env plain_hook (\<lambda>r s. s)"

definition osl_recorded :: "8 word dms option" where
  "osl_recorded = macro_run osl_env osl_processor (\<lambda>r s. s)
    [(0x7C53, key_record 2 False), (0x5281, key_record 1 True), (0x5281, key_record 1 False),
     (4, key_record 0 True), (4, key_record 0 False), (0x7C55, key_record 2 True)] macro_example"

definition osl_played :: "8 word dms option \<Rightarrow> 8 word dms option" where
  "osl_played s = Option.bind s (macro_run osl_env osl_processor (\<lambda>r s. s) [(0x7C56, key_record 2 False)])"


end
