(* ===== verification/Key_Lock.thy ===== *)
theory Key_Lock
  imports Action
begin

unbundle bit_operations_syntax

text \<open>
  Key lock (\<open>quantum/process_keycode/process_key_lock.c\<close>): the key after \<open>QK_LOCK\<close> stays down until it is pressed
  again. The 256 bits of \<open>key_state\<close> are shown to refine a set of locked keycodes.
\<close>

section \<open>State and operations\<close>

record key_locks =
  key_state :: "u64 list"
  watching :: bool

definition key_locks_start :: key_locks where
  "key_locks_start = \<lparr>key_state = [0, 0, 0, 0], watching = False\<rparr>"

definition QK_LOCK :: u16 where "QK_LOCK = 0x7C59"
definition QK_ONE_SHOT_MOD :: u16 where "QK_ONE_SHOT_MOD = 0x52A0"
definition QK_ONE_SHOT_MOD_MAX :: u16 where "QK_ONE_SHOT_MOD_MAX = 0x52BF"

definition BV_64 :: "nat \<Rightarrow> u64" where
  "BV_64 shift = push_bit shift 1"

definition key_array :: "u16 \<Rightarrow> nat" where
  "key_array code = (if code < 0x40 then 0 else if code < 0x80 then 1 else if code < 0xC0 then 2 else 3)"

definition GET_KEY_ARRAY :: "u16 \<Rightarrow> key_locks \<Rightarrow> u64" where
  "GET_KEY_ARRAY code s = key_state s ! key_array code"

definition GET_CODE_INDEX :: "u16 \<Rightarrow> nat" where
  "GET_CODE_INDEX code = unat (if code < 0x40 then code else if code < 0x80 then code - 0x40
     else if code < 0xC0 then code - 0x80 else code - 0xC0)"

definition KEY_STATE :: "u16 \<Rightarrow> key_locks \<Rightarrow> bool" where
  "KEY_STATE code s \<longleftrightarrow> GET_KEY_ARRAY code s AND BV_64 (GET_CODE_INDEX code) = BV_64 (GET_CODE_INDEX code)"

definition SET_KEY_ARRAY_STATE :: "u16 \<Rightarrow> u64 \<Rightarrow> key_locks \<Rightarrow> key_locks" where
  "SET_KEY_ARRAY_STATE code v s = (if code \<le> 0xFF then s\<lparr>key_state := (key_state s)[key_array code := v]\<rparr> else s)"

definition SET_KEY_STATE :: "u16 \<Rightarrow> key_locks \<Rightarrow> key_locks" where
  "SET_KEY_STATE code s = SET_KEY_ARRAY_STATE code (GET_KEY_ARRAY code s OR BV_64 (GET_CODE_INDEX code)) s"
definition UNSET_KEY_STATE :: "u16 \<Rightarrow> key_locks \<Rightarrow> key_locks" where
  "UNSET_KEY_STATE code s = SET_KEY_ARRAY_STATE code (GET_KEY_ARRAY code s AND NOT (BV_64 (GET_CODE_INDEX code))) s"

definition IS_STANDARD_KEYCODE :: "u16 \<Rightarrow> bool" where
  "IS_STANDARD_KEYCODE code \<longleftrightarrow> code \<le> 0xFF"

definition translate_keycode :: "u16 \<Rightarrow> u16" where
  "translate_keycode keycode =
    (if keycode > QK_ONE_SHOT_MOD \<and> keycode \<le> QK_ONE_SHOT_MOD_MAX then keycode XOR QK_ONE_SHOT_MOD else keycode)"

definition cancel_key_lock :: "key_locks \<Rightarrow> key_locks" where
  "cancel_key_lock s = UNSET_KEY_STATE 0 (s\<lparr>watching := False\<rparr>)"

text \<open>The result: whether the event is passed on, and the keycode it is passed on with.\<close>

definition process_key_lock :: "u16 \<Rightarrow> bool \<Rightarrow> key_locks \<Rightarrow> bool \<times> u16 \<times> key_locks" where
  "process_key_lock keycode pressed s =
    (let translated = translate_keycode keycode
     in if pressed
        then if \<not> (IS_STANDARD_KEYCODE translated \<or> translated = QK_LOCK) then (True, keycode, s\<lparr>watching := False\<rparr>)
          else if translated = QK_LOCK then (False, keycode, s\<lparr>watching := \<not> watching s\<rparr>)
          else if IS_STANDARD_KEYCODE translated
          then if watching s then (True, translated, SET_KEY_STATE translated (s\<lparr>watching := False\<rparr>))
            else if KEY_STATE translated s then (False, keycode, UNSET_KEY_STATE translated s)
            else (True, keycode, s)
          else (True, keycode, s)
        else (\<not> (IS_STANDARD_KEYCODE translated \<and> KEY_STATE translated s), keycode, s))"

section \<open>The bits are a set\<close>

definition locked_codes :: "key_locks \<Rightarrow> u16 set" where
  "locked_codes s = {code. code \<le> 0xFF \<and> KEY_STATE code s}"

lemma key_position:
  assumes "code \<le> 0xFF"
  shows "unat code = 64 * key_array code + GET_CODE_INDEX code" "GET_CODE_INDEX code < 64" "key_array code < 4"
proof -
  have code: "unat code \<le> 255" using assms by (simp add: word_le_nat_alt)
  have less: "code < 0x40 \<longleftrightarrow> unat code < 64" "code < 0x80 \<longleftrightarrow> unat code < 128" "code < 0xC0 \<longleftrightarrow> unat code < 192"
    by (simp_all add: word_less_nat_alt)
  have minus: "unat (code - 0x40) = unat code - 64" if "\<not> unat code < 64"
    using that by (simp add: unat_sub_if')
  have minus2: "unat (code - 0x80) = unat code - 128" if "\<not> unat code < 128"
    using that by (simp add: unat_sub_if')
  have minus3: "unat (code - 0xC0) = unat code - 192" if "\<not> unat code < 192"
    using that by (simp add: unat_sub_if')
  show "unat code = 64 * key_array code + GET_CODE_INDEX code" "GET_CODE_INDEX code < 64" "key_array code < 4"
    using code by (auto simp: key_array_def GET_CODE_INDEX_def less minus minus2 minus3)
qed

lemma and_BV_64:
  assumes "i < 64"
  shows "w AND BV_64 i = BV_64 i \<longleftrightarrow> bit w i"
proof
  assume "w AND BV_64 i = BV_64 i"
  then have "bit (w AND BV_64 i) i \<longleftrightarrow> bit (BV_64 i) i" by simp
  then show "bit w i" using assms by (simp add: BV_64_def bit_simps)
next
  assume "bit w i"
  then show "w AND BV_64 i = BV_64 i" by (intro bit_word_eqI) (auto simp: BV_64_def bit_simps)
qed

lemma KEY_STATE_bit: "code \<le> 0xFF \<Longrightarrow> KEY_STATE code s \<longleftrightarrow> bit (key_state s ! key_array code) (GET_CODE_INDEX code)"
  using key_position(2) [of code] by (simp add: KEY_STATE_def GET_KEY_ARRAY_def and_BV_64)

lemma same_key:
  "code \<le> 0xFF \<Longrightarrow> c \<le> 0xFF \<Longrightarrow> key_array c = key_array code \<Longrightarrow> GET_CODE_INDEX c = GET_CODE_INDEX code \<Longrightarrow> c = code"
  using key_position(1) by (metis word_unat_eq_iff)

lemma KEY_STATE_set:
  "length (key_state s) = 4 \<Longrightarrow> code \<le> 0xFF \<Longrightarrow> c \<le> 0xFF \<Longrightarrow> KEY_STATE c (SET_KEY_STATE code s) \<longleftrightarrow> c = code \<or> KEY_STATE c s"
  using key_position(2,3) [of code] key_position(2,3) [of c] same_key [of code c]
  by (auto simp: KEY_STATE_bit SET_KEY_STATE_def SET_KEY_ARRAY_STATE_def GET_KEY_ARRAY_def BV_64_def nth_list_update bit_simps)

lemma KEY_STATE_unset:
  "length (key_state s) = 4 \<Longrightarrow> code \<le> 0xFF \<Longrightarrow> c \<le> 0xFF \<Longrightarrow> KEY_STATE c (UNSET_KEY_STATE code s) \<longleftrightarrow> c \<noteq> code \<and> KEY_STATE c s"
  using key_position(2,3) [of code] key_position(2,3) [of c] same_key [of code c]
  by (auto simp: KEY_STATE_bit UNSET_KEY_STATE_def SET_KEY_ARRAY_STATE_def GET_KEY_ARRAY_def BV_64_def nth_list_update bit_simps)

lemma locks_shape:
  "length (key_state (SET_KEY_STATE code s)) = length (key_state s)" "watching (SET_KEY_STATE code s) = watching s"
  "length (key_state (UNSET_KEY_STATE code s)) = length (key_state s)" "watching (UNSET_KEY_STATE code s) = watching s"
  by (simp_all add: SET_KEY_STATE_def UNSET_KEY_STATE_def SET_KEY_ARRAY_STATE_def)

lemma locked_watching [simp]: "locked_codes (s\<lparr>watching := w\<rparr>) = locked_codes s"
  by (simp add: locked_codes_def KEY_STATE_def GET_KEY_ARRAY_def)

lemma locked_set:
  "length (key_state s) = 4 \<Longrightarrow> code \<le> 0xFF \<Longrightarrow> locked_codes (SET_KEY_STATE code s) = insert code (locked_codes s)"
  "length (key_state s) = 4 \<Longrightarrow> code \<le> 0xFF \<Longrightarrow> locked_codes (UNSET_KEY_STATE code s) = locked_codes s - {code}"
  by (auto simp: locked_codes_def KEY_STATE_set KEY_STATE_unset)

section \<open>The set of locked keys\<close>

text \<open>What key lock promises: \<open>L\<close> is the set of locked keycodes, \<open>w\<close> says whether the next key is to be locked.\<close>

fun lock_spec :: "u16 \<Rightarrow> bool \<Rightarrow> u16 set \<times> bool \<Rightarrow> bool \<times> (u16 set \<times> bool)" where
  "lock_spec code True (L, w) =
    (if code = QK_LOCK then (False, (L, \<not> w))
     else if code > 0xFF then (True, (L, False))
     else if w then (True, (insert code L, False))
     else if code \<in> L then (False, (L - {code}, w))
     else (True, (L, w)))"
| "lock_spec code False (L, w) = (code \<notin> L, (L, w))"

definition lock_view :: "key_locks \<Rightarrow> u16 set \<times> bool" where
  "lock_view s = (locked_codes s, watching s)"

lemma process_key_lock_refines:
  assumes "length (key_state s) = 4" "process_key_lock keycode pressed s = (go, keycode', s')"
  shows "lock_spec (translate_keycode keycode) pressed (lock_view s) = (go, lock_view s')" "length (key_state s') = 4"
proof -
  let ?t = "translate_keycode keycode"
  have standard: "?t \<noteq> QK_LOCK \<and> \<not> ?t > 0xFF" if "?t \<le> 0xFF"
    using that by (auto simp: QK_LOCK_def)
  have locked: "?t \<in> locked_codes s \<longleftrightarrow> ?t \<le> 0xFF \<and> KEY_STATE ?t s" by (simp add: locked_codes_def)
  have "QK_LOCK > 0xFF" by (simp add: QK_LOCK_def)
  then have "lock_spec ?t pressed (lock_view s) =
      (let (go, _, s') = process_key_lock keycode pressed s in (go, lock_view s'))"
    using assms(1) standard locked
    by (cases pressed) (simp_all add: process_key_lock_def IS_STANDARD_KEYCODE_def lock_view_def locked_set locks_shape
        not_le Let_def)
  then show "lock_spec ?t pressed (lock_view s) = (go, lock_view s')" by (simp add: assms(2))
  show "length (key_state s') = 4"
    using assms by (auto simp: process_key_lock_def locks_shape Let_def split: if_splits)
qed

text \<open>A run of events: keycode and direction. The first list of the result tells which of them are passed on.\<close>

fun lock_run :: "(u16 \<times> bool) list \<Rightarrow> key_locks \<Rightarrow> bool list \<times> key_locks" where
  "lock_run [] s = ([], s)"
| "lock_run ((k, pressed) # es) s =
    (let (go, _, s1) = process_key_lock k pressed s; (gos, s2) = lock_run es s1 in (go # gos, s2))"

fun lock_spec_run :: "(u16 \<times> bool) list \<Rightarrow> u16 set \<times> bool \<Rightarrow> bool list \<times> (u16 set \<times> bool)" where
  "lock_spec_run [] v = ([], v)"
| "lock_spec_run ((k, pressed) # es) v =
    (let (go, v1) = lock_spec (translate_keycode k) pressed v; (gos, v2) = lock_spec_run es v1 in (go # gos, v2))"

lemma lock_run_refines:
  "length (key_state s) = 4 \<Longrightarrow> lock_run es s = (gos, s') \<Longrightarrow>
    lock_spec_run es (lock_view s) = (gos, lock_view s') \<and> length (key_state s') = 4"
proof (induction es arbitrary: s gos s')
  case (Cons e es)
  obtain k pressed where e: "e = (k, pressed)" by (cases e)
  obtain go k1 s1 where s1: "process_key_lock k pressed s = (go, k1, s1)" by (metis prod_cases3)
  obtain gos1 s2 where s2: "lock_run es s1 = (gos1, s2)" by fastforce
  note step = process_key_lock_refines [OF Cons.prems(1) s1]
  show ?case using Cons.IH [OF step(2) s2] Cons.prems(2) step(1) by (simp add: e s1 s2)
qed simp

text \<open>Events that are not a press of the key: they leave its lock alone while no key is about to be locked.\<close>

lemma spec_keeps_lock:
  assumes "c \<in> L" "\<not> w" "\<forall>(k, pressed) \<in> set es. \<not> (pressed \<and> (translate_keycode k = c \<or> translate_keycode k = QK_LOCK))"
  shows "\<exists>L'. snd (lock_spec_run es (L, w)) = (L', False) \<and> c \<in> L' \<and>
    list_all2 (\<lambda>(k, pressed) go. translate_keycode k = c \<longrightarrow> \<not> go) es (fst (lock_spec_run es (L, w)))"
  using assms
proof (induction es arbitrary: L w)
  case (Cons e es)
  obtain k pressed where e: "e = (k, pressed)" by (cases e)
  obtain go L1 where step: "lock_spec (translate_keycode k) pressed (L, w) = (go, (L1, False))" "c \<in> L1"
    "translate_keycode k = c \<longrightarrow> \<not> go"
    using Cons.prems that by (cases pressed; cases "translate_keycode k > 0xFF"; cases "translate_keycode k \<in> L") (auto simp: e)
  obtain L' where "snd (lock_spec_run es (L1, False)) = (L', False)" "c \<in> L'"
    "list_all2 (\<lambda>(k, pressed) go. translate_keycode k = c \<longrightarrow> \<not> go) es (fst (lock_spec_run es (L1, False)))"
    using Cons.IH [of L1 False] step(2) Cons.prems(3) by auto
  then show ?case using step by (simp add: e split: prod.splits) (metis fst_conv snd_conv)
qed simp

text \<open>C38: after QK_LOCK and the press of a key the key stays down: every later event of it is held back, as long as
  neither it nor QK_LOCK is pressed; its next press is held back too and ends the lock, and the release after
  that goes out. The lock bits of all other keys are unaffected by its own.\<close>

theorem locked_key_stays_down:
  assumes "length (key_state s) = 4" "\<not> watching s" "c = translate_keycode k" "c \<le> 0xFF"
    "\<forall>(k, pressed) \<in> set es. \<not> (pressed \<and> (translate_keycode k = c \<or> translate_keycode k = QK_LOCK))"
    "lock_run ([(QK_LOCK, True), (k, True)] @ es) s = (gos, s1)"
    "lock_run [(k, True), (k, False)] s1 = (gos', s2)"
  shows "take 2 gos = [False, True] \<and>
    list_all2 (\<lambda>(k', pressed) go. translate_keycode k' = c \<longrightarrow> \<not> go) es (drop 2 gos) \<and>
    c \<in> locked_codes s1 \<and> gos' = [False, True] \<and> c \<notin> locked_codes s2 \<and>
    locked_codes s2 = locked_codes s1 - {c}"
proof -
  have lock: "translate_keycode QK_LOCK = QK_LOCK" by (simp add: translate_keycode_def QK_LOCK_def QK_ONE_SHOT_MOD_MAX_def)
  have c: "c \<noteq> QK_LOCK" "\<not> c > 0xFF" using assms(4) by (auto simp: QK_LOCK_def)
  have shape: "length (key_state s1) = 4"
    and run: "lock_spec_run ([(QK_LOCK, True), (k, True)] @ es) (lock_view s) = (gos, lock_view s1)"
    using lock_run_refines [OF assms(1,6)] by simp_all
  have run2: "lock_spec_run [(k, True), (k, False)] (lock_view s1) = (gos', lock_view s2)"
    using lock_run_refines [OF shape assms(7)] by simp
  obtain gos1 v1 where es: "lock_spec_run es (insert c (locked_codes s), False) = (gos1, v1)"
    by (meson surj_pair)
  have gos: "gos = False # True # gos1" "lock_view s1 = v1"
    using run assms(2) c by (simp_all add: lock_view_def lock assms(3) [symmetric] es)
  obtain L' where L': "v1 = (L', False)" "c \<in> L'"
    "list_all2 (\<lambda>(k, pressed) go. translate_keycode k = c \<longrightarrow> \<not> go) es gos1"
    using spec_keeps_lock [of c "insert c (locked_codes s)" False es] assms(5) es by auto
  have "locked_codes s1 = L'" "\<not> watching s1" using gos(2) L'(1) by (simp_all add: lock_view_def)
  moreover from this have "gos' = [False, True] \<and> locked_codes s2 = L' - {c}"
    using run2 c L'(2) by (auto simp: lock_view_def assms(3) [symmetric])
  ultimately show ?thesis using gos(1) L'(2,3) by simp
qed

theorem locked_key_stays_down_witness:
  "lock_run [(QK_LOCK, True), (4, True), (4, False), (5, True)] key_locks_start = ([False, True, False, True], snd (lock_run [(QK_LOCK, True), (4, True), (4, False), (5, True)] key_locks_start)) \<and>
    4 \<in> locked_codes (snd (lock_run [(QK_LOCK, True), (4, True), (4, False), (5, True)] key_locks_start))"
proof -
  let ?es = "[(4, False), (5, True)] :: (u16 \<times> bool) list"
  obtain gos s1 where s1: "lock_run ([(QK_LOCK, True), (4, True)] @ ?es) key_locks_start = (gos, s1)" by fastforce
  obtain gos' s2 where s2: "lock_run [(4, True), (4, False)] s1 = (gos', s2)" by fastforce
  have four: "4 = translate_keycode 4" "translate_keycode 5 = 5"
    by (simp_all add: translate_keycode_def QK_ONE_SHOT_MOD_def)
  have "\<forall>(k, pressed) \<in> set ?es. \<not> (pressed \<and> (translate_keycode k = 4 \<or> translate_keycode k = QK_LOCK))"
    by (simp add: four(2) QK_LOCK_def)
  then have "4 \<in> locked_codes s1"
    using locked_key_stays_down [OF _ _ four(1) _ _ s1 s2] by (simp add: key_locks_start_def)
  moreover have "fst (lock_run ([(QK_LOCK, True), (4, True)] @ ?es) key_locks_start) = [False, True, False, True]"
    by code_simp
  ultimately show ?thesis using s1 by simp
qed

section \<open>Findings\<close>

text \<open>A one-shot modifier is translated to its five-bit mask, not to a keycode: OSM(MOD_LALT) is 0x04, the keycode
  of A. Once it is locked, the next press of A is held back, and A's release goes out.\<close>

lemma locked_oneshot_swallows_a_key:
  "fst (lock_run [(QK_LOCK, True), (0x52A4, True), (0x52A4, False), (4, True), (4, False)] key_locks_start) =
    [False, True, False, False, True]"
  by code_simp

text \<open>\<open>cancel_key_lock\<close> ends the waiting for a key but unlocks only the keycode 0.\<close>

lemma cancel_keeps_locks: "length (key_state s) = 4 \<Longrightarrow> locked_codes (cancel_key_lock s) = locked_codes s - {0}"
  by (simp add: cancel_key_lock_def locked_set)

end
