(* ===== verification/Auto_Shift.thy ===== *)
theory Auto_Shift
  imports Action_More Action_Props
begin

unbundle bit_operations_syntax

text \<open>
  Auto shift (\<open>quantum/process_keycode/process_auto_shift.c\<close>, with the per-key functions of \<open>quantum/qmk_settings.c\<close>):
  a key held longer than the time-out is sent with shift. The build is that of QMK settings in a Vial keyboard:
  \<open>AUTO_SHIFT_NO_SETUP\<close>, \<open>AUTO_SHIFT_REPEAT_PER_KEY\<close> and \<open>AUTO_SHIFT_NO_AUTO_REPEAT_PER_KEY\<close> are defined,
  \<open>RETRO_SHIFT\<close>, \<open>AUTO_SHIFT_TIMEOUT_PER_KEY\<close>, \<open>HOLD_ON_OTHER_KEY_PRESS\<close> and \<open>CAPS_WORD_ENABLE\<close> are not, and
  the settings are fields of the environment. \<open>autoshift_lastrecord\<close> is left out: it is only handed to functions that
  do not look at it.
\<close>

section \<open>State\<close>

record auto_shift_vars =
  autoshift_time :: u16
  autoshift_timeout :: u16
  autoshift_lastkey :: u16
  autoshift_shift_states :: "u16 list"
  as_enabled :: bool
  lastshifted :: bool
  in_progress :: bool
  holding_shift :: bool
  cancelling_lshift :: bool
  cancelling_rshift :: bool

record 'w ass = "'w act" +
  auto_shift :: auto_shift_vars

type_synonym ('l, 'z) as = "('l word, 'z) ass_scheme"

record as_env = act_env +
  QS_auto_shift :: u8
  QS_tapping_term :: u16

definition auto_shift_start :: auto_shift_vars where
  "auto_shift_start = \<lparr>autoshift_time = 0, autoshift_timeout = 175, autoshift_lastkey = 0,
     autoshift_shift_states = replicate 16 0, as_enabled = True, lastshifted = False, in_progress = False,
     holding_shift = False, cancelling_lshift = False, cancelling_rshift = False\<rparr>"

definition on_auto_shift :: "(auto_shift_vars \<Rightarrow> auto_shift_vars) \<Rightarrow> ('l::len, 'z) as \<Rightarrow> ('l, 'z) as" where
  "on_auto_shift f s = s\<lparr>auto_shift := f (auto_shift s)\<rparr>"

section \<open>Settings\<close>

definition QS_auto_shift_enable :: "'e as_env_scheme \<Rightarrow> bool" where
  "QS_auto_shift_enable env \<longleftrightarrow> QS_auto_shift env AND 1 \<noteq> 0"
definition QS_auto_shift_modifiers :: "'e as_env_scheme \<Rightarrow> bool" where
  "QS_auto_shift_modifiers env \<longleftrightarrow> QS_auto_shift env AND 2 \<noteq> 0"
definition QS_auto_shift_repeat :: "'e as_env_scheme \<Rightarrow> bool" where
  "QS_auto_shift_repeat env \<longleftrightarrow> QS_auto_shift env AND 32 \<noteq> 0"
definition QS_auto_shift_no_auto_repeat :: "'e as_env_scheme \<Rightarrow> bool" where
  "QS_auto_shift_no_auto_repeat env \<longleftrightarrow> QS_auto_shift env AND 64 \<noteq> 0"

definition get_auto_shifted_key :: "'e as_env_scheme \<Rightarrow> u16 \<Rightarrow> bool" where
  "get_auto_shifted_key env keycode =
    (if 0x04 \<le> keycode \<and> keycode \<le> 0x1D then QS_auto_shift env AND 16 = 0
     else if 0x1E \<le> keycode \<and> keycode \<le> 0x27 then QS_auto_shift env AND 8 = 0
     else if keycode = 0x2B \<or> 0x2D \<le> keycode \<and> keycode \<le> 0x38 \<or> keycode = 0x64 then QS_auto_shift env AND 4 = 0
     else False)"

definition IS_RETRO :: "u16 \<Rightarrow> bool" where
  "IS_RETRO kc \<longleftrightarrow> in_range kc 0x2000 0x3FFF \<or> in_range kc 0x4000 0x4FFF"

section \<open>Sending keys\<close>

definition KC_LSFT :: u8 where "KC_LSFT = 0xE1"
definition KC_RSFT :: u8 where "KC_RSFT = 0xE5"

definition autoshift_press_user :: "'e as_env_scheme \<Rightarrow> u16 \<Rightarrow> bool \<Rightarrow> ('l::len, 'z) as \<Rightarrow> ('l, 'z) as" where
  "autoshift_press_user env keycode shifted s =
    register_code16 env (if IS_RETRO keycode then keycode AND 0xFF else keycode)
      (if shifted then add_weak_mods (MOD_BIT KC_LSFT) s else s)"

definition autoshift_release_user :: "'e as_env_scheme \<Rightarrow> u16 \<Rightarrow> bool \<Rightarrow> ('l::len, 'z) as \<Rightarrow> ('l, 'z) as" where
  "autoshift_release_user env keycode shifted s =
    unregister_code16 env (if IS_RETRO keycode then keycode AND 0xFF else keycode) s"

definition set_autoshift_shift_state :: "u16 \<Rightarrow> bool \<Rightarrow> auto_shift_vars \<Rightarrow> auto_shift_vars" where
  "set_autoshift_shift_state keycode shifted v =
    (let k = unat (keycode AND 0xFF); states = autoshift_shift_states v; old = states ! (k div 16);
         mask = push_bit (k mod 16) 1
     in v\<lparr>autoshift_shift_states := states[k div 16 := (if shifted then old OR mask else old AND NOT mask)]\<rparr>)"

definition get_autoshift_shift_state :: "u16 \<Rightarrow> auto_shift_vars \<Rightarrow> bool" where
  "get_autoshift_shift_state keycode v =
    (let k = unat (keycode AND 0xFF) in autoshift_shift_states v ! (k div 16) AND push_bit (k mod 16) 1 \<noteq> 0)"

definition autoshift_flush_shift :: "'e as_env_scheme \<Rightarrow> ('l::len, 'z) as \<Rightarrow> ('l, 'z) as" where
  "autoshift_flush_shift env s =
    (let s1 = del_weak_mods (MOD_BIT KC_LSFT) (on_auto_shift (holding_shift_update (\<lambda>_. False)) s);
         s2 = (if cancelling_lshift (auto_shift s1)
               then add_mods (MOD_BIT KC_LSFT) (on_auto_shift (cancelling_lshift_update (\<lambda>_. False)) s1) else s1);
         s3 = (if cancelling_rshift (auto_shift s2)
               then add_mods (MOD_BIT KC_RSFT) (on_auto_shift (cancelling_rshift_update (\<lambda>_. False)) s2) else s2)
     in send_keyboard_report env s3)"

text \<open>Both shifts the user holds are taken out of the modifiers.\<close>

definition cancel_shifts :: "('l::len, 'z) as \<Rightarrow> ('l, 'z) as" where
  "cancel_shifts s =
    (let s1 = (if real_mods s AND MOD_BIT KC_LSFT \<noteq> 0
               then del_mods (MOD_BIT KC_LSFT) (on_auto_shift (cancelling_lshift_update (\<lambda>_. True)) s) else s)
     in if real_mods s1 AND MOD_BIT KC_RSFT \<noteq> 0
        then del_mods (MOD_BIT KC_RSFT) (on_auto_shift (cancelling_rshift_update (\<lambda>_. True)) s1) else s1)"

section \<open>Press, time-out and release\<close>

definition autoshift_press :: "'e as_env_scheme \<Rightarrow> u16 \<Rightarrow> u16 \<Rightarrow> ('l::len, 'z) as \<Rightarrow> ('l, 'z) as" where
  "autoshift_press env keycode now s =
    (let other_mods = (real_mods s OR oneshot_mods s) AND NOT (MOD_BIT KC_LSFT) \<noteq> 0;
         s1 = (if other_mods then on_auto_shift (autoshift_lastkey_update (\<lambda>_. 0)) s else s);
         v = auto_shift s1
     in if other_mods \<and> \<not> QS_auto_shift_modifiers env
        then let s2 = autoshift_press_user env keycode False (on_auto_shift (set_autoshift_shift_state keycode False) s1)
             in clear_oneshot_layer_state ONESHOT_OTHER_KEY_PRESSED
                  (set_oneshot_mods env (oneshot_mods s2 AND NOT (MOD_BIT KC_LSFT)) s2)
        else if keycode = autoshift_lastkey v \<and> QS_auto_shift_repeat env \<and>
            (\<not> lastshifted v \<or> QS_auto_shift_no_auto_repeat env) \<and>
            TIMER_DIFF_16 now (autoshift_time v) < QS_tapping_term env
        then autoshift_press_user env (autoshift_lastkey v) (lastshifted v) (cancel_shifts s1)
        else let s2 = on_auto_shift (lastshifted_update
                   (\<lambda>_. (real_mods s1 OR oneshot_mods s1) AND MOD_BIT KC_LSFT \<noteq> 0)) s1;
                 s3 = set_oneshot_mods env (oneshot_mods s2 AND NOT (MOD_BIT KC_LSFT)) s2
             in clear_oneshot_layer_state ONESHOT_OTHER_KEY_PRESSED
                  (on_auto_shift (\<lambda>v. v\<lparr>autoshift_lastkey := keycode, autoshift_time := now, in_progress := True\<rparr>) s3))"

definition autoshift_end :: "'e as_env_scheme \<Rightarrow> u16 \<Rightarrow> u16 \<Rightarrow> bool \<Rightarrow> ('l::len, 'z) as \<Rightarrow> ('l, 'z) as" where
  "autoshift_end env keycode now matrix_trigger s =
    (let v = auto_shift s
     in if in_progress v \<and> (keycode = autoshift_lastkey v \<or> keycode = 0)
        then let key = autoshift_lastkey v;
                 shifted = (lastshifted v \<or> TIMER_DIFF_16 now (autoshift_time v) \<ge> autoshift_timeout v);
                 s1 = on_auto_shift (\<lambda>v. set_autoshift_shift_state key shifted (v\<lparr>in_progress := False, lastshifted := shifted\<rparr>)) s;
                 s2 = autoshift_press_user env key shifted (cancel_shifts s1)
             in if matrix_trigger \<and> QS_auto_shift_repeat env \<and> \<not> QS_auto_shift_no_auto_repeat env then s2
                else on_auto_shift (autoshift_time_update (\<lambda>_. now))
                  (autoshift_flush_shift env (autoshift_release_user env key shifted (wait_ms (QS_tap_code_delay env) s2)))
        else let s1 = autoshift_release_user env keycode (get_autoshift_shift_state keycode v) s;
                 s2 = (if keycode = autoshift_lastkey v then autoshift_flush_shift env s1 else s1)
             in on_auto_shift (autoshift_time_update (\<lambda>_. now)) s2)"

definition autoshift_matrix_scan :: "'e as_env_scheme \<Rightarrow> ('l::len, 'z) as \<Rightarrow> ('l, 'z) as" where
  "autoshift_matrix_scan env s =
    (if QS_auto_shift_enable env \<and> in_progress (auto_shift s) \<and>
        TIMER_DIFF_16 (timer_read env) (autoshift_time (auto_shift s)) \<ge> autoshift_timeout (auto_shift s)
     then autoshift_end env (autoshift_lastkey (auto_shift s)) (timer_read env) True s else s)"

section \<open>Switches and key events\<close>

definition autoshift_toggle :: "'e as_env_scheme \<Rightarrow> ('l::len, 'z) as \<Rightarrow> ('l, 'z) as" where
  "autoshift_toggle env s = autoshift_flush_shift env (on_auto_shift (as_enabled_update Not) s)"
definition autoshift_enable :: "('l::len, 'z) as \<Rightarrow> ('l, 'z) as" where
  "autoshift_enable s = on_auto_shift (as_enabled_update (\<lambda>_. True)) s"
definition autoshift_disable :: "'e as_env_scheme \<Rightarrow> ('l::len, 'z) as \<Rightarrow> ('l, 'z) as" where
  "autoshift_disable env s = autoshift_flush_shift env (on_auto_shift (as_enabled_update (\<lambda>_. False)) s)"
definition set_autoshift_timeout :: "u16 \<Rightarrow> ('l::len, 'z) as \<Rightarrow> ('l, 'z) as" where
  "set_autoshift_timeout timeout s = on_auto_shift (autoshift_timeout_update (\<lambda>_. timeout)) s"
definition get_generic_autoshift_timeout :: "('l::len, 'z) as \<Rightarrow> u16" where
  "get_generic_autoshift_timeout s = autoshift_timeout (auto_shift s)"
definition get_autoshift_state :: "('l::len, 'z) as \<Rightarrow> bool" where
  "get_autoshift_state s = as_enabled (auto_shift s)"

text \<open>The keys AS_ON, AS_OFF and AS_TOGG.\<close>

definition autoshift_switch :: "'e as_env_scheme \<Rightarrow> u16 \<Rightarrow> ('l::len, 'z) as \<Rightarrow> ('l, 'z) as" where
  "autoshift_switch env keycode s =
    (if keycode = 0x7C15 then autoshift_toggle env s
     else if keycode = 0x7C13 then autoshift_enable s
     else if keycode = 0x7C14 then autoshift_disable env s
     else s)"

text \<open>The second half of \<open>process_auto_shift\<close>, reached by events of keys that are not tap-hold keys.\<close>

definition autoshift_key :: "'e as_env_scheme \<Rightarrow> u16 \<Rightarrow> keyrecord_t \<Rightarrow> ('l::len, 'z) as \<Rightarrow> bool \<times> ('l, 'z) as" where
  "autoshift_key env keycode r s =
    (if \<not> as_enabled (auto_shift s) then (True, s)
     else if get_auto_shifted_key env keycode
     then (False, if ev_pressed r then autoshift_press env keycode (timer_read env) s
                  else autoshift_end env keycode (timer_read env) False s)
     else (True, if ev_pressed r then on_auto_shift (autoshift_lastkey_update (\<lambda>_. 0)) s else s))"

definition process_auto_shift :: "'e as_env_scheme \<Rightarrow> u16 \<Rightarrow> keyrecord_t \<Rightarrow> ('l::len, 'z) as \<Rightarrow> bool \<times> ('l, 'z) as" where
  "process_auto_shift env keycode r s =
    (if \<not> QS_auto_shift_enable env then (True, s)
     else if ev_pressed r
     then let s1 = (if in_progress (auto_shift s) then autoshift_end env 0 (timer_read env) False s else s);
              s2 = autoshift_switch env keycode s1
          in if IS_RETRO keycode then (True, on_auto_shift (autoshift_lastkey_update (\<lambda>_. 0)) s2)
             else autoshift_key env keycode r s2
     else if keycode = ucast KC_LSFT
     then autoshift_key env keycode r (on_auto_shift (cancelling_lshift_update (\<lambda>_. False)) s)
     else if keycode = ucast KC_RSFT
     then autoshift_key env keycode r (on_auto_shift (cancelling_rshift_update (\<lambda>_. False)) s)
     else if IS_RETRO keycode then (True, s)
     else autoshift_key env keycode r s)"

end
