(* ===== verification/Auto_Shift_Run.thy ===== *)
theory Auto_Shift_Run
  imports Auto_Shift
begin

unbundle bit_operations_syntax

text \<open>
  Auto shift in use: what the host receives for a key that is pressed and released alone, and a held shift that
  is lost.
\<close>

section \<open>A keyboard on which nothing else is held\<close>

definition calm :: "'e kbd_env_scheme \<Rightarrow> ('l::len, 'z) kb \<Rightarrow> bool" where
  "calm env s \<longleftrightarrow> \<not> nkro_active env s \<and> real_mods s = 0 \<and> oneshot_mods s = 0 \<and> oneshot_layer_data s = 0 \<and>
    weak_override_mods s = 0 \<and> suppressed_mods s = 0"

text \<open>The weak modifiers are \<open>w\<close>, the last report was \<open>w\<close> and \<open>keys\<close>, and \<open>out\<close> is what the host received so far.\<close>

definition typing :: "'e kbd_env_scheme \<Rightarrow> u8 \<Rightarrow> u8 list \<Rightarrow> report_keyboard_t list \<Rightarrow> ('l::len, 'z) kb \<Rightarrow> bool" where
  "typing env w keys out s \<longleftrightarrow> calm env s \<and> weak_mods s = w \<and> keyboard_report (reports s) = \<lparr>kb_mods = w, kb_keys = keys\<rparr> \<and>
    last_six_keys s = \<lparr>kb_mods = w, kb_keys = keys\<rparr> \<and> six_reports (sent s) = out"

definition no_keys :: "u8 list" where "no_keys = replicate 6 0"
definition one_key :: "u16 \<Rightarrow> u8 list" where "one_key k = ucast k # replicate 5 0"

text \<open>A change of the weak modifiers and the keys, followed by a report.\<close>

definition retype :: "u8 \<Rightarrow> (report_keyboard_t \<Rightarrow> report_keyboard_t) \<Rightarrow> ('l::len, 'z) kb \<Rightarrow> ('l, 'z) kb" where
  "retype w f s = s\<lparr>weak_mods := w, reports := (reports s)\<lparr>keyboard_report := f (keyboard_report (reports s))\<rparr>\<rparr>"

lemma typing_send:
  assumes "typing env w keys out s" "f \<lparr>kb_mods = w, kb_keys = keys\<rparr> = \<lparr>kb_mods = w, kb_keys = keys'\<rparr>"
  shows "typing env w' keys' (if w' = w \<and> keys' = keys then out else out @ [\<lparr>kb_mods = w', kb_keys = keys'\<rparr>])
    (send_keyboard_report env (retype w' f s))"
  using assms
  by (simp add: typing_def calm_def retype_def send_keyboard_report_def send_6kro_report_def get_mods_for_report_def
      nkro_active_def Let_def)

lemma typing_clock [simp]: "typing (env\<lparr>timer_read := t\<rparr>) = typing env"
  by (simp add: fun_eq_iff typing_def calm_def nkro_active_def)

text \<open>The keys that can be auto-shifted.\<close>

lemma auto_shifted_key:
  assumes "get_auto_shifted_key env k"
  shows "4 \<le> unat k \<and> unat k \<le> 0x64" "plain_modifier k = False" "extract_mod_bits k = 0" "IS_RETRO k = False"
    "ucast k \<noteq> (0 :: u8)" "IS_BASIC_KEYCODE (ucast k)" "(ucast k :: u8) \<notin> {0x82, 0x83, 0x84}"
    "k \<noteq> 0" "k \<notin> {0x7C13, 0x7C14, 0x7C15}" "k \<noteq> ucast KC_LSFT" "k \<noteq> ucast KC_RSFT"
proof -
  show k: "4 \<le> unat k \<and> unat k \<le> 0x64"
    using assms by (auto simp: get_auto_shifted_key_def word_le_nat_alt split: if_splits)
  have u: "unat (ucast k :: u8) = unat k" using k by (simp add: unsigned_ucast_eq take_bit_nat_eq_self)
  show "plain_modifier k = False" "extract_mod_bits k = 0" "IS_RETRO k = False"
    using k by (auto simp: plain_modifier_def extract_mod_bits_def IS_RETRO_def in_range_def word_le_nat_alt KC_NO_def)
  show "ucast k \<noteq> (0 :: u8)" "(ucast k :: u8) \<notin> {0x82, 0x83, 0x84}" using u k by auto
  show "IS_BASIC_KEYCODE (ucast k)" using u k by (auto simp: IS_BASIC_KEYCODE_def word_le_nat_alt)
  show "k \<noteq> 0" "k \<notin> {0x7C13, 0x7C14, 0x7C15}" "k \<noteq> ucast KC_LSFT" "k \<noteq> ucast KC_RSFT"
    using k by (auto simp: KC_LSFT_def KC_RSFT_def)
qed

lemma retype_weak: "weak_mods s = w \<Longrightarrow> retype w f s = s\<lparr>reports := (reports s)\<lparr>keyboard_report := f (keyboard_report (reports s))\<rparr>\<rparr>"
  by (cases s) (simp add: retype_def)

lemma keys_as_retype:
  assumes "\<not> nkro_active env s"
  shows "add_key env k s = retype (weak_mods s) (add_key_byte k) s" "del_key env k s = retype (weak_mods s) (del_key_byte k) s"
  using assms by (simp_all add: retype_weak add_key_def del_key_def add_key_to_report_def del_key_from_report_def)

lemma press_as_retype:
  assumes "get_auto_shifted_key env k" "typing env 0 no_keys out s"
  shows "autoshift_press_user env k shifted s =
    send_keyboard_report env (retype (if shifted then 2 else 0) (add_key_byte (ucast k)) s)"
proof -
  note key = auto_shifted_key [OF assms(1)]
  have s: "\<not> nkro_active env s" "kb_keys (keyboard_report (reports s)) = no_keys" "weak_mods s = 0"
    using assms(2) by (simp_all add: typing_def calm_def)
  have "(ucast k :: u8) \<notin> set no_keys" using key(5) by (simp add: no_keys_def)
  then have up: "\<not> is_key_pressed (nkro_active env s) (ucast k) (reports s)"
    "nkro_active env (s\<lparr>weak_mods := v\<rparr>) = nkro_active env s" for v
    using s by (simp_all add: is_key_pressed_def) (simp add: nkro_active_def)
  then have plain: "autoshift_press_user env k False s = send_keyboard_report env (add_key env (ucast k) s)"
    "autoshift_press_user env k True s = send_keyboard_report env (add_key env (ucast k) (add_weak_mods 2 s))"
    using s(3) key
    by (simp_all add: autoshift_press_user_def register_code16_def register_weak_mods_def register_code_def add_weak_mods_def
        MOD_BIT_def KC_LSFT_def Let_def)
  have "add_key env (ucast k) (add_weak_mods 2 s) = retype 2 (add_key_byte (ucast k)) s"
    using s(1,3) up(2) [of 2] by (simp add: retype_def add_key_def add_weak_mods_def add_key_to_report_def)
  then show ?thesis using plain keys_as_retype(1) [OF s(1)] s(3) by (cases shifted) simp_all
qed

lemma release_as_retype:
  assumes "get_auto_shifted_key env k" "typing env w keys out s"
  shows "autoshift_release_user env k shifted s = send_keyboard_report env (retype w (del_key_byte (ucast k)) s)"
proof -
  have s: "\<not> nkro_active env s" "weak_mods s = w" using assms(2) by (simp_all add: typing_def calm_def)
  have "autoshift_release_user env k shifted s = send_keyboard_report env (del_key env (ucast k) s)"
    using auto_shifted_key [OF assms(1)]
    by (simp add: autoshift_release_user_def unregister_code16_def unregister_weak_mods_def unregister_code_def Let_def)
  then show ?thesis using keys_as_retype(2) [OF s(1)] s(2) by simp
qed

lemma typing_press:
  assumes "get_auto_shifted_key env k" "typing env 0 no_keys out s"
  shows "typing env (if shifted then 2 else 0) (one_key k) (out @ [\<lparr>kb_mods = (if shifted then 2 else 0), kb_keys = one_key k\<rparr>])
    (autoshift_press_user env k shifted s)"
proof -
  have k: "ucast k \<noteq> (0 :: u8)" by (rule auto_shifted_key(5) [OF assms(1)])
  have "add_key_byte (ucast k) \<lparr>kb_mods = 0, kb_keys = no_keys\<rparr> = \<lparr>kb_mods = 0, kb_keys = one_key k\<rparr>"
    using k by (simp add: add_key_byte_def no_keys_def one_key_def numeral_eq_Suc)
  moreover have "one_key k \<noteq> no_keys" using k by (simp add: one_key_def no_keys_def numeral_eq_Suc)
  ultimately show ?thesis
    using typing_send [OF assms(2), of "add_key_byte (ucast k)" "one_key k" "if shifted then 2 else 0"]
    by (simp add: press_as_retype [OF assms])
qed

lemma typing_release:
  assumes "get_auto_shifted_key env k"
  shows "typing env w (one_key k) out s \<Longrightarrow>
      typing env w no_keys (out @ [\<lparr>kb_mods = w, kb_keys = no_keys\<rparr>]) (autoshift_release_user env k shifted s)"
    and "typing env w no_keys out s \<Longrightarrow> typing env w no_keys out (autoshift_release_user env k shifted s)"
proof -
  have k: "ucast k \<noteq> (0 :: u8)" by (rule auto_shifted_key(5) [OF assms])
  have del: "del_key_byte (ucast k) \<lparr>kb_mods = w, kb_keys = one_key k\<rparr> = \<lparr>kb_mods = w, kb_keys = no_keys\<rparr>"
    "del_key_byte (ucast k) \<lparr>kb_mods = w, kb_keys = no_keys\<rparr> = \<lparr>kb_mods = w, kb_keys = no_keys\<rparr>"
    using k by (simp_all add: del_key_byte_def one_key_def no_keys_def numeral_eq_Suc)
  have "one_key k \<noteq> no_keys" using k by (simp add: one_key_def no_keys_def numeral_eq_Suc)
  then show "typing env w (one_key k) out s \<Longrightarrow>
      typing env w no_keys (out @ [\<lparr>kb_mods = w, kb_keys = no_keys\<rparr>]) (autoshift_release_user env k shifted s)"
    using typing_send [where f = "del_key_byte (ucast k)" and w = w and w' = w, OF _ del(1), of env out s] by (auto simp: release_as_retype [OF assms])
  show "typing env w no_keys out s \<Longrightarrow> typing env w no_keys out (autoshift_release_user env k shifted s)"
    using typing_send [where f = "del_key_byte (ucast k)" and w = w and w' = w, OF _ del(2), of env out s] by (auto simp: release_as_retype [OF assms])
qed

section \<open>The variables of auto shift\<close>

lemma auto_shift_of_more: "act.more s' = act.more s \<Longrightarrow> auto_shift s' = auto_shift (s :: ('l::len, 'z) as)"
  by (cases s; cases s') simp

lemma auto_shift_keeps [simp]:
  "auto_shift (autoshift_press_user env k shifted s) = auto_shift s"
  "auto_shift (autoshift_release_user env k shifted s) = auto_shift s"
  "auto_shift (wait_ms d s) = auto_shift (s :: ('l::len, 'z) as)"
  "auto_shift (send_keyboard_report env s) = auto_shift (s :: ('l, 'z) as)"
  "auto_shift (del_weak_mods m s) = auto_shift (s :: ('l, 'z) as)"
  "auto_shift (on_auto_shift f s) = f (auto_shift s)"
  by (rule auto_shift_of_more, simp add: autoshift_press_user_def act_more_simps,
      rule auto_shift_of_more, simp add: autoshift_release_user_def act_more_simps,
      rule auto_shift_of_more, simp add: act_more_simps, rule auto_shift_of_more, simp add: act_more_simps,
      rule auto_shift_of_more, simp add: act_more_simps, simp add: on_auto_shift_def)

lemma typing_others [simp]:
  "typing env w keys out (on_auto_shift f s) = typing env w keys out s"
  "typing env w keys out (wait_ms d s) = typing env w keys out s"
  by (simp_all add: typing_def calm_def nkro_active_def on_auto_shift_def wait_ms_def emit_def)

definition no_shift_cancelled :: "('l::len, 'z) as \<Rightarrow> bool" where
  "no_shift_cancelled s \<longleftrightarrow> \<not> cancelling_lshift (auto_shift s) \<and> \<not> cancelling_rshift (auto_shift s)"

lemma typing_flush:
  assumes "typing env w keys out s" "no_shift_cancelled s" "w = 0 \<or> w = 2"
  shows "typing env 0 keys (if w = 0 then out else out @ [\<lparr>kb_mods = 0, kb_keys = keys\<rparr>]) (autoshift_flush_shift env s)"
    and "auto_shift (autoshift_flush_shift env s) = (auto_shift s)\<lparr>holding_shift := False\<rparr>"
proof -
  let ?s = "on_auto_shift (holding_shift_update (\<lambda>_. False)) s"
  have s: "typing env w keys out ?s" using assms(1) by simp
  have flush: "autoshift_flush_shift env s = send_keyboard_report env (del_weak_mods 2 ?s)"
    using assms(2) by (simp add: autoshift_flush_shift_def no_shift_cancelled_def MOD_BIT_def KC_LSFT_def Let_def)
  moreover have "del_weak_mods 2 ?s = retype 0 (\<lambda>r. r) ?s"
    using s assms(3) by (auto simp: del_weak_mods_def retype_def typing_def)
  ultimately show "typing env 0 keys (if w = 0 then out else out @ [\<lparr>kb_mods = 0, kb_keys = keys\<rparr>]) (autoshift_flush_shift env s)"
    using typing_send [OF s, of "\<lambda>r. r" keys 0] by auto
  show "auto_shift (autoshift_flush_shift env s) = (auto_shift s)\<lparr>holding_shift := False\<rparr>"
    by (simp add: flush)
qed

lemma cancel_shifts_calm: "calm env s \<Longrightarrow> cancel_shifts s = s"
  by (simp add: cancel_shifts_def calm_def Let_def)

section \<open>A key alone\<close>

definition key_reports :: "u16 \<Rightarrow> bool \<Rightarrow> report_keyboard_t list" where
  "key_reports k shifted =
    (if shifted then [\<lparr>kb_mods = 2, kb_keys = one_key k\<rparr>, \<lparr>kb_mods = 2, kb_keys = no_keys\<rparr>, \<lparr>kb_mods = 0, kb_keys = no_keys\<rparr>]
     else [\<lparr>kb_mods = 0, kb_keys = one_key k\<rparr>, \<lparr>kb_mods = 0, kb_keys = no_keys\<rparr>])"

text \<open>Key \<open>k\<close> was pressed at \<open>t0\<close> and is not yet decided.\<close>

definition pending :: "'e as_env_scheme \<Rightarrow> u16 \<Rightarrow> u16 \<Rightarrow> u16 \<Rightarrow> report_keyboard_t list \<Rightarrow> ('l::len, 'z) as \<Rightarrow> bool" where
  "pending env k t0 T out s \<longleftrightarrow> typing env 0 no_keys out s \<and> no_shift_cancelled s \<and> in_progress (auto_shift s) \<and>
    autoshift_lastkey (auto_shift s) = k \<and> autoshift_time (auto_shift s) = t0 \<and> \<not> lastshifted (auto_shift s) \<and>
    autoshift_timeout (auto_shift s) = T \<and> as_enabled (auto_shift s)"

text \<open>It was sent with shift when the time-out was seen; it may still be down.\<close>

definition fired :: "'e as_env_scheme \<Rightarrow> u16 \<Rightarrow> report_keyboard_t list \<Rightarrow> ('l::len, 'z) as \<Rightarrow> bool" where
  "fired env k out s \<longleftrightarrow> no_shift_cancelled s \<and> \<not> in_progress (auto_shift s) \<and> autoshift_lastkey (auto_shift s) = k \<and>
    as_enabled (auto_shift s) \<and> (typing env 2 (one_key k) (out @ [\<lparr>kb_mods = 2, kb_keys = one_key k\<rparr>]) s \<or> typing env 0 no_keys (out @ key_reports k True) s)"

definition sent_alone :: "'e as_env_scheme \<Rightarrow> report_keyboard_t list \<Rightarrow> ('l::len, 'z) as \<Rightarrow> bool" where
  "sent_alone env out s \<longleftrightarrow> typing env 0 no_keys out s \<and> no_shift_cancelled s \<and> \<not> in_progress (auto_shift s) \<and>
    as_enabled (auto_shift s)"

lemma shift_state_fields [simp]:
  "in_progress (set_autoshift_shift_state k b v) = in_progress v" "autoshift_lastkey (set_autoshift_shift_state k b v) = autoshift_lastkey v"
  "as_enabled (set_autoshift_shift_state k b v) = as_enabled v"
  "cancelling_lshift (set_autoshift_shift_state k b v) = cancelling_lshift v"
  "cancelling_rshift (set_autoshift_shift_state k b v) = cancelling_rshift v"
  by (simp_all add: set_autoshift_shift_state_def Let_def)

lemma end_pending:
  assumes "pending env k t0 T out s" "get_auto_shifted_key env k"
  shows "(matrix_trigger \<and> now - t0 \<ge> T \<longrightarrow> fired env k out (autoshift_end env k now matrix_trigger s)) \<and>
    (\<not> matrix_trigger \<longrightarrow> sent_alone env (out @ key_reports k (now - t0 \<ge> T)) (autoshift_end env k now matrix_trigger s))"
proof -
  define shifted where "shifted = (now - t0 \<ge> T)"
  define w :: u8 where "w = (if shifted then 2 else 0)"
  define s1 where "s1 = on_auto_shift (\<lambda>v. set_autoshift_shift_state k shifted (v\<lparr>in_progress := False, lastshifted := shifted\<rparr>)) s"
  define s2 where "s2 = autoshift_press_user env k shifted s1"
  define s3 where "s3 = autoshift_release_user env k shifted (wait_ms (QS_tap_code_delay env) s2)"
  have s1: "typing env 0 no_keys out s1" using assms(1) by (simp add: s1_def pending_def)
  then have calm: "cancel_shifts s1 = s1" by (intro cancel_shifts_calm [of env]) (simp add: typing_def)
  have as: "auto_shift s3 = auto_shift s1" "auto_shift s2 = auto_shift s1" by (simp_all add: s3_def s2_def)
  have vars: "no_shift_cancelled s1" "\<not> in_progress (auto_shift s1)" "autoshift_lastkey (auto_shift s1) = k"
    "as_enabled (auto_shift s1)"
    using assms(1) by (simp_all add: s1_def pending_def no_shift_cancelled_def)
  have s2: "typing env w (one_key k) (out @ [\<lparr>kb_mods = w, kb_keys = one_key k\<rparr>]) s2"
    using typing_press [OF assms(2) s1] unfolding s2_def w_def by simp
  then have s3: "typing env w no_keys (out @ [\<lparr>kb_mods = w, kb_keys = one_key k\<rparr>, \<lparr>kb_mods = w, kb_keys = no_keys\<rparr>]) s3"
    using typing_release(1) [OF assms(2), of w "out @ [\<lparr>kb_mods = w, kb_keys = one_key k\<rparr>]" "wait_ms (QS_tap_code_delay env) s2"]
    unfolding s3_def by simp
  have no: "no_shift_cancelled s3" "w = 0 \<or> w = 2" using vars(1) as by (simp_all add: no_shift_cancelled_def w_def)
  have flush: "typing env 0 no_keys (out @ key_reports k shifted) (autoshift_flush_shift env s3)"
    using typing_flush(1) [OF s3 no] by (cases shifted) (simp_all add: w_def key_reports_def)
  define s4 where "s4 = on_auto_shift (autoshift_time_update (\<lambda>_. now)) (autoshift_flush_shift env s3)"
  have "autoshift_end env k now matrix_trigger s =
      (if matrix_trigger \<and> QS_auto_shift_repeat env \<and> \<not> QS_auto_shift_no_auto_repeat env then s2 else s4)"
    using assms(1) calm
    by (simp add: autoshift_end_def pending_def TIMER_DIFF_16_def s1_def s2_def s3_def s4_def shifted_def Let_def)
  moreover have "sent_alone env (out @ key_reports k shifted) s4" "autoshift_lastkey (auto_shift s4) = k"
    using flush vars typing_flush(2) [OF s3 no] as by (simp_all add: s4_def sent_alone_def no_shift_cancelled_def)
  moreover from this have "fired env k out s4" if shifted
    using that by (simp add: sent_alone_def fired_def)
  moreover have "fired env k out s2" if shifted
    using that s2 vars as(2) by (simp add: fired_def no_shift_cancelled_def w_def)
  ultimately show ?thesis by (cases matrix_trigger) (simp_all add: shifted_def)
qed

lemma end_fired:
  assumes "fired env k out s" "get_auto_shifted_key env k"
  shows "sent_alone env (out @ key_reports k True) (autoshift_end env k now False s)"
proof -
  define s1 where "s1 = autoshift_release_user env k (get_autoshift_shift_state k (auto_shift s)) s"
  have as: "auto_shift s1 = auto_shift s" by (simp add: s1_def)
  then have no: "no_shift_cancelled s1" using assms(1) by (simp add: fired_def no_shift_cancelled_def)
  have e: "autoshift_end env k now False s = on_auto_shift (autoshift_time_update (\<lambda>_. now)) (autoshift_flush_shift env s1)"
    using assms(1) by (simp add: autoshift_end_def fired_def s1_def Let_def)
  consider (up) "typing env 2 no_keys (out @ [\<lparr>kb_mods = 2, kb_keys = one_key k\<rparr>, \<lparr>kb_mods = 2, kb_keys = no_keys\<rparr>]) s1"
    | (tapped) "typing env 0 no_keys (out @ key_reports k True) s1"
    using assms(1) typing_release [OF assms(2)] unfolding fired_def s1_def by fastforce
  then show ?thesis
  proof cases
    case up
    then show ?thesis using typing_flush [OF up no] assms(1) as
      by (simp add: e sent_alone_def key_reports_def no_shift_cancelled_def fired_def)
  next
    case tapped
    then show ?thesis using typing_flush [OF tapped no] assms(1) as
      by (simp add: e sent_alone_def no_shift_cancelled_def fired_def)
  qed
qed

lemma clock_free [simp]:
  "pending (env\<lparr>timer_read := t\<rparr>) = pending env" "fired (env\<lparr>timer_read := t\<rparr>) = fired env"
  "sent_alone (env\<lparr>timer_read := t\<rparr>) = sent_alone env" "get_auto_shifted_key (env\<lparr>timer_read := t\<rparr>) = get_auto_shifted_key env"
  "QS_auto_shift_enable (env\<lparr>timer_read := t\<rparr>) = QS_auto_shift_enable env"
  by (simp_all add: fun_eq_iff pending_def fired_def sent_alone_def get_auto_shifted_key_def QS_auto_shift_enable_def)

lemma press_pends:
  assumes "sent_alone env out s" "autoshift_lastkey (auto_shift s) \<noteq> k" "QS_auto_shift_enable env" "get_auto_shifted_key env k"
    "ev_pressed r" "process_auto_shift (env\<lparr>timer_read := t0\<rparr>) k r s = (go, s1)"
  shows "\<not> go \<and> pending env k t0 (autoshift_timeout (auto_shift s)) out s1"
proof -
  note key = auto_shifted_key [OF assms(4)]
  have s: "oneshot_mods s = 0" "real_mods s = 0" "oneshot_layer_data s = 0"
    using assms(1) by (simp_all add: sent_alone_def typing_def calm_def)
  let ?s = "on_auto_shift (lastshifted_update (\<lambda>_. False)) s"
  have "get_oneshot_layer_state s' = 0" if "oneshot_layer_data s' = 0" for s' :: "('b word, 'c) ass_scheme"
    by (simp add: get_oneshot_layer_state_def that)
  have "autoshift_press (env\<lparr>timer_read := t0\<rparr>) k t0 s =
      on_auto_shift (\<lambda>v. v\<lparr>autoshift_lastkey := k, autoshift_time := t0, in_progress := True\<rparr>) ?s"
    using assms(2) s by (simp add: autoshift_press_def Let_def set_oneshot_mods_def on_auto_shift_def clear_oneshot_layer_state_def)
  moreover have "process_auto_shift (env\<lparr>timer_read := t0\<rparr>) k r s =
      (False, autoshift_press (env\<lparr>timer_read := t0\<rparr>) k t0 s)"
    using assms(1,3-5) key by (simp add: process_auto_shift_def sent_alone_def autoshift_switch_def autoshift_key_def)
  ultimately show ?thesis using assms(1,6) by (auto simp: pending_def sent_alone_def no_shift_cancelled_def)
qed

lemma scan_pends_or_fires:
  assumes "QS_auto_shift_enable env" "get_auto_shifted_key env k"
  shows "pending env k t0 T out s \<or> fired env k out s \<and> t1 - t0 \<ge> T \<Longrightarrow> \<forall>t \<in> set ts. t - t0 \<le> t1 - t0 \<Longrightarrow>
    pending env k t0 T out (fold (\<lambda>t. autoshift_matrix_scan (env\<lparr>timer_read := t\<rparr>)) ts s) \<or>
    fired env k out (fold (\<lambda>t. autoshift_matrix_scan (env\<lparr>timer_read := t\<rparr>)) ts s) \<and> t1 - t0 \<ge> T"
proof (induction ts arbitrary: s)
  case (Cons t ts)
  let ?s1 = "autoshift_matrix_scan (env\<lparr>timer_read := t\<rparr>) s"
  have "pending env k t0 T out ?s1 \<or> fired env k out ?s1 \<and> t1 - t0 \<ge> T"
  proof (cases "pending env k t0 T out s \<and> t - t0 \<ge> T")
    case True
    then have "?s1 = autoshift_end (env\<lparr>timer_read := t\<rparr>) k t True s"
      using assms(1) by (simp add: autoshift_matrix_scan_def pending_def TIMER_DIFF_16_def)
    then show ?thesis
      using end_pending [of "env\<lparr>timer_read := t\<rparr>" k t0 T out s True t] True assms(2) Cons.prems(2) by fastforce
  next
    case False
    then have "?s1 = s" using Cons.prems(1) by (auto simp: autoshift_matrix_scan_def pending_def fired_def TIMER_DIFF_16_def)
    then show ?thesis using Cons.prems(1) by simp
  qed
  then show ?case using Cons.IH [of ?s1] Cons.prems(2) by simp
qed simp

text \<open>C39: an auto-shifted key pressed and released alone is typed exactly once, unshifted when it was released
  before the time-out and with left shift otherwise, wherever the matrix scans fall in between and whether or not
  it repeats while it is held; nothing is sent at its press, and afterwards no key and no modifier is left.\<close>

theorem key_alone_is_shifted_by_its_time:
  assumes "typing env 0 no_keys out s" "no_shift_cancelled s" "\<not> in_progress (auto_shift s)" "as_enabled (auto_shift s)"
    "autoshift_lastkey (auto_shift s) \<noteq> k" "QS_auto_shift_enable env" "get_auto_shifted_key env k"
    "ev_pressed r0" "\<not> ev_pressed r1" "\<forall>t \<in> set ts. t - t0 \<le> t1 - t0"
    "process_auto_shift (env\<lparr>timer_read := t0\<rparr>) k r0 s = (go0, s1)"
    "fold (\<lambda>t. autoshift_matrix_scan (env\<lparr>timer_read := t\<rparr>)) ts s1 = s2"
    "process_auto_shift (env\<lparr>timer_read := t1\<rparr>) k r1 s2 = (go1, s3)"
  shows "\<not> go0 \<and> \<not> go1 \<and> six_reports (sent s1) = out \<and>
    six_reports (sent s3) = out @ key_reports k (t1 - t0 \<ge> autoshift_timeout (auto_shift s)) \<and>
    kb_keys (keyboard_report (reports s3)) = no_keys \<and> real_mods s3 = 0 \<and> weak_mods s3 = 0 \<and> \<not> in_progress (auto_shift s3)"
proof -
  define T where "T = autoshift_timeout (auto_shift s)"
  note key = auto_shifted_key [OF assms(7)]
  have "sent_alone env out s" using assms(1-4) by (simp add: sent_alone_def)
  then have s1: "\<not> go0" "pending env k t0 T out s1"
    using press_pends [OF _ assms(5-8,11)] by (simp_all add: T_def)
  then have s2: "pending env k t0 T out s2 \<or> fired env k out s2 \<and> t1 - t0 \<ge> T"
    using scan_pends_or_fires [OF assms(6,7), of t0 T out s1 t1 ts] assms(10,12) by simp
  then have "as_enabled (auto_shift s2)" by (auto simp: pending_def fired_def)
  then have s3: "\<not> go1" "s3 = autoshift_end (env\<lparr>timer_read := t1\<rparr>) k t1 False s2"
    using assms(6,7,9,13) key by (simp_all add: process_auto_shift_def autoshift_key_def)
  have "sent_alone env (out @ key_reports k (t1 - t0 \<ge> T)) s3"
    using s2 end_pending [of "env\<lparr>timer_read := t1\<rparr>" k t0 T out s2 False t1]
      end_fired [of "env\<lparr>timer_read := t1\<rparr>" k out s2 t1] assms(7) s3(2) by auto
  then show ?thesis using s1 s3(1) by (simp add: sent_alone_def pending_def typing_def calm_def T_def)
qed

section \<open>Four keys\<close>

text \<open>Keys 0 to 3 are A, left shift, space and B; auto shift is on and repeats held keys.\<close>

definition as_example_env :: "u16 \<Rightarrow> as_env" where
  "as_example_env t = act_env.extend (plain_env\<lparr>timer_read := t, keycode_at := (\<lambda>layer key.
     if kcol key = 0 then 4 else if kcol key = 1 then 0xE1 else if kcol key = 2 then 0x2C else 5)\<rparr>)
     \<lparr>QS_auto_shift = 33, QS_tapping_term = 200\<rparr>"

definition as_example :: "8 word ass" where
  "as_example = act.extend (kbd_start 0 fresh_layers) \<lparr>auto_shift = auto_shift_start\<rparr>"

lemma as_example_typing: "typing (as_example_env 0) 0 no_keys [] as_example"
  by (simp add: typing_def calm_def nkro_active_def as_example_def act.defs kbd_start_def empty_reports_def no_keys_def nkro_def
      KEYBOARD_REPORT_KEYS_def numeral_eq_Suc)

theorem key_alone_is_shifted_by_its_time_witness:
  "six_reports (sent (snd (process_auto_shift ((as_example_env 0)\<lparr>timer_read := 300\<rparr>) 4 (key_record 0 False)
      (autoshift_matrix_scan ((as_example_env 0)\<lparr>timer_read := 200\<rparr>)
        (autoshift_matrix_scan ((as_example_env 0)\<lparr>timer_read := 150\<rparr>)
          (snd (process_auto_shift ((as_example_env 0)\<lparr>timer_read := 10\<rparr>) 4 (key_record 0 True) as_example))))))) =
    key_reports 4 True"
proof -
  obtain go0 s1 where s1: "process_auto_shift ((as_example_env 0)\<lparr>timer_read := 10\<rparr>) 4 (key_record 0 True) as_example = (go0, s1)"
    by fastforce
  obtain s2 where s2: "fold (\<lambda>t. autoshift_matrix_scan ((as_example_env 0)\<lparr>timer_read := t\<rparr>)) [150, 200] s1 = s2" by simp
  obtain go1 s3 where s3: "process_auto_shift ((as_example_env 0)\<lparr>timer_read := 300\<rparr>) 4 (key_record 0 False) s2 = (go1, s3)"
    by fastforce
  have vars: "no_shift_cancelled as_example" "\<not> in_progress (auto_shift as_example)" "as_enabled (auto_shift as_example)"
    "autoshift_lastkey (auto_shift as_example) \<noteq> 4" "autoshift_timeout (auto_shift as_example) = 175"
    by (simp_all add: no_shift_cancelled_def as_example_def act.defs auto_shift_start_def)
  have env: "QS_auto_shift_enable (as_example_env 0)" "get_auto_shifted_key (as_example_env 0) 4"
    by (simp_all add: QS_auto_shift_enable_def get_auto_shifted_key_def as_example_env_def act_env.defs)
  have records: "ev_pressed (key_record 0 True)" "\<not> ev_pressed (key_record 0 False)" by (simp_all add: key_record_def)
  have times: "\<forall>t \<in> set [150, 200]. t - 10 \<le> (300 :: u16) - 10" by simp
  have "six_reports (sent s3) = [] @ key_reports 4 ((300 :: u16) - 10 \<ge> autoshift_timeout (auto_shift as_example))"
    using key_alone_is_shifted_by_its_time [OF as_example_typing vars(1-4) env records times s1 s2 s3] by blast
  then show ?thesis using s2 by (simp add: s1 s3 vars(5))
qed

section \<open>A held shift that is lost\<close>

text \<open>An event as \<open>action_exec\<close> passes it on: a press first clears the weak modifiers.\<close>

definition as_event :: "u16 \<times> u16 \<times> nat \<times> bool \<Rightarrow> 8 word ass \<Rightarrow> 8 word ass" where
  "as_event = (\<lambda>(t, k, col, pressed) s.
    let (go, s1) = process_auto_shift (as_example_env t) k (key_record col pressed) (if pressed then clear_weak_mods s else s)
    in if go then snd (the (process_record 2 (as_example_env t) plain_hook (\<lambda>r s. s) (key_record col pressed) s1)) else s1)"

text \<open>Left shift is held from 100 on; A is held past the time-out and repeats, space is tapped, A is released and B
  is tapped.\<close>

definition shift_held :: "8 word ass" where
  "shift_held = fold as_event [(800, 0x2C, 2, True), (850, 0x2C, 2, False), (910, 4, 0, False), (1000, 5, 3, True), (1020, 5, 3, False)]
    (autoshift_matrix_scan (as_example_env 600) (fold as_event [(100, 0xE1, 1, True), (300, 4, 0, True)] as_example))"


end
