(* ===== verification/Leader.thy ===== *)
theory Leader
  imports Action
begin

unbundle bit_operations_syntax

text \<open>
  Leader key (\<open>quantum/leader.c\<close>, \<open>process_leader.c\<close>): the keys after the leader key are collected until the
  time-out. \<open>LEADER_NO_TIMEOUT\<close>, \<open>LEADER_PER_KEY_TIMING\<close> and \<open>LEADER_KEY_STRICT_KEY_PROCESSING\<close> are not defined; the
  user hooks are the weak defaults. \<open>leader_ends\<close> holds the sequence at every call of \<open>leader_end_user\<close>, where
  keymaps look at it. The time is the 16-bit timer.
\<close>

section \<open>State and operations\<close>

definition LEADER_TIMEOUT :: u16 where "LEADER_TIMEOUT = 300"
definition QK_LEADER :: u16 where "QK_LEADER = 0x7C58"

record leader =
  leading :: bool
  leader_time :: u16
  leader_sequence :: "u16 list"
  leader_sequence_size :: nat
  leader_ends :: "u16 list list"

definition leader_initial :: leader where
  "leader_initial = \<lparr>leading = False, leader_time = 0, leader_sequence = replicate 5 0, leader_sequence_size = 0, leader_ends = []\<rparr>"

definition leader_start :: "u16 \<Rightarrow> leader \<Rightarrow> leader" where
  "leader_start now s =
    (if leading s then s
     else s\<lparr>leading := True, leader_time := now, leader_sequence_size := 0, leader_sequence := replicate 5 0\<rparr>)"

definition leader_end :: "leader \<Rightarrow> leader" where
  "leader_end s = s\<lparr>leading := False, leader_ends := leader_ends s @ [leader_sequence s]\<rparr>"

definition leader_sequence_active :: "leader \<Rightarrow> bool" where
  "leader_sequence_active s = leading s"

definition leader_sequence_timed_out :: "u16 \<Rightarrow> leader \<Rightarrow> bool" where
  "leader_sequence_timed_out now s \<longleftrightarrow> now - leader_time s > LEADER_TIMEOUT"

definition leader_task :: "u16 \<Rightarrow> leader \<Rightarrow> leader" where
  "leader_task now s = (if leader_sequence_active s \<and> leader_sequence_timed_out now s then leader_end s else s)"

definition leader_sequence_add :: "u16 \<Rightarrow> leader \<Rightarrow> bool \<times> leader" where
  "leader_sequence_add keycode s =
    (if leader_sequence_size s \<ge> length (leader_sequence s) then (False, s)
     else (True, s\<lparr>leader_sequence := (leader_sequence s)[leader_sequence_size s := keycode],
                   leader_sequence_size := leader_sequence_size s + 1\<rparr>))"

definition leader_reset_timer :: "u16 \<Rightarrow> leader \<Rightarrow> leader" where
  "leader_reset_timer now s = s\<lparr>leader_time := now\<rparr>"

definition leader_sequence_is :: "u16 \<Rightarrow> u16 \<Rightarrow> u16 \<Rightarrow> u16 \<Rightarrow> u16 \<Rightarrow> leader \<Rightarrow> bool" where
  "leader_sequence_is kc1 kc2 kc3 kc4 kc5 s \<longleftrightarrow> leader_sequence s = [kc1, kc2, kc3, kc4, kc5]"
definition leader_sequence_one_key :: "u16 \<Rightarrow> leader \<Rightarrow> bool" where
  "leader_sequence_one_key kc = leader_sequence_is kc 0 0 0 0"
definition leader_sequence_two_keys :: "u16 \<Rightarrow> u16 \<Rightarrow> leader \<Rightarrow> bool" where
  "leader_sequence_two_keys kc1 kc2 = leader_sequence_is kc1 kc2 0 0 0"
definition leader_sequence_three_keys :: "u16 \<Rightarrow> u16 \<Rightarrow> u16 \<Rightarrow> leader \<Rightarrow> bool" where
  "leader_sequence_three_keys kc1 kc2 kc3 = leader_sequence_is kc1 kc2 kc3 0 0"
definition leader_sequence_four_keys :: "u16 \<Rightarrow> u16 \<Rightarrow> u16 \<Rightarrow> u16 \<Rightarrow> leader \<Rightarrow> bool" where
  "leader_sequence_four_keys kc1 kc2 kc3 kc4 = leader_sequence_is kc1 kc2 kc3 kc4 0"
definition leader_sequence_five_keys :: "u16 \<Rightarrow> u16 \<Rightarrow> u16 \<Rightarrow> u16 \<Rightarrow> u16 \<Rightarrow> leader \<Rightarrow> bool" where
  "leader_sequence_five_keys kc1 kc2 kc3 kc4 kc5 = leader_sequence_is kc1 kc2 kc3 kc4 kc5"

text \<open>A tap-hold key counts as the key it taps.\<close>

definition leader_keycode :: "u16 \<Rightarrow> u16" where
  "leader_keycode keycode =
    (if in_range keycode 0x2000 0x3FFF \<or> in_range keycode 0x4000 0x4FFF then keycode AND 0xFF else keycode)"

definition process_leader :: "u16 \<Rightarrow> u16 \<Rightarrow> bool \<Rightarrow> leader \<Rightarrow> bool \<times> leader" where
  "process_leader now keycode pressed s =
    (if pressed
     then if leader_sequence_active s \<and> \<not> leader_sequence_timed_out now s
       then let (added, s1) = leader_sequence_add (leader_keycode keycode) s
            in if \<not> added then (True, leader_end s1) else (False, s1)
       else (True, if keycode = QK_LEADER then leader_start now s else s)
     else (True, s))"

section \<open>A whole sequence\<close>

text \<open>Events with the time, the keycode and whether it is a press; the result tells which are passed on.\<close>

fun leader_run :: "(u16 \<times> u16 \<times> bool) list \<Rightarrow> leader \<Rightarrow> bool list \<times> leader" where
  "leader_run [] s = ([], s)"
| "leader_run ((now, k, pressed) # es) s =
    (let (go, s1) = process_leader now k pressed s; (gos, s2) = leader_run es s1 in (go # gos, s2))"

definition pressed_keys_of :: "(u16 \<times> u16 \<times> bool) list \<Rightarrow> u16 list" where
  "pressed_keys_of es = map (\<lambda>(_, k, _). leader_keycode k) (filter (\<lambda>(_, _, pressed). pressed) es)"

lemma pressed_keys_of_simps [simp]:
  "pressed_keys_of [] = []" "pressed_keys_of ((t, k, True) # es) = leader_keycode k # pressed_keys_of es"
  "pressed_keys_of ((t, k, False) # es) = pressed_keys_of es"
  by (simp_all add: pressed_keys_of_def)

text \<open>The sequence holds \<open>ks\<close> so far.\<close>

definition collected :: "u16 \<Rightarrow> u16 list \<Rightarrow> u16 list list \<Rightarrow> leader \<Rightarrow> bool" where
  "collected t0 ks out s \<longleftrightarrow> leading s \<and> leader_time s = t0 \<and> leader_sequence_size s = length ks \<and> length ks \<le> 5 \<and>
    leader_sequence s = ks @ replicate (5 - length ks) 0 \<and> leader_ends s = out"

lemma collected_add:
  assumes "collected t0 ks out s" "length ks < 5" "now - t0 \<le> LEADER_TIMEOUT"
  shows "\<exists>s1. process_leader now k True s = (False, s1) \<and> collected t0 (ks @ [leader_keycode k]) out s1"
proof -
  have "5 - length ks = Suc (5 - length (ks @ [leader_keycode k]))" using assms(2) by simp
  then have "(ks @ replicate (5 - length ks) 0)[length ks := leader_keycode k] =
      (ks @ [leader_keycode k]) @ replicate (5 - length (ks @ [leader_keycode k])) 0"
    by (simp add: list_update_append)
  then show ?thesis using assms
    by (auto simp: process_leader_def collected_def leader_sequence_active_def leader_sequence_timed_out_def
        leader_sequence_add_def not_less)
qed

lemma collected_run:
  "collected t0 ks out s \<Longrightarrow> length ks + length (pressed_keys_of es) \<le> 5 \<Longrightarrow> \<forall>(t, _) \<in> set es. t - t0 \<le> LEADER_TIMEOUT \<Longrightarrow>
    leader_run es s = (gos, s') \<Longrightarrow> gos = map (\<lambda>(_, _, pressed). \<not> pressed) es \<and> collected t0 (ks @ pressed_keys_of es) out s'"
proof (induction es arbitrary: ks s gos s')
  case (Cons e es)
  obtain t k pressed where e: "e = (t, k, pressed)" by (metis prod_cases3)
  have in_time: "t - t0 \<le> LEADER_TIMEOUT" using Cons.prems(3) by (simp add: e)
  show ?case
  proof (cases pressed)
    case True
    obtain s1 where s1: "process_leader t k True s = (False, s1)" "collected t0 (ks @ [leader_keycode k]) out s1"
      using collected_add [OF Cons.prems(1) _ in_time, of k] Cons.prems(2) by (auto simp: e True)
    obtain gos1 s2 where r: "leader_run es s1 = (gos1, s2)" by fastforce
    then show ?thesis using Cons.IH [OF s1(2) _ _ r] Cons.prems(2-4) s1(1) by (simp add: e True)
  next
    case False
    obtain gos1 s2 where r: "leader_run es s = (gos1, s2)" by fastforce
    then show ?thesis using Cons.IH [OF Cons.prems(1) _ _ r] Cons.prems(2-4)
      by (simp add: e False process_leader_def)
  qed
qed auto

text \<open>After the press of the leader key the presses of at most five keys within the time-out are held back and
  their releases passed on; when the time-out is seen, the sequence ends exactly once, holding the keys pressed, each
  tap-hold key as the key it taps, padded with zeros.\<close>

lemma leader_collects_the_sequence:
  assumes "\<not> leading s" "length (pressed_keys_of es) \<le> 5" "\<forall>(t, _) \<in> set es. t - t0 \<le> LEADER_TIMEOUT"
    "t1 - t0 > LEADER_TIMEOUT" "leader_run ((t0, QK_LEADER, True) # es) s = (gos, s')"
  shows "gos = True # map (\<lambda>(_, _, pressed). \<not> pressed) es \<and> leader_ends s' = leader_ends s \<and>
    leader_ends (leader_task t1 s') = leader_ends s @ [pressed_keys_of es @ replicate (5 - length (pressed_keys_of es)) 0] \<and>
    \<not> leading (leader_task t1 s')"
proof -
  obtain gos1 s1 where r: "leader_run es (leader_start t0 s) = (gos1, s1)" by fastforce
  have "process_leader t0 QK_LEADER True s = (True, leader_start t0 s)"
    using assms(1) by (simp add: process_leader_def leader_sequence_active_def)
  then have s': "gos = True # gos1" "s' = s1" using assms(5) r by simp_all
  have "collected t0 [] (leader_ends s) (leader_start t0 s)"
    using assms(1) by (simp add: collected_def leader_start_def)
  then have c: "gos1 = map (\<lambda>(_, _, pressed). \<not> pressed) es" "collected t0 (pressed_keys_of es) (leader_ends s) s1"
    using collected_run [OF _ _ assms(3) r, of "[]"] assms(2) by simp_all
  have "leader_task t1 s1 = leader_end s1"
    using c(2) assms(4) by (simp add: leader_task_def leader_sequence_active_def leader_sequence_timed_out_def collected_def)
  then show ?thesis using c by (simp add: s' leader_end_def collected_def)
qed

lemma leader_collects_the_sequence_witness:
  "leader_ends (leader_task 401 (snd (leader_run [(100, QK_LEADER, True), (110, QK_LEADER, False), (150, 0x2104, True),
      (300, 5, True)] leader_initial))) = [[4, 5, 0, 0, 0]]"
proof -
  let ?es = "[(110, QK_LEADER, False), (150, 0x2104, True), (300, 5, True)] :: (u16 \<times> u16 \<times> bool) list"
  obtain gos s' where r: "leader_run ((100, QK_LEADER, True) # ?es) leader_initial = (gos, s')" by fastforce
  have keys: "pressed_keys_of ?es = [4, 5]" by (simp add: leader_keycode_def in_range_def)
  have times: "\<forall>(t, _) \<in> set ?es. t - 100 \<le> LEADER_TIMEOUT" "401 - 100 > LEADER_TIMEOUT"
    by (simp_all add: LEADER_TIMEOUT_def)
  have start: "\<not> leading leader_initial" "leader_ends leader_initial = []" by (simp_all add: leader_initial_def)
  have five: "length (pressed_keys_of ?es) \<le> 5" by (simp add: keys)
  have pad: "[4, 5] @ replicate (5 - length [4 :: u16, 5]) 0 = [4, 5, 0, 0, 0]" by (simp add: numeral_eq_Suc)
  have "leader_ends (leader_task 401 s') = [[4, 5] @ replicate (5 - length [4 :: u16, 5]) 0]"
    using leader_collects_the_sequence [OF start(1) five times r] unfolding keys start(2) by simp
  then show ?thesis unfolding pad r snd_conv .
qed

end
