(* ===== verification/Caps_Word.thy ===== *)
theory Caps_Word
  imports Action_More Action_Props
begin

unbundle bit_operations_syntax

text \<open>
  Caps word (\<open>quantum/caps_word.c\<close>, \<open>process_caps_word.c\<close>): letters are sent with shift until the word ends. The
  default time-out is 5000 ms; \<open>BOTH_SHIFTS_TURNS_ON_CAPS_WORD\<close>, \<open>DOUBLE_TAP_SHIFT_TURNS_ON_CAPS_WORD\<close>,
  \<open>CAPS_WORD_INVERT_ON_SHIFT\<close> and \<open>SWAP_HANDS_ENABLE\<close> are not defined. \<open>AUTO_SHIFT_ENABLE\<close> is, as in every Vial build with
  settings: \<open>autoshift_state\<close> says whether auto shift is on. The user hooks are the weak defaults.
\<close>

section \<open>State and switches\<close>

definition CAPS_WORD_IDLE_TIMEOUT :: u16 where "CAPS_WORD_IDLE_TIMEOUT = 5000"
definition MOD_MASK_SHIFT :: u8 where "MOD_MASK_SHIFT = 0x22"
definition QK_CAPS_WORD_TOGGLE :: u16 where "QK_CAPS_WORD_TOGGLE = 0x7C73"

record 'w cws = "'w act" +
  caps_word_active :: bool
  caps_idle_timer :: u16

type_synonym ('l, 'z) cw = "('l word, 'z) cws_scheme"

record cw_env = act_env +
  autoshift_state :: bool

definition timer_expired :: "u16 \<Rightarrow> u16 \<Rightarrow> bool" where
  "timer_expired current future \<longleftrightarrow> current - future < 0x7FFF"

definition caps_word_reset_idle_timer :: "'e cw_env_scheme \<Rightarrow> ('l::len, 'z) cw \<Rightarrow> ('l, 'z) cw" where
  "caps_word_reset_idle_timer env s = s\<lparr>caps_idle_timer := timer_read env + CAPS_WORD_IDLE_TIMEOUT\<rparr>"

definition caps_word_on :: "'e cw_env_scheme \<Rightarrow> ('l::len, 'z) cw \<Rightarrow> ('l, 'z) cw" where
  "caps_word_on env s =
    (if caps_word_active s then s
     else (caps_word_reset_idle_timer env (clear_oneshot_mods (clear_mods s)))\<lparr>caps_word_active := True\<rparr>)"

definition caps_word_off :: "'e cw_env_scheme \<Rightarrow> ('l::len, 'z) cw \<Rightarrow> ('l, 'z) cw" where
  "caps_word_off env s =
    (if \<not> caps_word_active s then s else (unregister_weak_mods env MOD_MASK_SHIFT s)\<lparr>caps_word_active := False\<rparr>)"

definition caps_word_toggle :: "'e cw_env_scheme \<Rightarrow> ('l::len, 'z) cw \<Rightarrow> ('l, 'z) cw" where
  "caps_word_toggle env s = (if caps_word_active s then caps_word_off env s else caps_word_on env s)"

definition caps_word_task :: "'e cw_env_scheme \<Rightarrow> ('l::len, 'z) cw \<Rightarrow> ('l, 'z) cw" where
  "caps_word_task env s =
    (if caps_word_active s \<and> timer_expired (timer_read env) (caps_idle_timer s) then caps_word_off env s else s)"

section \<open>Key events\<close>

text \<open>The keycodes that go on with the word, and the answer of \<open>caps_word_press_user\<close>.\<close>

definition shifted_key :: "u16 \<Rightarrow> bool" where
  "shifted_key k \<longleftrightarrow> 0x04 \<le> k \<and> k \<le> 0x1D \<or> k = 0x2D"

definition unshifted_key :: "u16 \<Rightarrow> bool" where
  "unshifted_key k \<longleftrightarrow> 0x1E \<le> k \<and> k \<le> 0x27 \<or> k = 0x2A \<or> k = 0x4C \<or> k = 0x022D"

definition caps_word_press_user :: "u16 \<Rightarrow> ('l::len, 'z) cw \<Rightarrow> bool \<times> ('l, 'z) cw" where
  "caps_word_press_user keycode s =
    (if shifted_key keycode then (True, add_weak_mods (MOD_BIT 0xE1) s)
     else (unshifted_key keycode, s))"

text \<open>What the handler makes of the keycode of a press: the key is passed on without a change of the state, the word
  ends, or the word goes on with the keycode.\<close>

datatype caps_key = Ignored | Ends | Key u16

definition caps_keycode :: "u16 \<Rightarrow> u8 \<Rightarrow> caps_key" where
  "caps_keycode keycode tap =
    (if in_range keycode 0x5220 0x523F \<or> in_range keycode 0x5200 0x521F \<or> in_range keycode 0x5260 0x527F \<or>
        in_range keycode 0x52C0 0x52DF \<or> in_range keycode 0x5280 0x529F \<or> in_range keycode 0x7C77 0x7C78 \<or>
        keycode = 0xE6 \<or> keycode = 0x52B4
     then Ignored
     else if in_range keycode 0x2000 0x3FFF
     then if tap = 0
       then let mods = drop_bit 8 keycode AND 0x1F
            in if mods = 0x02 then Key 0xE1 else if mods = 0x12 then Key 0xE5 else if mods = 0x16 then Key 0x12E6
               else if mods = 0x14 then Ignored else Ends
       else Key (keycode AND 0xFF)
     else if in_range keycode 0x4000 0x4FFF then (if tap = 0 then Ignored else Key (keycode AND 0xFF))
     else Key keycode)"

definition process_caps_word :: "'e cw_env_scheme \<Rightarrow> u16 \<Rightarrow> keyrecord_t \<Rightarrow> ('l::len, 'z) cw \<Rightarrow> bool \<times> ('l, 'z) cw" where
  "process_caps_word env keycode r s =
    (if keycode = QK_CAPS_WORD_TOGGLE then (False, if ev_pressed r then caps_word_toggle env s else s)
     else let mods = real_mods s OR oneshot_mods s
       in if \<not> caps_word_active s then (True, s)
          else let s1 = caps_word_reset_idle_timer env s
            in if \<not> ev_pressed r then (True, s1)
               else if mods AND NOT (MOD_MASK_SHIFT OR MOD_BIT 0xE6) \<noteq> 0 then (True, caps_word_off env s1)
               else case caps_keycode keycode (tap_count r) of
                 Ignored \<Rightarrow> (True, s1)
               | Ends \<Rightarrow> (True, caps_word_off env s1)
               | Key k \<Rightarrow>
                   let s2 = del_weak_mods (if autoshift_state env then NOT (MOD_BIT 0xE1) else 0xFF) s1;
                       (goes_on, s3) = caps_word_press_user k s2
                   in (True, if goes_on then send_keyboard_report env s3 else caps_word_off env s3))"

section \<open>A word\<close>

lemma caps_of_more:
  "act.more s' = act.more s \<Longrightarrow> caps_word_active s' = caps_word_active (s :: ('l::len, 'z) cw)"
  by (cases s; cases s') simp

lemma caps_active_keeps [simp]:
  "caps_word_active (send_keyboard_report env s) = caps_word_active (s :: ('l::len, 'z) cw)"
  "caps_word_active (add_weak_mods m s) = caps_word_active (s :: ('l, 'z) cw)"
  "caps_word_active (del_weak_mods m s) = caps_word_active (s :: ('l, 'z) cw)"
  by (rule caps_of_more, simp add: act_more_simps)+

lemma caps_off_view:
  "caps_word_active s \<Longrightarrow> \<not> caps_word_active (caps_word_off env s) \<and>
    weak_mods (caps_word_off env s) = weak_mods s AND NOT MOD_MASK_SHIFT"
proof -
  have "MOD_MASK_SHIFT \<noteq> 0" by (simp add: MOD_MASK_SHIFT_def)
  moreover assume "caps_word_active s"
  ultimately show ?thesis
    by (simp add: caps_word_off_def unregister_weak_mods_def send_simps) (simp add: del_weak_mods_def)
qed

text \<open>The keycode of a plain key: neither a layer key nor a tap-hold key, nor AltGr.\<close>

definition plain_word_key :: "u16 \<Rightarrow> bool" where
  "plain_word_key k \<longleftrightarrow> k \<le> 0x1FFF \<and> k \<noteq> 0xE6"

lemma plain_caps_keycode: "plain_word_key k \<Longrightarrow> caps_keycode k tap = Key k"
  by (auto simp: plain_word_key_def caps_keycode_def in_range_def word_le_nat_alt)

text \<open>One press of a plain key in a word, with no modifiers left from the key before.\<close>

lemma word_press_eq:
  assumes "caps_word_active s" "plain_word_key k" "ev_pressed r"
    "(real_mods s OR oneshot_mods s) AND NOT (MOD_MASK_SHIFT OR MOD_BIT 0xE6) = 0"
  shows "process_caps_word env k r s =
    (let (goes_on, s3) = caps_word_press_user k
           (del_weak_mods (if autoshift_state env then NOT (MOD_BIT 0xE1) else 0xFF) (caps_word_reset_idle_timer env s))
     in (True, if goes_on then send_keyboard_report env s3 else caps_word_off env s3))"
proof -
  have "k \<noteq> QK_CAPS_WORD_TOGGLE" using assms(2) by (auto simp: plain_word_key_def QK_CAPS_WORD_TOGGLE_def)
  then show ?thesis
    using assms(1,3,4) plain_caps_keycode [OF assms(2)] by (simp add: process_caps_word_def Let_def)
qed

lemma word_press:
  assumes "caps_word_active s" "plain_word_key k" "ev_pressed r" "weak_mods s = 0"
    "(real_mods s OR oneshot_mods s) AND NOT (MOD_MASK_SHIFT OR MOD_BIT 0xE6) = 0"
  shows "fst (process_caps_word env k r s) \<and>
    (caps_word_active (snd (process_caps_word env k r s)) \<longleftrightarrow> shifted_key k \<or> unshifted_key k) \<and>
    weak_mods (snd (process_caps_word env k r s)) = (if shifted_key k then MOD_BIT 0xE1 else 0)"
proof -
  define s2 where "s2 = del_weak_mods (if autoshift_state env then NOT (MOD_BIT 0xE1) else 0xFF) (caps_word_reset_idle_timer env s)"
  have s2: "caps_word_active s2" "weak_mods s2 = 0"
    using assms(1,4) by (simp_all add: s2_def caps_word_reset_idle_timer_def) (simp add: del_weak_mods_def)
  note p = word_press_eq [OF assms(1-3,5), of env, folded s2_def]
  consider (shifted) "shifted_key k" | (unshifted) "\<not> shifted_key k" "unshifted_key k" | (ends) "\<not> shifted_key k" "\<not> unshifted_key k"
    by blast
  then show ?thesis
  proof cases
    case shifted
    then show ?thesis using s2 by (simp add: p caps_word_press_user_def send_simps) (simp add: add_weak_mods_def)
  next
    case unshifted
    then show ?thesis using s2 by (simp add: p caps_word_press_user_def send_simps)
  next
    case ends
    then show ?thesis using s2 caps_off_view [OF s2(1), of env] by (simp add: p caps_word_press_user_def)
  qed
qed

text \<open>A run of presses of plain keys; each clears the weak modifiers first (\<open>action_exec\<close>), and \<open>rest\<close> is what the
  firmware does with the press afterwards. The result lists the weak modifiers with which each key goes on.\<close>

fun word_run :: "'e cw_env_scheme \<Rightarrow> (u16 \<Rightarrow> ('l::len, 'z) cw \<Rightarrow> ('l, 'z) cw) \<Rightarrow> (u16 \<times> keyrecord_t) list \<Rightarrow> ('l, 'z) cw
    \<Rightarrow> u8 list \<times> ('l, 'z) cw" where
  "word_run env rest [] s = ([], s)"
| "word_run env rest ((k, r) # es) s =
    (let s1 = snd (process_caps_word env k r (clear_weak_mods s));
         (ms, s2) = word_run env rest es (rest k s1)
     in (weak_mods s1 # ms, s2))"

definition word_mods :: "('l::len, 'z) cw \<Rightarrow> bool" where
  "word_mods s \<longleftrightarrow> (real_mods s OR oneshot_mods s) AND NOT (MOD_MASK_SHIFT OR MOD_BIT 0xE6) = 0"

text \<open>What comes after caps word leaves it alone and adds no modifiers that end words.\<close>

definition rest_keeps_word :: "(u16 \<Rightarrow> ('l::len, 'z) cw \<Rightarrow> ('l, 'z) cw) \<Rightarrow> bool" where
  "rest_keeps_word rest \<longleftrightarrow>
    (\<forall>k s. caps_word_active (rest k s) = caps_word_active s \<and> (word_mods s \<longrightarrow> word_mods (rest k s)))"

definition word_key :: "u16 \<Rightarrow> bool" where
  "word_key k \<longleftrightarrow> shifted_key k \<or> unshifted_key k"

lemma caps_real_mods [simp]:
  "real_mods (caps_word_reset_idle_timer env s) = real_mods s" "oneshot_mods (caps_word_reset_idle_timer env s) = oneshot_mods s"
  "real_mods (del_weak_mods m s) = real_mods s" "oneshot_mods (del_weak_mods m s) = oneshot_mods s"
  "real_mods (add_weak_mods m s) = real_mods s" "oneshot_mods (add_weak_mods m s) = oneshot_mods s"
  "real_mods (clear_weak_mods s) = real_mods s" "oneshot_mods (clear_weak_mods s) = oneshot_mods s"
  "weak_mods (clear_weak_mods s) = 0" "caps_word_active (clear_weak_mods s) = caps_word_active (s :: ('l::len, 'z) cw)"
  by (simp_all add: caps_word_reset_idle_timer_def del_weak_mods_def add_weak_mods_def clear_weak_mods_def)

lemma send_oneshot: "oneshot_mods (send_keyboard_report env s) = oneshot_mods s \<or> oneshot_mods (send_keyboard_report env s) = 0"
proof -
  have "oneshot_mods (snd (get_mods_for_report env s)) = oneshot_mods s \<or> oneshot_mods (snd (get_mods_for_report env s)) = 0"
    by (auto simp: get_mods_for_report_def clear_oneshot_mods_def Let_def)
  then show ?thesis
    by (auto simp: send_keyboard_report_def send_6kro_report_def send_nkro_report_def Let_def split: prod.split)
qed

lemma send_word_mods: "word_mods s \<Longrightarrow> word_mods (send_keyboard_report env s)"
proof -
  assume w: "word_mods s"
  have "real_mods s AND NOT (MOD_MASK_SHIFT OR MOD_BIT 0xE6) = 0"
  proof (rule bit_word_eqI)
    fix n
    have "\<not> bit ((real_mods s OR oneshot_mods s) AND NOT (MOD_MASK_SHIFT OR MOD_BIT 0xE6)) n" using w by (simp add: word_mods_def)
    then show "bit (real_mods s AND NOT (MOD_MASK_SHIFT OR MOD_BIT 0xE6)) n = bit (0 :: u8) n" by (auto simp: bit_simps)
  qed
  then show "word_mods (send_keyboard_report env s)"
    using w send_oneshot [of env s] by (auto simp: word_mods_def send_simps)
qed

lemma word_mods_same [simp]:
  "word_mods (caps_word_reset_idle_timer env s) = word_mods s" "word_mods (del_weak_mods m s) = word_mods s"
  "word_mods (add_weak_mods m s) = word_mods s" "word_mods (clear_weak_mods s) = word_mods s"
  "word_mods (s\<lparr>caps_word_active := b\<rparr>) = word_mods s"
  by (simp_all add: word_mods_def)

lemma word_mods_off: "word_mods s \<Longrightarrow> word_mods (caps_word_off env s)"
  by (simp add: caps_word_off_def unregister_weak_mods_def send_word_mods)

lemma word_press_mods:
  assumes "caps_word_active s" "word_mods s" "plain_word_key k" "ev_pressed r"
  shows "word_mods (snd (process_caps_word env k r s))"
proof -
  note p = word_press_eq [OF assms(1,3,4) assms(2) [unfolded word_mods_def], of env]
  show ?thesis
    using assms(2) by (cases "shifted_key k"; cases "unshifted_key k")
      (simp_all add: p caps_word_press_user_def send_word_mods word_mods_off)
qed

lemma word_over:
  assumes "rest_keeps_word rest"
  shows "\<not> caps_word_active s \<Longrightarrow> \<forall>(k, r) \<in> set es. plain_word_key k \<and> ev_pressed r \<Longrightarrow>
    fst (word_run env rest es s) = replicate (length es) 0 \<and> \<not> caps_word_active (snd (word_run env rest es s))"
proof (induction es arbitrary: s)
  case (Cons e es)
  obtain k r where e: "e = (k, r)" by (cases e)
  have k: "k \<noteq> QK_CAPS_WORD_TOGGLE" using Cons.prems(2) by (auto simp: e plain_word_key_def QK_CAPS_WORD_TOGGLE_def)
  then have "process_caps_word env k r (clear_weak_mods s) = (True, clear_weak_mods s)"
    using Cons.prems(1) by (simp add: process_caps_word_def Let_def)
  moreover have "\<not> caps_word_active (rest k (clear_weak_mods s))"
    using assms Cons.prems(1) by (simp add: rest_keeps_word_def)
  ultimately show ?case using Cons.IH [of "rest k (clear_weak_mods s)"] Cons.prems(2)
    by (simp add: e Let_def case_prod_beta)
qed simp

lemma word_run_word:
  assumes "rest_keeps_word rest"
  shows "caps_word_active s \<Longrightarrow> word_mods s \<Longrightarrow> \<forall>(k, r) \<in> set es. plain_word_key k \<and> ev_pressed r \<Longrightarrow>
    fst (word_run env rest es s) = map (\<lambda>k. if shifted_key k then MOD_BIT 0xE1 else 0) (takeWhile word_key (map fst es)) @
      replicate (length (dropWhile word_key (map fst es))) 0 \<and>
    (caps_word_active (snd (word_run env rest es s)) \<longleftrightarrow> (\<forall>k \<in> set (map fst es). word_key k))"
proof (induction es arbitrary: s)
  case (Cons e es)
  obtain k r where e: "e = (k, r)" by (cases e)
  define s1 where "s1 = snd (process_caps_word env k r (clear_weak_mods s))"
  have plain: "plain_word_key k" "ev_pressed r" using Cons.prems(3) by (simp_all add: e)
  have mods: "word_mods (clear_weak_mods s)" using Cons.prems(2) by (simp add: word_mods_def)
  have s1: "caps_word_active s1 \<longleftrightarrow> word_key k" "weak_mods s1 = (if shifted_key k then MOD_BIT 0xE1 else 0)" "word_mods s1"
    using word_press [of "clear_weak_mods s" k r env] Cons.prems(1) plain mods word_press_mods [of "clear_weak_mods s" k r env]
    by (simp_all add: s1_def word_key_def word_mods_def)
  have after: "caps_word_active (rest k s1) \<longleftrightarrow> word_key k" "word_mods (rest k s1)"
    using assms s1 by (simp_all add: rest_keeps_word_def)
  have run: "word_run env rest (e # es) s = (weak_mods s1 # fst (word_run env rest es (rest k s1)), snd (word_run env rest es (rest k s1)))"
    by (simp add: e s1_def Let_def case_prod_beta)
  show ?case
  proof (cases "word_key k")
    case True
    then show ?thesis using Cons.IH [of "rest k s1"] after s1(2) Cons.prems(3) unfolding run by (simp add: e)
  next
    case False
    then have "fst (word_run env rest es (rest k s1)) = replicate (length es) 0" "\<not> caps_word_active (snd (word_run env rest es (rest k s1)))"
      using word_over [OF assms, of "rest k s1" es env] after Cons.prems(3) by simp_all
    then show ?thesis using False s1(2) unfolding run by (simp add: e word_key_def)
  qed
qed simp

text \<open>Caps word lasts exactly one word: the letters and minus up to the first key that does not belong to a
  word go on with left shift and its other keys without; that key ends the word, and from it on no key is
  shifted; if all keys belong to the word, it is still on.\<close>

lemma caps_word_lasts_one_word:
  assumes "rest_keeps_word rest" "caps_word_active s" "word_mods s" "\<forall>(k, r) \<in> set es. plain_word_key k \<and> ev_pressed r"
    "word_run env rest es s = (ms, s')" "ks = map fst es"
  shows "ms = map (\<lambda>k. if shifted_key k then MOD_BIT 0xE1 else 0) (takeWhile word_key ks) @
      replicate (length (dropWhile word_key ks)) 0 \<and>
    (caps_word_active s' \<longleftrightarrow> list_all word_key ks)"
  using word_run_word [OF assms(1-4), of env] by (simp add: assms(5,6) list_all_iff)

section \<open>The word "a-1 b"\<close>

definition caps_example_env :: cw_env where
  "caps_example_env = act_env.extend plain_env \<lparr>autoshift_state = False\<rparr>"

definition caps_example :: "8 word cws" where
  "caps_example = caps_word_on caps_example_env (act.extend (kbd_start 0 fresh_layers) \<lparr>caps_word_active = False, caps_idle_timer = 0\<rparr>)"

lemma caps_word_lasts_one_word_witness:
  "fst (word_run caps_example_env (\<lambda>k s. s) [(4, key_record 0 True), (0x2D, key_record 1 True), (0x1E, key_record 2 True),
      (0x2C, key_record 3 True), (5, key_record 4 True)] caps_example) = [2, 2, 0, 0, 0]"
proof -
  let ?es = "[(4, key_record 0 True), (0x2D, key_record 1 True), (0x1E, key_record 2 True), (0x2C, key_record 3 True),
    (5, key_record 4 True)] :: (u16 \<times> keyrecord_t) list"
  have rest: "rest_keeps_word (\<lambda>k s. s :: 8 word cws)" by (simp add: rest_keeps_word_def)
  have s: "caps_word_active caps_example" "word_mods caps_example"
    by (simp_all add: caps_example_def caps_word_on_def act.defs word_mods_def)
      (simp add: clear_mods_def clear_oneshot_mods_def kbd_start_def)
  have es: "\<forall>(k, r) \<in> set ?es. plain_word_key k \<and> ev_pressed r" by (simp add: plain_word_key_def key_record_def)
  obtain ms s' where r: "word_run caps_example_env (\<lambda>k s. s) ?es caps_example = (ms, s')" by fastforce
  have "ms = map (\<lambda>k. if shifted_key k then MOD_BIT 0xE1 else 0) (takeWhile word_key (map fst ?es)) @
      replicate (length (dropWhile word_key (map fst ?es))) 0"
    using caps_word_lasts_one_word [OF rest s es r refl] by blast
  also have "\<dots> = [2, 2, 0, 0, 0]" by code_simp
  finally show ?thesis unfolding r fst_conv .
qed

end
